(* ===== verification/DDS_Prelude.thy ===== *)
theory DDS_Prelude
  imports Main "HOL-Library.Word"
begin

text \<open>
  Shared vocabulary of the development: the names of the machine types the sources use,
  the collections of simplification rules the component theories fill, and the generic facts on
  words, lists and sums that more than one component needs.

  CORBA and ACE types are read as follows: an octet is an 8-bit word, \<open>CORBA::ULong\<close>,
  \<open>CORBA::Long\<close>, \<open>ACE_UINT32\<close> and \<open>ACE_INT32\<close> are 32-bit words where a
  component relies on their width; the signed ones are read with \<^term>\<open>sint\<close>. 64-bit values
  that are only compared and moved by one (\<open>SequenceNumber::Value\<close>) are integers: leaving the
  64-bit range is undefined behaviour in the sources.
\<close>

type_synonym octet = "8 word"
type_synonym ulong = "32 word"

named_theorems sn_simps \<open>sequence numbers read as integers\<close>
named_theorems qos_defs \<open>definitions of the QoS policy operators\<close>
named_theorems own_defs \<open>definitions of the ownership manager's operations\<close>

section \<open>Words read as integers\<close>

lemma uint_inc:
  fixes w :: "'a::len word"
  assumes "w \<noteq> - 1"
  shows "uint (w + 1) = uint w + 1"
proof -
  from assms have "1 + w \<noteq> 0" by (metis add.commute eq_neg_iff_add_eq_0)
  then have "unat (1 + w) = Suc (unat w)" by (rule unatSuc)
  then have "unat (w + 1) = Suc (unat w)" by (simp only: add.commute)
  then show ?thesis by (metis of_nat_Suc of_nat_unat add.commute)
qed

lemma uint_dec: "w \<noteq> 0 \<Longrightarrow> uint (w - 1) = uint w - 1" for w :: "'a::len word"
  using uint_inc [of "w - 1"] by simp

lemma uint32_bounds: "0 \<le> uint w" "uint w < 4294967296" for w :: ulong
  using uint_lt2p [of w] by simp_all

lemma sint32_eq:
  "sint w = (if uint w < 2147483648 then uint w else uint w - 4294967296)" for w :: ulong
proof -
  have eq: "sint w = (uint w + 2147483648) mod 4294967296 - 2147483648"
    by (simp add: sint_uint signed_take_bit_eq_take_bit_shift take_bit_eq_mod)
  have "(uint w + 2147483648) mod 4294967296 = (uint w - 2147483648) mod 4294967296"
    using minus_mod_self2 [of "uint w + 2147483648" "4294967296 :: int"] by simp
  then show ?thesis
    using eq uint32_bounds [of w] by (cases "uint w < 2147483648") simp_all
qed

lemma sint32_bounds: "- 2147483648 \<le> sint w" "sint w < 2147483648" for w :: ulong
  using uint32_bounds [of w] unfolding sint32_eq by (simp_all only: split: if_split) linarith+

lemma uint32_eq_iff: "uint w = uint v \<longleftrightarrow> w = v" for w v :: ulong
  by (rule word_eq_iff_unsigned [symmetric])

lemma sint32_eq_iff: "sint w = sint v \<longleftrightarrow> w = v" for w v :: ulong
proof
  assume "sint w = sint v"
  then have "uint w = uint v"
    using uint32_bounds [of w] uint32_bounds [of v] unfolding sint32_eq
    by (simp only: split: if_splits)
  then show "w = v" by (simp add: uint32_eq_iff)
qed simp

lemma sint32_inc: "sint (w + 1) = sint w + 1" if "w \<noteq> 2147483647" for w :: ulong
proof (cases "w = - 1")
  case False
  have "uint w \<noteq> 2147483647" using that by (metis word_of_int_numeral word_of_int_uint)
  then show ?thesis using False by (simp add: sint32_eq uint_inc)
qed simp

lemma sint32_dec: "sint (w - 1) = sint w - 1" if "w \<noteq> 2147483648" for w :: ulong
proof -
  have "w - 1 \<noteq> 2147483647" using that by (simp add: diff_eq_eq)
  then show ?thesis using sint32_inc [of "w - 1"] by simp
qed

section \<open>Sums as results\<close>

text \<open>The value of a computation that did not fail.\<close>

definition succeeds :: "'e + 'a \<Rightarrow> ('a \<Rightarrow> bool) \<Rightarrow> bool" where
  "succeeds r P \<longleftrightarrow> (case r of Inl _ \<Rightarrow> False | Inr a \<Rightarrow> P a)"

lemma succeeds_simps [simp]:
  "succeeds (Inl e) P \<longleftrightarrow> False"
  "succeeds (Inr a) P \<longleftrightarrow> P a"
  by (simp_all add: succeeds_def)

lemma succeedsE:
  assumes "succeeds r P"
  obtains a where "r = Inr a" "P a"
  using assms by (cases r) auto

section \<open>Lists\<close>

lemma takeWhile_take: "takeWhile P xs = take (length (takeWhile P xs)) xs"
  by (rule takeWhile_eq_take)

lemma nth_length_takeWhile_not:
  "length (takeWhile P xs) < length xs \<Longrightarrow> \<not> P (xs ! length (takeWhile P xs))"
  by (rule nth_length_takeWhile)

lemma takeWhile_prefix_holds:
  "i < length (takeWhile P xs) \<Longrightarrow> P (xs ! i)"
  by (metis nth_mem set_takeWhileD takeWhile_nth)

end
