(* ===== verification/Sequence_Number.thy ===== *)
theory Sequence_Number
  imports DDS_Prelude
begin

text \<open>
  Model of \<open>OpenDDS::DCPS::SequenceNumber\<close> (\<open>src/dds/DCPS/Definitions.h\<close>): a signed high and an
  unsigned low half of 32 bits each. The comparison operators are the instance of the library's
  linear order; the lemmas of the collection \<open>sn_simps\<close> translate every operation to integers
  through \<open>getValue\<close>.
\<close>

section \<open>The class\<close>

datatype sequence_number = SequenceNumber (sn_high: ulong) (sn_low: ulong)

definition LOW_BASE :: int where "LOW_BASE = 4294967296"
definition MIN_VALUE :: int where "MIN_VALUE = 1"
definition MAX_VALUE :: int where "MAX_VALUE = 9223372036854775807"

definition getValue :: "sequence_number \<Rightarrow> int" where
  "getValue s = LOW_BASE * sint (sn_high s) + uint (sn_low s)"

text \<open>\<open>setValue(Value)\<close>: both halves are recomputed, so the new state is a function of the value.
  The value is at least 1 when it is split, where C++ division agrees with \<open>div\<close> and \<open>mod\<close>.\<close>

definition setValue :: "int \<Rightarrow> sequence_number" where
  "setValue v =
     (let v = (if v < MIN_VALUE then MIN_VALUE else v)
      in SequenceNumber (word_of_int (v div LOW_BASE)) (word_of_int (v mod LOW_BASE)))"

definition setValue_parts :: "ulong \<Rightarrow> ulong \<Rightarrow> sequence_number" where
  "setValue_parts h l =
     (let s = SequenceNumber h l in if getValue s < MIN_VALUE then setValue MIN_VALUE else s)"

abbreviation SN :: "int \<Rightarrow> sequence_number" where "SN \<equiv> setValue"

definition sn_incr :: "sequence_number \<Rightarrow> sequence_number" where
  "sn_incr s =
     (if sn_low s = 4294967295
      then (if sn_high s = 2147483647 then SequenceNumber 0 1
            else SequenceNumber (sn_high s + 1) 0)
      else SequenceNumber (sn_high s) (sn_low s + 1))"

text \<open>Post-increment returns the old value and the new state.\<close>

definition sn_post_incr :: "sequence_number \<Rightarrow> sequence_number \<times> sequence_number" where
  "sn_post_incr s = (s, sn_incr s)"

definition previous :: "sequence_number \<Rightarrow> sequence_number" where
  "previous s =
     (if sn_low s = 1 \<and> sn_high s = 0 then SequenceNumber 2147483647 4294967295
      else if sn_low s = 0 then SequenceNumber (sn_high s - 1) 4294967295
      else SequenceNumber (sn_high s) (sn_low s - 1))"

definition SEQUENCENUMBER_UNKNOWN :: sequence_number where
  "SEQUENCENUMBER_UNKNOWN = SequenceNumber (- 1) 0"

definition ZERO :: sequence_number where
  "ZERO = SequenceNumber 0 0"

definition sn_add :: "sequence_number \<Rightarrow> int \<Rightarrow> sequence_number" where
  "sn_add s r = setValue (getValue s + r)"

section \<open>The comparison operators as a linear order\<close>

lemma getValue_bounds: "- 9223372036854775808 \<le> getValue s" "getValue s \<le> MAX_VALUE"
  using sint32_bounds [of "sn_high s"] uint32_bounds [of "sn_low s"]
  unfolding getValue_def LOW_BASE_def MAX_VALUE_def by linarith+

definition sn_less :: "sequence_number \<Rightarrow> sequence_number \<Rightarrow> bool" where
  "sn_less s t \<longleftrightarrow> sint (sn_high s) < sint (sn_high t)
     \<or> (sint (sn_high s) = sint (sn_high t) \<and> uint (sn_low s) < uint (sn_low t))"

lemma sn_less_getValue: "sn_less s t \<longleftrightarrow> getValue s < getValue t"
  using uint32_bounds [of "sn_low s"] uint32_bounds [of "sn_low t"]
  unfolding sn_less_def getValue_def LOW_BASE_def by linarith

lemma getValue_eq_iff: "getValue s = getValue t \<longleftrightarrow> s = t"
proof
  assume eq: "getValue s = getValue t"
  then have "\<not> sn_less s t" "\<not> sn_less t s" by (simp_all add: sn_less_getValue)
  then have "sint (sn_high s) = sint (sn_high t)" "uint (sn_low s) = uint (sn_low t)"
    by (auto simp: sn_less_def)
  then show "s = t" by (cases s; cases t) (simp add: sint32_eq_iff uint32_eq_iff)
qed simp

instantiation sequence_number :: linorder
begin

definition less_sequence_number :: "sequence_number \<Rightarrow> sequence_number \<Rightarrow> bool" where
  "less_sequence_number = sn_less"

definition less_eq_sequence_number :: "sequence_number \<Rightarrow> sequence_number \<Rightarrow> bool" where
  "less_eq_sequence_number s t \<longleftrightarrow> \<not> sn_less t s"

instance
  by standard
    (auto simp: less_sequence_number_def less_eq_sequence_number_def sn_less_getValue
      simp flip: getValue_eq_iff)

end

lemma sn_less_iff [sn_simps]: "s < t \<longleftrightarrow> getValue s < getValue t"
  by (simp add: less_sequence_number_def sn_less_getValue)

lemma sn_le_iff [sn_simps]: "s \<le> t \<longleftrightarrow> getValue s \<le> getValue t"
  by (auto simp: less_eq_sequence_number_def sn_less_getValue)

section \<open>Operations read as integers\<close>

lemma getValue_setValue:
  assumes "v \<le> MAX_VALUE"
  shows "getValue (setValue v) = max 1 v"
proof -
  define w where "w = max 1 v"
  have w: "1 \<le> w" "w \<le> MAX_VALUE" using assms by (auto simp: w_def MAX_VALUE_def)
  have s: "setValue v = SequenceNumber (word_of_int (w div LOW_BASE)) (word_of_int (w mod LOW_BASE))"
    by (simp add: setValue_def w_def MIN_VALUE_def Let_def max_def)
  have d: "0 \<le> w div 4294967296" "w div 4294967296 < 2147483648"
    using w by (simp_all add: MAX_VALUE_def)
  have "uint (word_of_int (w div 4294967296) :: ulong) = w div 4294967296"
    using d by (simp add: uint_word_of_int mod_pos_pos_trivial)
  then have "sint (word_of_int (w div 4294967296) :: ulong) = w div 4294967296"
    using d by (simp add: sint32_eq)
  moreover have "uint (word_of_int (w mod 4294967296) :: ulong) = w mod 4294967296"
    by (simp add: uint_word_of_int)
  ultimately show ?thesis
    unfolding s getValue_def by (simp add: LOW_BASE_def w_def)
qed

lemma getValue_SN [sn_simps]: "1 \<le> v \<Longrightarrow> v \<le> MAX_VALUE \<Longrightarrow> getValue (SN v) = v"
  by (simp add: getValue_setValue)

lemma setValue_getValue: "1 \<le> getValue s \<Longrightarrow> setValue (getValue s) = s"
  using getValue_bounds [of s] by (simp add: getValue_setValue flip: getValue_eq_iff)

lemma getValue_ZERO [sn_simps]: "getValue ZERO = 0"
  by (simp add: getValue_def ZERO_def)

lemma getValue_UNKNOWN [sn_simps]: "getValue SEQUENCENUMBER_UNKNOWN = - 4294967296"
  by (simp add: getValue_def SEQUENCENUMBER_UNKNOWN_def LOW_BASE_def)

lemma getValue_max_iff:
  "getValue s = MAX_VALUE \<longleftrightarrow> sn_high s = 2147483647 \<and> sn_low s = 4294967295"
  using getValue_eq_iff [of s "SequenceNumber 2147483647 4294967295"]
  by (cases s) (simp add: getValue_def LOW_BASE_def MAX_VALUE_def)

lemma getValue_one_iff: "getValue s = 1 \<longleftrightarrow> sn_high s = 0 \<and> sn_low s = 1"
  using getValue_eq_iff [of s "SequenceNumber 0 1"] by (cases s) (simp add: getValue_def)

lemma getValue_incr:
  "getValue (sn_incr s) = (if getValue s = MAX_VALUE then 1 else getValue s + 1)"
proof (cases "sn_low s = 4294967295")
  case True
  then show ?thesis
    by (auto simp: getValue_max_iff sn_incr_def) (auto simp: getValue_def LOW_BASE_def sint32_inc)
next
  case False
  moreover have "(4294967295 :: ulong) = - 1" by simp
  ultimately have "uint (sn_low s + 1) = uint (sn_low s) + 1" by (intro uint_inc) simp
  then show ?thesis using False by (simp add: getValue_max_iff) (simp add: sn_incr_def getValue_def)
qed

lemma getValue_previous:
  assumes "- 9223372036854775808 < getValue s"
  shows "getValue (previous s) = (if getValue s = 1 then MAX_VALUE else getValue s - 1)"
proof (cases "sn_low s = 0")
  case True
  have "sn_high s \<noteq> 2147483648"
    using assms True by (auto simp: getValue_def LOW_BASE_def)
  then show ?thesis using True
    by (simp add: getValue_one_iff) (simp add: previous_def getValue_def LOW_BASE_def sint32_dec)
next
  case False
  then have "uint (sn_low s - 1) = uint (sn_low s) - 1" by (rule uint_dec)
  then show ?thesis using False
    by (auto simp: getValue_one_iff previous_def) (auto simp: getValue_def LOW_BASE_def MAX_VALUE_def)
qed

text \<open>The forms the other components use: away from the two ends nothing wraps.\<close>

lemma getValue_incr_lt [sn_simps]: "getValue s < MAX_VALUE \<Longrightarrow> getValue (sn_incr s) = getValue s + 1"
  by (simp add: getValue_incr)

lemma getValue_previous_gt [sn_simps]: "1 < getValue s \<Longrightarrow> getValue (previous s) = getValue s - 1"
  by (simp add: getValue_previous)

lemma getValue_add [sn_simps]:
  "1 \<le> getValue s + r \<Longrightarrow> getValue s + r \<le> MAX_VALUE \<Longrightarrow> getValue (sn_add s r) = getValue s + r"
  by (simp add: sn_add_def getValue_setValue)

section \<open>Properties\<close>

text \<open>
  On the positive sequence numbers, from 1 to \<open>MAX_VALUE\<close>, increment and \<open>previous\<close> are
  inverse to each other and stay positive, the largest number being followed by 1; and
  \<open>setValue\<close> rebuilds a number from its value.
\<close>

theorem incr_previous_inverse:
  assumes "1 \<le> getValue s"
  shows "previous (sn_incr s) = s \<and> sn_incr (previous s) = s
    \<and> 1 \<le> getValue (sn_incr s) \<and> 1 \<le> getValue (previous s) \<and> setValue (getValue s) = s
    \<and> getValue (sn_incr s) = (if getValue s = MAX_VALUE then 1 else getValue s + 1)"
proof -
  have "getValue (previous (sn_incr s)) = getValue s" "getValue (sn_incr (previous s)) = getValue s"
    using assms getValue_bounds [of s] by (auto simp: getValue_previous getValue_incr MAX_VALUE_def)
  then have "previous (sn_incr s) = s" "sn_incr (previous s) = s" by (simp_all add: getValue_eq_iff)
  moreover have "1 \<le> getValue (sn_incr s)" "1 \<le> getValue (previous s)"
    using assms by (simp_all add: getValue_incr getValue_previous MAX_VALUE_def)
  ultimately show ?thesis using assms by (simp add: setValue_getValue getValue_incr)
qed

theorem incr_previous_inverse_witness:
  "1 \<le> getValue (SN 4294967295) \<and> previous (sn_incr (SN 4294967295)) = SN 4294967295"
  using incr_previous_inverse [of "SN 4294967295"] by (simp add: getValue_SN MAX_VALUE_def)

end
