(* ===== verification/Disjoint_Sequence.thy ===== *)
theory Disjoint_Sequence
  imports Sequence_Number
begin

text \<open>
  Model of \<open>OpenDDS::DCPS::DisjointSequence\<close> (\<open>src/dds/DCPS/DisjointSequence.h\<close>, \<open>.inl\<close>,
  \<open>.cpp\<close>), the set of sequence numbers behind every reliable protocol of the transports. The
  member \<open>sequences_\<close>, a \<open>std::set\<close> of ranges ordered by their upper ends, is the list of its
  elements in iteration order; an iterator is an index into it and \<open>end()\<close> is its length.
\<close>

section \<open>The range set and its iterators\<close>

type_synonym sequence_range = "sequence_number \<times> sequence_number"
type_synonym range_set = "sequence_range list"

text \<open>
  \<open>range_invalid\<close> is the \<open>std::runtime_error\<close> of \<open>validate\<close>; \<open>past_the_end\<close> stands for reading
  through an iterator that is \<open>end()\<close> and \<open>out_of_bounds\<close> for reading past the end of an array,
  both undefined behaviour.
\<close>

datatype ds_error = range_invalid | past_the_end | out_of_bounds

text \<open>\<open>SequenceRange_LessThan\<close>: only the upper ends are compared.\<close>

definition SequenceRange_LessThan :: "sequence_range \<Rightarrow> sequence_range \<Rightarrow> bool" where
  "SequenceRange_LessThan lhs rhs \<longleftrightarrow> snd lhs < snd rhs"

text \<open>The operations of \<open>std::set\<close> the class uses.\<close>

definition lower_bound :: "range_set \<Rightarrow> sequence_range \<Rightarrow> nat" where
  "lower_bound rs r = length (takeWhile (\<lambda>x. SequenceRange_LessThan x r) rs)"

fun set_insert :: "sequence_range \<Rightarrow> range_set \<Rightarrow> range_set" where
  "set_insert r [] = [r]"
| "set_insert r (x # xs) =
     (if SequenceRange_LessThan r x then r # x # xs
      else if SequenceRange_LessThan x r then x # set_insert r xs
      else x # xs)"

definition set_erase :: "range_set \<Rightarrow> nat \<Rightarrow> nat \<Rightarrow> range_set" where
  "set_erase rs i j = take i rs @ drop j rs"

section \<open>The class\<close>

definition ds_empty :: range_set where "ds_empty = []"

definition ds_reset :: "range_set \<Rightarrow> range_set" where "ds_reset rs = []"

definition ds_is_empty :: "range_set \<Rightarrow> bool" where "ds_is_empty rs \<longleftrightarrow> rs = []"

text \<open>\<open>low()\<close> and \<open>high()\<close> have the precondition that the set is not empty.\<close>

definition ds_low :: "range_set \<Rightarrow> ds_error + sequence_number" where
  "ds_low rs = (case rs of [] \<Rightarrow> Inl past_the_end | r # _ \<Rightarrow> Inr (fst r))"

definition ds_high :: "range_set \<Rightarrow> ds_error + sequence_number" where
  "ds_high rs = (if rs = [] then Inl past_the_end else Inr (snd (last rs)))"

definition cumulative_ack :: "range_set \<Rightarrow> sequence_number" where
  "cumulative_ack rs = (case rs of [] \<Rightarrow> SEQUENCENUMBER_UNKNOWN | r # _ \<Rightarrow> snd r)"

definition last_ack :: "range_set \<Rightarrow> sequence_number" where
  "last_ack rs = (if rs = [] then SEQUENCENUMBER_UNKNOWN else fst (last rs))"

definition disjoint_seq :: "range_set \<Rightarrow> bool" where
  "disjoint_seq rs \<longleftrightarrow> length rs > 1"

definition contains :: "range_set \<Rightarrow> sequence_number \<Rightarrow> bool" where
  "contains rs v =
     (let i = lower_bound rs (SN 0, v) in i < length rs \<and> fst (rs ! i) \<le> v)"

definition validate :: "sequence_range \<Rightarrow> ds_error option" where
  "validate r = (if snd r < fst r then Some range_invalid else None)"

text \<open>
  The computation of the gaps inside \<open>insert_i\<close>: the loop moves the iterator \<open>i\<close> up to
  \<open>range_above\<close>; when it starts beyond \<open>range_above\<close> it runs into \<open>end()\<close>.
\<close>

function gap_loop ::
    "range_set \<Rightarrow> sequence_range \<Rightarrow> nat \<Rightarrow> nat \<Rightarrow> sequence_number \<Rightarrow> sequence_range list
     \<Rightarrow> ds_error + (sequence_number \<times> sequence_range list)" where
  "gap_loop rs r range_above i last_gap gaps =
     (if i = range_above then Inr (last_gap, gaps)
      else if length rs \<le> i then Inl past_the_end
      else gap_loop rs r range_above (Suc i) (snd (rs ! i))
             (gaps @ [(sn_incr last_gap,
                       SN (min (getValue (previous (fst (rs ! i)))) (getValue (snd r))))]))"
  by pat_completeness auto
termination
  by (relation "measure (\<lambda>(rs, r, range_above, i, last_gap, gaps). length rs - i)") auto

declare gap_loop.simps [simp del]

definition insert_gaps ::
    "range_set \<Rightarrow> sequence_range \<Rightarrow> nat \<Rightarrow> nat \<Rightarrow> sequence_range list
     \<Rightarrow> ds_error + sequence_range list" where
  "insert_gaps rs r range_below range_above gaps =
     (let g = (if fst r < snd (rs ! range_below)
               then gaps @ [(fst r, previous (snd (rs ! range_below)))] else gaps)
      in case gap_loop rs r range_above (Suc range_below) (snd (rs ! range_below)) g of
           Inl e \<Rightarrow> Inl e
         | Inr (last_gap, g) \<Rightarrow>
             Inr (if last_gap < snd r then g @ [(sn_incr last_gap, snd r)] else g))"

text \<open>
  \<open>insert_i(range, gaps)\<close>: the pointer \<open>gaps\<close> is \<open>None\<close> for a null pointer. The result is the
  returned flag, the new set and the vector behind the pointer.
\<close>

definition insert_i ::
    "range_set \<Rightarrow> sequence_range \<Rightarrow> sequence_range list option
     \<Rightarrow> ds_error + (bool \<times> range_set \<times> sequence_range list option)" where
  "insert_i rs r gaps =
     (case validate r of Some e \<Rightarrow> Inl e | None \<Rightarrow>
      let range_above = lower_bound rs r in
      if range_above < length rs \<and> fst (rs ! range_above) \<le> fst r then Inr (False, rs, gaps)
      else
        let overlaps = (range_above < length rs \<and> fst (rs ! range_above) \<le> sn_incr (snd r));
            new_second = (if overlaps then snd (rs ! range_above) else snd r);
            range_above = (if overlaps then Suc range_above else range_above);
            prev = getValue (fst r) - 1;
            range_below = lower_bound rs (SN 1, if prev > 0 then SN prev else ZERO)
        in
        if range_below < length rs then
          (let new_first = (if fst (rs ! range_below) < fst r then fst (rs ! range_below) else fst r);
               rs' = set_insert (new_first, new_second) (set_erase rs range_below range_above)
           in case gaps of
                None \<Rightarrow> Inr (True, rs', None)
              | Some g \<Rightarrow> (case insert_gaps rs r range_below range_above g of
                    Inl e \<Rightarrow> Inl e
                  | Inr g' \<Rightarrow> Inr (True, rs', Some g')))
        else Inr (True, set_insert (fst r, new_second) rs, gaps))"

text \<open>The three public forms of \<open>insert\<close> on numbers and ranges.\<close>

definition insert_value :: "range_set \<Rightarrow> sequence_number \<Rightarrow> ds_error + (bool \<times> range_set)" where
  "insert_value rs v = map_sum id (\<lambda>(b, rs', _). (b, rs')) (insert_i rs (v, v) None)"

definition insert_range :: "range_set \<Rightarrow> sequence_range \<Rightarrow> ds_error + (bool \<times> range_set)" where
  "insert_range rs r = map_sum id (\<lambda>(b, rs', _). (b, rs')) (insert_i rs r None)"

definition insert_range_gaps ::
    "range_set \<Rightarrow> sequence_range \<Rightarrow> sequence_range list
     \<Rightarrow> ds_error + (bool \<times> range_set \<times> sequence_range list option)" where
  "insert_range_gaps rs r gaps = insert_i rs r (Some gaps)"

fun missing_loop :: "range_set \<Rightarrow> sequence_range list" where
  "missing_loop (r # s # rs) =
     (let missing_low = sn_incr (snd r); missing_high = previous (fst s) in
      (if missing_low \<le> missing_high then [(missing_low, missing_high)] else [])
      @ missing_loop (s # rs))"
| "missing_loop rs = []"

definition missing_sequence_ranges :: "range_set \<Rightarrow> sequence_range list" where
  "missing_sequence_ranges rs = (if \<not> disjoint_seq rs then [] else missing_loop rs)"

definition present_sequence_ranges :: "range_set \<Rightarrow> sequence_range list" where
  "present_sequence_ranges rs = rs"

section \<open>What a range set stands for\<close>

abbreviation lo :: "sequence_range \<Rightarrow> int" where "lo r \<equiv> getValue (fst r)"
abbreviation hi :: "sequence_range \<Rightarrow> int" where "hi r \<equiv> getValue (snd r)"

definition range_ints :: "sequence_range \<Rightarrow> int set" where
  "range_ints r = {lo r .. hi r}"

definition ds_ints :: "range_set \<Rightarrow> int set" where
  "ds_ints rs = (\<Union>r \<in> set rs. range_ints r)"

text \<open>
  The class invariant: every range is ascending and starts at 0 or above, and between two
  neighbours at least one number is missing, so that ranges are maximal.
\<close>

definition apart :: "sequence_range \<Rightarrow> sequence_range \<Rightarrow> bool" where
  "apart r s \<longleftrightarrow> hi r + 1 < lo s"

definition ds_inv :: "range_set \<Rightarrow> bool" where
  "ds_inv rs \<longleftrightarrow> sorted_wrt apart rs \<and> (\<forall>r \<in> set rs. 0 \<le> lo r \<and> lo r \<le> hi r)"

lemma ds_ints_simps [simp]:
  "ds_ints [] = {}"
  "ds_ints (r # rs) = range_ints r \<union> ds_ints rs"
  "ds_ints (rs @ rs') = ds_ints rs \<union> ds_ints rs'"
  by (auto simp: ds_ints_def)

lemma ds_inv_simps [simp]:
  "ds_inv []"
  "ds_inv (r # rs) \<longleftrightarrow> 0 \<le> lo r \<and> lo r \<le> hi r \<and> (\<forall>s \<in> set rs. apart r s) \<and> ds_inv rs"
  by (auto simp: ds_inv_def)

lemma ds_inv_append [simp]:
  "ds_inv (rs @ rs') \<longleftrightarrow> ds_inv rs \<and> ds_inv rs' \<and> (\<forall>r \<in> set rs. \<forall>s \<in> set rs'. apart r s)"
  by (auto simp: ds_inv_def sorted_wrt_append)

lemma ds_inv_nth_apart: "ds_inv rs \<Longrightarrow> i < j \<Longrightarrow> j < length rs \<Longrightarrow> hi (rs ! i) + 1 < lo (rs ! j)"
  by (auto simp: ds_inv_def apart_def dest: sorted_wrt_nth_less)

lemma ds_inv_nth: "ds_inv rs \<Longrightarrow> i < length rs \<Longrightarrow> 0 \<le> lo (rs ! i) \<and> lo (rs ! i) \<le> hi (rs ! i)"
  by (simp add: ds_inv_def)

section \<open>Merging a range into a range set\<close>

text \<open>
  The common core of \<open>insert_i\<close> and \<open>insert_bitmap_range\<close>: the ranges are split into those
  strictly below the new range, those it touches or overlaps and those strictly above; the middle
  ones and the new range are replaced by their hull.
\<close>

definition hull_first :: "sequence_range \<Rightarrow> range_set \<Rightarrow> sequence_number" where
  "hull_first r M = (if M = [] then fst r else min (fst (hd M)) (fst r))"

definition hull_second :: "sequence_range \<Rightarrow> range_set \<Rightarrow> sequence_number" where
  "hull_second r M = (if M = [] then snd r else max (snd (last M)) (snd r))"

definition touches :: "sequence_range \<Rightarrow> sequence_range \<Rightarrow> bool" where
  "touches r s \<longleftrightarrow> lo r \<le> hi s + 1 \<and> lo s \<le> hi r + 1"

lemma getValue_min: "getValue (min s t) = min (getValue s) (getValue t)"
  by (auto simp: min_def sn_le_iff)

lemma getValue_max: "getValue (max s t) = max (getValue s) (getValue t)"
  by (auto simp: max_def sn_le_iff)

lemma ds_inv_hd_last:
  assumes "ds_inv M" and "s \<in> set M"
  shows "lo (hd M) \<le> lo s" "hi s \<le> hi (last M)"
proof -
  from assms(2) obtain i where i: "i < length M" "s = M ! i" by (metis in_set_conv_nth)
  then have ne: "M \<noteq> []" by auto
  show "lo (hd M) \<le> lo s"
    using ds_inv_nth_apart [OF assms(1), of 0 i] ds_inv_nth [OF assms(1), of 0] i ne
    by (cases i) (auto simp: hd_conv_nth)
  have "i = length M - 1 \<or> i < length M - 1" using i by linarith
  then show "hi s \<le> hi (last M)"
    using ds_inv_nth_apart [OF assms(1), of i "length M - 1"]
      ds_inv_nth [OF assms(1), of "length M - 1"] i ne
    by (auto simp: last_conv_nth)
qed

lemma hull_bounds:
  assumes "lo r \<le> hi r"
  shows "getValue (hull_first r M) \<le> lo r" "hi r \<le> getValue (hull_second r M)"
  by (auto simp: hull_first_def hull_second_def getValue_min getValue_max)

lemma hull_ints:
  assumes "ds_inv M" and "lo r \<le> hi r" and "\<And>s. s \<in> set M \<Longrightarrow> touches r s"
  shows "{getValue (hull_first r M) .. getValue (hull_second r M)} = ds_ints M \<union> range_ints r"
proof (cases "M = []")
  case True
  then show ?thesis by (simp add: hull_first_def hull_second_def range_ints_def)
next
  case False
  then have h: "touches r (hd M)" "touches r (last M)" "hd M \<in> set M" "last M \<in> set M"
    using assms(3) by auto
  show ?thesis
  proof (intro set_eqI iffI)
    fix x
    assume "x \<in> {getValue (hull_first r M) .. getValue (hull_second r M)}"
    then have x: "min (lo (hd M)) (lo r) \<le> x" "x \<le> max (hi (last M)) (hi r)"
      using False by (simp_all add: hull_first_def hull_second_def getValue_min getValue_max)
    have "x \<in> range_ints (hd M) \<or> x \<in> range_ints r \<or> x \<in> range_ints (last M)"
      using x h(1,2) unfolding touches_def range_ints_def atLeastAtMost_iff by linarith
    then show "x \<in> ds_ints M \<union> range_ints r"
      using h(3,4) by (auto simp: ds_ints_def)
  next
    fix x
    assume "x \<in> ds_ints M \<union> range_ints r"
    then show "x \<in> {getValue (hull_first r M) .. getValue (hull_second r M)}"
      using False ds_inv_hd_last [OF assms(1)]
      by (fastforce simp: ds_ints_def range_ints_def hull_first_def hull_second_def
            getValue_min getValue_max)
  qed
qed

lemma merge_correct:
  assumes inv: "ds_inv (L @ M @ R)" and r: "0 \<le> lo r" "lo r \<le> hi r"
    and L: "\<And>s. s \<in> set L \<Longrightarrow> apart s r" and R: "\<And>s. s \<in> set R \<Longrightarrow> apart r s"
    and M: "\<And>s. s \<in> set M \<Longrightarrow> touches r s"
  defines "h \<equiv> (hull_first r M, hull_second r M)"
  shows "ds_inv (L @ h # R)" and "ds_ints (L @ h # R) = ds_ints (L @ M @ R) \<union> range_ints r"
proof -
  have ih: "ds_inv L" "ds_inv M" "ds_inv R" "\<And>s t. s \<in> set L \<Longrightarrow> t \<in> set M \<Longrightarrow> apart s t"
      "\<And>s t. s \<in> set L \<Longrightarrow> t \<in> set R \<Longrightarrow> apart s t" "\<And>s t. s \<in> set M \<Longrightarrow> t \<in> set R \<Longrightarrow> apart s t"
    using inv by auto
  have "0 \<le> lo h" using ih(2) r by (cases M) (auto simp: h_def hull_first_def getValue_min)
  moreover have "lo h \<le> hi h" using hull_bounds [OF r(2), of M] r by (simp add: h_def)
  moreover have "apart s h" if "s \<in> set L" for s
    using L [OF that] ih(4) [OF that] by (auto simp: apart_def h_def hull_first_def getValue_min)
  moreover have "apart h s" if "s \<in> set R" for s
    using R [OF that] ih(6) [OF last_in_set that]
    by (auto simp: apart_def h_def hull_second_def getValue_max)
  ultimately show "ds_inv (L @ h # R)" using ih by auto
  show "ds_ints (L @ h # R) = ds_ints (L @ M @ R) \<union> range_ints r"
    using hull_ints [OF ih(2) r(2) M] by (auto simp: h_def range_ints_def)
qed

lemma set_insert_between:
  assumes "\<And>s. s \<in> set L \<Longrightarrow> snd s < snd r" and "\<And>s. s \<in> set R \<Longrightarrow> snd r < snd s"
  shows "set_insert r (L @ R) = L @ r # R"
  using assms
proof (induction L)
  case Nil
  then show ?case by (cases R) (auto simp: SequenceRange_LessThan_def)
next
  case (Cons s L)
  from Cons.prems(1) [of s] have "snd s < snd r" "\<not> snd r < snd s" by auto
  then show ?case using Cons by (simp add: SequenceRange_LessThan_def)
qed

section \<open>Inserting a range\<close>

lemma lower_bound_le: "lower_bound rs r \<le> length rs"
  by (simp add: lower_bound_def length_takeWhile_le)

lemma lower_bound_less: "i < lower_bound rs r \<Longrightarrow> hi (rs ! i) < hi r"
  using takeWhile_prefix_holds [of i "\<lambda>x. SequenceRange_LessThan x r" rs]
  by (simp add: lower_bound_def SequenceRange_LessThan_def sn_less_iff)

lemma lower_bound_ge:
  assumes "ds_inv rs" and "lower_bound rs r \<le> i" and "i < length rs"
  shows "hi r \<le> hi (rs ! i)"
proof -
  let ?k = "lower_bound rs r"
  have "hi r \<le> hi (rs ! ?k)"
    using nth_length_takeWhile_not [of "\<lambda>x. SequenceRange_LessThan x r" rs] assms(2,3)
    by (simp add: lower_bound_def SequenceRange_LessThan_def sn_less_iff)
  moreover have "hi (rs ! ?k) \<le> hi (rs ! i)"
    using ds_inv_nth_apart [OF assms(1), of ?k i] ds_inv_nth [OF assms(1), of i] assms(2,3)
    by (cases "?k = i") auto
  ultimately show ?thesis by simp
qed

text \<open>The two positions \<open>insert_i\<close> works between, and the ranges it replaces.\<close>

definition ins_above :: "range_set \<Rightarrow> sequence_range \<Rightarrow> nat" where
  "ins_above rs r =
     (let k = lower_bound rs r
      in if k < length rs \<and> fst (rs ! k) \<le> sn_incr (snd r) then Suc k else k)"

definition ins_below :: "range_set \<Rightarrow> sequence_range \<Rightarrow> nat" where
  "ins_below rs r =
     lower_bound rs (SN 1, if getValue (fst r) - 1 > 0 then SN (getValue (fst r) - 1) else ZERO)"

definition ins_middle :: "range_set \<Rightarrow> sequence_range \<Rightarrow> range_set" where
  "ins_middle rs r = take (ins_above rs r - ins_below rs r) (drop (ins_below rs r) rs)"

definition storable :: "sequence_range \<Rightarrow> bool" where
  "storable r \<longleftrightarrow> 0 \<le> lo r \<and> lo r \<le> hi r \<and> hi r < MAX_VALUE"

lemma prev_value:
  assumes "storable r"
  shows "getValue (if lo r - 1 > 0 then SN (lo r - 1) else ZERO) = max 0 (lo r - 1)"
  using assms by (auto simp: storable_def sn_simps)

lemma ins_below_less: "storable r \<Longrightarrow> i < ins_below rs r \<Longrightarrow> hi (rs ! i) < max 0 (lo r - 1)"
  using lower_bound_less by (fastforce simp: ins_below_def simp flip: prev_value)

lemma ins_below_ge:
  "storable r \<Longrightarrow> ds_inv rs \<Longrightarrow> ins_below rs r \<le> i \<Longrightarrow> i < length rs \<Longrightarrow> max 0 (lo r - 1) \<le> hi (rs ! i)"
  using lower_bound_ge by (fastforce simp: ins_below_def simp flip: prev_value)

lemma ins_above_le: "ins_above rs r \<le> length rs"
  using lower_bound_le [of rs r] by (auto simp: ins_above_def Let_def)

lemma ins_above_less:
  assumes "storable r" "ds_inv rs" "i < ins_above rs r"
  shows "lo (rs ! i) \<le> hi r + 1"
proof (cases "i < lower_bound rs r")
  case True
  then have "i < length rs" using lower_bound_le [of rs r] by simp
  then show ?thesis using lower_bound_less [OF True] ds_inv_nth [OF assms(2), of i] by simp
next
  case False
  then have "i = lower_bound rs r" using assms(3) by (auto simp: ins_above_def Let_def split: if_splits)
  then have "fst (rs ! i) \<le> sn_incr (snd r)"
    using assms(3) by (auto simp: ins_above_def Let_def split: if_splits)
  then show ?thesis using assms(1) by (simp add: storable_def sn_simps)
qed

lemma ins_above_ge:
  assumes "storable r" "ds_inv rs" "ins_above rs r \<le> i" "i < length rs"
  shows "hi r + 1 < lo (rs ! i)"
proof -
  let ?k = "lower_bound rs r"
  have k: "?k \<le> i" "?k < length rs" using assms(3,4) by (auto simp: ins_above_def Let_def split: if_splits)
  show ?thesis
  proof (cases "fst (rs ! ?k) \<le> sn_incr (snd r)")
    case True
    then have "?k < i" using assms(3) k by (simp add: ins_above_def Let_def)
    then show ?thesis
      using ds_inv_nth_apart [OF assms(2) _ assms(4)] lower_bound_ge [OF assms(2) order.refl k(2)]
      by force
  next
    case False
    then have "hi r + 1 < lo (rs ! ?k)" using assms(1) by (simp add: storable_def sn_simps)
    then show ?thesis
      using ds_inv_nth_apart [OF assms(2) _ assms(4), of ?k] ds_inv_nth [OF assms(2) k(2)] k(1)
      by (cases "?k = i") auto
  qed
qed

lemma ins_below_lower:
  assumes "storable r"
  shows "ins_below rs r \<le> lower_bound rs r"
proof (rule ccontr)
  assume c: "\<not> ?thesis"
  let ?k = "lower_bound rs r"
  have "?k < length rs"
    using c lower_bound_le [of rs] unfolding ins_below_def by (meson not_le order_less_le_trans)
  then have "hi r \<le> hi (rs ! ?k)"
    using nth_length_takeWhile_not [of "\<lambda>x. SequenceRange_LessThan x r" rs]
    by (simp add: lower_bound_def SequenceRange_LessThan_def sn_less_iff)
  moreover have "hi (rs ! ?k) < max 0 (lo r - 1)" using ins_below_less [OF assms, of ?k rs] c by simp
  ultimately show False using assms unfolding storable_def by linarith
qed

lemma ins_below_above: "storable r \<Longrightarrow> ins_below rs r \<le> ins_above rs r"
  using ins_below_lower [of r rs] by (auto simp: ins_above_def Let_def)

lemma ins_split:
  assumes "storable r"
  shows "rs = take (ins_below rs r) rs @ ins_middle rs r @ drop (ins_above rs r) rs"
  using ins_below_above [OF assms, of rs]
  by (metis append_take_drop_id drop_drop ins_middle_def le_add_diff_inverse2)

lemma ins_middle_nth:
  assumes "s \<in> set (ins_middle rs r)"
  obtains i where "ins_below rs r \<le> i" "i < ins_above rs r" "s = rs ! i" "i < length rs"
proof -
  from assms obtain j where j: "j < length (ins_middle rs r)" "s = ins_middle rs r ! j"
    by (metis in_set_conv_nth)
  then show ?thesis
    using that [of "ins_below rs r + j"] ins_above_le [of rs r] by (auto simp: ins_middle_def)
qed


lemma length_ins_middle: "length (ins_middle rs r) = ins_above rs r - ins_below rs r"
  using ins_above_le [of rs r] by (simp add: ins_middle_def)

lemma hd_ins_middle: "ins_middle rs r \<noteq> [] \<Longrightarrow> hd (ins_middle rs r) = rs ! ins_below rs r"
  using ins_above_le [of rs r] by (auto simp: ins_middle_def hd_drop_conv_nth)

lemma last_ins_middle:
  assumes "ins_middle rs r \<noteq> []"
  shows "last (ins_middle rs r) = rs ! (ins_above rs r - 1)"
proof -
  have "length (ins_middle rs r) > 0" using assms by simp
  then have a: "ins_below rs r < ins_above rs r" by (simp add: length_ins_middle)
  have "last (ins_middle rs r) = ins_middle rs r ! (ins_above rs r - ins_below rs r - 1)"
    using assms by (simp add: last_conv_nth length_ins_middle)
  also have "\<dots> = rs ! (ins_above rs r - 1)"
    using a ins_above_le [of rs r] by (simp add: ins_middle_def)
  finally show ?thesis .
qed

lemma new_first_hull:
  assumes "storable r" "ds_inv rs"
  shows "(if ins_below rs r < length rs \<and> fst (rs ! ins_below rs r) < fst r
          then fst (rs ! ins_below rs r) else fst r) = hull_first r (ins_middle rs r)"
proof (cases "ins_middle rs r = []")
  case True
  then have "ins_below rs r = ins_above rs r"
    using length_ins_middle [of rs r] ins_below_above [OF assms(1), of rs] by simp
  then have "\<not> fst (rs ! ins_below rs r) < fst r" if "ins_below rs r < length rs"
    using ins_above_ge [OF assms order.refl] that assms(1) by (force simp: storable_def sn_simps)
  then show ?thesis using True by (auto simp: hull_first_def)
next
  case False
  then have "0 < length (ins_middle rs r)" by simp
  then have "ins_below rs r < length rs"
    using ins_above_le [of rs r] by (simp add: length_ins_middle)
  then show ?thesis using False by (auto simp: hull_first_def hd_ins_middle min_def)
qed

lemma new_second_hull:
  assumes "storable r" "ds_inv rs"
  shows "(if lower_bound rs r < length rs \<and> fst (rs ! lower_bound rs r) \<le> sn_incr (snd r)
          then snd (rs ! lower_bound rs r) else snd r) = hull_second r (ins_middle rs r)"
proof (cases "lower_bound rs r < length rs \<and> fst (rs ! lower_bound rs r) \<le> sn_incr (snd r)")
  case True
  then have a: "ins_above rs r = Suc (lower_bound rs r)" by (simp add: ins_above_def Let_def)
  then have "0 < length (ins_middle rs r)"
    using ins_below_lower [OF assms(1), of rs] by (simp add: length_ins_middle)
  then have ne: "ins_middle rs r \<noteq> []" by auto
  have "snd r \<le> snd (rs ! lower_bound rs r)"
    using lower_bound_ge [OF assms(2) order.refl] True by (simp add: sn_le_iff)
  then show ?thesis using True ne by (simp add: hull_second_def last_ins_middle a max_def)
next
  case False
  then have a: "ins_above rs r = lower_bound rs r" by (auto simp: ins_above_def Let_def)
  have "snd (last (ins_middle rs r)) < snd r" if "ins_middle rs r \<noteq> []"
  proof -
    have "0 < length (ins_middle rs r)" using that by simp
    then have "ins_above rs r - 1 < lower_bound rs r" using a by (simp add: length_ins_middle)
    then show ?thesis using lower_bound_less that by (simp add: last_ins_middle sn_less_iff)
  qed
  then show ?thesis using False by (auto simp: hull_second_def max_def)
qed

lemma insert_i_no_gaps:
  assumes "storable r" "ds_inv rs"
  defines "k \<equiv> lower_bound rs r"
  shows "insert_i rs r None =
    (if k < length rs \<and> fst (rs ! k) \<le> fst r then Inr (False, rs, None)
     else Inr (True, set_insert (hull_first r (ins_middle rs r), hull_second r (ins_middle rs r))
                       (set_erase rs (ins_below rs r) (ins_above rs r)), None))"
proof -
  have v: "validate r = None" using assms(1) by (auto simp: validate_def storable_def sn_simps)
  have e: "set_erase rs (ins_below rs r) (ins_above rs r) = rs" if "\<not> ins_below rs r < length rs"
    using that ins_below_above [OF assms(1), of rs] by (simp add: set_erase_def)
  show ?thesis
    unfolding insert_i_def v k_def option.case Let_def
    using new_first_hull [OF assms(1,2)] new_second_hull [OF assms(1,2)] e
    by (auto simp: ins_above_def [of rs r] ins_below_def [of rs r] Let_def)
qed

lemma ds_ints_nth: "x \<in> ds_ints rs \<longleftrightarrow> (\<exists>i < length rs. lo (rs ! i) \<le> x \<and> x \<le> hi (rs ! i))"
  by (simp add: ds_ints_def range_ints_def) (metis in_set_conv_nth)

lemma covered_iff:
  assumes "storable r" "ds_inv rs"
  defines "k \<equiv> lower_bound rs r"
  shows "range_ints r \<subseteq> ds_ints rs \<longleftrightarrow> k < length rs \<and> fst (rs ! k) \<le> fst r"
proof
  assume k: "k < length rs \<and> fst (rs ! k) \<le> fst r"
  then have "hi r \<le> hi (rs ! k)" using lower_bound_ge [OF assms(2), of r k] by (simp add: k_def)
  then show "range_ints r \<subseteq> ds_ints rs"
    using k by (fastforce simp: ds_ints_nth range_ints_def sn_simps)
next
  assume sub: "range_ints r \<subseteq> ds_ints rs"
  have r: "lo r \<le> hi r" using assms(1) by (simp add: storable_def)
  then have "hi r \<in> ds_ints rs" using sub by (auto simp: range_ints_def)
  then obtain i where i: "i < length rs" "lo (rs ! i) \<le> hi r" "hi r \<le> hi (rs ! i)"
    by (auto simp: ds_ints_nth)
  have "k \<le> i" using lower_bound_less [of i rs r] i by (fastforce simp: k_def)
  moreover have "\<not> k < i"
    using ds_inv_nth_apart [OF assms(2) _ i(1), of k] lower_bound_ge [OF assms(2), of r k] i
    by (force simp: k_def)
  ultimately have k: "k = i" by simp
  show "k < length rs \<and> fst (rs ! k) \<le> fst r"
  proof (rule ccontr)
    assume "\<not> ?thesis"
    then have a: "lo r < lo (rs ! i)" using i k by (simp add: sn_simps)
    then have "lo (rs ! i) - 1 \<in> ds_ints rs" using sub i by (auto simp: range_ints_def)
    then obtain j where j: "j < length rs" "lo (rs ! j) \<le> lo (rs ! i) - 1" "lo (rs ! i) - 1 \<le> hi (rs ! j)"
      by (auto simp: ds_ints_nth)
    consider "j < i" | "j = i" | "i < j" by linarith
    then show False
      using j i ds_inv_nth_apart [OF assms(2), of j i] ds_inv_nth_apart [OF assms(2), of i j]
        ds_inv_nth [OF assms(2), of i]
      by cases auto
  qed
qed

lemma set_insert_inv:
  assumes "ds_inv (L @ h # R)"
  shows "set_insert h (L @ R) = L @ h # R"
proof (rule set_insert_between)
  fix s assume "s \<in> set L"
  then have "apart s h" "lo h \<le> hi h" using assms by simp_all
  then show "snd s < snd h" by (simp add: apart_def sn_less_iff)
next
  fix s assume "s \<in> set R"
  then have "apart h s" "ds_inv R" using assms by simp_all
  then have "apart h s" "lo s \<le> hi s" using \<open>s \<in> set R\<close> by (simp_all add: ds_inv_def)
  then show "snd h < snd s" by (simp add: apart_def sn_less_iff)
qed

lemma ins_merge:
  assumes "storable r" "ds_inv rs"
  defines "h \<equiv> (hull_first r (ins_middle rs r), hull_second r (ins_middle rs r))"
  defines "rs' \<equiv> set_insert h (set_erase rs (ins_below rs r) (ins_above rs r))"
  shows "ds_inv rs'" "ds_ints rs' = ds_ints rs \<union> range_ints r"
    and ins_merge_eq: "rs' = take (ins_below rs r) rs @ h # drop (ins_above rs r) rs"
proof -
  let ?L = "take (ins_below rs r) rs" and ?R = "drop (ins_above rs r) rs" and ?M = "ins_middle rs r"
  have r: "0 \<le> lo r" "lo r \<le> hi r" using assms(1) by (simp_all add: storable_def)
  have split: "rs = ?L @ ?M @ ?R" by (rule ins_split [OF assms(1)])
  have nn: "0 \<le> hi s" if "s \<in> set rs" for s using assms(2) that by (force simp: ds_inv_def)
  have L: "apart s r" if "s \<in> set ?L" for s
  proof -
    from that obtain i where i: "i < ins_below rs r" "i < length rs" "s = rs ! i"
      by (auto simp: in_set_conv_nth)
    then show ?thesis
      using ins_below_less [OF assms(1) i(1)] nn [of s] by (auto simp: apart_def max_def split: if_splits)
  qed
  have R: "apart r s" if "s \<in> set ?R" for s
  proof -
    from that obtain i where "ins_above rs r + i < length rs" "s = rs ! (ins_above rs r + i)"
      by (auto simp: in_set_conv_nth less_diff_conv add.commute)
    then show ?thesis using ins_above_ge [OF assms(1,2)] by (simp add: apart_def)
  qed
  have M: "touches r s" if "s \<in> set ?M" for s
    using that
  proof (rule ins_middle_nth)
    fix i assume "ins_below rs r \<le> i" "i < ins_above rs r" "s = rs ! i" "i < length rs"
    then show ?thesis
      using ins_below_ge [OF assms(1,2)] ins_above_less [OF assms(1,2)] by (force simp: touches_def)
  qed
  have inv: "ds_inv (?L @ ?M @ ?R)" using assms(2) split by simp
  have m: "ds_inv (?L @ h # ?R)" "ds_ints (?L @ h # ?R) = ds_ints (?L @ ?M @ ?R) \<union> range_ints r"
    using merge_correct [OF inv r L R M] by (simp_all add: h_def)
  have "set_insert h (?L @ ?R) = ?L @ h # ?R" using m(1) by (rule set_insert_inv)
  then have rs': "rs' = ?L @ h # ?R" by (simp add: rs'_def set_erase_def)
  show "rs' = ?L @ h # ?R" by (rule rs')
  show "ds_inv rs'" using m(1) rs' by simp
  show "ds_ints rs' = ds_ints rs \<union> range_ints r" using m(2) rs' split by simp
qed

lemma insert_range_spec:
  assumes "ds_inv rs" "storable r"
  shows "\<exists>b rs'. insert_range rs r = Inr (b, rs') \<and> ds_inv rs'
    \<and> ds_ints rs' = ds_ints rs \<union> range_ints r \<and> (b \<longleftrightarrow> \<not> range_ints r \<subseteq> ds_ints rs)"
proof (cases "range_ints r \<subseteq> ds_ints rs")
  case True
  then have "insert_range rs r = Inr (False, rs)"
    using assms by (simp add: insert_range_def insert_i_no_gaps covered_iff)
  then show ?thesis using True assms(1) by auto
next
  case False
  then show ?thesis
    using assms ins_merge [OF assms(2,1)]
    by (auto simp: insert_range_def insert_i_no_gaps covered_iff)
qed

section \<open>Queries\<close>

lemma contains_iff:
  assumes "ds_inv rs"
  shows "contains rs v \<longleftrightarrow> getValue v \<in> ds_ints rs"
proof -
  let ?k = "lower_bound rs (SN 0, v)"
  have "i = ?k" if "i < length rs" "lo (rs ! i) \<le> getValue v" "getValue v \<le> hi (rs ! i)" for i
  proof -
    have "\<not> i < ?k" using lower_bound_less [of i rs "(SN 0, v)"] that by fastforce
    moreover have "\<not> ?k < i"
      using ds_inv_nth_apart [OF assms _ that(1), of ?k] that
        lower_bound_ge [OF assms, of "(SN 0, v)" ?k] by force
    ultimately show ?thesis by simp
  qed
  then show ?thesis
    using lower_bound_ge [OF assms, of "(SN 0, v)" ?k]
    by (auto simp: contains_def Let_def ds_ints_nth sn_simps)
qed

lemma interval_minus:
  fixes a b c d :: int
  assumes "a \<le> b" "b + 1 < c" "c \<le> d" and A: "\<And>x. x \<in> A \<Longrightarrow> c \<le> x"
  shows "{b + 1 .. c - 1} \<union> ({c .. d} - A) = {a .. d} - ({a .. b} \<union> A)"
proof (rule set_eqI)
  fix x
  show "x \<in> {b + 1 .. c - 1} \<union> ({c .. d} - A) \<longleftrightarrow> x \<in> {a .. d} - ({a .. b} \<union> A)"
    using assms(1-3) A [of x] by (cases "x \<in> A") auto
qed

lemma missing_loop_correct:
  assumes "ds_inv (r # rs)" and "hi (last (r # rs)) \<le> MAX_VALUE"
  shows "ds_ints (missing_loop (r # rs)) = {lo r .. hi (last (r # rs))} - ds_ints (r # rs)
     \<and> (\<forall>s \<in> set (missing_loop (r # rs)). lo s \<le> hi s)"
  using assms
proof (induction rs arbitrary: r)
  case Nil
  then show ?case by (simp add: range_ints_def)
next
  case (Cons s rs)
  have ap: "hi r + 1 < lo s" "lo r \<le> hi r" "0 \<le> lo r" "lo s \<le> hi s"
    using Cons.prems(1) by (auto simp: apart_def)
  have "lo s \<le> hi (last (s # rs))"
    using ds_inv_hd_last(2) [of "s # rs" s] Cons.prems(1) by force
  then have le: "lo s \<le> MAX_VALUE" using Cons.prems(2) by simp
  have IH: "ds_ints (missing_loop (s # rs)) = {lo s .. hi (last (s # rs))} - ds_ints (s # rs)"
      "\<forall>t \<in> set (missing_loop (s # rs)). lo t \<le> hi t"
    using Cons.IH [of s] Cons.prems by auto
  have v: "getValue (sn_incr (snd r)) = hi r + 1" "getValue (previous (fst s)) = lo s - 1"
    using ap le by (auto simp: sn_simps)
  have above: "lo s \<le> x" if "x \<in> ds_ints (s # rs)" for x
  proof -
    from that obtain t where t: "t \<in> set (s # rs)" "x \<in> range_ints t" unfolding ds_ints_def by blast
    then have "lo t \<le> x" by (simp add: range_ints_def)
    moreover have "ds_inv (s # rs)" using Cons.prems(1) by simp
    ultimately show ?thesis using ds_inv_hd_last(1) [of "s # rs" t] t(1) by simp
  qed
  have "ds_ints (missing_loop (r # s # rs)) = {hi r + 1 .. lo s - 1} \<union> ds_ints (missing_loop (s # rs))"
    using v ap by (simp add: Let_def sn_simps range_ints_def)
  also have "\<dots> = {lo r .. hi (last (s # rs))} - (range_ints r \<union> ds_ints (s # rs))"
    unfolding IH(1) range_ints_def using ap \<open>lo s \<le> hi (last (s # rs))\<close> above
    by (intro interval_minus) auto
  finally show ?case using IH(2) v ap by (auto simp: Let_def sn_simps)
qed

lemma missing_sequence_ranges_loop: "missing_sequence_ranges rs = missing_loop rs"
  by (cases rs rule: missing_loop.cases) (auto simp: missing_sequence_ranges_def disjoint_seq_def)

section \<open>The contract of a set of sequence numbers\<close>

text \<open>
  What the reliable transports rely on: a state that stands for a set of integers, an insertion of
  ranges that adds exactly the range and reports whether anything was new, and a membership test.
  \<open>admissible\<close> are the ranges that may be inserted.
\<close>

primrec insert_all :: "('s \<Rightarrow> 'r \<Rightarrow> 'e + (bool \<times> 's)) \<Rightarrow> 's \<Rightarrow> 'r list \<Rightarrow> 'e + 's" where
  "insert_all ins s [] = Inr s"
| "insert_all ins s (r # rs) =
     (case ins s r of Inl e \<Rightarrow> Inl e | Inr (b, s') \<Rightarrow> insert_all ins s' rs)"

locale sequence_tracker =
  fixes empty_state :: 's
    and ins :: "'s \<Rightarrow> 'r \<Rightarrow> 'e + (bool \<times> 's)"
    and member :: "'s \<Rightarrow> 'n \<Rightarrow> bool"
    and number :: "'n \<Rightarrow> int"
    and ints :: "'s \<Rightarrow> int set"
    and range_of :: "'r \<Rightarrow> int set"
    and admissible :: "'r \<Rightarrow> bool"
    and invar :: "'s \<Rightarrow> bool"
  assumes empty_law: "invar empty_state" "ints empty_state = {}"
    and insert_law: "invar s \<Longrightarrow> admissible r \<Longrightarrow>
      \<exists>b s'. ins s r = Inr (b, s') \<and> invar s' \<and> ints s' = ints s \<union> range_of r
        \<and> (b \<longleftrightarrow> \<not> range_of r \<subseteq> ints s)"
    and member_law: "invar s \<Longrightarrow> member s n \<longleftrightarrow> number n \<in> ints s"
begin

lemma insert_all_spec:
  assumes "invar s" and "\<And>r. r \<in> set rs \<Longrightarrow> admissible r"
  shows "\<exists>s'. insert_all ins s rs = Inr s' \<and> invar s' \<and> ints s' = ints s \<union> (\<Union>r \<in> set rs. range_of r)"
  using assms
proof (induction rs arbitrary: s)
  case Nil
  then show ?case by simp
next
  case (Cons r rs)
  obtain b s' where s': "ins s r = Inr (b, s')" "invar s'" "ints s' = ints s \<union> range_of r"
    using insert_law [of s r] Cons.prems by auto
  then obtain s'' where "insert_all ins s' rs = Inr s''" "invar s''"
      "ints s'' = ints s' \<union> (\<Union>r \<in> set rs. range_of r)"
    using Cons.IH [of s'] Cons.prems(2) by auto
  then show ?case using s' by auto
qed

lemma member_insert_all:
  assumes "\<And>r. r \<in> set rs \<Longrightarrow> admissible r"
  shows "\<exists>s'. insert_all ins empty_state rs = Inr s'
    \<and> (\<forall>n. member s' n \<longleftrightarrow> (\<exists>r \<in> set rs. number n \<in> range_of r))"
  using insert_all_spec [OF empty_law(1) assms] empty_law(2) member_law by fastforce

lemma insert_twice:
  assumes "invar s" "admissible r" "ins s r = Inr (b, s')"
  shows "\<exists>s''. ins s' r = Inr (False, s'') \<and> ints s'' = ints s'"
  using insert_law [OF assms(1,2)] insert_law [of s' r] assms(2,3) by auto

end

interpretation ds: sequence_tracker ds_empty insert_range contains getValue ds_ints range_ints
  storable ds_inv
  by unfold_locales (simp_all add: ds_empty_def insert_range_spec contains_iff)

section \<open>Properties\<close>

text \<open>
  (C1) Inserting a range refines set union: on a well-formed range set and a range that is
  ascending, not negative and below the largest sequence number, \<open>insert\<close> succeeds, keeps the
  ranges disjoint, maximal and ordered, adds exactly the numbers of the range, and returns true
  exactly when one of them was missing.
\<close>

theorem insert_range_refines_union:
  assumes "ds_inv rs" and "storable r"
  shows "\<exists>b rs'. insert_range rs r = Inr (b, rs') \<and> ds_inv rs'
    \<and> ds_ints rs' = ds_ints rs \<union> range_ints r \<and> (b \<longleftrightarrow> \<not> range_ints r \<subseteq> ds_ints rs)"
  using assms by (rule ds.insert_law)

theorem insert_range_refines_union_witness:
  "\<exists>b rs'. insert_range [(SN 1, SN 2), (SN 5, SN 5)] (SN 3, SN 4) = Inr (b, rs') \<and> ds_inv rs'
    \<and> ds_ints rs' = ds_ints [(SN 1, SN 2), (SN 5, SN 5)] \<union> range_ints (SN 3, SN 4)
    \<and> (b \<longleftrightarrow> \<not> range_ints (SN 3, SN 4) \<subseteq> ds_ints [(SN 1, SN 2), (SN 5, SN 5)])"
  by (rule insert_range_refines_union)
    (simp_all add: apart_def storable_def getValue_SN MAX_VALUE_def)

text \<open>
  (C23) Whatever the order of arrival and the overlaps, after inserting a list of ranges into an
  empty sequence, \<open>contains\<close> answers true exactly for the numbers in one of the ranges.
\<close>

theorem contains_after_inserts:
  assumes "\<And>r. r \<in> set rs \<Longrightarrow> storable r"
  shows "\<exists>seq. insert_all insert_range ds_empty rs = Inr seq
    \<and> (\<forall>v. contains seq v \<longleftrightarrow> (\<exists>r \<in> set rs. fst r \<le> v \<and> v \<le> snd r))"
  using ds.member_insert_all [OF assms] by (simp add: range_ints_def sn_simps)

theorem contains_after_inserts_witness:
  "\<exists>seq. insert_all insert_range ds_empty [(SN 5, SN 9), (SN 1, SN 6)] = Inr seq
    \<and> (\<forall>v. contains seq v \<longleftrightarrow> (\<exists>r \<in> set [(SN 5, SN 9), (SN 1, SN 6)]. fst r \<le> v \<and> v \<le> snd r))"
  by (rule contains_after_inserts) (auto simp: storable_def getValue_SN MAX_VALUE_def)

text \<open>
  \<open>missing_sequence_ranges\<close> is the complement: the ranges it lists are ascending and
  cover exactly the numbers between the lowest and the highest member that are not members.
\<close>

theorem missing_ranges_complement:
  assumes "ds_inv rs" and "rs \<noteq> []"
  shows "ds_ints (missing_sequence_ranges rs) = {lo (hd rs) .. hi (last rs)} - ds_ints rs
    \<and> (\<forall>s \<in> set (missing_sequence_ranges rs). lo s \<le> hi s)"
proof -
  from assms(2) obtain r rs' where rs: "rs = r # rs'" by (cases rs) auto
  show ?thesis
    unfolding missing_sequence_ranges_loop rs list.sel
    using assms(1) by (intro missing_loop_correct getValue_bounds) (simp only: rs)
qed

theorem missing_ranges_complement_witness:
  "ds_ints (missing_sequence_ranges [(SN 1, SN 2), (SN 5, SN 5)])
     = {lo (hd [(SN 1, SN 2), (SN 5, SN 5)]) .. hi (last [(SN 1, SN 2), (SN 5, SN 5)])}
       - ds_ints [(SN 1, SN 2), (SN 5, SN 5)]"
  by (rule missing_ranges_complement [THEN conjunct1]) (simp_all add: apart_def getValue_SN MAX_VALUE_def)

text \<open>
  The gap lists of the general form of \<open>insert\<close>. The example of the header file comes out as
  documented; but the first gap is measured against the upper end of the first overlapped range, so
  numbers that were present are reported as added; a range below all the others makes the loop run
  into \<open>end()\<close>; and a range above all the others reports nothing although all of it was added.
\<close>

theorem insert_gaps_behaviour:
  "insert_range_gaps [(SN 1, SN 2), (SN 5, SN 5), (SN 9, SN 9)] (SN 4, SN 12) [] =
     Inr (True, [(SN 1, SN 2), (SN 4, SN 12)], Some [(SN 4, SN 4), (SN 6, SN 8), (SN 10, SN 12)])
   \<and> insert_range_gaps [(SN 3, SN 7)] (SN 4, SN 12) [] =
     Inr (True, [(SN 3, SN 12)], Some [(SN 4, SN 6), (SN 8, SN 12)])
   \<and> contains [(SN 3, SN 7)] (SN 5)
   \<and> insert_range_gaps [(SN 9, SN 9)] (SN 4, SN 5) [] = Inl past_the_end
   \<and> insert_range_gaps [(SN 1, SN 1)] (SN 4, SN 5) [] =
     Inr (True, [(SN 1, SN 1), (SN 4, SN 5)], Some [])"
  by code_simp

end
