(* ===== verification/Sequence_Bitmap.thy ===== *)
theory Sequence_Bitmap
  imports Disjoint_Sequence
begin
unbundle bit_operations_syntax

text \<open>
  The bitmap operations of \<open>DisjointSequence\<close> (\<open>src/dds/DCPS/DisjointSequence.cpp\<close>): the compact
  set representation of the RTPS protocol, where bit \<open>p\<close> of a bitmap is the bit of weight
  \<open>31 - p mod 32\<close> of word \<open>p div 32\<close>. A bitmap is the list of its words; indexes are natural
  numbers with the 32-bit reduction written where an expression of the source could leave the range.
\<close>

section \<open>Writing bitmaps\<close>

abbreviation ULONG_RANGE :: nat where "ULONG_RANGE \<equiv> 4294967296"

definition bm_set :: "nat \<Rightarrow> ulong \<Rightarrow> ulong" where
  "bm_set b x = x OR push_bit (31 - b) 1"

definition bm_clear :: "nat \<Rightarrow> ulong \<Rightarrow> ulong" where
  "bm_clear m x = x AND NOT (push_bit (31 - m) 1)"

definition store_all :: "ulong \<Rightarrow> nat list \<Rightarrow> ulong list \<Rightarrow> ulong list" where
  "store_all v is bm = fold (\<lambda>i bm. bm[i := v]) is bm"

text \<open>The word at \<open>idx_low\<close> with the bits between the last one written and \<open>bit_low\<close> cleared.\<close>

definition low_word :: "ulong list \<Rightarrow> nat \<Rightarrow> nat \<Rightarrow> ulong" where
  "low_word bitmap num_bits low =
     (if num_bits > 0
      then (let bit_last = (if (num_bits - 1) div 32 = low div 32 then (num_bits - 1) mod 32 + 1 else 0)
            in fold bm_clear [bit_last ..< low mod 32] (bitmap ! (low div 32)))
      else 0)"

definition fill_bitmap_range ::
    "nat \<Rightarrow> nat \<Rightarrow> ulong list \<Rightarrow> nat \<Rightarrow> nat \<Rightarrow> bool \<times> ulong list \<times> nat" where
  "fill_bitmap_range low high bitmap len num_bits =
     (let idx_low = low div 32; bit_low = low mod 32 in
      if len \<le> idx_low then (False, bitmap, num_bits)
      else
        let clamped = (len \<le> high div 32);
            high = (if clamped then (len * 32 - 1) mod ULONG_RANGE else high);
            idx_high = (if clamped then len - 1 else high div 32);
            bit_high = high mod 32;
            bitmap = store_all 0 [((num_bits + 31) mod ULONG_RANGE) div 32 ..< idx_low] bitmap;
            limit = (if idx_high = idx_low then bit_high else 31);
            x = fold bm_set [bit_low ..< Suc limit] (low_word bitmap num_bits low);
            bitmap = store_all 4294967295 [Suc idx_low ..< idx_high] (bitmap[idx_low := x]);
            bitmap = (if idx_high > idx_low
                      then bitmap[idx_high := fold bm_set [0 ..< Suc bit_high] 0] else bitmap)
        in (\<not> clamped, bitmap, (high + 1) mod ULONG_RANGE))"

text \<open>The bit at a position of a bitmap.\<close>

definition bm_bit :: "ulong list \<Rightarrow> nat \<Rightarrow> bool" where
  "bm_bit bm p = bit (bm ! (p div 32)) (31 - p mod 32)"

lemma bit_two_pow: "j < 32 \<Longrightarrow> bit ((2 :: ulong) ^ k) j \<longleftrightarrow> j = k"
  by (auto simp: bit_exp_iff)

lemma bit_bm_set: "j < 32 \<Longrightarrow> bit (bm_set b x) j \<longleftrightarrow> bit x j \<or> j = 31 - b"
  by (simp add: bm_set_def bit_or_iff bit_two_pow)

lemma bit_bm_clear: "j < 32 \<Longrightarrow> bit (bm_clear b x) j \<longleftrightarrow> bit x j \<and> j \<noteq> 31 - b"
  by (simp add: bm_clear_def bit_and_iff bit_not_iff bit_two_pow)

lemma bit_fold_bm_set:
  "j < 32 \<Longrightarrow> bit (fold bm_set bs x) j \<longleftrightarrow> bit x j \<or> (\<exists>b \<in> set bs. j = 31 - b)"
  by (induction bs arbitrary: x) (auto simp: bit_bm_set)

lemma bit_fold_bm_clear:
  "j < 32 \<Longrightarrow> bit (fold bm_clear bs x) j \<longleftrightarrow> bit x j \<and> (\<forall>b \<in> set bs. j \<noteq> 31 - b)"
  by (induction bs arbitrary: x) (auto simp: bit_bm_clear)

lemma bit_set_upto:
  "q < 32 \<Longrightarrow> b \<le> 32 \<Longrightarrow> bit (fold bm_set [a ..< b] x) (31 - q) \<longleftrightarrow> bit x (31 - q) \<or> a \<le> q \<and> q < b"
  by (auto simp: bit_fold_bm_set)

lemma bit_clear_upto:
  "q < 32 \<Longrightarrow> b \<le> 32 \<Longrightarrow> bit (fold bm_clear [a ..< b] x) (31 - q) \<longleftrightarrow> bit x (31 - q) \<and> \<not> (a \<le> q \<and> q < b)"
  by (auto simp: bit_fold_bm_clear)

lemma length_store_all [simp]: "length (store_all v is bm) = length bm"
  unfolding store_all_def by (induction "is" arbitrary: bm) auto

lemma nth_store_all:
  "w < length bm \<Longrightarrow> store_all v is bm ! w = (if w \<in> set is then v else bm ! w)"
  unfolding store_all_def by (induction "is" arbitrary: bm) (auto simp: nth_list_update)

definition bm_clean :: "ulong list \<Rightarrow> nat \<Rightarrow> nat \<Rightarrow> bool" where
  "bm_clean bm len n \<longleftrightarrow> (\<forall>p. n \<le> p \<and> p < 32 * len \<longrightarrow> \<not> bm_bit bm p)"

lemma le_by_word:
  "(a::nat) \<le> b \<longleftrightarrow> a div 32 < b div 32 \<or> a div 32 = b div 32 \<and> a mod 32 \<le> b mod 32"
proof -
  have "32 * x + q \<le> 32 * y + r \<longleftrightarrow> x < y \<or> x = y \<and> q \<le> r" if "q < 32" "r < 32" for x y q r :: nat
    using that by auto
  from this [of "a mod 32" "b mod 32" "a div 32" "b div 32"] show ?thesis by simp
qed

text \<open>The words of the result, by their position relative to the range.\<close>

definition fill_word :: "ulong list \<Rightarrow> nat \<Rightarrow> nat \<Rightarrow> nat \<Rightarrow> nat \<Rightarrow> ulong" where
  "fill_word bm n low hb w =
     (if w = low div 32
      then fold bm_set [low mod 32 ..< Suc (if hb div 32 = low div 32 then hb mod 32 else 31)]
             (low_word bm n low)
      else if w = hb div 32 \<and> low div 32 < hb div 32 then fold bm_set [0 ..< Suc (hb mod 32)] 0
      else if low div 32 < w \<and> w < hb div 32 then 4294967295
      else if (n + 31) div 32 \<le> w \<and> w < low div 32 then 0 else bm ! w)"

lemma fill_bitmap_range_words:
  assumes len: "len \<le> length bm" "32 * len < ULONG_RANGE" and range: "n \<le> low" "low \<le> high" "low div 32 < len"
  defines "hb \<equiv> min high (32 * len - 1)"
  shows "\<exists>bm'. fill_bitmap_range low high bm len n = (high < 32 * len, bm', hb + 1)
    \<and> length bm' = length bm \<and> (\<forall>w < len. bm' ! w = fill_word bm n low hb w)"
proof -
  define wl where "wl = low div 32"
  define wh where "wh = hb div 32"
  define bm1 where "bm1 = store_all 0 [((n + 31) mod ULONG_RANGE) div 32 ..< wl] bm"
  define x1 where "x1 = fold bm_set [low mod 32 ..< Suc (if wh = wl then hb mod 32 else 31)] (low_word bm1 n low)"
  define bm2 where "bm2 = store_all 4294967295 [Suc wl ..< wh] (bm1[wl := x1])"
  define xh where "xh = fold bm_set [0 ..< Suc (hb mod 32)] 0"
  define bm3 where "bm3 = (if wl < wh then bm2[wh := xh] else bm2)"
  have "len > 0" using range by simp
  have hb: "(if len \<le> high div 32 then (len * 32 - 1) mod ULONG_RANGE else high) = hb"
      "(if len \<le> high div 32 then len - 1 else hb div 32) = wh"
      "high < 32 * len \<longleftrightarrow> \<not> len \<le> high div 32" "(hb + 1) mod ULONG_RANGE = hb + 1"
    using len \<open>len > 0\<close> by (auto simp: hb_def wh_def min_def)
  have wl: "wl < len" "wl \<le> wh" "wh < len"
    using range \<open>len > 0\<close> by (auto simp: wl_def wh_def hb_def div_le_mono less_mult_imp_div_less)
  have n: "((n + 31) mod ULONG_RANGE) div 32 = (n + 31) div 32"
    using range(1) wl(1) len(2) by (simp add: wl_def)
  have low: "low_word bm1 n low = low_word bm n low"
    using wl len by (simp add: low_word_def bm1_def nth_store_all wl_def)
  have "\<not> len \<le> low div 32" using range(3) by simp
  then have "fill_bitmap_range low high bm len n = (high < 32 * len, bm3, hb + 1)"
    by (simp only: fill_bitmap_range_def Let_def hb if_False wl_def [symmetric] bm1_def [symmetric]
        x1_def [symmetric] bm2_def [symmetric] xh_def [symmetric] bm3_def [symmetric])
  moreover have "length bm3 = length bm" by (simp add: bm3_def bm2_def bm1_def)
  moreover have "bm3 ! w = fill_word bm n low hb w" if "w < len" for w
  proof -
    have "bm3 ! w = (if w = wl then x1 else if w = wh \<and> wl < wh then xh
        else if wl < w \<and> w < wh then 4294967295 else bm1 ! w)"
      using that wl len(1) by (auto simp: bm3_def bm2_def nth_store_all nth_list_update bm1_def)
    moreover have "bm1 ! w = (if (n + 31) div 32 \<le> w \<and> w < wl then 0 else bm ! w)"
      using that len(1) by (simp add: bm1_def nth_store_all n)
    ultimately show ?thesis
      by (simp only: fill_word_def wl_def wh_def x1_def xh_def low)
  qed
  ultimately show ?thesis by blast
qed

lemma low_word_bit:
  assumes "bm_clean bm len n" and "n \<le> low" and "low div 32 < len" and q: "q < 32"
  shows "bit (low_word bm n low) (31 - q) \<longleftrightarrow> bm_bit bm (32 * (low div 32) + q)"
proof -
  let ?w = "low div 32"
  have pos: "(32 * ?w + q) div 32 = ?w" "(32 * ?w + q) mod 32 = q" using q by simp_all
  have lt: "32 * ?w + q < 32 * len" using assms(3) q by linarith
  show ?thesis
  proof (cases "n = 0")
    case True
    then show ?thesis using assms(1) lt by (simp add: low_word_def bm_clean_def)
  next
    case False
    define bl where "bl = (if (n - 1) div 32 = ?w then (n - 1) mod 32 + 1 else 0)"
    have "low_word bm n low = fold bm_clear [bl ..< low mod 32] (bm ! ?w)"
      using False by (simp only: low_word_def bl_def Let_def) simp
    then have "bit (low_word bm n low) (31 - q) \<longleftrightarrow> bm_bit bm (32 * ?w + q) \<and> \<not> (bl \<le> q \<and> q < low mod 32)"
      using q by (simp add: bit_clear_upto bm_bit_def pos)
    moreover have "n \<le> 32 * ?w + q" if "bl \<le> q"
    proof (cases "(n - 1) div 32 = ?w")
      case True
      then have "(n - 1) mod 32 + 1 \<le> q" using that by (simp add: bl_def)
      moreover have "32 * ?w + (n - 1) mod 32 = n - 1" by (subst True [symmetric]) (rule mult_div_mod_eq)
      ultimately show ?thesis using False by linarith
    next
      case False
      then show ?thesis using assms(2) le_by_word [of "n - 1" low] by linarith
    qed
    ultimately show ?thesis using assms(1) lt by (auto simp: bm_clean_def)
  qed
qed

lemma fill_word_bit:
  assumes clean: "bm_clean bm len n" and range: "n \<le> low" "low \<le> hb" "hb < 32 * len" and p: "p < 32 * len"
  shows "bit (fill_word bm n low hb (p div 32)) (31 - p mod 32) \<longleftrightarrow> bm_bit bm p \<or> low \<le> p \<and> p \<le> hb"
proof -
  define w where "w = p div 32"
  define q where "q = p mod 32"
  define wl where "wl = low div 32"
  define wh where "wh = hb div 32"
  have pw: "p = 32 * w + q" "q < 32" by (auto simp: w_def q_def)
  have wl: "wl \<le> wh" "wl < len"
    using range by (simp_all add: wl_def wh_def div_le_mono less_mult_imp_div_less)
  have clean': "\<not> bm_bit bm p" if "n \<le> p" using clean that p by (simp add: bm_clean_def)
  have le: "low \<le> p \<longleftrightarrow> wl < w \<or> wl = w \<and> low mod 32 \<le> q"
      "p \<le> hb \<longleftrightarrow> w < wh \<or> w = wh \<and> q \<le> hb mod 32"
    by (simp_all add: le_by_word [of low p] le_by_word [of p hb] w_def q_def wl_def wh_def)
  note fw = fill_word_def [of bm n low hb w, folded wl_def wh_def]
  consider "w = wl" | "w = wh" "wl < wh" | "wl < w" "w < wh" | "w < wl \<or> wh < w" using wl by linarith
  then have "bit (fill_word bm n low hb w) (31 - q) \<longleftrightarrow> bm_bit bm p \<or> low \<le> p \<and> p \<le> hb"
  proof cases
    case 1
    have "bit (low_word bm n low) (31 - q) \<longleftrightarrow> bm_bit bm p"
      using low_word_bit [OF clean range(1) wl(2) [unfolded wl_def] pw(2)] 1 pw(1) by (simp add: wl_def)
    then have "bit (fill_word bm n low hb w) (31 - q) \<longleftrightarrow>
        bm_bit bm p \<or> low mod 32 \<le> q \<and> q < Suc (if wh = wl then hb mod 32 else 31)"
      unfolding fw using 1 pw(2) by (simp add: bit_set_upto Suc_leI del: upt_Suc)
    then show ?thesis using 1 wl(1) pw(2) unfolding le by (auto simp: less_Suc_eq_le)
  next
    case 2
    then have "low \<le> p" using le by simp
    then have "\<not> bm_bit bm p" using clean' range(1) by simp
    moreover have "bit (fill_word bm n low hb w) (31 - q) \<longleftrightarrow> q < Suc (hb mod 32)"
      unfolding fw using 2 pw(2) by (simp add: bit_set_upto Suc_leI del: upt_Suc)
    ultimately show ?thesis using 2 unfolding le by (simp add: less_Suc_eq_le)
  next
    case 3
    have "(4294967295 :: ulong) = - 1" by simp
    then have "bit (4294967295 :: ulong) (31 - q)" by (simp only: bit_minus_1_iff) simp
    then show ?thesis using 3 unfolding fw le by simp
  next
    case 4
    have "\<not> bm_bit bm p" if "(n + 31) div 32 \<le> w"
    proof -
      have "n \<le> 32 * ((n + 31) div 32)" by linarith
      then show ?thesis using clean' that pw(1) by linarith
    qed
    moreover have "\<not> (low \<le> p \<and> p \<le> hb)" using 4 wl(1) unfolding le by auto
    moreover have "bm_bit bm p \<longleftrightarrow> bit (bm ! w) (31 - q)" by (simp add: bm_bit_def w_def q_def)
    ultimately show ?thesis using 4 wl(1) unfolding fw by auto
  qed
  then show ?thesis by (simp add: w_def q_def)
qed

lemma fill_bitmap_range_bits:
  assumes len: "len \<le> length bm" "32 * len < ULONG_RANGE" and clean: "bm_clean bm len n"
    and range: "n \<le> low" "low \<le> high" "low div 32 < len"
  defines "hb \<equiv> min high (32 * len - 1)"
  shows "\<exists>bm'. fill_bitmap_range low high bm len n = (high < 32 * len, bm', hb + 1)
    \<and> length bm' = length bm
    \<and> (\<forall>p < 32 * len. bm_bit bm' p \<longleftrightarrow> bm_bit bm p \<or> low \<le> p \<and> p \<le> hb)"
proof -
  obtain bm' where bm': "fill_bitmap_range low high bm len n = (high < 32 * len, bm', hb + 1)"
      "length bm' = length bm" "\<forall>w < len. bm' ! w = fill_word bm n low hb w"
    using fill_bitmap_range_words [OF len range] by (auto simp: hb_def)
  have "low < 32 * len" using range(3) by linarith
  then have "low \<le> hb" "hb < 32 * len" using range(2) by (auto simp: hb_def)
  then have "bm_bit bm' p \<longleftrightarrow> bm_bit bm p \<or> low \<le> p \<and> p \<le> hb" if "p < 32 * len" for p
    using fill_word_bit [OF clean range(1) _ _ that] bm'(3) that
    by (simp add: bm_bit_def [of bm'] less_mult_imp_div_less)
  then show ?thesis using bm'(1,2) by blast
qed

lemma fill_bitmap_range_full: "len \<le> low div 32 \<Longrightarrow> fill_bitmap_range low high bm len n = (False, bm, n)"
  by (simp add: fill_bitmap_range_def)

section \<open>to_bitmap\<close>

fun to_bitmap_loop ::
    "sequence_number \<Rightarrow> bool \<Rightarrow> range_set \<Rightarrow> ulong list \<Rightarrow> nat \<Rightarrow> nat \<Rightarrow> bool \<times> ulong list \<times> nat" where
  "to_bitmap_loop base invert (prev # it # rs) bitmap len num_bits =
     (let low = (if invert then nat ((hi prev + 1 - getValue base) mod 4294967296)
                 else nat ((lo it - getValue base) mod 4294967296));
          high = (if invert then nat ((lo it - 1 - getValue base) mod 4294967296)
                  else nat ((hi it - getValue base) mod 4294967296))
      in case fill_bitmap_range low high bitmap len num_bits of
           (False, bitmap', num_bits') \<Rightarrow> (False, bitmap', num_bits')
         | (True, bitmap', num_bits') \<Rightarrow> to_bitmap_loop base invert (it # rs) bitmap' len num_bits')"
| "to_bitmap_loop base invert rs bitmap len num_bits = (True, bitmap, num_bits)"

definition to_bitmap ::
    "range_set \<Rightarrow> ulong list \<Rightarrow> nat \<Rightarrow> bool \<Rightarrow> bool \<times> ulong list \<times> nat" where
  "to_bitmap rs bitmap len invert =
     (if \<not> disjoint_seq rs then (True, bitmap, 0)
      else to_bitmap_loop (sn_incr (cumulative_ack rs)) invert rs bitmap len 0)"

text \<open>The numbers whose bits the loop writes: the later ranges, or the gaps between the ranges.\<close>

definition bitmap_target :: "bool \<Rightarrow> range_set \<Rightarrow> int set" where
  "bitmap_target invert rs = (if invert then ds_ints (missing_loop rs) else ds_ints (tl rs))"

lemma bitmap_target_above:
  assumes "ds_inv (r # rs)" "x \<in> bitmap_target invert (r # rs)"
  shows "hi r < x"
proof (cases invert)
  case True
  then have "x \<in> {lo r .. hi (last (r # rs))} - ds_ints (r # rs)"
    using missing_loop_correct [OF assms(1) getValue_bounds(2)] assms(2)
    by (simp only: bitmap_target_def if_True)
  then show ?thesis by (auto simp: range_ints_def)
next
  case False
  then obtain t where "t \<in> set rs" "x \<in> range_ints t"
    using assms(2) unfolding bitmap_target_def ds_ints_def by auto
  then show ?thesis using assms(1) by (fastforce simp: apart_def range_ints_def)
qed

lemma bitmap_target_below:
  assumes "ds_inv (r # rs)" "x \<in> bitmap_target invert (r # rs)"
  shows "x \<le> hi (last (r # rs))"
proof (cases invert)
  case True
  then show ?thesis
    using missing_loop_correct [OF assms(1) getValue_bounds(2)] assms(2)
    by (simp only: bitmap_target_def if_True) auto
next
  case False
  then obtain t where t: "t \<in> set (r # rs)" "x \<in> range_ints t"
    using assms(2) unfolding bitmap_target_def ds_ints_def by auto
  then show ?thesis using ds_inv_hd_last(2) [OF assms(1) t(1)] by (simp add: range_ints_def)
qed

lemma bitmap_target_step:
  assumes "ds_inv (r # s # rs)"
  shows "bitmap_target invert (r # s # rs) =
    {(if invert then hi r + 1 else lo s) .. (if invert then lo s - 1 else hi s)}
    \<union> bitmap_target invert (s # rs)"
proof -
  have ap: "hi r + 1 < lo s" "lo r \<le> hi r" "0 \<le> lo r" using assms by (auto simp: apart_def)
  then have "getValue (sn_incr (snd r)) = hi r + 1" "getValue (previous (fst s)) = lo s - 1"
    using getValue_bounds(2) [of "fst s"] by (auto simp: sn_simps)
  then show ?thesis
    using ap by (auto simp: bitmap_target_def Let_def sn_simps range_ints_def)
qed

text \<open>The bits of the numbers \<open>T\<close> are set, and the flag says whether all of them had a place in the bitmap.\<close>

definition sets_bits :: "int \<Rightarrow> nat \<Rightarrow> int set \<Rightarrow> ulong list \<Rightarrow> bool \<Rightarrow> ulong list \<Rightarrow> bool" where
  "sets_bits b len T bm ok bm' \<longleftrightarrow>
     (\<forall>p < 32 * len. bm_bit bm' p \<longleftrightarrow> bm_bit bm p \<or> b + int p \<in> T) \<and> (ok \<longleftrightarrow> (\<forall>x \<in> T. x < b + 32 * int len))"

lemma sets_bits_none: "sets_bits b len {} bm True bm"
  by (simp add: sets_bits_def)

lemma sets_bits_next:
  "sets_bits b len T bm True bm1 \<Longrightarrow> sets_bits b len T' bm1 ok bm' \<Longrightarrow> sets_bits b len (T \<union> T') bm ok bm'"
  by (auto simp: sets_bits_def)

lemma sets_bits_stop:
  assumes "sets_bits b len T bm False bm'" "\<forall>x \<in> T. \<forall>y \<in> T'. x < y"
  shows "sets_bits b len (T \<union> T') bm False bm'"
proof -
  from assms(1) obtain x where x: "x \<in> T" "b + 32 * int len \<le> x" by (auto simp: sets_bits_def not_less)
  have "b + int p \<notin> T'" if "p < 32 * len" for p
    using assms(2) x that by (metis add_less_cancel_left int_int_eq less_asym less_le_trans nat_int_comparison(2) of_nat_mult of_nat_numeral)
  then show ?thesis using assms(1) by (auto simp: sets_bits_def)
qed

lemma fill_bitmap_range_sets:
  assumes range: "l \<le> h" "b \<le> l" "int n \<le> l - b" and clean: "bm_clean bm len n"
    and len: "len \<le> length bm" "32 * len < ULONG_RANGE"
  obtains ok bm' n' where "fill_bitmap_range (nat (l - b)) (nat (h - b)) bm len n = (ok, bm', n')"
    "length bm' = length bm" "sets_bits b len {l .. h} bm ok bm'"
    "ok \<Longrightarrow> n' = nat (h - b) + 1 \<and> bm_clean bm' len n'"
proof (cases "len \<le> nat (l - b) div 32")
  case True
  then have far: "b + 32 * int len \<le> l" using range(2) by linarith
  then have "sets_bits b len {l .. h} bm False bm" using range(1) by (auto simp: sets_bits_def intro!: bexI [of _ l])
  then show thesis by (intro that [OF fill_bitmap_range_full [OF True]]) simp_all
next
  case False
  define low where "low = nat (l - b)"
  define high where "high = nat (h - b)"
  let ?hb = "min high (32 * len - 1)"
  have lh: "int low = l - b" "int high = h - b" "n \<le> low" "low \<le> high" "low div 32 < len"
    using range False by (auto simp: low_def high_def)
  obtain bm' where bm': "fill_bitmap_range low high bm len n = (high < 32 * len, bm', ?hb + 1)" "length bm' = length bm"
      "\<forall>p < 32 * len. bm_bit bm' p \<longleftrightarrow> bm_bit bm p \<or> low \<le> p \<and> p \<le> ?hb"
    using fill_bitmap_range_bits [OF len clean lh(3-5)] by blast
  have pos: "b + int p \<in> {l .. h} \<longleftrightarrow> low \<le> p \<and> p \<le> high" for p using lh(1,2) by auto
  have "high < 32 * len \<longleftrightarrow> (\<forall>x \<in> {l .. h}. x < b + 32 * int len)" using lh(2) range(1) by (force dest: bspec [of _ _ h])
  moreover have "bm_bit bm' p \<longleftrightarrow> bm_bit bm p \<or> b + int p \<in> {l .. h}" if "p < 32 * len" for p
    using bm'(3) that unfolding pos by auto
  ultimately have "sets_bits b len {l .. h} bm (high < 32 * len) bm'" by (simp add: sets_bits_def)
  moreover have "?hb + 1 = high + 1 \<and> bm_clean bm' len (?hb + 1)" if "high < 32 * len"
    using bm'(3) clean lh(3,4) that by (auto simp: bm_clean_def)
  ultimately show thesis using that bm'(1,2) unfolding low_def high_def by blast
qed

lemma to_bitmap_loop_bits:
  assumes "ds_inv (r # rs)" and "b \<le> hi r + 1" and "hi (last (r # rs)) - b < 4294967296"
    and "b = getValue base" and "int n \<le> hi r + 1 - b"
    and "bm_clean bm len n" and "len \<le> length bm" "32 * len < ULONG_RANGE"
  shows "\<exists>ok bm' n'. to_bitmap_loop base invert (r # rs) bm len n = (ok, bm', n')
    \<and> sets_bits b len (bitmap_target invert (r # rs)) bm ok bm'"
  using assms
proof (induction rs arbitrary: r bm n)
  case Nil
  then show ?case using sets_bits_none [of b len bm] by (auto simp: bitmap_target_def)
next
  case (Cons s rs)
  define l where "l = (if invert then hi r + 1 else lo s)"
  define h where "h = (if invert then lo s - 1 else hi s)"
  let ?T = "bitmap_target invert (s # rs)"
  have ap: "hi r + 1 < lo s" "lo s \<le> hi s" using Cons.prems(1) by (auto simp: apart_def)
  have inv': "ds_inv (s # rs)" using Cons.prems(1) by simp
  have lh: "l \<le> h" "b \<le> l" "int n \<le> l - b" "h \<le> hi s"
    using Cons.prems(2,5) ap by (auto simp: l_def h_def)
  have "h - b < 4294967296" using lh(4) ds_inv_hd_last(2) [OF inv', of s] Cons.prems(3) by simp
  then have "(l - b) mod 4294967296 = l - b" "(h - b) mod 4294967296 = h - b"
    using lh(1,2) by (intro mod_pos_pos_trivial; linarith)+
  then have loop: "to_bitmap_loop base invert (r # s # rs) bm len n =
      (case fill_bitmap_range (nat (l - b)) (nat (h - b)) bm len n of
           (False, bm', n') \<Rightarrow> (False, bm', n')
         | (True, bm', n') \<Rightarrow> to_bitmap_loop base invert (s # rs) bm' len n')"
    using Cons.prems(4) by (auto simp: l_def h_def Let_def)
  have T: "bitmap_target invert (r # s # rs) = {l .. h} \<union> ?T"
    unfolding l_def h_def by (rule bitmap_target_step [OF Cons.prems(1)])
  obtain ok bm1 n1 where fill: "fill_bitmap_range (nat (l - b)) (nat (h - b)) bm len n = (ok, bm1, n1)"
      "length bm1 = length bm" "sets_bits b len {l .. h} bm ok bm1" "ok \<Longrightarrow> n1 = nat (h - b) + 1 \<and> bm_clean bm1 len n1"
    by (rule fill_bitmap_range_sets [OF lh(1-3) Cons.prems(6-8)]) blast
  show ?case
  proof (cases ok)
    case True
    have "b \<le> hi s + 1" "int n1 \<le> hi s + 1 - b" using fill(4) True lh ap Cons.prems(2) by auto
    then obtain ok' bm' n' where "to_bitmap_loop base invert (s # rs) bm1 len n1 = (ok', bm', n')" "sets_bits b len ?T bm1 ok' bm'"
      using Cons.IH [OF inv' _ _ Cons.prems(4), of n1 bm1] Cons.prems(3,7,8) fill(2,4) True by auto
    then show ?thesis using fill(1,3) True sets_bits_next unfolding loop T by fastforce
  next
    case False
    have "\<forall>x \<in> {l .. h}. \<forall>y \<in> ?T. x < y" using bitmap_target_above [OF inv'] lh(4) by fastforce
    with fill(3) False have "sets_bits b len ({l .. h} \<union> ?T) bm False bm1" by (intro sets_bits_stop) simp_all
    then show ?thesis using fill(1) False unfolding loop T by auto
  qed
qed

lemma bitmap_target_wanted:
  assumes inv: "ds_inv (r # rs)"
  shows "bitmap_target invert (r # rs) =
    (if invert then {hi r + 1 .. hi (last (r # rs))} - ds_ints (r # rs)
     else {hi r + 1 ..} \<inter> ds_ints (r # rs))"
proof (cases invert)
  case True
  have "lo r \<le> hi r" using inv by simp
  then show ?thesis
    using True missing_loop_correct [OF inv getValue_bounds(2)]
    by (auto simp: bitmap_target_def range_ints_def)
next
  case False
  then show ?thesis
    using bitmap_target_above [OF inv, of _ False] by (fastforce simp: bitmap_target_def range_ints_def)
qed

section \<open>Properties of the bitmap writers\<close>

text \<open>
  \<open>fill_bitmap_range\<close> on a bitmap that is clear from \<open>num_bits\<close> on: the bits of the range,
  clamped to the array, are set and every other bit is as before; \<open>num_bits\<close> becomes one more than
  the last bit written and the result tells whether the whole range fitted.
\<close>

theorem fill_bitmap_range_correct:
  assumes "len \<le> length bm" and "32 * len < ULONG_RANGE" and "bm_clean bm len n"
    and "n \<le> low" and "low \<le> high" and "low < 32 * len"
  shows "\<exists>bm'. fill_bitmap_range low high bm len n = (high < 32 * len, bm', min high (32 * len - 1) + 1)
    \<and> (\<forall>p < 32 * len. bm_bit bm' p \<longleftrightarrow> bm_bit bm p \<or> low \<le> p \<and> p \<le> high)"
  using fill_bitmap_range_bits [OF assms(1-5)] assms(6) by (auto simp: less_mult_imp_div_less)

theorem fill_bitmap_range_correct_witness:
  "\<exists>bm'. fill_bitmap_range 3 70 [0, 0] 2 0 = (70 < 32 * (2::nat), bm', min 70 (32 * 2 - 1) + 1)
    \<and> (\<forall>p < 32 * 2. bm_bit bm' p \<longleftrightarrow> bm_bit [0, 0] p \<or> 3 \<le> p \<and> p \<le> 70)"
  by (rule fill_bitmap_range_correct)
    (auto simp: bm_clean_def bm_bit_def nth_Cons split: nat.splits)



section \<open>Reading bitmaps\<close>

text \<open>
  \<open>insert_bitmap_range(iter, range)\<close>: the result is the returned flag, the new set and the updated
  iterator. A \<open>Value\<close> compared with a sequence number is converted by \<open>setValue\<close>.
\<close>

definition skip_below :: "range_set \<Rightarrow> nat \<Rightarrow> sequence_number \<Rightarrow> nat" where
  "skip_below rs i v = i + length (takeWhile (\<lambda>x. snd x < v) (drop i rs))"

definition insert_bitmap_range ::
    "range_set \<Rightarrow> nat \<Rightarrow> sequence_range \<Rightarrow> bool \<times> range_set \<times> nat" where
  "insert_bitmap_range rs iter r =
     (let previous_v = getValue (fst r) - 1; next_v = getValue (snd r) + 1;
          iter = (if rs = [] then iter
                  else if iter = length rs then lower_bound rs (SN 1, SN previous_v)
                  else skip_below rs iter (SN previous_v))
      in if iter = length rs \<or> SN next_v < fst (rs ! iter)
         then (True, set_insert r rs, lower_bound (set_insert r rs) r)
         else if fst (rs ! iter) \<le> fst r \<and> snd r \<le> snd (rs ! iter) then (False, rs, iter)
         else
           let right = skip_below rs iter (SN next_v);
               grow = (right < length rs \<and> fst (rs ! right) \<le> SN next_v \<and> fst r < fst (rs ! right));
               high = (if grow then snd (rs ! right) else snd r);
               right = (if grow then Suc right else right);
               low = min (fst (rs ! iter)) (fst r);
               rs' = set_insert (low, high) (set_erase rs iter right)
           in (True, rs', lower_bound rs' (low, high)))"

text \<open>
  The loop of \<open>insert(value, num_bits, bits)\<close>. Its state are the loop counters \<open>i\<close> and \<open>bit\<close>, the
  word \<open>x\<close>, the start of the current run of ones (0 for none), the set, the iterator and the flag
  \<open>inserted\<close>. The skip ahead can move \<open>i\<close> by any 32-bit amount, so the loop is bounded by fuel;
  \<open>None\<close> stands for running out of it. Reading \<open>bits\<close> past its end is \<open>out_of_bounds\<close>.
\<close>

record bitmap_state =
  bs_i :: ulong
  bs_bit :: ulong
  bs_x :: ulong
  bs_start :: int
  bs_seqs :: range_set
  bs_iter :: nat
  bs_inserted :: bool

definition read_word :: "ulong list \<Rightarrow> ulong \<Rightarrow> ds_error + ulong" where
  "read_word bits k = (if unat k < length bits then Inr (bits ! unat k) else Inl out_of_bounds)"

text \<open>The branch for a 0 bit after a run of ones.\<close>

definition close_run :: "int \<Rightarrow> ulong list \<Rightarrow> bitmap_state \<Rightarrow> ds_error + bitmap_state" where
  "close_run val bits st =
     (let to_insert = val + uint (bs_i st) - 1 in
      case insert_bitmap_range (bs_seqs st) (bs_iter st) (SN (bs_start st), SN to_insert) of
        (b, rs, iter) \<Rightarrow>
          let st = st\<lparr>bs_seqs := rs, bs_iter := iter, bs_inserted := bs_inserted st \<or> b, bs_start := 0\<rparr>
          in if iter < length rs \<and> getValue (snd (rs ! iter)) \<noteq> to_insert
             then let next_i = (word_of_int (getValue (snd (rs ! iter)) - val) :: ulong)
                  in if next_i div 32 \<noteq> bs_i st div 32
                     then (case read_word bits (next_i div 32) of
                             Inl e \<Rightarrow> Inl e
                           | Inr x \<Rightarrow> Inr (st\<lparr>bs_bit := next_i mod 32, bs_x := x, bs_i := next_i\<rparr>))
                     else Inr (st\<lparr>bs_bit := next_i mod 32, bs_i := next_i\<rparr>)
             else Inr st)"

text \<open>One iteration, without the \<open>++i, ++bit\<close> of the loop header.\<close>

definition bitmap_step :: "int \<Rightarrow> ulong list \<Rightarrow> bitmap_state \<Rightarrow> ds_error + bitmap_state" where
  "bitmap_step val bits st =
     (let st = (if bs_bit st = 32 then st\<lparr>bs_bit := 0\<rparr> else st) in
      case (if bs_bit st = 0 then read_word bits (bs_i st div 32) else Inr (bs_x st)) of
        Inl e \<Rightarrow> Inl e
      | Inr x \<Rightarrow>
          let st = st\<lparr>bs_x := x\<rparr> in
          if bs_bit st = 0 \<and> x = 0 then Inr (st\<lparr>bs_i := bs_i st + 31, bs_bit := 31\<rparr>)
          else if x AND push_bit (unat (31 - bs_bit st)) 1 \<noteq> 0
          then Inr (if bs_start st = 0 then st\<lparr>bs_start := val + uint (bs_i st)\<rparr> else st)
          else if bs_start st \<noteq> 0 then close_run val bits st
          else Inr st)"

fun bitmap_loop :: "nat \<Rightarrow> int \<Rightarrow> ulong \<Rightarrow> ulong list \<Rightarrow> bitmap_state \<Rightarrow> (ds_error + bitmap_state) option" where
  "bitmap_loop 0 val num_bits bits st = None"
| "bitmap_loop (Suc fuel) val num_bits bits st =
     (if bs_i st < num_bits
      then (case bitmap_step val bits st of
              Inl e \<Rightarrow> Some (Inl e)
            | Inr st' \<Rightarrow>
                bitmap_loop fuel val num_bits bits (st'\<lparr>bs_i := bs_i st' + 1, bs_bit := bs_bit st' + 1\<rparr>))
      else Some (Inr st))"

definition insert_bitmap ::
    "nat \<Rightarrow> range_set \<Rightarrow> sequence_number \<Rightarrow> ulong \<Rightarrow> ulong list \<Rightarrow> (ds_error + (bool \<times> range_set)) option" where
  "insert_bitmap fuel rs value num_bits bits =
     (case bitmap_loop fuel (getValue value) num_bits bits
             \<lparr>bs_i = 0, bs_bit = 0, bs_x = 0, bs_start = 0, bs_seqs = rs, bs_iter = length rs,
              bs_inserted = False\<rparr> of
        None \<Rightarrow> None
      | Some (Inl e) \<Rightarrow> Some (Inl e)
      | Some (Inr st) \<Rightarrow>
          if bs_start st \<noteq> 0
          then (case insert_bitmap_range (bs_seqs st) (bs_iter st)
                       (SN (bs_start st), previous (sn_add value (sint num_bits))) of
                  (b, rs', _) \<Rightarrow> Some (Inr (b \<or> bs_inserted st, rs')))
          else Some (Inr (bs_inserted st, bs_seqs st)))"

section \<open>The bitmap insert and the plain insert agree\<close>

lemma takeWhile_length_eqI:
  assumes "k \<le> length xs" "\<And>i. i < k \<Longrightarrow> P (xs ! i)" "k < length xs \<Longrightarrow> \<not> P (xs ! k)"
  shows "length (takeWhile P xs) = k"
proof -
  have "takeWhile P xs = take k xs" using assms by (intro takeWhile_eq_take_P_nth) auto
  then show ?thesis using assms(1) by simp
qed

lemma skip_below_eqI:
  assumes "i \<le> k" "k \<le> length rs" "\<And>j. i \<le> j \<Longrightarrow> j < k \<Longrightarrow> snd (rs ! j) < v"
    and "k < length rs \<Longrightarrow> v \<le> snd (rs ! k)"
  shows "skip_below rs i v = k"
proof -
  have "length (takeWhile (\<lambda>x. snd x < v) (drop i rs)) = k - i"
    using assms by (intro takeWhile_length_eqI) (auto simp: not_less)
  then show ?thesis using assms(1) by (simp add: skip_below_def)
qed

text \<open>An iterator from which the search for the place of \<open>r\<close> may start.\<close>

definition iter_ok :: "range_set \<Rightarrow> nat \<Rightarrow> sequence_range \<Rightarrow> bool" where
  "iter_ok rs iter r \<longleftrightarrow> iter \<le> length rs \<and> (iter < length rs \<longrightarrow> (\<forall>i < iter. hi (rs ! i) < lo r - 1))"

lemma bitmap_start:
  assumes "storable r" "1 < lo r" "ds_inv rs" "iter_ok rs iter r"
  shows "(if rs = [] then iter
          else if iter = length rs then lower_bound rs (SN 1, SN (lo r - 1))
          else skip_below rs iter (SN (lo r - 1))) = ins_below rs r"
proof -
  have v: "getValue (SN (lo r - 1)) = lo r - 1"
    using assms(1,2) by (simp add: storable_def sn_simps)
  have b: "ins_below rs r = lower_bound rs (SN 1, SN (lo r - 1))" using assms(2) by (simp add: ins_below_def)
  have "skip_below rs iter (SN (lo r - 1)) = ins_below rs r" if "iter < length rs"
  proof (rule skip_below_eqI)
    show "iter \<le> ins_below rs r"
    proof (rule ccontr)
      assume "\<not> ?thesis"
      then have "ins_below rs r < iter" by simp
      then show False
        using ins_below_ge [OF assms(1,3) order.refl] assms(4) that by (force simp: iter_ok_def)
    qed
    show "ins_below rs r \<le> length rs" by (simp add: b lower_bound_le)
    show "snd (rs ! j) < SN (lo r - 1)" if "j < ins_below rs r" for j
      using ins_below_less [OF assms(1) that] assms(2) by (simp add: sn_less_iff v)
    show "SN (lo r - 1) \<le> snd (rs ! ins_below rs r)" if "ins_below rs r < length rs"
      using ins_below_ge [OF assms(1,3) order.refl that] by (simp add: sn_le_iff v)
  qed
  then show ?thesis
    using b assms(4) by (auto simp: iter_ok_def lower_bound_def)
qed

text \<open>The search for the right-most range to combine.\<close>

lemma bitmap_right:
  assumes "storable r" "ds_inv rs" and nc: "\<not> (lower_bound rs r < length rs \<and> fst (rs ! lower_bound rs r) \<le> fst r)"
  defines "q \<equiv> skip_below rs (ins_below rs r) (SN (hi r + 1))"
  defines "grow \<equiv> q < length rs \<and> fst (rs ! q) \<le> SN (hi r + 1) \<and> fst r < fst (rs ! q)"
  shows "(if grow then Suc q else q) = ins_above rs r"
    and "(if grow then snd (rs ! q) else snd r) = hull_second r (ins_middle rs r)"
proof -
  define k where "k = lower_bound rs r"
  have v: "getValue (SN (hi r + 1)) = hi r + 1" "sn_incr (snd r) = SN (hi r + 1)"
    using assms(1) by (auto simp: storable_def sn_simps simp flip: getValue_eq_iff)
  have bk: "ins_below rs r \<le> k" "k \<le> length rs"
    using ins_below_lower [OF assms(1)] lower_bound_le by (auto simp: k_def)
  have ge: "hi r \<le> hi (rs ! i)" if "k \<le> i" "i < length rs" for i
    using lower_bound_ge [OF assms(2)] that by (simp add: k_def)
  have sec: "(if k < length rs \<and> fst (rs ! k) \<le> SN (hi r + 1) then snd (rs ! k) else snd r)
      = hull_second r (ins_middle rs r)"
    using new_second_hull [OF assms(1,2)] unfolding k_def v .
  have ab: "ins_above rs r = (if k < length rs \<and> fst (rs ! k) \<le> SN (hi r + 1) then Suc k else k)"
    by (simp add: ins_above_def k_def v Let_def)
  have less: "snd (rs ! j) < SN (hi r + 1)" if "j < k" for j
    using lower_bound_less [of j rs r] that by (simp add: k_def sn_less_iff v)
  have "(if grow then Suc q else q) = ins_above rs r
    \<and> (if grow then snd (rs ! q) else snd r) = hull_second r (ins_middle rs r)"
  proof (cases "k < length rs \<and> hi (rs ! k) = hi r")
    case True
    have up: "hi r + 1 < lo (rs ! Suc k) \<and> lo (rs ! Suc k) \<le> hi (rs ! Suc k)" if "Suc k < length rs"
      using ds_inv_nth_apart [OF assms(2), of k "Suc k"] ds_inv_nth [OF assms(2) that] that True by simp
    have "q = Suc k"
      unfolding q_def
    proof (rule skip_below_eqI)
      show "snd (rs ! j) < SN (hi r + 1)" if "j < Suc k" for j
        using that True less [of j] by (cases "j = k") (auto simp: sn_less_iff v)
      show "SN (hi r + 1) \<le> snd (rs ! Suc k)" if "Suc k < length rs"
        using up [OF that] by (simp add: sn_le_iff v)
    qed (use bk True in auto)
    moreover from this have "\<not> grow" using up by (auto simp: grow_def sn_le_iff v)
    moreover have "fst (rs ! k) \<le> SN (hi r + 1)" "snd (rs ! k) = snd r"
      using ds_inv_nth [OF assms(2), of k] True by (auto simp: sn_le_iff v simp flip: getValue_eq_iff)
    ultimately show ?thesis using sec ab True by simp
  next
    case False
    have "q = k"
      unfolding q_def
      by (rule skip_below_eqI) (use bk less ge [OF order.refl] False in \<open>auto simp: sn_le_iff v\<close>)
    moreover from this have "grow \<longleftrightarrow> k < length rs \<and> fst (rs ! k) \<le> SN (hi r + 1)"
      using nc by (auto simp: grow_def k_def)
    ultimately show ?thesis using sec ab by (auto split: if_splits)
  qed
  then show "(if grow then Suc q else q) = ins_above rs r"
    and "(if grow then snd (rs ! q) else snd r) = hull_second r (ins_middle rs r)" by simp_all
qed

lemma covered_at_below:
  assumes "storable r" "ds_inv rs" "lower_bound rs r < length rs" "fst (rs ! lower_bound rs r) \<le> fst r"
  shows "lower_bound rs r = ins_below rs r"
proof (rule ccontr)
  assume "\<not> ?thesis"
  then have "ins_below rs r < lower_bound rs r" using ins_below_lower [OF assms(1), of rs] by simp
  then show False
    using ds_inv_nth_apart [OF assms(2) _ assms(3)] ins_below_ge [OF assms(1,2) order.refl] assms(3,4)
    by (force simp: sn_le_iff)
qed

lemma set_insert_at:
  assumes "ds_inv (L @ h # R)"
  shows "lower_bound (L @ h # R) h = length L"
proof (unfold lower_bound_def, rule takeWhile_length_eqI)
  fix i assume "i < length L"
  then have "apart (L ! i) h" "lo h \<le> hi h" using assms by simp_all
  then show "SequenceRange_LessThan ((L @ h # R) ! i) h"
    using \<open>i < length L\<close> by (simp add: nth_append SequenceRange_LessThan_def apart_def sn_less_iff)
qed (simp_all add: SequenceRange_LessThan_def nth_append)

lemma insert_bitmap_range_cases:
  assumes "storable r" "1 < lo r" "ds_inv rs" "iter_ok rs iter r"
  defines "k \<equiv> lower_bound rs r"
  defines "h \<equiv> (hull_first r (ins_middle rs r), hull_second r (ins_middle rs r))"
  defines "rs' \<equiv> set_insert h (set_erase rs (ins_below rs r) (ins_above rs r))"
  shows "insert_bitmap_range rs iter r =
    (if k < length rs \<and> fst (rs ! k) \<le> fst r then (False, rs, k) else (True, rs', lower_bound rs' h))"
proof -
  define b where "b = ins_below rs r"
  have v: "getValue (SN (hi r + 1)) = hi r + 1"
    using assms(1) by (simp add: storable_def sn_simps)
  have b: "b \<le> k" "b \<le> length rs" "b \<le> ins_above rs r"
    using ins_below_lower [OF assms(1), of rs] lower_bound_le [of rs] ins_below_above [OF assms(1), of rs]
    by (auto simp: k_def b_def ins_below_def)
  note start = bitmap_start [OF assms(1-4), folded b_def]
  show ?thesis
  proof (cases "b = length rs \<or> SN (hi r + 1) < fst (rs ! b)")
    case True
    then have "ins_above rs r = b"
      using ins_above_less [OF assms(1,3), of b] ins_above_le [of rs r] b by (force simp: sn_less_iff v)
    moreover from this have "ins_middle rs r = []" using length_ins_middle [of rs r] by (simp add: b_def)
    ultimately have "rs' = set_insert r rs" "h = r"
      by (simp_all add: rs'_def h_def hull_first_def hull_second_def set_erase_def b_def)
    moreover have "\<not> (k < length rs \<and> fst (rs ! k) \<le> fst r)"
      using covered_at_below [OF assms(1,3)] True assms(1) by (force simp: k_def b_def sn_simps v storable_def)
    ultimately show ?thesis
      using True by (simp add: insert_bitmap_range_def Let_def start)
  next
    case False
    then have b': "b < length rs" "\<not> SN (hi r + 1) < fst (rs ! b)" using b by auto
    show ?thesis
    proof (cases "k < length rs \<and> fst (rs ! k) \<le> fst r")
      case True
      then have "k = b" using covered_at_below [OF assms(1,3)] by (simp add: k_def b_def)
      moreover have "snd r \<le> snd (rs ! k)"
        using lower_bound_ge [OF assms(3) order.refl, of r] True by (simp add: k_def sn_le_iff)
      ultimately show ?thesis
        using True b' by (simp add: insert_bitmap_range_def Let_def start)
    next
      case nc: False
      have "\<not> (fst (rs ! b) \<le> fst r \<and> snd r \<le> snd (rs ! b))"
      proof
        assume c: "fst (rs ! b) \<le> fst r \<and> snd r \<le> snd (rs ! b)"
        then have "range_ints r \<subseteq> ds_ints rs"
          using b'(1) by (fastforce simp: ds_ints_nth range_ints_def sn_simps)
        then show False using nc covered_iff [OF assms(1,3)] by (simp add: k_def)
      qed
      moreover have "min (fst (rs ! b)) (fst r) = hull_first r (ins_middle rs r)"
        using new_first_hull [OF assms(1,3)] b' by (auto simp: b_def min_def split: if_splits)
      ultimately show ?thesis
        using nc b' bitmap_right [OF assms(1,3) nc [unfolded k_def], folded b_def]
        unfolding insert_bitmap_range_def Let_def start
        by (simp add: h_def rs'_def b_def)
    qed
  qed
qed

text \<open>
  (C25) \<open>insert_bitmap_range\<close>, which starts its search at an iterator of an earlier call, has the
  effect and the result of the plain insert of the same range, and leaves the iterator at the element
  that now holds the range.
\<close>

theorem insert_bitmap_range_equiv:
  assumes "ds_inv rs" and "storable r" and "1 < lo r" and "iter_ok rs iter r"
  shows "\<exists>b rs' it. insert_bitmap_range rs iter r = (b, rs', it) \<and> insert_range rs r = Inr (b, rs')
    \<and> it < length rs' \<and> range_ints r \<subseteq> range_ints (rs' ! it)"
proof (cases "lower_bound rs r < length rs \<and> fst (rs ! lower_bound rs r) \<le> fst r")
  case True
  then have "insert_bitmap_range rs iter r = (False, rs, lower_bound rs r)"
    using insert_bitmap_range_cases [OF assms(2,3,1,4)] by simp
  moreover have "insert_range rs r = Inr (False, rs)"
    using True assms by (simp add: insert_range_def insert_i_no_gaps)
  ultimately show ?thesis
    using True lower_bound_ge [OF assms(1) order.refl, of r] by (auto simp: range_ints_def sn_le_iff)
next
  case False
  define h where "h = (hull_first r (ins_middle rs r), hull_second r (ins_middle rs r))"
  define rs' where "rs' = set_insert h (set_erase rs (ins_below rs r) (ins_above rs r))"
  have "insert_bitmap_range rs iter r = (True, rs', lower_bound rs' h)"
    using False insert_bitmap_range_cases [OF assms(2,3,1,4)] by (simp add: rs'_def h_def)
  moreover have "insert_range rs r = Inr (True, rs')"
    using False assms by (simp add: insert_range_def insert_i_no_gaps rs'_def h_def)
  moreover have "rs' = take (ins_below rs r) rs @ h # drop (ins_above rs r) rs"
    and "ds_inv rs'"
    using ins_merge_eq [OF assms(2,1)] ins_merge [OF assms(2,1)] by (simp_all add: h_def rs'_def)
  moreover from this have "rs' ! lower_bound rs' h = h" "lower_bound rs' h < length rs'"
    using set_insert_at [of "take (ins_below rs r) rs" h "drop (ins_above rs r) rs"]
    by (simp_all add: nth_append)
  moreover have "range_ints r \<subseteq> range_ints h"
    using hull_bounds [of r "ins_middle rs r"] assms(2) by (auto simp: range_ints_def h_def storable_def)
  ultimately show ?thesis by auto
qed

theorem insert_bitmap_range_equiv_witness:
  "\<exists>b rs' it. insert_bitmap_range [(SN 1, SN 2), (SN 5, SN 6), (SN 9, SN 9)] 1 (SN 7, SN 8) = (b, rs', it)
    \<and> insert_range [(SN 1, SN 2), (SN 5, SN 6), (SN 9, SN 9)] (SN 7, SN 8) = Inr (b, rs')
    \<and> it < length rs' \<and> range_ints (SN 7, SN 8) \<subseteq> range_ints (rs' ! it)"
  by (rule insert_bitmap_range_equiv)
    (simp_all add: apart_def storable_def iter_ok_def getValue_SN MAX_VALUE_def)

text \<open>
  What \<open>insert(value, num_bits, bits)\<close> does on concrete bitmaps. Separate runs of ones are
  inserted as separate ranges. A run that reaches the end of a word is not closed by a following word
  of zeros: the skip of the zero word keeps the run open, and the missing numbers 132 to 163 are
  inserted as well. When the set already covers more than the bitmap, the skip ahead reads the bitmap
  beyond its end.
\<close>

theorem insert_bitmap_examples:
  "insert_bitmap 100 [] (SN 100) 8 [0xA6000000]
     = Some (Inr (True, [(SN 100, SN 100), (SN 102, SN 102), (SN 105, SN 106)]))
   \<and> insert_bitmap 100 [] (SN 100) 64 [1, 0] = Some (Inr (True, [(SN 131, SN 163)]))
   \<and> insert_bitmap 100 [(SN 1, SN 1000)] (SN 100) 32 [0x80000000] = Some (Inl out_of_bounds)"
  by (intro conjI) code_simp+

text \<open>
  The skip ahead stores the distance to the end of the covering range in a 32-bit counter. With a
  covering range of more than \<open>2 ^ 32\<close> numbers the counter can move backwards: the loop then reads
  the same bits again and again.
\<close>

definition cyc :: "ulong \<Rightarrow> int \<Rightarrow> nat \<Rightarrow> ulong \<Rightarrow> bitmap_state" where
  "cyc i start iter x = \<lparr>bs_i = i, bs_bit = i, bs_x = x, bs_start = start,
     bs_seqs = [(SN 1, SN 4294967297)], bs_iter = iter, bs_inserted = False\<rparr>"

lemma cyc_update: "(cyc i start iter x)\<lparr>bs_i := j, bs_bit := j\<rparr> = cyc j start iter x"
  by (simp add: cyc_def)

lemma cyc_select: "bs_i (cyc i start iter x) = i" "bs_bit (cyc i start iter x) = i"
  by (simp_all add: cyc_def)

lemma cyc_advance:
  assumes "bitmap_step 1 [0xA0000000] (cyc i start iter x) = Inr (cyc j start' iter' x')" and "i < 8"
  shows "bitmap_loop (Suc fuel) 1 8 [0xA0000000] (cyc i start iter x)
    = bitmap_loop fuel 1 8 [0xA0000000] (cyc (j + 1) start' iter' x')"
  using assms by (simp add: cyc_select cyc_update)

lemma cyc_steps:
  "bitmap_step 1 [0xA0000000] (cyc 0 0 (Suc 0) 0) = Inr (cyc 0 1 (Suc 0) 0xA0000000)"
  "bitmap_step 1 [0xA0000000] (cyc 1 1 (Suc 0) 0xA0000000) = Inr (cyc 0 0 0 0xA0000000)"
  "bitmap_step 1 [0xA0000000] (cyc 1 0 0 0xA0000000) = Inr (cyc 1 0 0 0xA0000000)"
  "bitmap_step 1 [0xA0000000] (cyc 2 0 0 0xA0000000) = Inr (cyc 2 3 0 0xA0000000)"
  "bitmap_step 1 [0xA0000000] (cyc 3 3 0 0xA0000000) = Inr (cyc 0 0 0 0xA0000000)"
  by code_simp+

lemmas cyc_loop = cyc_steps [THEN cyc_advance]

lemma cycling_forever:
  "bitmap_loop fuel 1 8 [0xA0000000] (cyc 1 0 0 0xA0000000) = None
   \<and> bitmap_loop fuel 1 8 [0xA0000000] (cyc 2 0 0 0xA0000000) = None
   \<and> bitmap_loop fuel 1 8 [0xA0000000] (cyc 3 3 0 0xA0000000) = None"
  by (induction fuel) (simp_all add: cyc_loop del: bitmap_loop.simps(2))


end
