(* ===== verification/Qos_Policies.thy ===== *)
theory Qos_Policies
  imports DDS_Prelude
begin

text \<open>
  The quality-of-service policies of \<open>src/dds/DdsDcpsInfrastructure.idl\<close> and their comparison
  operators of \<open>src/dds/DCPS/Qos_Helper.inl\<close>. IDL structures are records, enumerations datatypes
  whose order is the order of their members. A \<open>long\<close> field is an \<open>int\<close>: such fields are compared and
  copied only, so the 32-bit range plays no role; \<open>nanosec\<close>, which is also subtracted, is a word.
  The build is the default one, in which no profile is compiled out.
\<close>

section \<open>Durations\<close>

text \<open>\<open>Duration_t\<close> is a datatype, so that the operators of the source make it a linear order.\<close>

datatype Duration_t = Duration_t (sec: int) (nanosec: ulong)

definition DURATION_INFINITE_SEC :: int where "DURATION_INFINITE_SEC = 0x7fffffff"
definition DURATION_INFINITE_NSEC :: ulong where "DURATION_INFINITE_NSEC = 0x7fffffff"

definition DDS_DURATION_INFINITY :: Duration_t where
  "DDS_DURATION_INFINITY = Duration_t DURATION_INFINITE_SEC DURATION_INFINITE_NSEC"

definition duration_eq :: "Duration_t \<Rightarrow> Duration_t \<Rightarrow> bool" where
  "duration_eq t1 t2 \<longleftrightarrow> sec t1 = sec t2 \<and> nanosec t1 = nanosec t2"

definition duration_less :: "Duration_t \<Rightarrow> Duration_t \<Rightarrow> bool" where
  "duration_less t1 t2 \<longleftrightarrow>
     \<not> duration_eq t1 DDS_DURATION_INFINITY
     \<and> (duration_eq t2 DDS_DURATION_INFINITY
        \<or> sec t1 < sec t2
        \<or> sec t1 = sec t2 \<and> nanosec t1 < nanosec t2)"

definition duration_less_eq :: "Duration_t \<Rightarrow> Duration_t \<Rightarrow> bool" where
  "duration_less_eq t1 t2 \<longleftrightarrow> \<not> duration_less t2 t1"

definition duration_greater :: "Duration_t \<Rightarrow> Duration_t \<Rightarrow> bool" where
  "duration_greater t1 t2 \<longleftrightarrow> duration_less t2 t1"

definition duration_greater_eq :: "Duration_t \<Rightarrow> Duration_t \<Rightarrow> bool" where
  "duration_greater_eq t1 t2 \<longleftrightarrow> duration_less_eq t2 t1"

lemma duration_eq_iff [simp]: "duration_eq t1 t2 \<longleftrightarrow> t1 = t2"
  by (auto simp: duration_eq_def Duration_t.expand)

instantiation Duration_t :: linorder
begin

definition less_Duration_t :: "Duration_t \<Rightarrow> Duration_t \<Rightarrow> bool" where
  "less_Duration_t t1 t2 \<longleftrightarrow> duration_less t1 t2"

definition less_eq_Duration_t :: "Duration_t \<Rightarrow> Duration_t \<Rightarrow> bool" where
  "less_eq_Duration_t t1 t2 \<longleftrightarrow> duration_less_eq t1 t2"

instance
proof
  fix x y z :: Duration_t
  show "(x < y) = (x \<le> y \<and> \<not> y \<le> x)" "x \<le> x" "x \<le> y \<or> y \<le> x"
    by (auto simp: less_Duration_t_def less_eq_Duration_t_def duration_less_eq_def duration_less_def)
  show "x \<le> y \<Longrightarrow> y \<le> z \<Longrightarrow> x \<le> z"
    by (cases "z = DDS_DURATION_INFINITY")
      (auto simp: less_eq_Duration_t_def duration_less_eq_def duration_less_def not_less)
  show "x \<le> y \<Longrightarrow> y \<le> x \<Longrightarrow> x = y"
    by (auto simp: less_eq_Duration_t_def duration_less_eq_def duration_less_def not_less
        intro: Duration_t.expand)
qed

end

lemma duration_infinity_top: "t \<le> DDS_DURATION_INFINITY"
  by (simp add: less_eq_Duration_t_def duration_less_eq_def duration_less_def)

section \<open>Points in time\<close>

record Time_t =
  time_sec :: int
  time_nanosec :: ulong

definition TIME_INVALID_SEC :: int where "TIME_INVALID_SEC = - 1"
definition TIME_INVALID_NSEC :: ulong where "TIME_INVALID_NSEC = 0xffffffff"
definition NSECS_IN_SEC :: ulong where "NSECS_IN_SEC = 1000000000"

text \<open>The operator \<open>!\<close>: whether the time is invalid.\<close>

definition time_not :: "Time_t \<Rightarrow> bool" where
  "time_not t \<longleftrightarrow> time_sec t = TIME_INVALID_SEC \<or> time_nanosec t = TIME_INVALID_NSEC"

definition time_less :: "Time_t \<Rightarrow> Time_t \<Rightarrow> bool" where
  "time_less t1 t2 \<longleftrightarrow>
     (if time_not t1 \<or> time_not t2 then False
      else time_sec t1 < time_sec t2
        \<or> time_sec t1 = time_sec t2 \<and> time_nanosec t1 < time_nanosec t2)"

definition time_eq :: "Time_t \<Rightarrow> Time_t \<Rightarrow> bool" where
  "time_eq t1 t2 \<longleftrightarrow> \<not> time_less t1 t2 \<and> \<not> time_less t2 t1"

definition time_less_eq :: "Time_t \<Rightarrow> Time_t \<Rightarrow> bool" where
  "time_less_eq t1 t2 \<longleftrightarrow> \<not> time_less t2 t1"

definition time_greater :: "Time_t \<Rightarrow> Time_t \<Rightarrow> bool" where
  "time_greater t1 t2 \<longleftrightarrow> time_less t2 t1"

definition time_greater_eq :: "Time_t \<Rightarrow> Time_t \<Rightarrow> bool" where
  "time_greater_eq t1 t2 \<longleftrightarrow> time_less_eq t2 t1"

definition time_minus :: "Time_t \<Rightarrow> Time_t \<Rightarrow> Time_t" where
  "time_minus t1 t2 =
     (let t = \<lparr>time_sec = time_sec t1 - time_sec t2, time_nanosec = time_nanosec t1 - time_nanosec t2\<rparr>
      in if time_nanosec t2 > time_nanosec t1
         then \<lparr>time_sec = (time_sec t1 - 1) - time_sec t2,
               time_nanosec = (time_nanosec t1 + NSECS_IN_SEC) - time_nanosec t2\<rparr>
         else t)"

definition time_to_duration :: "Time_t \<Rightarrow> Duration_t" where
  "time_to_duration t = Duration_t (time_sec t) (time_nanosec t)"

section \<open>Policy kinds\<close>

text \<open>The kinds that the compatibility rules compare are ordered like the enumerations.\<close>

datatype DurabilityQosPolicyKind =
  VOLATILE_DURABILITY_QOS
| TRANSIENT_LOCAL_DURABILITY_QOS
| TRANSIENT_DURABILITY_QOS
| PERSISTENT_DURABILITY_QOS

fun durability_rank :: "DurabilityQosPolicyKind \<Rightarrow> nat" where
  "durability_rank VOLATILE_DURABILITY_QOS = 0"
| "durability_rank TRANSIENT_LOCAL_DURABILITY_QOS = 1"
| "durability_rank TRANSIENT_DURABILITY_QOS = 2"
| "durability_rank PERSISTENT_DURABILITY_QOS = 3"

instantiation DurabilityQosPolicyKind :: linorder
begin

definition less_DurabilityQosPolicyKind :: "DurabilityQosPolicyKind \<Rightarrow> DurabilityQosPolicyKind \<Rightarrow> bool" where
  "less_DurabilityQosPolicyKind x y \<longleftrightarrow> durability_rank x < durability_rank y"

definition less_eq_DurabilityQosPolicyKind :: "DurabilityQosPolicyKind \<Rightarrow> DurabilityQosPolicyKind \<Rightarrow> bool" where
  "less_eq_DurabilityQosPolicyKind x y \<longleftrightarrow> durability_rank x \<le> durability_rank y"

instance
proof
  fix x y z :: DurabilityQosPolicyKind
  show "x \<le> y \<Longrightarrow> y \<le> x \<Longrightarrow> x = y" by (cases x; cases y) (simp_all add: less_eq_DurabilityQosPolicyKind_def)
qed (auto simp: less_DurabilityQosPolicyKind_def less_eq_DurabilityQosPolicyKind_def)

end

datatype PresentationQosPolicyAccessScopeKind =
  INSTANCE_PRESENTATION_QOS
| TOPIC_PRESENTATION_QOS
| GROUP_PRESENTATION_QOS

fun presentation_rank :: "PresentationQosPolicyAccessScopeKind \<Rightarrow> nat" where
  "presentation_rank INSTANCE_PRESENTATION_QOS = 0"
| "presentation_rank TOPIC_PRESENTATION_QOS = 1"
| "presentation_rank GROUP_PRESENTATION_QOS = 2"

instantiation PresentationQosPolicyAccessScopeKind :: linorder
begin

definition less_PresentationQosPolicyAccessScopeKind :: "PresentationQosPolicyAccessScopeKind \<Rightarrow> PresentationQosPolicyAccessScopeKind \<Rightarrow> bool" where
  "less_PresentationQosPolicyAccessScopeKind x y \<longleftrightarrow> presentation_rank x < presentation_rank y"

definition less_eq_PresentationQosPolicyAccessScopeKind :: "PresentationQosPolicyAccessScopeKind \<Rightarrow> PresentationQosPolicyAccessScopeKind \<Rightarrow> bool" where
  "less_eq_PresentationQosPolicyAccessScopeKind x y \<longleftrightarrow> presentation_rank x \<le> presentation_rank y"

instance
proof
  fix x y z :: PresentationQosPolicyAccessScopeKind
  show "x \<le> y \<Longrightarrow> y \<le> x \<Longrightarrow> x = y" by (cases x; cases y) (simp_all add: less_eq_PresentationQosPolicyAccessScopeKind_def)
qed (auto simp: less_PresentationQosPolicyAccessScopeKind_def less_eq_PresentationQosPolicyAccessScopeKind_def)

end

datatype OwnershipQosPolicyKind =
  SHARED_OWNERSHIP_QOS
| EXCLUSIVE_OWNERSHIP_QOS

datatype LivelinessQosPolicyKind =
  AUTOMATIC_LIVELINESS_QOS
| MANUAL_BY_PARTICIPANT_LIVELINESS_QOS
| MANUAL_BY_TOPIC_LIVELINESS_QOS

fun liveliness_rank :: "LivelinessQosPolicyKind \<Rightarrow> nat" where
  "liveliness_rank AUTOMATIC_LIVELINESS_QOS = 0"
| "liveliness_rank MANUAL_BY_PARTICIPANT_LIVELINESS_QOS = 1"
| "liveliness_rank MANUAL_BY_TOPIC_LIVELINESS_QOS = 2"

instantiation LivelinessQosPolicyKind :: linorder
begin

definition less_LivelinessQosPolicyKind :: "LivelinessQosPolicyKind \<Rightarrow> LivelinessQosPolicyKind \<Rightarrow> bool" where
  "less_LivelinessQosPolicyKind x y \<longleftrightarrow> liveliness_rank x < liveliness_rank y"

definition less_eq_LivelinessQosPolicyKind :: "LivelinessQosPolicyKind \<Rightarrow> LivelinessQosPolicyKind \<Rightarrow> bool" where
  "less_eq_LivelinessQosPolicyKind x y \<longleftrightarrow> liveliness_rank x \<le> liveliness_rank y"

instance
proof
  fix x y z :: LivelinessQosPolicyKind
  show "x \<le> y \<Longrightarrow> y \<le> x \<Longrightarrow> x = y" by (cases x; cases y) (simp_all add: less_eq_LivelinessQosPolicyKind_def)
qed (auto simp: less_LivelinessQosPolicyKind_def less_eq_LivelinessQosPolicyKind_def)

end

datatype ReliabilityQosPolicyKind =
  BEST_EFFORT_RELIABILITY_QOS
| RELIABLE_RELIABILITY_QOS

fun reliability_rank :: "ReliabilityQosPolicyKind \<Rightarrow> nat" where
  "reliability_rank BEST_EFFORT_RELIABILITY_QOS = 0"
| "reliability_rank RELIABLE_RELIABILITY_QOS = 1"

instantiation ReliabilityQosPolicyKind :: linorder
begin

definition less_ReliabilityQosPolicyKind :: "ReliabilityQosPolicyKind \<Rightarrow> ReliabilityQosPolicyKind \<Rightarrow> bool" where
  "less_ReliabilityQosPolicyKind x y \<longleftrightarrow> reliability_rank x < reliability_rank y"

definition less_eq_ReliabilityQosPolicyKind :: "ReliabilityQosPolicyKind \<Rightarrow> ReliabilityQosPolicyKind \<Rightarrow> bool" where
  "less_eq_ReliabilityQosPolicyKind x y \<longleftrightarrow> reliability_rank x \<le> reliability_rank y"

instance
proof
  fix x y z :: ReliabilityQosPolicyKind
  show "x \<le> y \<Longrightarrow> y \<le> x \<Longrightarrow> x = y" by (cases x; cases y) (simp_all add: less_eq_ReliabilityQosPolicyKind_def)
qed (auto simp: less_ReliabilityQosPolicyKind_def less_eq_ReliabilityQosPolicyKind_def)

end

datatype DestinationOrderQosPolicyKind =
  BY_RECEPTION_TIMESTAMP_DESTINATIONORDER_QOS
| BY_SOURCE_TIMESTAMP_DESTINATIONORDER_QOS

datatype HistoryQosPolicyKind =
  KEEP_LAST_HISTORY_QOS
| KEEP_ALL_HISTORY_QOS

section \<open>The policies\<close>

definition LENGTH_UNLIMITED :: int where "LENGTH_UNLIMITED = - 1"

record UserDataQosPolicy =
  ud_value :: "octet list"

record TopicDataQosPolicy =
  td_value :: "octet list"

record GroupDataQosPolicy =
  gd_value :: "octet list"

record TransportPriorityQosPolicy =
  tp_value :: int

record LifespanQosPolicy =
  ls_duration :: Duration_t

record DurabilityQosPolicy =
  du_kind :: DurabilityQosPolicyKind

record DurabilityServiceQosPolicy =
  ds_service_cleanup_delay :: Duration_t
  ds_history_kind :: HistoryQosPolicyKind
  ds_history_depth :: int
  ds_max_samples :: int
  ds_max_instances :: int
  ds_max_samples_per_instance :: int

record PresentationQosPolicy =
  pr_access_scope :: PresentationQosPolicyAccessScopeKind
  pr_coherent_access :: bool
  pr_ordered_access :: bool

record DeadlineQosPolicy =
  dl_period :: Duration_t

record LatencyBudgetQosPolicy =
  lb_duration :: Duration_t

record OwnershipQosPolicy =
  ow_kind :: OwnershipQosPolicyKind

record OwnershipStrengthQosPolicy =
  os_value :: int

record LivelinessQosPolicy =
  lv_kind :: LivelinessQosPolicyKind
  lv_lease_duration :: Duration_t

record TimeBasedFilterQosPolicy =
  tb_minimum_separation :: Duration_t

record PartitionQosPolicy =
  pt_name :: "string list"

record ReliabilityQosPolicy =
  rl_kind :: ReliabilityQosPolicyKind
  rl_max_blocking_time :: Duration_t

record DestinationOrderQosPolicy =
  do_kind :: DestinationOrderQosPolicyKind

record HistoryQosPolicy =
  hi_kind :: HistoryQosPolicyKind
  hi_depth :: int

record ResourceLimitsQosPolicy =
  lim_max_samples :: int
  lim_max_instances :: int
  lim_max_samples_per_instance :: int

record EntityFactoryQosPolicy =
  ef_autoenable_created_entities :: bool

record WriterDataLifecycleQosPolicy =
  wl_autodispose_unregistered_instances :: bool

record ReaderDataLifecycleQosPolicy =
  rd_autopurge_nowriter_samples_delay :: Duration_t
  rd_autopurge_disposed_samples_delay :: Duration_t

record DomainParticipantFactoryQos =
  pfq_entity_factory :: EntityFactoryQosPolicy

record DomainParticipantQos =
  dpq_user_data :: UserDataQosPolicy
  dpq_entity_factory :: EntityFactoryQosPolicy

record TopicQos =
  tq_topic_data :: TopicDataQosPolicy
  tq_durability :: DurabilityQosPolicy
  tq_durability_service :: DurabilityServiceQosPolicy
  tq_deadline :: DeadlineQosPolicy
  tq_latency_budget :: LatencyBudgetQosPolicy
  tq_liveliness :: LivelinessQosPolicy
  tq_reliability :: ReliabilityQosPolicy
  tq_destination_order :: DestinationOrderQosPolicy
  tq_history :: HistoryQosPolicy
  tq_resource_limits :: ResourceLimitsQosPolicy
  tq_transport_priority :: TransportPriorityQosPolicy
  tq_lifespan :: LifespanQosPolicy
  tq_ownership :: OwnershipQosPolicy

record DataWriterQos =
  wq_durability :: DurabilityQosPolicy
  wq_durability_service :: DurabilityServiceQosPolicy
  wq_deadline :: DeadlineQosPolicy
  wq_latency_budget :: LatencyBudgetQosPolicy
  wq_liveliness :: LivelinessQosPolicy
  wq_reliability :: ReliabilityQosPolicy
  wq_destination_order :: DestinationOrderQosPolicy
  wq_history :: HistoryQosPolicy
  wq_resource_limits :: ResourceLimitsQosPolicy
  wq_transport_priority :: TransportPriorityQosPolicy
  wq_lifespan :: LifespanQosPolicy
  wq_user_data :: UserDataQosPolicy
  wq_ownership :: OwnershipQosPolicy
  wq_ownership_strength :: OwnershipStrengthQosPolicy
  wq_writer_data_lifecycle :: WriterDataLifecycleQosPolicy

record PublisherQos =
  pq_presentation :: PresentationQosPolicy
  pq_partition :: PartitionQosPolicy
  pq_group_data :: GroupDataQosPolicy
  pq_entity_factory :: EntityFactoryQosPolicy

record DataReaderQos =
  rq_durability :: DurabilityQosPolicy
  rq_deadline :: DeadlineQosPolicy
  rq_latency_budget :: LatencyBudgetQosPolicy
  rq_liveliness :: LivelinessQosPolicy
  rq_reliability :: ReliabilityQosPolicy
  rq_destination_order :: DestinationOrderQosPolicy
  rq_history :: HistoryQosPolicy
  rq_resource_limits :: ResourceLimitsQosPolicy
  rq_user_data :: UserDataQosPolicy
  rq_ownership :: OwnershipQosPolicy
  rq_time_based_filter :: TimeBasedFilterQosPolicy
  rq_reader_data_lifecycle :: ReaderDataLifecycleQosPolicy

record SubscriberQos =
  sq_presentation :: PresentationQosPolicy
  sq_partition :: PartitionQosPolicy
  sq_group_data :: GroupDataQosPolicy
  sq_entity_factory :: EntityFactoryQosPolicy

section \<open>The comparison operators of the policies\<close>

definition eq_UserDataQosPolicy :: "UserDataQosPolicy \<Rightarrow> UserDataQosPolicy \<Rightarrow> bool" where
  "eq_UserDataQosPolicy qos1 qos2 \<longleftrightarrow>
     ud_value qos1 = ud_value qos2"

definition eq_TopicDataQosPolicy :: "TopicDataQosPolicy \<Rightarrow> TopicDataQosPolicy \<Rightarrow> bool" where
  "eq_TopicDataQosPolicy qos1 qos2 \<longleftrightarrow>
     td_value qos1 = td_value qos2"

definition eq_GroupDataQosPolicy :: "GroupDataQosPolicy \<Rightarrow> GroupDataQosPolicy \<Rightarrow> bool" where
  "eq_GroupDataQosPolicy qos1 qos2 \<longleftrightarrow>
     gd_value qos1 = gd_value qos2"

definition eq_TransportPriorityQosPolicy :: "TransportPriorityQosPolicy \<Rightarrow> TransportPriorityQosPolicy \<Rightarrow> bool" where
  "eq_TransportPriorityQosPolicy qos1 qos2 \<longleftrightarrow>
     tp_value qos1 = tp_value qos2"

definition eq_LifespanQosPolicy :: "LifespanQosPolicy \<Rightarrow> LifespanQosPolicy \<Rightarrow> bool" where
  "eq_LifespanQosPolicy qos1 qos2 \<longleftrightarrow>
     duration_eq (ls_duration qos1) (ls_duration qos2)"

definition eq_DurabilityQosPolicy :: "DurabilityQosPolicy \<Rightarrow> DurabilityQosPolicy \<Rightarrow> bool" where
  "eq_DurabilityQosPolicy qos1 qos2 \<longleftrightarrow>
     du_kind qos1 = du_kind qos2"

definition eq_DurabilityServiceQosPolicy :: "DurabilityServiceQosPolicy \<Rightarrow> DurabilityServiceQosPolicy \<Rightarrow> bool" where
  "eq_DurabilityServiceQosPolicy qos1 qos2 \<longleftrightarrow>
     duration_eq (ds_service_cleanup_delay qos1) (ds_service_cleanup_delay qos2)
     \<and> ds_history_kind qos1 = ds_history_kind qos2
     \<and> ds_history_depth qos1 = ds_history_depth qos2
     \<and> ds_max_samples qos1 = ds_max_samples qos2
     \<and> ds_max_instances qos1 = ds_max_instances qos2
     \<and> ds_max_samples_per_instance qos1 = ds_max_samples_per_instance qos2"

definition eq_PresentationQosPolicy :: "PresentationQosPolicy \<Rightarrow> PresentationQosPolicy \<Rightarrow> bool" where
  "eq_PresentationQosPolicy qos1 qos2 \<longleftrightarrow>
     pr_access_scope qos1 = pr_access_scope qos2
     \<and> pr_coherent_access qos1 = pr_coherent_access qos2
     \<and> pr_ordered_access qos1 = pr_ordered_access qos2"

definition eq_DeadlineQosPolicy :: "DeadlineQosPolicy \<Rightarrow> DeadlineQosPolicy \<Rightarrow> bool" where
  "eq_DeadlineQosPolicy qos1 qos2 \<longleftrightarrow>
     duration_eq (dl_period qos1) (dl_period qos2)"

definition eq_LatencyBudgetQosPolicy :: "LatencyBudgetQosPolicy \<Rightarrow> LatencyBudgetQosPolicy \<Rightarrow> bool" where
  "eq_LatencyBudgetQosPolicy qos1 qos2 \<longleftrightarrow>
     duration_eq (lb_duration qos1) (lb_duration qos2)"

definition eq_OwnershipQosPolicy :: "OwnershipQosPolicy \<Rightarrow> OwnershipQosPolicy \<Rightarrow> bool" where
  "eq_OwnershipQosPolicy qos1 qos2 \<longleftrightarrow>
     ow_kind qos1 = ow_kind qos2"

definition eq_OwnershipStrengthQosPolicy :: "OwnershipStrengthQosPolicy \<Rightarrow> OwnershipStrengthQosPolicy \<Rightarrow> bool" where
  "eq_OwnershipStrengthQosPolicy qos1 qos2 \<longleftrightarrow>
     os_value qos1 = os_value qos2"

definition eq_LivelinessQosPolicy :: "LivelinessQosPolicy \<Rightarrow> LivelinessQosPolicy \<Rightarrow> bool" where
  "eq_LivelinessQosPolicy qos1 qos2 \<longleftrightarrow>
     lv_kind qos1 = lv_kind qos2
     \<and> duration_eq (lv_lease_duration qos1) (lv_lease_duration qos2)"

definition eq_TimeBasedFilterQosPolicy :: "TimeBasedFilterQosPolicy \<Rightarrow> TimeBasedFilterQosPolicy \<Rightarrow> bool" where
  "eq_TimeBasedFilterQosPolicy qos1 qos2 \<longleftrightarrow>
     duration_eq (tb_minimum_separation qos1) (tb_minimum_separation qos2)"

text \<open>The loop over the names, with \<open>strcmp\<close> as equality of the strings.\<close>

definition eq_PartitionQosPolicy :: "PartitionQosPolicy \<Rightarrow> PartitionQosPolicy \<Rightarrow> bool" where
  "eq_PartitionQosPolicy qos1 qos2 =
     (let len = length (pt_name qos1) in
      if len = length (pt_name qos2)
      then list_all (\<lambda>i. pt_name qos1 ! i = pt_name qos2 ! i) [0 ..< len]
      else False)"

definition eq_ReliabilityQosPolicy :: "ReliabilityQosPolicy \<Rightarrow> ReliabilityQosPolicy \<Rightarrow> bool" where
  "eq_ReliabilityQosPolicy qos1 qos2 \<longleftrightarrow>
     rl_kind qos1 = rl_kind qos2
     \<and> duration_eq (rl_max_blocking_time qos1) (rl_max_blocking_time qos2)"

definition eq_DestinationOrderQosPolicy :: "DestinationOrderQosPolicy \<Rightarrow> DestinationOrderQosPolicy \<Rightarrow> bool" where
  "eq_DestinationOrderQosPolicy qos1 qos2 \<longleftrightarrow>
     do_kind qos1 = do_kind qos2"

definition eq_HistoryQosPolicy :: "HistoryQosPolicy \<Rightarrow> HistoryQosPolicy \<Rightarrow> bool" where
  "eq_HistoryQosPolicy qos1 qos2 \<longleftrightarrow>
     hi_kind qos1 = hi_kind qos2
     \<and> hi_depth qos1 = hi_depth qos2"

definition eq_ResourceLimitsQosPolicy :: "ResourceLimitsQosPolicy \<Rightarrow> ResourceLimitsQosPolicy \<Rightarrow> bool" where
  "eq_ResourceLimitsQosPolicy qos1 qos2 \<longleftrightarrow>
     lim_max_samples qos1 = lim_max_samples qos2
     \<and> lim_max_instances qos1 = lim_max_instances qos2
     \<and> lim_max_samples_per_instance qos1 = lim_max_samples_per_instance qos2"

definition eq_EntityFactoryQosPolicy :: "EntityFactoryQosPolicy \<Rightarrow> EntityFactoryQosPolicy \<Rightarrow> bool" where
  "eq_EntityFactoryQosPolicy qos1 qos2 \<longleftrightarrow>
     ef_autoenable_created_entities qos1 = ef_autoenable_created_entities qos2"

definition eq_WriterDataLifecycleQosPolicy :: "WriterDataLifecycleQosPolicy \<Rightarrow> WriterDataLifecycleQosPolicy \<Rightarrow> bool" where
  "eq_WriterDataLifecycleQosPolicy qos1 qos2 \<longleftrightarrow>
     wl_autodispose_unregistered_instances qos1 = wl_autodispose_unregistered_instances qos2"

definition eq_ReaderDataLifecycleQosPolicy :: "ReaderDataLifecycleQosPolicy \<Rightarrow> ReaderDataLifecycleQosPolicy \<Rightarrow> bool" where
  "eq_ReaderDataLifecycleQosPolicy qos1 qos2 \<longleftrightarrow>
     duration_eq (rd_autopurge_nowriter_samples_delay qos1) (rd_autopurge_nowriter_samples_delay qos2)
     \<and> duration_eq (rd_autopurge_disposed_samples_delay qos1) (rd_autopurge_disposed_samples_delay qos2)"

definition eq_DomainParticipantQos :: "DomainParticipantQos \<Rightarrow> DomainParticipantQos \<Rightarrow> bool" where
  "eq_DomainParticipantQos qos1 qos2 \<longleftrightarrow>
     eq_UserDataQosPolicy (dpq_user_data qos1) (dpq_user_data qos2)
     \<and> eq_EntityFactoryQosPolicy (dpq_entity_factory qos1) (dpq_entity_factory qos2)"

definition eq_TopicQos :: "TopicQos \<Rightarrow> TopicQos \<Rightarrow> bool" where
  "eq_TopicQos qos1 qos2 \<longleftrightarrow>
     eq_TopicDataQosPolicy (tq_topic_data qos1) (tq_topic_data qos2)
     \<and> eq_DurabilityQosPolicy (tq_durability qos1) (tq_durability qos2)
     \<and> eq_DurabilityServiceQosPolicy (tq_durability_service qos1) (tq_durability_service qos2)
     \<and> eq_DeadlineQosPolicy (tq_deadline qos1) (tq_deadline qos2)
     \<and> eq_LatencyBudgetQosPolicy (tq_latency_budget qos1) (tq_latency_budget qos2)
     \<and> eq_LivelinessQosPolicy (tq_liveliness qos1) (tq_liveliness qos2)
     \<and> eq_ReliabilityQosPolicy (tq_reliability qos1) (tq_reliability qos2)
     \<and> eq_DestinationOrderQosPolicy (tq_destination_order qos1) (tq_destination_order qos2)
     \<and> eq_HistoryQosPolicy (tq_history qos1) (tq_history qos2)
     \<and> eq_ResourceLimitsQosPolicy (tq_resource_limits qos1) (tq_resource_limits qos2)
     \<and> eq_TransportPriorityQosPolicy (tq_transport_priority qos1) (tq_transport_priority qos2)
     \<and> eq_LifespanQosPolicy (tq_lifespan qos1) (tq_lifespan qos2)
     \<and> eq_OwnershipQosPolicy (tq_ownership qos1) (tq_ownership qos2)"

definition eq_DataWriterQos :: "DataWriterQos \<Rightarrow> DataWriterQos \<Rightarrow> bool" where
  "eq_DataWriterQos qos1 qos2 \<longleftrightarrow>
     eq_DurabilityQosPolicy (wq_durability qos1) (wq_durability qos2)
     \<and> eq_DurabilityServiceQosPolicy (wq_durability_service qos1) (wq_durability_service qos2)
     \<and> eq_DeadlineQosPolicy (wq_deadline qos1) (wq_deadline qos2)
     \<and> eq_LatencyBudgetQosPolicy (wq_latency_budget qos1) (wq_latency_budget qos2)
     \<and> eq_LivelinessQosPolicy (wq_liveliness qos1) (wq_liveliness qos2)
     \<and> eq_ReliabilityQosPolicy (wq_reliability qos1) (wq_reliability qos2)
     \<and> eq_DestinationOrderQosPolicy (wq_destination_order qos1) (wq_destination_order qos2)
     \<and> eq_HistoryQosPolicy (wq_history qos1) (wq_history qos2)
     \<and> eq_ResourceLimitsQosPolicy (wq_resource_limits qos1) (wq_resource_limits qos2)
     \<and> eq_TransportPriorityQosPolicy (wq_transport_priority qos1) (wq_transport_priority qos2)
     \<and> eq_LifespanQosPolicy (wq_lifespan qos1) (wq_lifespan qos2)
     \<and> eq_UserDataQosPolicy (wq_user_data qos1) (wq_user_data qos2)
     \<and> eq_OwnershipQosPolicy (wq_ownership qos1) (wq_ownership qos2)
     \<and> eq_OwnershipStrengthQosPolicy (wq_ownership_strength qos1) (wq_ownership_strength qos2)
     \<and> eq_WriterDataLifecycleQosPolicy (wq_writer_data_lifecycle qos1) (wq_writer_data_lifecycle qos2)"

definition eq_PublisherQos :: "PublisherQos \<Rightarrow> PublisherQos \<Rightarrow> bool" where
  "eq_PublisherQos qos1 qos2 \<longleftrightarrow>
     eq_PresentationQosPolicy (pq_presentation qos1) (pq_presentation qos2)
     \<and> eq_PartitionQosPolicy (pq_partition qos1) (pq_partition qos2)
     \<and> eq_GroupDataQosPolicy (pq_group_data qos1) (pq_group_data qos2)
     \<and> eq_EntityFactoryQosPolicy (pq_entity_factory qos1) (pq_entity_factory qos2)"

definition eq_DataReaderQos :: "DataReaderQos \<Rightarrow> DataReaderQos \<Rightarrow> bool" where
  "eq_DataReaderQos qos1 qos2 \<longleftrightarrow>
     eq_DurabilityQosPolicy (rq_durability qos1) (rq_durability qos2)
     \<and> eq_DeadlineQosPolicy (rq_deadline qos1) (rq_deadline qos2)
     \<and> eq_LatencyBudgetQosPolicy (rq_latency_budget qos1) (rq_latency_budget qos2)
     \<and> eq_LivelinessQosPolicy (rq_liveliness qos1) (rq_liveliness qos2)
     \<and> eq_ReliabilityQosPolicy (rq_reliability qos1) (rq_reliability qos2)
     \<and> eq_DestinationOrderQosPolicy (rq_destination_order qos1) (rq_destination_order qos2)
     \<and> eq_HistoryQosPolicy (rq_history qos1) (rq_history qos2)
     \<and> eq_ResourceLimitsQosPolicy (rq_resource_limits qos1) (rq_resource_limits qos2)
     \<and> eq_UserDataQosPolicy (rq_user_data qos1) (rq_user_data qos2)
     \<and> eq_TimeBasedFilterQosPolicy (rq_time_based_filter qos1) (rq_time_based_filter qos2)
     \<and> eq_ReaderDataLifecycleQosPolicy (rq_reader_data_lifecycle qos1) (rq_reader_data_lifecycle qos2)"

definition eq_SubscriberQos :: "SubscriberQos \<Rightarrow> SubscriberQos \<Rightarrow> bool" where
  "eq_SubscriberQos qos1 qos2 \<longleftrightarrow>
     eq_PresentationQosPolicy (sq_presentation qos1) (sq_presentation qos2)
     \<and> eq_PartitionQosPolicy (sq_partition qos1) (sq_partition qos2)
     \<and> eq_GroupDataQosPolicy (sq_group_data qos1) (sq_group_data qos2)
     \<and> eq_EntityFactoryQosPolicy (sq_entity_factory qos1) (sq_entity_factory qos2)"

definition eq_DomainParticipantFactoryQos :: "DomainParticipantFactoryQos \<Rightarrow> DomainParticipantFactoryQos \<Rightarrow> bool" where
  "eq_DomainParticipantFactoryQos qos1 qos2 \<longleftrightarrow>
     eq_EntityFactoryQosPolicy (pfq_entity_factory qos1) (pfq_entity_factory qos2)"

text \<open>Every operator \<open>!=\<close> of the file negates the operator \<open>==\<close> of its type.\<close>

definition operator_ne :: "('q \<Rightarrow> 'q \<Rightarrow> bool) \<Rightarrow> 'q \<Rightarrow> 'q \<Rightarrow> bool" where
  "operator_ne operator_eq qos1 qos2 \<longleftrightarrow> \<not> operator_eq qos1 qos2"

section \<open>What the operators decide\<close>

lemma eq_PartitionQosPolicy_iff [simp]: "eq_PartitionQosPolicy q r \<longleftrightarrow> q = r"
  by (auto simp: eq_PartitionQosPolicy_def Let_def list_all_iff
      intro!: PartitionQosPolicy.equality nth_equalityI)

lemmas policy_eq_defs =
  eq_UserDataQosPolicy_def eq_TopicDataQosPolicy_def eq_GroupDataQosPolicy_def
  eq_TransportPriorityQosPolicy_def eq_LifespanQosPolicy_def eq_DurabilityQosPolicy_def
  eq_DurabilityServiceQosPolicy_def eq_PresentationQosPolicy_def eq_DeadlineQosPolicy_def
  eq_LatencyBudgetQosPolicy_def eq_OwnershipQosPolicy_def eq_OwnershipStrengthQosPolicy_def
  eq_LivelinessQosPolicy_def eq_TimeBasedFilterQosPolicy_def eq_ReliabilityQosPolicy_def
  eq_DestinationOrderQosPolicy_def eq_HistoryQosPolicy_def eq_ResourceLimitsQosPolicy_def
  eq_EntityFactoryQosPolicy_def eq_WriterDataLifecycleQosPolicy_def
  eq_ReaderDataLifecycleQosPolicy_def

lemmas policy_equality =
  UserDataQosPolicy.equality TopicDataQosPolicy.equality GroupDataQosPolicy.equality
  TransportPriorityQosPolicy.equality LifespanQosPolicy.equality DurabilityQosPolicy.equality
  DurabilityServiceQosPolicy.equality PresentationQosPolicy.equality DeadlineQosPolicy.equality
  LatencyBudgetQosPolicy.equality OwnershipQosPolicy.equality
  OwnershipStrengthQosPolicy.equality LivelinessQosPolicy.equality
  TimeBasedFilterQosPolicy.equality ReliabilityQosPolicy.equality
  DestinationOrderQosPolicy.equality HistoryQosPolicy.equality ResourceLimitsQosPolicy.equality
  EntityFactoryQosPolicy.equality WriterDataLifecycleQosPolicy.equality
  ReaderDataLifecycleQosPolicy.equality

lemma policy_eq [simp]:
  "eq_UserDataQosPolicy x0 y0 = (x0 = y0)"
  "eq_TopicDataQosPolicy x1 y1 = (x1 = y1)"
  "eq_GroupDataQosPolicy x2 y2 = (x2 = y2)"
  "eq_TransportPriorityQosPolicy x3 y3 = (x3 = y3)"
  "eq_LifespanQosPolicy x4 y4 = (x4 = y4)"
  "eq_DurabilityQosPolicy x5 y5 = (x5 = y5)"
  "eq_DurabilityServiceQosPolicy x6 y6 = (x6 = y6)"
  "eq_PresentationQosPolicy x7 y7 = (x7 = y7)"
  "eq_DeadlineQosPolicy x8 y8 = (x8 = y8)"
  "eq_LatencyBudgetQosPolicy x9 y9 = (x9 = y9)"
  "eq_OwnershipQosPolicy x10 y10 = (x10 = y10)"
  "eq_OwnershipStrengthQosPolicy x11 y11 = (x11 = y11)"
  "eq_LivelinessQosPolicy x12 y12 = (x12 = y12)"
  "eq_TimeBasedFilterQosPolicy x13 y13 = (x13 = y13)"
  "eq_ReliabilityQosPolicy x14 y14 = (x14 = y14)"
  "eq_DestinationOrderQosPolicy x15 y15 = (x15 = y15)"
  "eq_HistoryQosPolicy x16 y16 = (x16 = y16)"
  "eq_ResourceLimitsQosPolicy x17 y17 = (x17 = y17)"
  "eq_EntityFactoryQosPolicy x18 y18 = (x18 = y18)"
  "eq_WriterDataLifecycleQosPolicy x19 y19 = (x19 = y19)"
  "eq_ReaderDataLifecycleQosPolicy x20 y20 = (x20 = y20)"
  by (auto simp: policy_eq_defs intro: policy_equality)

lemma entity_qos_eq [simp]:
  "eq_DomainParticipantQos p p' \<longleftrightarrow> p = p'"
  "eq_TopicQos t t' \<longleftrightarrow> t = t'"
  "eq_DataWriterQos w w' \<longleftrightarrow> w = w'"
  "eq_PublisherQos b b' \<longleftrightarrow> b = b'"
  "eq_SubscriberQos s s' \<longleftrightarrow> s = s'"
  "eq_DomainParticipantFactoryQos f f' \<longleftrightarrow> f = f'"
  by (auto simp: eq_DomainParticipantQos_def eq_TopicQos_def eq_DataWriterQos_def eq_PublisherQos_def
      eq_SubscriberQos_def eq_DomainParticipantFactoryQos_def
      intro: DomainParticipantQos.equality TopicQos.equality DataWriterQos.equality PublisherQos.equality
        SubscriberQos.equality DomainParticipantFactoryQos.equality)

lemma eq_DataReaderQos_iff:
  "eq_DataReaderQos q r \<longleftrightarrow> q\<lparr>rq_ownership := rq_ownership r\<rparr> = r"
  by (cases q; cases r) (simp add: eq_DataReaderQos_def)

section \<open>Properties\<close>

text \<open>
  The comparison operators of \<open>Duration_t\<close> are a linear order, whatever the fields hold, and the
  infinite duration is its greatest element, although its \<open>nanosec\<close> lies in the middle of the range.
\<close>

theorem duration_order:
  "class.linorder duration_less_eq duration_less \<and> (\<forall>t. duration_less_eq t DDS_DURATION_INFINITY)"
proof -
  have "(\<le>) = duration_less_eq" "(<) = duration_less"
    by (auto simp: less_eq_Duration_t_def less_Duration_t_def fun_eq_iff)
  then show ?thesis
    using Orderings.linorder_class.linorder_axioms [where ?'a = Duration_t] duration_infinity_top by simp
qed

text \<open>The nanoseconds since the epoch that a time stands for.\<close>

definition time_ns :: "Time_t \<Rightarrow> int" where
  "time_ns t = time_sec t * 1000000000 + uint (time_nanosec t)"

text \<open>
  Subtraction of normalised times is exact and gives a normalised time: the borrow is taken from
  the seconds when needed and the intermediate sum does not wrap around.
\<close>

theorem time_minus_exact:
  assumes "time_nanosec t1 < NSECS_IN_SEC" and "time_nanosec t2 < NSECS_IN_SEC"
  shows "time_ns (time_minus t1 t2) = time_ns t1 - time_ns t2
    \<and> time_nanosec (time_minus t1 t2) < NSECS_IN_SEC"
proof -
  define a b where "a = uint (time_nanosec t1)" and "b = uint (time_nanosec t2)"
  have ab: "0 \<le> a" "a < 1000000000" "0 \<le> b" "b < 1000000000"
    using assms by (simp_all add: a_def b_def word_less_def NSECS_IN_SEC_def)
  show ?thesis
  proof (cases "a < b")
    case True
    have "uint (time_nanosec t1 + NSECS_IN_SEC) = a + 1000000000"
      using ab by (simp add: uint_word_ariths a_def [symmetric] NSECS_IN_SEC_def)
    then have "uint (time_nanosec t1 + NSECS_IN_SEC - time_nanosec t2) = a + 1000000000 - b"
      using ab True by (simp add: uint_word_ariths(2) b_def [symmetric])
    then show ?thesis
      using True ab by (simp add: time_minus_def Let_def time_ns_def word_less_def a_def b_def NSECS_IN_SEC_def)
  next
    case False
    then have "uint (time_nanosec t1 - time_nanosec t2) = a - b"
      using ab by (simp add: uint_word_ariths(2) a_def [symmetric] b_def [symmetric])
    moreover have "a - b < 1000000000" using ab by linarith
    ultimately show ?thesis
      using False by (simp add: time_minus_def Let_def time_ns_def word_less_def a_def b_def NSECS_IN_SEC_def)
  qed
qed

theorem time_minus_exact_witness:
  "time_ns (time_minus \<lparr>time_sec = 5, time_nanosec = 100\<rparr> \<lparr>time_sec = 3, time_nanosec = 200\<rparr>)
    = time_ns \<lparr>time_sec = 5, time_nanosec = 100\<rparr> - time_ns \<lparr>time_sec = 3, time_nanosec = 200\<rparr>"
  using time_minus_exact [of "\<lparr>time_sec = 5, time_nanosec = 100\<rparr>" "\<lparr>time_sec = 3, time_nanosec = 200\<rparr>"]
  by (simp add: NSECS_IN_SEC_def)

text \<open>
  On valid times the operators \<open>==\<close> and \<open><\<close> are equality and the order of the fields; an invalid
  time however compares equal to every time, so \<open>==\<close> is not transitive.
\<close>

theorem time_comparison:
  "(\<forall>t1 t2. \<not> time_not t1 \<and> \<not> time_not t2 \<longrightarrow>
      (time_eq t1 t2 \<longleftrightarrow> t1 = t2)
      \<and> (time_less t1 t2 \<longleftrightarrow> time_sec t1 < time_sec t2
           \<or> time_sec t1 = time_sec t2 \<and> time_nanosec t1 < time_nanosec t2))
   \<and> (\<forall>t1 t2. time_not t1 \<longrightarrow> time_eq t1 t2 \<and> time_eq t2 t1)
   \<and> \<not> time_eq \<lparr>time_sec = 1, time_nanosec = 0\<rparr> \<lparr>time_sec = 2, time_nanosec = 0\<rparr>"
  by (auto simp: time_eq_def time_less_def time_not_def TIME_INVALID_SEC_def TIME_INVALID_NSEC_def
      intro: Time_t.equality)

theorem time_comparison_witness:
  "time_eq \<lparr>time_sec = - 1, time_nanosec = 7\<rparr> \<lparr>time_sec = 2, time_nanosec = 0\<rparr>
   \<and> \<not> time_eq \<lparr>time_sec = 3, time_nanosec = 0\<rparr> \<lparr>time_sec = 2, time_nanosec = 0\<rparr>"
proof
  have c: "\<forall>t1 t2. time_not t1 \<longrightarrow> time_eq t1 t2" using time_comparison by blast
  show "time_eq \<lparr>time_sec = - 1, time_nanosec = 7\<rparr> \<lparr>time_sec = 2, time_nanosec = 0\<rparr>"
    by (rule c [rule_format]) (simp add: time_not_def TIME_INVALID_SEC_def)
qed (simp add: time_eq_def time_less_def time_not_def TIME_INVALID_SEC_def TIME_INVALID_NSEC_def)

end
