(* ===== verification/Initial_Qos.thy ===== *)
theory Initial_Qos
  imports Qos_Policies
begin

text \<open>
  The default quality of service that \<open>Service_Participant::initialize\<close>
  (\<open>src/dds/DCPS/Service_Participant.cpp\<close>) assigns to its members, in the order of the assignments.
  Members that are not assigned keep the empty sequences they are constructed with.
\<close>

definition DURATION_ZERO_SEC :: int where "DURATION_ZERO_SEC = 0"
definition DURATION_ZERO_NSEC :: ulong where "DURATION_ZERO_NSEC = 0"

section \<open>Policies\<close>

definition initial_UserDataQosPolicy :: UserDataQosPolicy where
  "initial_UserDataQosPolicy = \<lparr>ud_value = []\<rparr>"

definition initial_TopicDataQosPolicy :: TopicDataQosPolicy where
  "initial_TopicDataQosPolicy = \<lparr>td_value = []\<rparr>"

definition initial_GroupDataQosPolicy :: GroupDataQosPolicy where
  "initial_GroupDataQosPolicy = \<lparr>gd_value = []\<rparr>"

definition initial_PartitionQosPolicy :: PartitionQosPolicy where
  "initial_PartitionQosPolicy = \<lparr>pt_name = []\<rparr>"

definition initial_TransportPriorityQosPolicy :: TransportPriorityQosPolicy where
  "initial_TransportPriorityQosPolicy = \<lparr>tp_value = 0\<rparr>"

definition initial_LifespanQosPolicy :: LifespanQosPolicy where
  "initial_LifespanQosPolicy = \<lparr>ls_duration = Duration_t DURATION_INFINITE_SEC DURATION_INFINITE_NSEC\<rparr>"

definition initial_DurabilityQosPolicy :: DurabilityQosPolicy where
  "initial_DurabilityQosPolicy = \<lparr>du_kind = VOLATILE_DURABILITY_QOS\<rparr>"

definition initial_DurabilityServiceQosPolicy :: DurabilityServiceQosPolicy where
  "initial_DurabilityServiceQosPolicy =
     \<lparr>ds_service_cleanup_delay = Duration_t DURATION_ZERO_SEC DURATION_ZERO_NSEC,
      ds_history_kind = KEEP_LAST_HISTORY_QOS, ds_history_depth = 1,
      ds_max_samples = LENGTH_UNLIMITED, ds_max_instances = LENGTH_UNLIMITED,
      ds_max_samples_per_instance = LENGTH_UNLIMITED\<rparr>"

definition initial_PresentationQosPolicy :: PresentationQosPolicy where
  "initial_PresentationQosPolicy =
     \<lparr>pr_access_scope = INSTANCE_PRESENTATION_QOS, pr_coherent_access = False, pr_ordered_access = False\<rparr>"

definition initial_DeadlineQosPolicy :: DeadlineQosPolicy where
  "initial_DeadlineQosPolicy = \<lparr>dl_period = Duration_t DURATION_INFINITE_SEC DURATION_INFINITE_NSEC\<rparr>"

definition initial_LatencyBudgetQosPolicy :: LatencyBudgetQosPolicy where
  "initial_LatencyBudgetQosPolicy = \<lparr>lb_duration = Duration_t DURATION_ZERO_SEC DURATION_ZERO_NSEC\<rparr>"

definition initial_OwnershipQosPolicy :: OwnershipQosPolicy where
  "initial_OwnershipQosPolicy = \<lparr>ow_kind = SHARED_OWNERSHIP_QOS\<rparr>"

definition initial_OwnershipStrengthQosPolicy :: OwnershipStrengthQosPolicy where
  "initial_OwnershipStrengthQosPolicy = \<lparr>os_value = 0\<rparr>"

definition initial_LivelinessQosPolicy :: LivelinessQosPolicy where
  "initial_LivelinessQosPolicy =
     \<lparr>lv_kind = AUTOMATIC_LIVELINESS_QOS,
      lv_lease_duration = Duration_t DURATION_INFINITE_SEC DURATION_INFINITE_NSEC\<rparr>"

definition initial_TimeBasedFilterQosPolicy :: TimeBasedFilterQosPolicy where
  "initial_TimeBasedFilterQosPolicy =
     \<lparr>tb_minimum_separation = Duration_t DURATION_ZERO_SEC DURATION_ZERO_NSEC\<rparr>"

definition initial_ReliabilityQosPolicy :: ReliabilityQosPolicy where
  "initial_ReliabilityQosPolicy =
     \<lparr>rl_kind = BEST_EFFORT_RELIABILITY_QOS,
      rl_max_blocking_time = Duration_t DURATION_INFINITE_SEC DURATION_INFINITE_NSEC\<rparr>"

definition initial_DestinationOrderQosPolicy :: DestinationOrderQosPolicy where
  "initial_DestinationOrderQosPolicy = \<lparr>do_kind = BY_RECEPTION_TIMESTAMP_DESTINATIONORDER_QOS\<rparr>"

definition initial_HistoryQosPolicy :: HistoryQosPolicy where
  "initial_HistoryQosPolicy = \<lparr>hi_kind = KEEP_LAST_HISTORY_QOS, hi_depth = 1\<rparr>"

definition initial_ResourceLimitsQosPolicy :: ResourceLimitsQosPolicy where
  "initial_ResourceLimitsQosPolicy =
     \<lparr>lim_max_samples = LENGTH_UNLIMITED, lim_max_instances = LENGTH_UNLIMITED,
      lim_max_samples_per_instance = LENGTH_UNLIMITED\<rparr>"

definition initial_EntityFactoryQosPolicy :: EntityFactoryQosPolicy where
  "initial_EntityFactoryQosPolicy = \<lparr>ef_autoenable_created_entities = True\<rparr>"

definition initial_WriterDataLifecycleQosPolicy :: WriterDataLifecycleQosPolicy where
  "initial_WriterDataLifecycleQosPolicy = \<lparr>wl_autodispose_unregistered_instances = True\<rparr>"

definition initial_ReaderDataLifecycleQosPolicy :: ReaderDataLifecycleQosPolicy where
  "initial_ReaderDataLifecycleQosPolicy =
     \<lparr>rd_autopurge_nowriter_samples_delay = Duration_t DURATION_INFINITE_SEC DURATION_INFINITE_NSEC,
      rd_autopurge_disposed_samples_delay = Duration_t DURATION_INFINITE_SEC DURATION_INFINITE_NSEC\<rparr>"

section \<open>Entities\<close>

definition initial_DomainParticipantQos :: DomainParticipantQos where
  "initial_DomainParticipantQos =
     \<lparr>dpq_user_data = initial_UserDataQosPolicy, dpq_entity_factory = initial_EntityFactoryQosPolicy\<rparr>"

definition initial_DomainParticipantFactoryQos :: DomainParticipantFactoryQos where
  "initial_DomainParticipantFactoryQos = \<lparr>pfq_entity_factory = initial_EntityFactoryQosPolicy\<rparr>"

definition initial_TopicQos :: TopicQos where
  "initial_TopicQos =
     \<lparr>tq_topic_data = initial_TopicDataQosPolicy,
      tq_durability = initial_DurabilityQosPolicy,
      tq_durability_service = initial_DurabilityServiceQosPolicy,
      tq_deadline = initial_DeadlineQosPolicy,
      tq_latency_budget = initial_LatencyBudgetQosPolicy,
      tq_liveliness = initial_LivelinessQosPolicy,
      tq_reliability = initial_ReliabilityQosPolicy,
      tq_destination_order = initial_DestinationOrderQosPolicy,
      tq_history = initial_HistoryQosPolicy,
      tq_resource_limits = initial_ResourceLimitsQosPolicy,
      tq_transport_priority = initial_TransportPriorityQosPolicy,
      tq_lifespan = initial_LifespanQosPolicy,
      tq_ownership = initial_OwnershipQosPolicy\<rparr>"

definition initial_DataWriterQos :: DataWriterQos where
  "initial_DataWriterQos =
     \<lparr>wq_durability = initial_DurabilityQosPolicy,
      wq_durability_service = initial_DurabilityServiceQosPolicy,
      wq_deadline = initial_DeadlineQosPolicy,
      wq_latency_budget = initial_LatencyBudgetQosPolicy,
      wq_liveliness = initial_LivelinessQosPolicy,
      wq_reliability = initial_ReliabilityQosPolicy
        \<lparr>rl_kind := RELIABLE_RELIABILITY_QOS, rl_max_blocking_time := Duration_t 0 100000000\<rparr>,
      wq_destination_order = initial_DestinationOrderQosPolicy,
      wq_history = initial_HistoryQosPolicy,
      wq_resource_limits = initial_ResourceLimitsQosPolicy,
      wq_transport_priority = initial_TransportPriorityQosPolicy,
      wq_lifespan = initial_LifespanQosPolicy,
      wq_user_data = initial_UserDataQosPolicy,
      wq_ownership = initial_OwnershipQosPolicy,
      wq_ownership_strength = initial_OwnershipStrengthQosPolicy,
      wq_writer_data_lifecycle = initial_WriterDataLifecycleQosPolicy\<rparr>"

definition initial_PublisherQos :: PublisherQos where
  "initial_PublisherQos =
     \<lparr>pq_presentation = initial_PresentationQosPolicy, pq_partition = initial_PartitionQosPolicy,
      pq_group_data = initial_GroupDataQosPolicy, pq_entity_factory = initial_EntityFactoryQosPolicy\<rparr>"

definition initial_DataReaderQos :: DataReaderQos where
  "initial_DataReaderQos =
     \<lparr>rq_durability = initial_DurabilityQosPolicy,
      rq_deadline = initial_DeadlineQosPolicy,
      rq_latency_budget = initial_LatencyBudgetQosPolicy,
      rq_liveliness = initial_LivelinessQosPolicy,
      rq_reliability = initial_ReliabilityQosPolicy,
      rq_destination_order = initial_DestinationOrderQosPolicy,
      rq_history = initial_HistoryQosPolicy,
      rq_resource_limits = initial_ResourceLimitsQosPolicy,
      rq_user_data = initial_UserDataQosPolicy,
      rq_ownership = initial_OwnershipQosPolicy,
      rq_time_based_filter = initial_TimeBasedFilterQosPolicy,
      rq_reader_data_lifecycle = initial_ReaderDataLifecycleQosPolicy\<rparr>"

definition initial_SubscriberQos :: SubscriberQos where
  "initial_SubscriberQos =
     \<lparr>sq_presentation = initial_PresentationQosPolicy, sq_partition = initial_PartitionQosPolicy,
      sq_group_data = initial_GroupDataQosPolicy, sq_entity_factory = initial_EntityFactoryQosPolicy\<rparr>"

end
