(* ===== verification/Qos_Helper.thy ===== *)
theory Qos_Helper
  imports Initial_Qos
begin

text \<open>
  The checks of \<open>src/dds/DCPS/Qos_Helper.inl\<close>: whether a quality of service is valid, consistent and
  changeable, and the copy of a topic's quality of service to a reader or writer. The overloads of the
  source are distinguished by the type in the name.
\<close>

section \<open>Durations and history depth\<close>

definition valid_duration :: "Duration_t \<Rightarrow> bool" where
  "valid_duration t \<longleftrightarrow>
     duration_eq t DDS_DURATION_INFINITY
     \<or> sec t > 0
     \<or> sec t \<ge> 0 \<and> nanosec t > 0"

definition non_negative_duration :: "Duration_t \<Rightarrow> bool" where
  "non_negative_duration t \<longleftrightarrow>
     sec t = DURATION_ZERO_SEC \<and> nanosec t = DURATION_ZERO_NSEC \<or> valid_duration t"

text \<open>The conversion of a C++ \<open>long\<close> to the 32-bit \<open>CORBA::Long\<close>.\<close>

definition to_corba_long :: "int \<Rightarrow> int" where
  "to_corba_long x = sint (word_of_int x :: 32 word)"

definition get_instance_sample_list_depth :: "HistoryQosPolicyKind \<Rightarrow> int \<Rightarrow> int \<Rightarrow> int" where
  "get_instance_sample_list_depth history_kind history_depth max_samples_per_instance =
     (let depth = (if history_kind = KEEP_ALL_HISTORY_QOS then to_corba_long max_samples_per_instance
                   else to_corba_long history_depth)
      in if depth = LENGTH_UNLIMITED then 0x7fffffff else depth)"

section \<open>consistent\<close>

definition consistent_limits :: "ResourceLimitsQosPolicy \<Rightarrow> HistoryQosPolicy \<Rightarrow> bool" where
  "consistent_limits resource_limits history =
     (let max_samples_per_instance = lim_max_samples_per_instance resource_limits;
          max_samples = lim_max_samples resource_limits
      in max_samples_per_instance = LENGTH_UNLIMITED
         \<or> max_samples_per_instance \<ge> hi_depth history
           \<and> (max_samples = LENGTH_UNLIMITED \<or> max_samples \<ge> max_samples_per_instance))"

definition consistent_deadline :: "DeadlineQosPolicy \<Rightarrow> TimeBasedFilterQosPolicy \<Rightarrow> bool" where
  "consistent_deadline deadline time_based_filter \<longleftrightarrow>
     duration_less_eq (tb_minimum_separation time_based_filter) (dl_period deadline)"

definition consistent_DomainParticipantQos :: "DomainParticipantQos \<Rightarrow> bool" where
  "consistent_DomainParticipantQos qos \<longleftrightarrow> True"

text \<open>The history and limits of the durability service, as the two policies they correspond to.\<close>

definition ds_history :: "DurabilityServiceQosPolicy \<Rightarrow> HistoryQosPolicy" where
  "ds_history ds = \<lparr>hi_kind = ds_history_kind ds, hi_depth = ds_history_depth ds\<rparr>"

definition ds_resource_limits :: "DurabilityServiceQosPolicy \<Rightarrow> ResourceLimitsQosPolicy" where
  "ds_resource_limits ds =
     \<lparr>lim_max_samples = ds_max_samples ds, lim_max_instances = ds_max_instances ds,
      lim_max_samples_per_instance = ds_max_samples_per_instance ds\<rparr>"

definition consistent_TopicQos :: "TopicQos \<Rightarrow> bool" where
  "consistent_TopicQos qos \<longleftrightarrow>
     consistent_limits (tq_resource_limits qos) (tq_history qos)
     \<and> consistent_limits (ds_resource_limits (tq_durability_service qos)) (ds_history (tq_durability_service qos))"

definition consistent_DataWriterQos :: "DataWriterQos \<Rightarrow> bool" where
  "consistent_DataWriterQos qos \<longleftrightarrow>
     consistent_limits (wq_resource_limits qos) (wq_history qos)
     \<and> consistent_limits (ds_resource_limits (wq_durability_service qos)) (ds_history (wq_durability_service qos))"

definition consistent_PublisherQos :: "PublisherQos \<Rightarrow> bool" where
  "consistent_PublisherQos qos \<longleftrightarrow> True"

definition consistent_DataReaderQos :: "DataReaderQos \<Rightarrow> bool" where
  "consistent_DataReaderQos qos \<longleftrightarrow>
     consistent_deadline (rq_deadline qos) (rq_time_based_filter qos)
     \<and> consistent_limits (rq_resource_limits qos) (rq_history qos)"

definition consistent_SubscriberQos :: "SubscriberQos \<Rightarrow> bool" where
  "consistent_SubscriberQos qos \<longleftrightarrow> True"

definition consistent_DomainParticipantFactoryQos :: "DomainParticipantFactoryQos \<Rightarrow> bool" where
  "consistent_DomainParticipantFactoryQos qos \<longleftrightarrow> True"

section \<open>valid\<close>

definition valid_UserDataQosPolicy :: "UserDataQosPolicy \<Rightarrow> bool" where
  "valid_UserDataQosPolicy qos \<longleftrightarrow> True"

definition valid_TopicDataQosPolicy :: "TopicDataQosPolicy \<Rightarrow> bool" where
  "valid_TopicDataQosPolicy qos \<longleftrightarrow> True"

definition valid_GroupDataQosPolicy :: "GroupDataQosPolicy \<Rightarrow> bool" where
  "valid_GroupDataQosPolicy qos \<longleftrightarrow> True"

definition valid_TransportPriorityQosPolicy :: "TransportPriorityQosPolicy \<Rightarrow> bool" where
  "valid_TransportPriorityQosPolicy qos \<longleftrightarrow> True"

definition valid_LifespanQosPolicy :: "LifespanQosPolicy \<Rightarrow> bool" where
  "valid_LifespanQosPolicy qos \<longleftrightarrow> valid_duration (ls_duration qos)"

definition valid_DurabilityQosPolicy :: "DurabilityQosPolicy \<Rightarrow> bool" where
  "valid_DurabilityQosPolicy qos \<longleftrightarrow>
     du_kind qos = VOLATILE_DURABILITY_QOS
     \<or> du_kind qos = TRANSIENT_LOCAL_DURABILITY_QOS
     \<or> du_kind qos = TRANSIENT_DURABILITY_QOS
     \<or> du_kind qos = PERSISTENT_DURABILITY_QOS"

definition valid_PresentationQosPolicy :: "PresentationQosPolicy \<Rightarrow> bool" where
  "valid_PresentationQosPolicy qos \<longleftrightarrow>
     pr_access_scope qos = INSTANCE_PRESENTATION_QOS
     \<or> pr_access_scope qos = TOPIC_PRESENTATION_QOS
     \<or> pr_access_scope qos = GROUP_PRESENTATION_QOS"

definition valid_DeadlineQosPolicy :: "DeadlineQosPolicy \<Rightarrow> bool" where
  "valid_DeadlineQosPolicy qos \<longleftrightarrow> valid_duration (dl_period qos)"

definition valid_LatencyBudgetQosPolicy :: "LatencyBudgetQosPolicy \<Rightarrow> bool" where
  "valid_LatencyBudgetQosPolicy qos \<longleftrightarrow> True"

definition valid_OwnershipQosPolicy :: "OwnershipQosPolicy \<Rightarrow> bool" where
  "valid_OwnershipQosPolicy qos \<longleftrightarrow>
     ow_kind qos = SHARED_OWNERSHIP_QOS \<or> ow_kind qos = EXCLUSIVE_OWNERSHIP_QOS"

definition valid_OwnershipStrengthQosPolicy :: "OwnershipStrengthQosPolicy \<Rightarrow> bool" where
  "valid_OwnershipStrengthQosPolicy qos \<longleftrightarrow> True"

definition valid_LivelinessQosPolicy :: "LivelinessQosPolicy \<Rightarrow> bool" where
  "valid_LivelinessQosPolicy qos \<longleftrightarrow>
     (lv_kind qos = AUTOMATIC_LIVELINESS_QOS
      \<or> lv_kind qos = MANUAL_BY_PARTICIPANT_LIVELINESS_QOS
      \<or> lv_kind qos = MANUAL_BY_TOPIC_LIVELINESS_QOS)
     \<and> valid_duration (lv_lease_duration qos)"

definition valid_TimeBasedFilterQosPolicy :: "TimeBasedFilterQosPolicy \<Rightarrow> bool" where
  "valid_TimeBasedFilterQosPolicy qos \<longleftrightarrow> True"

definition valid_PartitionQosPolicy :: "PartitionQosPolicy \<Rightarrow> bool" where
  "valid_PartitionQosPolicy qos \<longleftrightarrow> True"

definition valid_ReliabilityQosPolicy :: "ReliabilityQosPolicy \<Rightarrow> bool" where
  "valid_ReliabilityQosPolicy qos \<longleftrightarrow>
     rl_kind qos = BEST_EFFORT_RELIABILITY_QOS \<or> rl_kind qos = RELIABLE_RELIABILITY_QOS"

definition valid_DestinationOrderQosPolicy :: "DestinationOrderQosPolicy \<Rightarrow> bool" where
  "valid_DestinationOrderQosPolicy qos \<longleftrightarrow>
     do_kind qos = BY_RECEPTION_TIMESTAMP_DESTINATIONORDER_QOS
     \<or> do_kind qos = BY_SOURCE_TIMESTAMP_DESTINATIONORDER_QOS"

definition valid_HistoryQosPolicy :: "HistoryQosPolicy \<Rightarrow> bool" where
  "valid_HistoryQosPolicy qos \<longleftrightarrow>
     (hi_kind qos = KEEP_LAST_HISTORY_QOS \<or> hi_kind qos = KEEP_ALL_HISTORY_QOS)
     \<and> (hi_depth qos = LENGTH_UNLIMITED \<or> hi_depth qos > 0)"

definition valid_ResourceLimitsQosPolicy :: "ResourceLimitsQosPolicy \<Rightarrow> bool" where
  "valid_ResourceLimitsQosPolicy qos \<longleftrightarrow>
     (lim_max_samples qos = LENGTH_UNLIMITED \<or> lim_max_samples qos > 0)
     \<and> (lim_max_instances qos = LENGTH_UNLIMITED \<or> lim_max_instances qos > 0)
     \<and> (lim_max_samples_per_instance qos = LENGTH_UNLIMITED \<or> lim_max_samples_per_instance qos > 0)"

definition valid_DurabilityServiceQosPolicy :: "DurabilityServiceQosPolicy \<Rightarrow> bool" where
  "valid_DurabilityServiceQosPolicy qos \<longleftrightarrow>
     non_negative_duration (ds_service_cleanup_delay qos)
     \<and> valid_HistoryQosPolicy (ds_history qos)
     \<and> valid_ResourceLimitsQosPolicy (ds_resource_limits qos)"

definition valid_EntityFactoryQosPolicy :: "EntityFactoryQosPolicy \<Rightarrow> bool" where
  "valid_EntityFactoryQosPolicy qos \<longleftrightarrow> True"

definition valid_WriterDataLifecycleQosPolicy :: "WriterDataLifecycleQosPolicy \<Rightarrow> bool" where
  "valid_WriterDataLifecycleQosPolicy qos \<longleftrightarrow> True"

definition valid_ReaderDataLifecycleQosPolicy :: "ReaderDataLifecycleQosPolicy \<Rightarrow> bool" where
  "valid_ReaderDataLifecycleQosPolicy qos \<longleftrightarrow> True"

definition valid_DomainParticipantQos :: "DomainParticipantQos \<Rightarrow> bool" where
  "valid_DomainParticipantQos qos \<longleftrightarrow>
     valid_UserDataQosPolicy (dpq_user_data qos)
     \<and> valid_EntityFactoryQosPolicy (dpq_entity_factory qos)"

definition valid_TopicQos :: "TopicQos \<Rightarrow> bool" where
  "valid_TopicQos qos \<longleftrightarrow>
     valid_TopicDataQosPolicy (tq_topic_data qos)
     \<and> valid_DurabilityQosPolicy (tq_durability qos)
     \<and> valid_DurabilityServiceQosPolicy (tq_durability_service qos)
     \<and> valid_DeadlineQosPolicy (tq_deadline qos)
     \<and> valid_LatencyBudgetQosPolicy (tq_latency_budget qos)
     \<and> valid_LivelinessQosPolicy (tq_liveliness qos)
     \<and> valid_DestinationOrderQosPolicy (tq_destination_order qos)
     \<and> valid_HistoryQosPolicy (tq_history qos)
     \<and> valid_ResourceLimitsQosPolicy (tq_resource_limits qos)
     \<and> valid_TransportPriorityQosPolicy (tq_transport_priority qos)
     \<and> valid_LifespanQosPolicy (tq_lifespan qos)
     \<and> valid_OwnershipQosPolicy (tq_ownership qos)"

definition valid_DataWriterQos :: "DataWriterQos \<Rightarrow> bool" where
  "valid_DataWriterQos qos \<longleftrightarrow>
     valid_DurabilityQosPolicy (wq_durability qos)
     \<and> valid_DurabilityServiceQosPolicy (wq_durability_service qos)
     \<and> valid_DeadlineQosPolicy (wq_deadline qos)
     \<and> valid_LatencyBudgetQosPolicy (wq_latency_budget qos)
     \<and> valid_LivelinessQosPolicy (wq_liveliness qos)
     \<and> valid_DestinationOrderQosPolicy (wq_destination_order qos)
     \<and> valid_HistoryQosPolicy (wq_history qos)
     \<and> valid_ResourceLimitsQosPolicy (wq_resource_limits qos)
     \<and> valid_TransportPriorityQosPolicy (wq_transport_priority qos)
     \<and> valid_LifespanQosPolicy (wq_lifespan qos)
     \<and> valid_UserDataQosPolicy (wq_user_data qos)
     \<and> valid_OwnershipQosPolicy (wq_ownership qos)
     \<and> valid_OwnershipStrengthQosPolicy (wq_ownership_strength qos)
     \<and> valid_WriterDataLifecycleQosPolicy (wq_writer_data_lifecycle qos)"

definition valid_PublisherQos :: "PublisherQos \<Rightarrow> bool" where
  "valid_PublisherQos qos \<longleftrightarrow>
     valid_PresentationQosPolicy (pq_presentation qos)
     \<and> valid_PartitionQosPolicy (pq_partition qos)
     \<and> valid_GroupDataQosPolicy (pq_group_data qos)
     \<and> valid_EntityFactoryQosPolicy (pq_entity_factory qos)"

definition valid_DataReaderQos :: "DataReaderQos \<Rightarrow> bool" where
  "valid_DataReaderQos qos \<longleftrightarrow>
     valid_DurabilityQosPolicy (rq_durability qos)
     \<and> valid_DeadlineQosPolicy (rq_deadline qos)
     \<and> valid_LatencyBudgetQosPolicy (rq_latency_budget qos)
     \<and> valid_LivelinessQosPolicy (rq_liveliness qos)
     \<and> valid_ReliabilityQosPolicy (rq_reliability qos)
     \<and> valid_DestinationOrderQosPolicy (rq_destination_order qos)
     \<and> valid_HistoryQosPolicy (rq_history qos)
     \<and> valid_ResourceLimitsQosPolicy (rq_resource_limits qos)
     \<and> valid_UserDataQosPolicy (rq_user_data qos)
     \<and> valid_TimeBasedFilterQosPolicy (rq_time_based_filter qos)
     \<and> valid_ReaderDataLifecycleQosPolicy (rq_reader_data_lifecycle qos)
     \<and> valid_OwnershipQosPolicy (rq_ownership qos)"

definition valid_SubscriberQos :: "SubscriberQos \<Rightarrow> bool" where
  "valid_SubscriberQos qos \<longleftrightarrow>
     valid_PresentationQosPolicy (sq_presentation qos)
     \<and> valid_PartitionQosPolicy (sq_partition qos)
     \<and> valid_GroupDataQosPolicy (sq_group_data qos)
     \<and> valid_EntityFactoryQosPolicy (sq_entity_factory qos)"

definition valid_DomainParticipantFactoryQos :: "DomainParticipantFactoryQos \<Rightarrow> bool" where
  "valid_DomainParticipantFactoryQos qos \<longleftrightarrow>
     valid_EntityFactoryQosPolicy (pfq_entity_factory qos)"

section \<open>changeable\<close>

definition changeable_UserDataQosPolicy :: "UserDataQosPolicy \<Rightarrow> UserDataQosPolicy \<Rightarrow> bool" where
  "changeable_UserDataQosPolicy qos1 qos2 \<longleftrightarrow> True"

definition changeable_TopicDataQosPolicy :: "TopicDataQosPolicy \<Rightarrow> TopicDataQosPolicy \<Rightarrow> bool" where
  "changeable_TopicDataQosPolicy qos1 qos2 \<longleftrightarrow> True"

definition changeable_GroupDataQosPolicy :: "GroupDataQosPolicy \<Rightarrow> GroupDataQosPolicy \<Rightarrow> bool" where
  "changeable_GroupDataQosPolicy qos1 qos2 \<longleftrightarrow> True"

definition changeable_TransportPriorityQosPolicy :: "TransportPriorityQosPolicy \<Rightarrow> TransportPriorityQosPolicy \<Rightarrow> bool" where
  "changeable_TransportPriorityQosPolicy qos1 qos2 \<longleftrightarrow> eq_TransportPriorityQosPolicy qos1 qos2"

definition changeable_LifespanQosPolicy :: "LifespanQosPolicy \<Rightarrow> LifespanQosPolicy \<Rightarrow> bool" where
  "changeable_LifespanQosPolicy qos1 qos2 \<longleftrightarrow> True"

definition changeable_DurabilityQosPolicy :: "DurabilityQosPolicy \<Rightarrow> DurabilityQosPolicy \<Rightarrow> bool" where
  "changeable_DurabilityQosPolicy qos1 qos2 \<longleftrightarrow> eq_DurabilityQosPolicy qos1 qos2"

definition changeable_DurabilityServiceQosPolicy :: "DurabilityServiceQosPolicy \<Rightarrow> DurabilityServiceQosPolicy \<Rightarrow> bool" where
  "changeable_DurabilityServiceQosPolicy qos1 qos2 \<longleftrightarrow> eq_DurabilityServiceQosPolicy qos1 qos2"

definition changeable_PresentationQosPolicy :: "PresentationQosPolicy \<Rightarrow> PresentationQosPolicy \<Rightarrow> bool" where
  "changeable_PresentationQosPolicy qos1 qos2 \<longleftrightarrow> (if eq_PresentationQosPolicy qos1 qos2 then True else False)"

definition changeable_DeadlineQosPolicy :: "DeadlineQosPolicy \<Rightarrow> DeadlineQosPolicy \<Rightarrow> bool" where
  "changeable_DeadlineQosPolicy qos1 qos2 \<longleftrightarrow> True"

definition changeable_LatencyBudgetQosPolicy :: "LatencyBudgetQosPolicy \<Rightarrow> LatencyBudgetQosPolicy \<Rightarrow> bool" where
  "changeable_LatencyBudgetQosPolicy qos1 qos2 \<longleftrightarrow> True"

definition changeable_OwnershipQosPolicy :: "OwnershipQosPolicy \<Rightarrow> OwnershipQosPolicy \<Rightarrow> bool" where
  "changeable_OwnershipQosPolicy qos1 qos2 \<longleftrightarrow> eq_OwnershipQosPolicy qos1 qos2"

definition changeable_OwnershipStrengthQosPolicy :: "OwnershipStrengthQosPolicy \<Rightarrow> OwnershipStrengthQosPolicy \<Rightarrow> bool" where
  "changeable_OwnershipStrengthQosPolicy qos1 qos2 \<longleftrightarrow> True"

definition changeable_LivelinessQosPolicy :: "LivelinessQosPolicy \<Rightarrow> LivelinessQosPolicy \<Rightarrow> bool" where
  "changeable_LivelinessQosPolicy qos1 qos2 \<longleftrightarrow> eq_LivelinessQosPolicy qos1 qos2"

definition changeable_TimeBasedFilterQosPolicy :: "TimeBasedFilterQosPolicy \<Rightarrow> TimeBasedFilterQosPolicy \<Rightarrow> bool" where
  "changeable_TimeBasedFilterQosPolicy qos1 qos2 \<longleftrightarrow> True"

definition changeable_PartitionQosPolicy :: "PartitionQosPolicy \<Rightarrow> PartitionQosPolicy \<Rightarrow> bool" where
  "changeable_PartitionQosPolicy qos1 qos2 \<longleftrightarrow> True"

definition changeable_ReliabilityQosPolicy :: "ReliabilityQosPolicy \<Rightarrow> ReliabilityQosPolicy \<Rightarrow> bool" where
  "changeable_ReliabilityQosPolicy qos1 qos2 \<longleftrightarrow> eq_ReliabilityQosPolicy qos1 qos2"

definition changeable_DestinationOrderQosPolicy :: "DestinationOrderQosPolicy \<Rightarrow> DestinationOrderQosPolicy \<Rightarrow> bool" where
  "changeable_DestinationOrderQosPolicy qos1 qos2 \<longleftrightarrow> eq_DestinationOrderQosPolicy qos1 qos2"

definition changeable_HistoryQosPolicy :: "HistoryQosPolicy \<Rightarrow> HistoryQosPolicy \<Rightarrow> bool" where
  "changeable_HistoryQosPolicy qos1 qos2 \<longleftrightarrow> eq_HistoryQosPolicy qos1 qos2"

definition changeable_ResourceLimitsQosPolicy :: "ResourceLimitsQosPolicy \<Rightarrow> ResourceLimitsQosPolicy \<Rightarrow> bool" where
  "changeable_ResourceLimitsQosPolicy qos1 qos2 \<longleftrightarrow> eq_ResourceLimitsQosPolicy qos1 qos2"

definition changeable_EntityFactoryQosPolicy :: "EntityFactoryQosPolicy \<Rightarrow> EntityFactoryQosPolicy \<Rightarrow> bool" where
  "changeable_EntityFactoryQosPolicy qos1 qos2 \<longleftrightarrow> True"

definition changeable_WriterDataLifecycleQosPolicy :: "WriterDataLifecycleQosPolicy \<Rightarrow> WriterDataLifecycleQosPolicy \<Rightarrow> bool" where
  "changeable_WriterDataLifecycleQosPolicy qos1 qos2 \<longleftrightarrow> True"

definition changeable_ReaderDataLifecycleQosPolicy :: "ReaderDataLifecycleQosPolicy \<Rightarrow> ReaderDataLifecycleQosPolicy \<Rightarrow> bool" where
  "changeable_ReaderDataLifecycleQosPolicy qos1 qos2 \<longleftrightarrow> True"

definition changeable_DomainParticipantQos :: "DomainParticipantQos \<Rightarrow> DomainParticipantQos \<Rightarrow> bool" where
  "changeable_DomainParticipantQos qos1 qos2 \<longleftrightarrow>
     changeable_UserDataQosPolicy (dpq_user_data qos1) (dpq_user_data qos2)
     \<and> changeable_EntityFactoryQosPolicy (dpq_entity_factory qos1) (dpq_entity_factory qos2)"

definition changeable_TopicQos :: "TopicQos \<Rightarrow> TopicQos \<Rightarrow> bool" where
  "changeable_TopicQos qos1 qos2 \<longleftrightarrow>
     changeable_TopicDataQosPolicy (tq_topic_data qos1) (tq_topic_data qos2)
     \<and> changeable_DurabilityQosPolicy (tq_durability qos1) (tq_durability qos2)
     \<and> changeable_DurabilityServiceQosPolicy (tq_durability_service qos1) (tq_durability_service qos2)
     \<and> changeable_DeadlineQosPolicy (tq_deadline qos1) (tq_deadline qos2)
     \<and> changeable_LatencyBudgetQosPolicy (tq_latency_budget qos1) (tq_latency_budget qos2)
     \<and> changeable_LivelinessQosPolicy (tq_liveliness qos1) (tq_liveliness qos2)
     \<and> changeable_DestinationOrderQosPolicy (tq_destination_order qos1) (tq_destination_order qos2)
     \<and> changeable_HistoryQosPolicy (tq_history qos1) (tq_history qos2)
     \<and> changeable_ResourceLimitsQosPolicy (tq_resource_limits qos1) (tq_resource_limits qos2)
     \<and> changeable_TransportPriorityQosPolicy (tq_transport_priority qos1) (tq_transport_priority qos2)
     \<and> changeable_LifespanQosPolicy (tq_lifespan qos1) (tq_lifespan qos2)
     \<and> changeable_OwnershipQosPolicy (tq_ownership qos1) (tq_ownership qos2)"

definition changeable_DataWriterQos :: "DataWriterQos \<Rightarrow> DataWriterQos \<Rightarrow> bool" where
  "changeable_DataWriterQos qos1 qos2 \<longleftrightarrow>
     changeable_DurabilityQosPolicy (wq_durability qos1) (wq_durability qos2)
     \<and> changeable_DurabilityServiceQosPolicy (wq_durability_service qos1) (wq_durability_service qos2)
     \<and> changeable_DeadlineQosPolicy (wq_deadline qos1) (wq_deadline qos2)
     \<and> changeable_LatencyBudgetQosPolicy (wq_latency_budget qos1) (wq_latency_budget qos2)
     \<and> changeable_LivelinessQosPolicy (wq_liveliness qos1) (wq_liveliness qos2)
     \<and> changeable_DestinationOrderQosPolicy (wq_destination_order qos1) (wq_destination_order qos2)
     \<and> changeable_HistoryQosPolicy (wq_history qos1) (wq_history qos2)
     \<and> changeable_ResourceLimitsQosPolicy (wq_resource_limits qos1) (wq_resource_limits qos2)
     \<and> changeable_TransportPriorityQosPolicy (wq_transport_priority qos1) (wq_transport_priority qos2)
     \<and> changeable_LifespanQosPolicy (wq_lifespan qos1) (wq_lifespan qos2)
     \<and> changeable_UserDataQosPolicy (wq_user_data qos1) (wq_user_data qos2)
     \<and> changeable_OwnershipQosPolicy (wq_ownership qos1) (wq_ownership qos2)
     \<and> changeable_OwnershipStrengthQosPolicy (wq_ownership_strength qos1) (wq_ownership_strength qos2)
     \<and> changeable_WriterDataLifecycleQosPolicy (wq_writer_data_lifecycle qos1) (wq_writer_data_lifecycle qos2)"

definition changeable_PublisherQos :: "PublisherQos \<Rightarrow> PublisherQos \<Rightarrow> bool" where
  "changeable_PublisherQos qos1 qos2 \<longleftrightarrow>
     changeable_PresentationQosPolicy (pq_presentation qos1) (pq_presentation qos2)
     \<and> changeable_PartitionQosPolicy (pq_partition qos1) (pq_partition qos2)
     \<and> changeable_GroupDataQosPolicy (pq_group_data qos1) (pq_group_data qos2)
     \<and> changeable_EntityFactoryQosPolicy (pq_entity_factory qos1) (pq_entity_factory qos2)"

definition changeable_DataReaderQos :: "DataReaderQos \<Rightarrow> DataReaderQos \<Rightarrow> bool" where
  "changeable_DataReaderQos qos1 qos2 \<longleftrightarrow>
     changeable_DurabilityQosPolicy (rq_durability qos1) (rq_durability qos2)
     \<and> changeable_DeadlineQosPolicy (rq_deadline qos1) (rq_deadline qos2)
     \<and> changeable_LatencyBudgetQosPolicy (rq_latency_budget qos1) (rq_latency_budget qos2)
     \<and> changeable_LivelinessQosPolicy (rq_liveliness qos1) (rq_liveliness qos2)
     \<and> changeable_ReliabilityQosPolicy (rq_reliability qos1) (rq_reliability qos2)
     \<and> changeable_DestinationOrderQosPolicy (rq_destination_order qos1) (rq_destination_order qos2)
     \<and> changeable_HistoryQosPolicy (rq_history qos1) (rq_history qos2)
     \<and> changeable_ResourceLimitsQosPolicy (rq_resource_limits qos1) (rq_resource_limits qos2)
     \<and> changeable_UserDataQosPolicy (rq_user_data qos1) (rq_user_data qos2)
     \<and> changeable_TimeBasedFilterQosPolicy (rq_time_based_filter qos1) (rq_time_based_filter qos2)
     \<and> changeable_ReaderDataLifecycleQosPolicy (rq_reader_data_lifecycle qos1) (rq_reader_data_lifecycle qos2)
     \<and> changeable_OwnershipQosPolicy (rq_ownership qos1) (rq_ownership qos2)"

definition changeable_SubscriberQos :: "SubscriberQos \<Rightarrow> SubscriberQos \<Rightarrow> bool" where
  "changeable_SubscriberQos qos1 qos2 \<longleftrightarrow>
     changeable_PresentationQosPolicy (sq_presentation qos1) (sq_presentation qos2)
     \<and> changeable_PartitionQosPolicy (sq_partition qos1) (sq_partition qos2)
     \<and> changeable_GroupDataQosPolicy (sq_group_data qos1) (sq_group_data qos2)
     \<and> changeable_EntityFactoryQosPolicy (sq_entity_factory qos1) (sq_entity_factory qos2)"

definition changeable_DomainParticipantFactoryQos :: "DomainParticipantFactoryQos \<Rightarrow> DomainParticipantFactoryQos \<Rightarrow> bool" where
  "changeable_DomainParticipantFactoryQos qos1 qos2 \<longleftrightarrow>
     changeable_EntityFactoryQosPolicy (pfq_entity_factory qos1) (pfq_entity_factory qos2)"

section \<open>copy_from_topic_qos\<close>

text \<open>The result is the returned flag and the quality of service behind the reference parameter.\<close>

definition copy_from_topic_qos_reader :: "DataReaderQos \<Rightarrow> TopicQos \<Rightarrow> bool \<times> DataReaderQos" where
  "copy_from_topic_qos_reader a_qos a_topic_qos =
     (if \<not> valid_TopicQos a_topic_qos \<or> \<not> consistent_TopicQos a_topic_qos then (False, a_qos)
      else (True, a_qos
        \<lparr>rq_durability := tq_durability a_topic_qos,
         rq_deadline := tq_deadline a_topic_qos,
         rq_latency_budget := tq_latency_budget a_topic_qos,
         rq_liveliness := tq_liveliness a_topic_qos,
         rq_reliability := tq_reliability a_topic_qos,
         rq_destination_order := tq_destination_order a_topic_qos,
         rq_history := tq_history a_topic_qos,
         rq_resource_limits := tq_resource_limits a_topic_qos,
         rq_ownership := tq_ownership a_topic_qos\<rparr>))"

definition copy_from_topic_qos_writer :: "DataWriterQos \<Rightarrow> TopicQos \<Rightarrow> bool \<times> DataWriterQos" where
  "copy_from_topic_qos_writer a_qos a_topic_qos =
     (if \<not> valid_TopicQos a_topic_qos \<or> \<not> consistent_TopicQos a_topic_qos then (False, a_qos)
      else (True, a_qos
        \<lparr>wq_durability := tq_durability a_topic_qos,
         wq_durability_service := tq_durability_service a_topic_qos,
         wq_deadline := tq_deadline a_topic_qos,
         wq_latency_budget := tq_latency_budget a_topic_qos,
         wq_liveliness := tq_liveliness a_topic_qos,
         wq_reliability := tq_reliability a_topic_qos,
         wq_destination_order := tq_destination_order a_topic_qos,
         wq_history := tq_history a_topic_qos,
         wq_resource_limits := tq_resource_limits a_topic_qos,
         wq_transport_priority := tq_transport_priority a_topic_qos,
         wq_lifespan := tq_lifespan a_topic_qos,
         wq_ownership := tq_ownership a_topic_qos\<rparr>))"

lemmas policy_valid_defs [qos_defs] =
  valid_UserDataQosPolicy_def valid_TopicDataQosPolicy_def valid_GroupDataQosPolicy_def
  valid_TransportPriorityQosPolicy_def valid_LifespanQosPolicy_def valid_DurabilityQosPolicy_def
  valid_PresentationQosPolicy_def valid_DeadlineQosPolicy_def valid_LatencyBudgetQosPolicy_def
  valid_OwnershipQosPolicy_def valid_OwnershipStrengthQosPolicy_def
  valid_LivelinessQosPolicy_def valid_TimeBasedFilterQosPolicy_def valid_PartitionQosPolicy_def
  valid_ReliabilityQosPolicy_def valid_DestinationOrderQosPolicy_def valid_HistoryQosPolicy_def
  valid_ResourceLimitsQosPolicy_def valid_DurabilityServiceQosPolicy_def
  valid_EntityFactoryQosPolicy_def valid_WriterDataLifecycleQosPolicy_def
  valid_ReaderDataLifecycleQosPolicy_def

lemmas policy_changeable_defs [qos_defs] =
  changeable_UserDataQosPolicy_def changeable_TopicDataQosPolicy_def
  changeable_GroupDataQosPolicy_def changeable_TransportPriorityQosPolicy_def
  changeable_LifespanQosPolicy_def changeable_DurabilityQosPolicy_def
  changeable_DurabilityServiceQosPolicy_def changeable_PresentationQosPolicy_def
  changeable_DeadlineQosPolicy_def changeable_LatencyBudgetQosPolicy_def
  changeable_OwnershipQosPolicy_def changeable_OwnershipStrengthQosPolicy_def
  changeable_LivelinessQosPolicy_def changeable_TimeBasedFilterQosPolicy_def
  changeable_PartitionQosPolicy_def changeable_ReliabilityQosPolicy_def
  changeable_DestinationOrderQosPolicy_def changeable_HistoryQosPolicy_def
  changeable_ResourceLimitsQosPolicy_def changeable_EntityFactoryQosPolicy_def
  changeable_WriterDataLifecycleQosPolicy_def changeable_ReaderDataLifecycleQosPolicy_def


section \<open>Properties\<close>

text \<open>
  The operator \<open>==\<close> of \<open>DataReaderQos\<close> does not look at the ownership policy, which \<open>changeable\<close>
  treats as immutable: two values are identical exactly when they are equal by \<open>==\<close> and changeable into
  each other, and changing the ownership of a reader is a change that \<open>==\<close> does not see.
\<close>

theorem reader_eq_ignores_ownership:
  "(eq_DataReaderQos q r \<and> changeable_DataReaderQos q r \<longleftrightarrow> q = r)
   \<and> eq_DataReaderQos q (q\<lparr>rq_ownership := x\<rparr>)
   \<and> (changeable_DataReaderQos q (q\<lparr>rq_ownership := x\<rparr>) \<longleftrightarrow> rq_ownership q = x)"
  by (cases q; cases r) (auto simp: eq_DataReaderQos_def changeable_DataReaderQos_def policy_changeable_defs)

text \<open>
  A writer's quality of service may change in its deadline, latency budget, lifespan, user data,
  ownership strength and data lifecycle, and, since the check leaves it out, in its reliability; every
  other policy is immutable.
\<close>

theorem writer_changeable_iff:
  "changeable_DataWriterQos q r \<longleftrightarrow>
     r = q\<lparr>wq_deadline := wq_deadline r, wq_latency_budget := wq_latency_budget r,
           wq_reliability := wq_reliability r, wq_lifespan := wq_lifespan r,
           wq_user_data := wq_user_data r, wq_ownership_strength := wq_ownership_strength r,
           wq_writer_data_lifecycle := wq_writer_data_lifecycle r\<rparr>"
  by (cases q; cases r) (auto simp: changeable_DataWriterQos_def policy_changeable_defs)

text \<open>
  For every entity \<open>changeable\<close> is an equivalence relation, so that a chain of permitted changes is
  itself permitted and can be undone.
\<close>

theorem changeable_equivalence:
  "equivp changeable_DomainParticipantQos \<and> equivp changeable_TopicQos \<and> equivp changeable_DataWriterQos
   \<and> equivp changeable_PublisherQos \<and> equivp changeable_DataReaderQos \<and> equivp changeable_SubscriberQos
   \<and> equivp changeable_DomainParticipantFactoryQos"
  by (intro conjI equivpI reflpI sympI transpI)
    (auto simp: changeable_DomainParticipantQos_def changeable_TopicQos_def changeable_DataWriterQos_def
      changeable_PublisherQos_def changeable_DataReaderQos_def changeable_SubscriberQos_def
      changeable_DomainParticipantFactoryQos_def policy_changeable_defs split: if_splits)

text \<open>
  The default quality of service of every entity, as the service participant initialises it, is
  valid and consistent.
\<close>

theorem initial_qos_valid_consistent:
  "valid_DomainParticipantQos initial_DomainParticipantQos
   \<and> consistent_DomainParticipantQos initial_DomainParticipantQos
   \<and> valid_TopicQos initial_TopicQos \<and> consistent_TopicQos initial_TopicQos
   \<and> valid_DataWriterQos initial_DataWriterQos \<and> consistent_DataWriterQos initial_DataWriterQos
   \<and> valid_PublisherQos initial_PublisherQos \<and> consistent_PublisherQos initial_PublisherQos
   \<and> valid_DataReaderQos initial_DataReaderQos \<and> consistent_DataReaderQos initial_DataReaderQos
   \<and> valid_SubscriberQos initial_SubscriberQos \<and> consistent_SubscriberQos initial_SubscriberQos
   \<and> valid_DomainParticipantFactoryQos initial_DomainParticipantFactoryQos
   \<and> consistent_DomainParticipantFactoryQos initial_DomainParticipantFactoryQos"
  by code_simp

text \<open>
  Copying a topic's quality of service into a writer's: the copy is refused, and nothing written,
  exactly when the topic's is invalid or inconsistent; otherwise the result is valid and consistent.
\<close>

theorem copy_to_writer_correct:
  "case copy_from_topic_qos_writer w t of
     (ok, w') \<Rightarrow> (ok \<longleftrightarrow> valid_TopicQos t \<and> consistent_TopicQos t)
       \<and> (if ok then valid_DataWriterQos w' \<and> consistent_DataWriterQos w' \<and> wq_user_data w' = wq_user_data w
                 \<and> wq_ownership_strength w' = wq_ownership_strength w
                 \<and> wq_writer_data_lifecycle w' = wq_writer_data_lifecycle w
          else w' = w)"
  by (simp add: copy_from_topic_qos_writer_def valid_TopicQos_def valid_DataWriterQos_def
      consistent_TopicQos_def consistent_DataWriterQos_def valid_UserDataQosPolicy_def
      valid_OwnershipStrengthQosPolicy_def valid_WriterDataLifecycleQosPolicy_def)

text \<open>
  Copying a topic's quality of service into a reader's gives a valid result; it is consistent
  exactly when the time-based filter the reader already had does not exceed the topic's deadline.
\<close>

theorem copy_to_reader_correct:
  assumes "copy_from_topic_qos_reader q t = (True, q')"
  shows "valid_DataReaderQos q'
    \<and> (consistent_DataReaderQos q'
        \<longleftrightarrow> tb_minimum_separation (rq_time_based_filter q) \<le> dl_period (tq_deadline t))"
proof -
  have t: "valid_TopicQos t" "consistent_TopicQos t"
    using assms by (auto simp: copy_from_topic_qos_reader_def split: if_splits)
  have "valid_ReliabilityQosPolicy (tq_reliability t)"
    by (cases "rl_kind (tq_reliability t)") (simp_all add: valid_ReliabilityQosPolicy_def)
  then show ?thesis
    using assms t
    by (auto simp: copy_from_topic_qos_reader_def valid_TopicQos_def valid_DataReaderQos_def
        consistent_TopicQos_def consistent_DataReaderQos_def consistent_deadline_def less_eq_Duration_t_def
        valid_UserDataQosPolicy_def valid_TimeBasedFilterQosPolicy_def valid_ReaderDataLifecycleQosPolicy_def)
qed

theorem copy_to_reader_correct_witness:
  "case copy_from_topic_qos_reader initial_DataReaderQos initial_TopicQos of
     (ok, q') \<Rightarrow> ok \<and> valid_DataReaderQos q' \<and> consistent_DataReaderQos q'"
proof -
  have "valid_TopicQos initial_TopicQos" "consistent_TopicQos initial_TopicQos" by code_simp+
  then obtain q' where q': "copy_from_topic_qos_reader initial_DataReaderQos initial_TopicQos = (True, q')"
    by (simp add: copy_from_topic_qos_reader_def)
  moreover have "tb_minimum_separation (rq_time_based_filter initial_DataReaderQos)
      \<le> dl_period (tq_deadline initial_TopicQos)" by code_simp
  ultimately show ?thesis using copy_to_reader_correct [OF q'] by simp
qed

definition long_range :: "int \<Rightarrow> bool" where
  "long_range x \<longleftrightarrow> - 2147483648 \<le> x \<and> x \<le> 2147483647"

lemma to_corba_long_id: "long_range x \<Longrightarrow> to_corba_long x = x"
  unfolding to_corba_long_def long_range_def
  by (simp add: signed_of_int signed_take_bit_int_eq_self)

text \<open>
  (C30) For limits and a history that are valid and consistent, the number of samples kept per instance
  is at least one and fits a 32-bit \<open>long\<close>; a finite \<open>max_samples_per_instance\<close> bounds it, unless the
  history keeps the last samples with an unlimited depth, which the consistency check lets through.
\<close>

theorem sample_list_depth_bounds:
  fixes l :: ResourceLimitsQosPolicy and h :: HistoryQosPolicy
  assumes "valid_HistoryQosPolicy h" and "valid_ResourceLimitsQosPolicy l" and "consistent_limits l h"
    and "long_range (hi_depth h)" and "long_range (lim_max_samples_per_instance l)"
  defines "d \<equiv> get_instance_sample_list_depth (hi_kind h) (hi_depth h) (lim_max_samples_per_instance l)"
  shows "1 \<le> d \<and> d \<le> 2147483647
    \<and> (lim_max_samples_per_instance l \<noteq> LENGTH_UNLIMITED
        \<and> \<not> (hi_kind h = KEEP_LAST_HISTORY_QOS \<and> hi_depth h = LENGTH_UNLIMITED)
        \<longrightarrow> d \<le> lim_max_samples_per_instance l)"
  using assms(1-3) to_corba_long_id [OF assms(4)] to_corba_long_id [OF assms(5)] assms(4,5)
  by (cases "hi_kind h")
    (auto simp: d_def get_instance_sample_list_depth_def Let_def valid_HistoryQosPolicy_def
      valid_ResourceLimitsQosPolicy_def consistent_limits_def LENGTH_UNLIMITED_def long_range_def)

theorem sample_list_depth_bounds_witness:
  "(let l = \<lparr>lim_max_samples = - 1, lim_max_instances = - 1, lim_max_samples_per_instance = 10\<rparr> in
    get_instance_sample_list_depth KEEP_LAST_HISTORY_QOS 4 (lim_max_samples_per_instance l) \<le> 10
    \<and> consistent_limits l \<lparr>hi_kind = KEEP_LAST_HISTORY_QOS, hi_depth = - 1\<rparr>
    \<and> get_instance_sample_list_depth KEEP_LAST_HISTORY_QOS (- 1) (lim_max_samples_per_instance l) = 2147483647)"
proof -
  let ?l = "\<lparr>lim_max_samples = - 1, lim_max_instances = - 1, lim_max_samples_per_instance = 10\<rparr>"
  have "get_instance_sample_list_depth KEEP_LAST_HISTORY_QOS 4 10 \<le> 10"
    using sample_list_depth_bounds [of "\<lparr>hi_kind = KEEP_LAST_HISTORY_QOS, hi_depth = 4\<rparr>" ?l]
    by (simp add: valid_HistoryQosPolicy_def valid_ResourceLimitsQosPolicy_def consistent_limits_def
        LENGTH_UNLIMITED_def long_range_def)
  moreover have "get_instance_sample_list_depth KEEP_LAST_HISTORY_QOS (- 1) 10 = 2147483647"
    by (simp add: get_instance_sample_list_depth_def LENGTH_UNLIMITED_def to_corba_long_id long_range_def)
  ultimately show ?thesis by (simp add: consistent_limits_def LENGTH_UNLIMITED_def)
qed

end
