(* ===== verification/Qos_Compat.thy ===== *)
theory Qos_Compat
  imports Qos_Helper
begin

text \<open>
  Matching of publications and subscriptions: \<open>src/dds/DCPS/DCPS_Utils.cpp\<close>. Partition names are
  strings; \<open>ACE::wild_match\<close> of the ACE library is the parameter \<open>wild_match\<close>, applied to a string and a
  pattern. The two statuses that the functions update through pointers are passed and returned.
\<close>

section \<open>Partitions\<close>

definition wild :: "char set" where "wild = set ''?*[''"

text \<open>\<open>strcspn\<close>: the length of the prefix free of the given characters.\<close>

definition strcspn :: "string \<Rightarrow> char set \<Rightarrow> nat" where
  "strcspn str cs = length (takeWhile (\<lambda>c. c \<notin> cs) str)"

function is_wildcard :: "string \<Rightarrow> bool" where
  "is_wildcard str =
     (if str = [] then False
      else let i = strcspn str wild in
           if length str \<le> i then False
           else if i > 0 \<and> str ! (i - 1) = CHR 0x5C then is_wildcard (drop (i + 1) str)
           else True)"
  by pat_completeness auto
termination
  by (relation "measure length") auto

declare is_wildcard.simps [simp del]

record PartitionName =
  pn_name :: string
  pn_wildcard :: bool

definition mk_PartitionName :: "string \<Rightarrow> PartitionName" where
  "mk_PartitionName name = \<lparr>pn_name = name, pn_wildcard = is_wildcard name\<rparr>"

definition pn_matches :: "(string \<Rightarrow> string \<Rightarrow> bool) \<Rightarrow> PartitionName \<Rightarrow> PartitionName \<Rightarrow> bool" where
  "pn_matches wild_match p n =
     (if pn_wildcard p \<and> pn_wildcard n then False
      else if pn_wildcard p then wild_match (pn_name n) (pn_name p)
      else if pn_wildcard n then wild_match (pn_name p) (pn_name n)
      else pn_name p = pn_name n)"

definition matches_name :: "(string \<Rightarrow> string \<Rightarrow> bool) \<Rightarrow> PartitionQosPolicy \<Rightarrow> PartitionName \<Rightarrow> bool" where
  "matches_name wild_match qos name =
     list_ex (\<lambda>n. pn_matches wild_match (mk_PartitionName n) name) (pt_name qos)"

definition matches_default :: "PartitionQosPolicy \<Rightarrow> bool" where
  "matches_default qos =
     (if length (pt_name qos) = 0 then True else list_ex (\<lambda>n. n = []) (pt_name qos))"

definition matching_partitions ::
    "(string \<Rightarrow> string \<Rightarrow> bool) \<Rightarrow> PartitionQosPolicy \<Rightarrow> PartitionQosPolicy \<Rightarrow> bool" where
  "matching_partitions wild_match pub sub =
     (if matches_default pub \<and> matches_default sub then True
      else if matches_default pub \<and> length (pt_name pub) = 0
      then matches_name wild_match sub (mk_PartitionName '''')
      else list_ex (\<lambda>name. matches_name wild_match sub (mk_PartitionName name)) (pt_name pub))"

section \<open>Incompatibility statuses\<close>

record QosPolicyCount =
  policy_id :: int
  count :: int

record IncompatibleQosStatus =
  total_count :: int
  count_since_last_send :: int
  last_policy_id :: int
  policies :: "QosPolicyCount list"

text \<open>The loop over the counters, and the new counter appended when none was updated.\<close>

fun count_policy :: "QosPolicyCount list \<Rightarrow> int \<Rightarrow> QosPolicyCount list" where
  "count_policy [] incompatible_policy = [\<lparr>policy_id = incompatible_policy, count = 1\<rparr>]"
| "count_policy (p # ps) incompatible_policy =
     (if policy_id p = incompatible_policy then p\<lparr>count := count p + 1\<rparr> # ps
      else p # count_policy ps incompatible_policy)"

definition increment_incompatibility_count :: "int \<Rightarrow> IncompatibleQosStatus \<Rightarrow> IncompatibleQosStatus" where
  "increment_incompatibility_count incompatible_policy status =
     status\<lparr>total_count := total_count status + 1,
            count_since_last_send := count_since_last_send status + 1,
            last_policy_id := incompatible_policy,
            policies := count_policy (policies status) incompatible_policy\<rparr>"

definition TRANSPORTTYPE_QOS_POLICY_ID :: int where "TRANSPORTTYPE_QOS_POLICY_ID = 0x7fffffff"
definition DURABILITY_QOS_POLICY_ID :: int where "DURABILITY_QOS_POLICY_ID = 2"
definition PRESENTATION_QOS_POLICY_ID :: int where "PRESENTATION_QOS_POLICY_ID = 3"
definition DEADLINE_QOS_POLICY_ID :: int where "DEADLINE_QOS_POLICY_ID = 4"
definition LATENCYBUDGET_QOS_POLICY_ID :: int where "LATENCYBUDGET_QOS_POLICY_ID = 5"
definition OWNERSHIP_QOS_POLICY_ID :: int where "OWNERSHIP_QOS_POLICY_ID = 6"
definition LIVELINESS_QOS_POLICY_ID :: int where "LIVELINESS_QOS_POLICY_ID = 8"
definition RELIABILITY_QOS_POLICY_ID :: int where "RELIABILITY_QOS_POLICY_ID = 11"

section \<open>Compatibility\<close>

record TransportLocator =
  transport_type :: string
  transport_data :: "octet list"

definition compatibleTransports :: "TransportLocator list \<Rightarrow> TransportLocator list \<Rightarrow> bool" where
  "compatibleTransports s1 s2 =
     list_ex (\<lambda>l1. list_ex (\<lambda>l2. transport_type l1 = transport_type l2) s2) s1"

text \<open>
  The state of a check: the flag \<open>compatible\<close>, the writer's and the reader's status. Each failing test
  clears the flag and counts the policy in both statuses.
\<close>

type_synonym compat_state = "bool \<times> IncompatibleQosStatus \<times> IncompatibleQosStatus"

definition incompatible_if :: "bool \<Rightarrow> int \<Rightarrow> compat_state \<Rightarrow> compat_state" where
  "incompatible_if test policy st =
     (case st of (compatible, writerStatus, readerStatus) \<Rightarrow>
        if test then (False, increment_incompatibility_count policy writerStatus,
                      increment_incompatibility_count policy readerStatus)
        else (compatible, writerStatus, readerStatus))"

definition compatibleQOS_pub_sub ::
    "PublisherQos \<Rightarrow> SubscriberQos \<Rightarrow> IncompatibleQosStatus \<Rightarrow> IncompatibleQosStatus \<Rightarrow> compat_state" where
  "compatibleQOS_pub_sub pubQos subQos writerStatus readerStatus =
     incompatible_if
       (pr_access_scope (pq_presentation pubQos) < pr_access_scope (sq_presentation subQos)
        \<or> pr_coherent_access (pq_presentation pubQos) = False
          \<and> pr_coherent_access (sq_presentation subQos) = True
        \<or> pr_ordered_access (pq_presentation pubQos) = False
          \<and> pr_ordered_access (sq_presentation subQos) = True)
       PRESENTATION_QOS_POLICY_ID (True, writerStatus, readerStatus)"

definition compatibleQOS_writer_reader ::
    "DataWriterQos \<Rightarrow> DataReaderQos \<Rightarrow> IncompatibleQosStatus \<Rightarrow> IncompatibleQosStatus \<Rightarrow> compat_state" where
  "compatibleQOS_writer_reader writerQos readerQos writerStatus readerStatus =
     (let st = (True, writerStatus, readerStatus);
          st = incompatible_if (rl_kind (wq_reliability writerQos) < rl_kind (rq_reliability readerQos))
                 RELIABILITY_QOS_POLICY_ID st;
          st = incompatible_if (du_kind (wq_durability writerQos) < du_kind (rq_durability readerQos))
                 DURABILITY_QOS_POLICY_ID st;
          st = incompatible_if
                 (lv_kind (wq_liveliness writerQos) < lv_kind (rq_liveliness readerQos)
                  \<or> duration_greater (lv_lease_duration (wq_liveliness writerQos))
                      (lv_lease_duration (rq_liveliness readerQos)))
                 LIVELINESS_QOS_POLICY_ID st;
          st = incompatible_if
                 (duration_greater (dl_period (wq_deadline writerQos)) (dl_period (rq_deadline readerQos)))
                 DEADLINE_QOS_POLICY_ID st;
          st = incompatible_if
                 (duration_less (lb_duration (rq_latency_budget readerQos))
                    (lb_duration (wq_latency_budget writerQos)))
                 LATENCYBUDGET_QOS_POLICY_ID st
      in incompatible_if (ow_kind (wq_ownership writerQos) \<noteq> ow_kind (rq_ownership readerQos))
           OWNERSHIP_QOS_POLICY_ID st)"

definition compatibleQOS ::
    "(string \<Rightarrow> string \<Rightarrow> bool) \<Rightarrow> IncompatibleQosStatus \<Rightarrow> IncompatibleQosStatus
     \<Rightarrow> TransportLocator list \<Rightarrow> TransportLocator list \<Rightarrow> DataWriterQos \<Rightarrow> DataReaderQos
     \<Rightarrow> PublisherQos \<Rightarrow> SubscriberQos \<Rightarrow> compat_state" where
  "compatibleQOS wild_match writerStatus readerStatus pubTLS subTLS writerQos readerQos pubQos subQos =
     (case incompatible_if (\<not> compatibleTransports pubTLS subTLS) TRANSPORTTYPE_QOS_POLICY_ID
             (True, writerStatus, readerStatus) of
        (False, ws, rs) \<Rightarrow> (False, ws, rs)
      | (True, ws, rs) \<Rightarrow>
          (case compatibleQOS_writer_reader writerQos readerQos ws rs of
             (False, ws, rs) \<Rightarrow> (False, ws, rs)
           | (True, ws, rs) \<Rightarrow>
               (case compatibleQOS_pub_sub pubQos subQos ws rs of
                  (False, ws, rs) \<Rightarrow> (False, ws, rs)
                | (True, ws, rs) \<Rightarrow>
                    (matching_partitions wild_match (pq_partition pubQos) (sq_partition subQos), ws, rs))))"

section \<open>Whether a change calls for a new check\<close>

definition should_check_DataReaderQos :: "DataReaderQos \<Rightarrow> DataReaderQos \<Rightarrow> bool" where
  "should_check_DataReaderQos qos1 qos2 \<longleftrightarrow>
     \<not> (eq_DeadlineQosPolicy (rq_deadline qos1) (rq_deadline qos2)
        \<and> eq_LatencyBudgetQosPolicy (rq_latency_budget qos1) (rq_latency_budget qos2))"

definition should_check_DataWriterQos :: "DataWriterQos \<Rightarrow> DataWriterQos \<Rightarrow> bool" where
  "should_check_DataWriterQos qos1 qos2 \<longleftrightarrow>
     \<not> (eq_DeadlineQosPolicy (wq_deadline qos1) (wq_deadline qos2)
        \<and> eq_LatencyBudgetQosPolicy (wq_latency_budget qos1) (wq_latency_budget qos2))"

definition should_check_SubscriberQos :: "SubscriberQos \<Rightarrow> SubscriberQos \<Rightarrow> bool" where
  "should_check_SubscriberQos qos1 qos2 \<longleftrightarrow> \<not> eq_PartitionQosPolicy (sq_partition qos1) (sq_partition qos2)"

definition should_check_PublisherQos :: "PublisherQos \<Rightarrow> PublisherQos \<Rightarrow> bool" where
  "should_check_PublisherQos qos1 qos2 \<longleftrightarrow> \<not> eq_PartitionQosPolicy (pq_partition qos1) (pq_partition qos2)"

definition should_check_TopicQos :: "TopicQos \<Rightarrow> TopicQos \<Rightarrow> bool" where
  "should_check_TopicQos qos1 qos2 \<longleftrightarrow> False"

definition should_check_DomainParticipantQos :: "DomainParticipantQos \<Rightarrow> DomainParticipantQos \<Rightarrow> bool" where
  "should_check_DomainParticipantQos qos1 qos2 \<longleftrightarrow> False"

section \<open>Partition matching\<close>

lemma is_wildcard_Nil [simp]: "\<not> is_wildcard []"
  by (simp add: is_wildcard.simps)

lemma pn_matches_commute: "pn_matches w p n \<longleftrightarrow> pn_matches w n p"
  by (auto simp: pn_matches_def)

lemma pn_matches_empty: "pn_matches w (mk_PartitionName []) (mk_PartitionName [])"
  by (simp add: pn_matches_def mk_PartitionName_def)

text \<open>Two names match, as the specification of the policy relates them.\<close>

definition names_match :: "(string \<Rightarrow> string \<Rightarrow> bool) \<Rightarrow> string \<Rightarrow> string \<Rightarrow> bool" where
  "names_match w p s = pn_matches w (mk_PartitionName p) (mk_PartitionName s)"

lemma matching_partitions_nonempty:
  assumes "pt_name pub \<noteq> []" "pt_name sub \<noteq> []"
  shows "matching_partitions w pub sub
    \<longleftrightarrow> (\<exists>p \<in> set (pt_name pub). \<exists>s \<in> set (pt_name sub). names_match w p s)"
proof -
  have "\<exists>p \<in> set (pt_name pub). \<exists>s \<in> set (pt_name sub). names_match w p s"
    if "matches_default pub" "matches_default sub"
    using that assms pn_matches_empty [of w]
    by (auto simp: matches_default_def list_ex_iff names_match_def split: if_splits intro!: bexI [of _ "[]"])
  then show ?thesis
    using assms
    by (auto simp: matching_partitions_def matches_name_def list_ex_iff names_match_def pn_matches_commute)
qed

lemma matching_partitions_empty_pub:
  "matching_partitions w \<lparr>pt_name = []\<rparr> sub \<longleftrightarrow> matching_partitions w \<lparr>pt_name = [[]]\<rparr> sub"
  by (simp add: matching_partitions_def matches_default_def)

section \<open>The violated policies\<close>

text \<open>
  The specification of the check: the policies an offer violates, in the order they are tested. Offered
  kinds must be at least the requested ones, offered durations at most the requested ones.
\<close>

definition presentation_violations :: "PublisherQos \<Rightarrow> SubscriberQos \<Rightarrow> int list" where
  "presentation_violations p s =
     (if pr_access_scope (sq_presentation s) \<le> pr_access_scope (pq_presentation p)
         \<and> (pr_coherent_access (sq_presentation s) \<longrightarrow> pr_coherent_access (pq_presentation p))
         \<and> (pr_ordered_access (sq_presentation s) \<longrightarrow> pr_ordered_access (pq_presentation p))
      then [] else [PRESENTATION_QOS_POLICY_ID])"

definition rxo_tests :: "DataWriterQos \<Rightarrow> DataReaderQos \<Rightarrow> (int \<times> bool) list" where
  "rxo_tests w r =
     [(RELIABILITY_QOS_POLICY_ID, rl_kind (rq_reliability r) \<le> rl_kind (wq_reliability w)),
      (DURABILITY_QOS_POLICY_ID, du_kind (rq_durability r) \<le> du_kind (wq_durability w)),
      (LIVELINESS_QOS_POLICY_ID, lv_kind (rq_liveliness r) \<le> lv_kind (wq_liveliness w)
         \<and> lv_lease_duration (wq_liveliness w) \<le> lv_lease_duration (rq_liveliness r)),
      (DEADLINE_QOS_POLICY_ID, dl_period (wq_deadline w) \<le> dl_period (rq_deadline r)),
      (LATENCYBUDGET_QOS_POLICY_ID, lb_duration (wq_latency_budget w) \<le> lb_duration (rq_latency_budget r)),
      (OWNERSHIP_QOS_POLICY_ID, ow_kind (wq_ownership w) = ow_kind (rq_ownership r))]"

definition rxo_violations :: "DataWriterQos \<Rightarrow> DataReaderQos \<Rightarrow> int list" where
  "rxo_violations w r = map fst (filter (\<lambda>t. \<not> snd t) (rxo_tests w r))"

definition rxo_compatible :: "DataWriterQos \<Rightarrow> DataReaderQos \<Rightarrow> bool" where
  "rxo_compatible w r \<longleftrightarrow> list_all snd (rxo_tests w r)"

definition violated_policies ::
    "TransportLocator list \<Rightarrow> TransportLocator list \<Rightarrow> DataWriterQos \<Rightarrow> DataReaderQos
     \<Rightarrow> PublisherQos \<Rightarrow> SubscriberQos \<Rightarrow> int list" where
  "violated_policies pubTLS subTLS w r p s =
     (if \<not> compatibleTransports pubTLS subTLS then [TRANSPORTTYPE_QOS_POLICY_ID]
      else if rxo_violations w r \<noteq> [] then rxo_violations w r
      else presentation_violations p s)"

text \<open>Counting a list of policies in both statuses.\<close>

abbreviation count_all :: "int list \<Rightarrow> IncompatibleQosStatus \<Rightarrow> IncompatibleQosStatus" where
  "count_all \<equiv> fold increment_incompatibility_count"

abbreviation checked :: "int list \<Rightarrow> IncompatibleQosStatus \<Rightarrow> IncompatibleQosStatus \<Rightarrow> compat_state" where
  "checked vs ws rs \<equiv> (vs = [], count_all vs ws, count_all vs rs)"

lemma incompatible_if_checked:
  "incompatible_if test policy (checked vs ws rs) = checked (vs @ (if test then [policy] else [])) ws rs"
  by (simp add: incompatible_if_def)

lemma incompatible_if_start:
  "incompatible_if test policy (True, ws, rs) = checked (if test then [policy] else []) ws rs"
  by (simp add: incompatible_if_def)

lemma rxo_violations_app:
  "rxo_violations w r =
     (if rl_kind (wq_reliability w) < rl_kind (rq_reliability r) then [RELIABILITY_QOS_POLICY_ID] else [])
     @ (if du_kind (wq_durability w) < du_kind (rq_durability r) then [DURABILITY_QOS_POLICY_ID] else [])
     @ (if lv_kind (wq_liveliness w) < lv_kind (rq_liveliness r)
           \<or> duration_greater (lv_lease_duration (wq_liveliness w)) (lv_lease_duration (rq_liveliness r))
        then [LIVELINESS_QOS_POLICY_ID] else [])
     @ (if duration_greater (dl_period (wq_deadline w)) (dl_period (rq_deadline r))
        then [DEADLINE_QOS_POLICY_ID] else [])
     @ (if duration_less (lb_duration (rq_latency_budget r)) (lb_duration (wq_latency_budget w))
        then [LATENCYBUDGET_QOS_POLICY_ID] else [])
     @ (if ow_kind (wq_ownership w) \<noteq> ow_kind (rq_ownership r) then [OWNERSHIP_QOS_POLICY_ID] else [])"
  by (simp add: rxo_violations_def rxo_tests_def duration_greater_def not_le
      flip: less_Duration_t_def)

lemma compatibleQOS_writer_reader_checked:
  "compatibleQOS_writer_reader w r ws rs = checked (rxo_violations w r) ws rs"
  unfolding compatibleQOS_writer_reader_def Let_def rxo_violations_app incompatible_if_start
    incompatible_if_checked append_assoc ..

lemma compatibleQOS_pub_sub_checked:
  "compatibleQOS_pub_sub p s ws rs = checked (presentation_violations p s) ws rs"
  unfolding compatibleQOS_pub_sub_def incompatible_if_start
  by (auto simp: presentation_violations_def not_le)

lemma rxo_compatible_iff: "rxo_compatible w r \<longleftrightarrow> rxo_violations w r = []"
  by (auto simp: rxo_compatible_def rxo_violations_def list_all_iff filter_empty_conv)

lemma compatibleQOS_eval:
  "compatibleQOS wild_match ws rs pubTLS subTLS w r p s =
     (violated_policies pubTLS subTLS w r p s = []
        \<and> matching_partitions wild_match (pq_partition p) (sq_partition s),
      count_all (violated_policies pubTLS subTLS w r p s) ws,
      count_all (violated_policies pubTLS subTLS w r p s) rs)"
  by (simp add: compatibleQOS_def incompatible_if_start compatibleQOS_writer_reader_checked
      compatibleQOS_pub_sub_checked violated_policies_def split: bool.splits)

section \<open>The statuses\<close>

definition status_inv :: "IncompatibleQosStatus \<Rightarrow> bool" where
  "status_inv st \<longleftrightarrow> distinct (map policy_id (policies st))
     \<and> total_count st = sum_list (map count (policies st)) \<and> (\<forall>p \<in> set (policies st). 0 < count p)"

definition policy_count :: "IncompatibleQosStatus \<Rightarrow> int \<Rightarrow> int" where
  "policy_count st i = sum_list (map count (filter (\<lambda>p. policy_id p = i) (policies st)))"

definition no_incompatibility :: IncompatibleQosStatus where
  "no_incompatibility = \<lparr>total_count = 0, count_since_last_send = 0, last_policy_id = 0, policies = []\<rparr>"

lemma count_policy_ids: "policy_id ` set (count_policy ps i) = insert i (policy_id ` set ps)"
  by (induction ps) auto

lemma count_policy_distinct: "distinct (map policy_id ps) \<Longrightarrow> distinct (map policy_id (count_policy ps i))"
  using count_policy_ids by (induction ps) (fastforce simp: image_iff)+

lemma count_policy_sum: "sum_list (map count (count_policy ps i)) = sum_list (map count ps) + 1"
  by (induction ps) auto

lemma count_policy_pos: "\<forall>p \<in> set ps. 0 < count p \<Longrightarrow> \<forall>p \<in> set (count_policy ps i). 0 < count p"
  by (induction ps) auto

lemma count_policy_count:
  "sum_list (map count (filter (\<lambda>p. policy_id p = j) (count_policy ps i)))
    = sum_list (map count (filter (\<lambda>p. policy_id p = j) ps)) + (if i = j then 1 else 0)"
  by (induction ps) auto

lemma increment_status:
  "status_inv st \<Longrightarrow> status_inv (increment_incompatibility_count i st)"
  "policy_count (increment_incompatibility_count i st) j = policy_count st j + (if i = j then 1 else 0)"
  using count_policy_pos [of "policies st" i]
  by (auto simp: status_inv_def increment_incompatibility_count_def count_policy_distinct count_policy_sum
      policy_count_def count_policy_count)

lemma count_all_status:
  "status_inv st \<Longrightarrow> status_inv (count_all vs st)"
  "policy_count (count_all vs st) j = policy_count st j + int (count_list vs j)"
  by (induction vs arbitrary: st) (simp_all add: increment_status)

section \<open>Properties\<close>


text \<open>
  The incompatibility statuses stay well formed through a check: one counter per policy, all
  positive, adding up to the total; and the counter of a policy grows by the number of times the policy
  was violated.
\<close>

theorem compatibleQOS_statuses:
  assumes "status_inv ws" and "status_inv rs"
    and "compatibleQOS wild_match ws rs pubTLS subTLS w r p s = (compatible, ws', rs')"
  shows "status_inv ws' \<and> status_inv rs'
    \<and> policy_count ws' i = policy_count ws i + int (count_list (violated_policies pubTLS subTLS w r p s) i)
    \<and> policy_count rs' i - policy_count rs i = policy_count ws' i - policy_count ws i"
  using assms count_all_status by (auto simp: compatibleQOS_eval)

theorem compatibleQOS_statuses_witness:
  "case compatibleQOS (=) no_incompatibility no_incompatibility [] []
          initial_DataWriterQos initial_DataReaderQos initial_PublisherQos initial_SubscriberQos of
     (compatible, ws', rs') \<Rightarrow>
       status_inv ws' \<and> status_inv rs' \<and> policy_count ws' TRANSPORTTYPE_QOS_POLICY_ID = 1"
proof -
  have i: "status_inv no_incompatibility" by (simp add: status_inv_def no_incompatibility_def)
  obtain c ws' rs' where e: "compatibleQOS (=) no_incompatibility no_incompatibility [] []
      initial_DataWriterQos initial_DataReaderQos initial_PublisherQos initial_SubscriberQos = (c, ws', rs')"
    by (metis prod_cases3)
  show ?thesis
    using compatibleQOS_statuses [OF i i e, of TRANSPORTTYPE_QOS_POLICY_ID] e
    by (simp add: policy_count_def violated_policies_def compatibleTransports_def no_incompatibility_def)
qed

definition offers_at_least :: "DataWriterQos \<Rightarrow> DataWriterQos \<Rightarrow> bool" where
  "offers_at_least w' w \<longleftrightarrow>
     rl_kind (wq_reliability w) \<le> rl_kind (wq_reliability w')
     \<and> du_kind (wq_durability w) \<le> du_kind (wq_durability w')
     \<and> lv_kind (wq_liveliness w) \<le> lv_kind (wq_liveliness w')
     \<and> lv_lease_duration (wq_liveliness w') \<le> lv_lease_duration (wq_liveliness w)
     \<and> dl_period (wq_deadline w') \<le> dl_period (wq_deadline w)
     \<and> lb_duration (wq_latency_budget w') \<le> lb_duration (wq_latency_budget w)
     \<and> ow_kind (wq_ownership w') = ow_kind (wq_ownership w)"

text \<open>
  The requested-versus-offered rules are monotone: a writer that offers at least what another one
  offers, with the same ownership kind, is compatible with every reader the other one is compatible with.
\<close>

theorem rxo_monotone:
  assumes "fst (compatibleQOS_writer_reader w r ws rs)" and "offers_at_least w' w"
  shows "fst (compatibleQOS_writer_reader w' r ws' rs')"
proof -
  have "rxo_compatible w r" using assms(1) by (simp add: compatibleQOS_writer_reader_checked rxo_compatible_iff)
  then have "rxo_compatible w' r"
    using assms(2) by (auto simp: rxo_compatible_def rxo_tests_def offers_at_least_def)
  then show ?thesis by (simp add: compatibleQOS_writer_reader_checked rxo_compatible_iff)
qed

theorem rxo_monotone_witness:
  "fst (compatibleQOS_writer_reader (initial_DataWriterQos\<lparr>wq_deadline := \<lparr>dl_period = Duration_t 1 0\<rparr>\<rparr>)
     (initial_DataReaderQos\<lparr>rq_deadline := \<lparr>dl_period = Duration_t 2 0\<rparr>\<rparr>) no_incompatibility no_incompatibility)"
  by (rule rxo_monotone [where w = "initial_DataWriterQos\<lparr>wq_deadline := \<lparr>dl_period = Duration_t 2 0\<rparr>\<rparr>"
        and ws = no_incompatibility and rs = no_incompatibility])
    code_simp+

text \<open>
  (C28) \<open>should_check_association_upon_change\<close> is sound for readers: when an allowed change needs no new
  check, the reader stays compatible with exactly the same writers. For writers this holds as long as the
  reliability stays the same, which \<open>changeable\<close> does not demand.
\<close>

theorem no_check_needed:
  "(changeable_DataReaderQos r r' \<and> \<not> should_check_DataReaderQos r r'
      \<longrightarrow> fst (compatibleQOS_writer_reader w r ws rs) = fst (compatibleQOS_writer_reader w r' ws rs))
   \<and> (changeable_DataWriterQos w w' \<and> \<not> should_check_DataWriterQos w w'
      \<and> wq_reliability w = wq_reliability w'
      \<longrightarrow> fst (compatibleQOS_writer_reader w r ws rs) = fst (compatibleQOS_writer_reader w' r ws rs))"
  by (auto simp: compatibleQOS_writer_reader_checked rxo_violations_def rxo_tests_def
      changeable_DataReaderQos_def changeable_DataWriterQos_def policy_changeable_defs
      should_check_DataReaderQos_def should_check_DataWriterQos_def)

theorem no_check_needed_witness:
  "fst (compatibleQOS_writer_reader initial_DataWriterQos initial_DataReaderQos
      no_incompatibility no_incompatibility)
   = fst (compatibleQOS_writer_reader initial_DataWriterQos
      (initial_DataReaderQos\<lparr>rq_user_data := \<lparr>ud_value = [1]\<rparr>\<rparr>) no_incompatibility no_incompatibility)"
proof -
  have "changeable_DataReaderQos initial_DataReaderQos (initial_DataReaderQos\<lparr>rq_user_data := \<lparr>ud_value = [1]\<rparr>\<rparr>)"
      "\<not> should_check_DataReaderQos initial_DataReaderQos (initial_DataReaderQos\<lparr>rq_user_data := \<lparr>ud_value = [1]\<rparr>\<rparr>)"
    by code_simp+
  then show ?thesis using no_check_needed by blast
qed


text \<open>
  Partition matching does not depend on the side, for lists of names: the partitions match exactly
  when some name of one side matches some name of the other, whatever \<open>ACE::wild_match\<close> does; and a
  publisher without partitions is treated like one with the empty name.
\<close>

theorem partition_matching:
  "(pt_name pub \<noteq> [] \<and> pt_name sub \<noteq> [] \<longrightarrow>
      (matching_partitions wild_match pub sub
         \<longleftrightarrow> (\<exists>p \<in> set (pt_name pub). \<exists>s \<in> set (pt_name sub). names_match wild_match p s))
      \<and> matching_partitions wild_match pub sub = matching_partitions wild_match sub pub)
   \<and> matching_partitions wild_match \<lparr>pt_name = []\<rparr> sub = matching_partitions wild_match \<lparr>pt_name = ['''']\<rparr> sub"
proof -
  have "names_match wild_match p s = names_match wild_match s p" for p s
    unfolding names_match_def by (rule pn_matches_commute)
  then show ?thesis
    using matching_partitions_nonempty [of pub sub wild_match] matching_partitions_nonempty [of sub pub wild_match]
      matching_partitions_empty_pub [of wild_match sub]
    by blast
qed

theorem partition_matching_witness:
  "matching_partitions (=) \<lparr>pt_name = [''a'', ''b'']\<rparr> \<lparr>pt_name = [''b'']\<rparr>
   = matching_partitions (=) \<lparr>pt_name = [''b'']\<rparr> \<lparr>pt_name = [''a'', ''b'']\<rparr>"
  using partition_matching [of "\<lparr>pt_name = [''a'', ''b'']\<rparr>" "\<lparr>pt_name = [''b'']\<rparr>" "(=)"]
  unfolding PartitionQosPolicy.simps by blast

text \<open>
  With one side empty the sides do differ: a subscriber without partitions matches the wildcard of
  no publisher, but a publisher without partitions matches a subscriber's wildcard if the empty name does.
\<close>

theorem partition_default_asymmetric:
  "\<not> matching_partitions wild_match \<lparr>pt_name = [''*'']\<rparr> \<lparr>pt_name = []\<rparr>
   \<and> matching_partitions wild_match \<lparr>pt_name = []\<rparr> \<lparr>pt_name = [''*'']\<rparr> = wild_match '''' ''*''
   \<and> matching_partitions wild_match \<lparr>pt_name = [''*'']\<rparr> \<lparr>pt_name = ['''']\<rparr> = wild_match '''' ''*''"
proof -
  have "is_wildcard ''*''" by (simp add: is_wildcard.simps strcspn_def wild_def)
  then show ?thesis
    by (simp add: matching_partitions_def matches_default_def matches_name_def mk_PartitionName_def
        pn_matches_def)
qed

text \<open>
  The defaults fit together: a publisher and a subscriber with the default quality of service
  and a common transport type are associated, and no incompatibility is counted.
\<close>

theorem defaults_compatible:
  assumes "compatibleTransports pubTLS subTLS"
  shows "compatibleQOS wild_match ws rs pubTLS subTLS initial_DataWriterQos initial_DataReaderQos
      initial_PublisherQos initial_SubscriberQos = (True, ws, rs)"
proof -
  have "rxo_violations initial_DataWriterQos initial_DataReaderQos = []"
      "presentation_violations initial_PublisherQos initial_SubscriberQos = []" by code_simp+
  then show ?thesis
    using assms by (simp add: compatibleQOS_eval violated_policies_def matching_partitions_def
        matches_default_def initial_PublisherQos_def initial_SubscriberQos_def initial_PartitionQosPolicy_def)
qed

theorem defaults_compatible_witness:
  "fst (compatibleQOS (=) no_incompatibility no_incompatibility
      [\<lparr>transport_type = ''tcp'', transport_data = []\<rparr>] [\<lparr>transport_type = ''tcp'', transport_data = []\<rparr>]
      initial_DataWriterQos initial_DataReaderQos initial_PublisherQos initial_SubscriberQos)"
  using defaults_compatible [of "[\<lparr>transport_type = ''tcp'', transport_data = []\<rparr>]"
      "[\<lparr>transport_type = ''tcp'', transport_data = []\<rparr>]"]
  by (simp add: compatibleTransports_def)

end
