(* ===== verification/Guid.thy ===== *)
theory Guid
  imports DDS_Prelude
begin

text \<open>
  The globally unique identifiers of entities: \<open>GUID_t\<close> of \<open>src/dds/DdsDcpsGuid.idl\<close> with the comparison
  of \<open>src/dds/DCPS/GuidUtils.h\<close>. The two octet arrays have a fixed length, so their elements are the
  arguments of the constructors.
\<close>

datatype EntityId_t =
  EntityId_t (entityKey0: octet) (entityKey1: octet) (entityKey2: octet) (entityKind: octet)

datatype GuidPrefix_t =
  GuidPrefix_t (prefix0: octet) (prefix1: octet) (prefix2: octet) (prefix3: octet)
    (prefix4: octet) (prefix5: octet) (prefix6: octet) (prefix7: octet)
    (prefix8: octet) (prefix9: octet) (prefix10: octet) (prefix11: octet)

datatype GUID_t = GUID_t (guidPrefix: GuidPrefix_t) (entityId: EntityId_t)

definition ENTITYID_UNKNOWN :: EntityId_t where
  "ENTITYID_UNKNOWN = EntityId_t 0 0 0 0"

definition GUIDPREFIX_UNKNOWN :: GuidPrefix_t where
  "GUIDPREFIX_UNKNOWN = GuidPrefix_t 0 0 0 0 0 0 0 0 0 0 0 0"

definition GUID_UNKNOWN :: GUID_t where
  "GUID_UNKNOWN = GUID_t GUIDPREFIX_UNKNOWN ENTITYID_UNKNOWN"

text \<open>
  The chain of tests \<open>if (a < b) return true; if (b < a) return false;\<close> over pairs of octets; at the end
  of the chain the operands are equal.
\<close>

fun octets_less :: "(octet \<times> octet) list \<Rightarrow> bool \<Rightarrow> bool" where
  "octets_less [] rest = rest"
| "octets_less ((a, b) # ps) rest =
     (if a < b then True else if b < a then False else octets_less ps rest)"

definition entity_less :: "EntityId_t \<Rightarrow> EntityId_t \<Rightarrow> bool" where
  "entity_less v1 v2 =
     octets_less
       [(entityKey2 v1, entityKey2 v2), (entityKey1 v1, entityKey1 v2),
        (entityKey0 v1, entityKey0 v2), (entityKind v1, entityKind v2)] False"

definition GUID_tKeyLessThan :: "GUID_t \<Rightarrow> GUID_t \<Rightarrow> bool" where
  "GUID_tKeyLessThan v1 v2 =
     (let p1 = guidPrefix v1; p2 = guidPrefix v2 in
      octets_less
        [(prefix11 p1, prefix11 p2), (prefix10 p1, prefix10 p2), (prefix9 p1, prefix9 p2),
         (prefix8 p1, prefix8 p2), (prefix7 p1, prefix7 p2), (prefix6 p1, prefix6 p2),
         (prefix5 p1, prefix5 p2), (prefix4 p1, prefix4 p2), (prefix3 p1, prefix3 p2),
         (prefix2 p1, prefix2 p2), (prefix1 p1, prefix1 p2), (prefix0 p1, prefix0 p2)]
        (entity_less (entityId v1) (entityId v2)))"

definition guid_eq :: "GUID_t \<Rightarrow> GUID_t \<Rightarrow> bool" where
  "guid_eq lhs rhs \<longleftrightarrow> \<not> GUID_tKeyLessThan lhs rhs \<and> \<not> GUID_tKeyLessThan rhs lhs"

definition entity_eq :: "EntityId_t \<Rightarrow> EntityId_t \<Rightarrow> bool" where
  "entity_eq lhs rhs \<longleftrightarrow> \<not> entity_less lhs rhs \<and> \<not> entity_less rhs lhs"

section \<open>The order\<close>

text \<open>The octets of an identifier in the order they are compared, as one list.\<close>

fun entity_key :: "EntityId_t \<Rightarrow> octet list" where
  "entity_key (EntityId_t k0 k1 k2 kind) = [k2, k1, k0, kind]"

fun prefix_key :: "GuidPrefix_t \<Rightarrow> octet list" where
  "prefix_key (GuidPrefix_t p0 p1 p2 p3 p4 p5 p6 p7 p8 p9 p10 p11) =
     [p11, p10, p9, p8, p7, p6, p5, p4, p3, p2, p1, p0]"

definition guid_key :: "GUID_t \<Rightarrow> octet list" where
  "guid_key g = prefix_key (guidPrefix g) @ entity_key (entityId g)"

lemma octets_less_append: "octets_less (ps @ qs) rest = octets_less ps (octets_less qs rest)"
  by (induction ps rest rule: octets_less.induct) auto

lemma entity_less_key: "entity_less v w = octets_less (zip (entity_key v) (entity_key w)) False"
  by (cases v; cases w) (simp add: entity_less_def)

lemma length_prefix_key: "length (prefix_key p) = 12"
  by (cases p) simp

lemma length_guid_key: "length (guid_key g) = 16"
  by (cases g; cases "entityId g") (simp add: guid_key_def length_prefix_key)

lemma guid_less_key: "GUID_tKeyLessThan v w = octets_less (zip (guid_key v) (guid_key w)) False"
proof -
  have "GUID_tKeyLessThan v w =
      octets_less (zip (prefix_key (guidPrefix v)) (prefix_key (guidPrefix w)))
        (entity_less (entityId v) (entityId w))"
    by (cases v; cases w; cases "guidPrefix v"; cases "guidPrefix w")
      (simp add: GUID_tKeyLessThan_def)
  then show ?thesis
    by (simp add: guid_key_def entity_less_key zip_append length_prefix_key octets_less_append)
qed

lemma guid_key_inject: "guid_key v = guid_key w \<longleftrightarrow> v = w"
proof -
  have "prefix_key p = prefix_key q \<longleftrightarrow> p = q" for p q by (cases p; cases q) auto
  moreover have "entity_key p = entity_key q \<longleftrightarrow> p = q" for p q by (cases p; cases q) auto
  ultimately show ?thesis
    by (cases v; cases w) (simp add: guid_key_def length_prefix_key)
qed

lemma octets_less_irrefl: "\<not> octets_less (zip xs xs) False"
  by (induction xs) auto

lemma octets_less_total:
  "length xs = length ys \<Longrightarrow> xs \<noteq> ys \<Longrightarrow> octets_less (zip xs ys) False \<or> octets_less (zip ys xs) False"
  by (induction xs ys rule: list_induct2) auto

lemma octets_less_trans:
  "length xs = length ys \<Longrightarrow> length ys = length zs \<Longrightarrow> octets_less (zip xs ys) False
   \<Longrightarrow> octets_less (zip ys zs) False \<Longrightarrow> octets_less (zip xs zs) False"
  by (induction xs ys zs rule: list_induct3) (auto split: if_splits)

instantiation GUID_t :: linorder
begin

definition less_GUID_t :: "GUID_t \<Rightarrow> GUID_t \<Rightarrow> bool" where
  "less_GUID_t v w \<longleftrightarrow> GUID_tKeyLessThan v w"

definition less_eq_GUID_t :: "GUID_t \<Rightarrow> GUID_t \<Rightarrow> bool" where
  "less_eq_GUID_t v w \<longleftrightarrow> v = w \<or> GUID_tKeyLessThan v w"

instance
proof
  fix x y z :: GUID_t
  have irr: "\<not> GUID_tKeyLessThan v v" for v by (simp add: guid_less_key octets_less_irrefl)
  have tr: "GUID_tKeyLessThan u v \<Longrightarrow> GUID_tKeyLessThan v w \<Longrightarrow> GUID_tKeyLessThan u w" for u v w
    unfolding guid_less_key by (rule octets_less_trans) (simp_all add: length_guid_key)
  show "(x < y) = (x \<le> y \<and> \<not> y \<le> x)" using irr tr by (auto simp: less_GUID_t_def less_eq_GUID_t_def)
  show "x \<le> x" by (simp add: less_eq_GUID_t_def)
  show "x \<le> y \<Longrightarrow> y \<le> z \<Longrightarrow> x \<le> z" using tr by (auto simp: less_eq_GUID_t_def)
  show "x \<le> y \<Longrightarrow> y \<le> x \<Longrightarrow> x = y" using irr tr by (auto simp: less_eq_GUID_t_def)
  show "x \<le> y \<or> y \<le> x"
    using octets_less_total [of "guid_key x" "guid_key y"]
    by (auto simp: less_eq_GUID_t_def guid_less_key length_guid_key guid_key_inject)
qed

end

lemma guid_eq_iff [simp]: "guid_eq v w \<longleftrightarrow> v = w"
  using not_less_iff_gr_or_eq [of v w] by (auto simp: guid_eq_def simp flip: less_GUID_t_def)

section \<open>Properties\<close>

text \<open>
  The key comparison of identifiers is a strict linear order of the 16 octets, read from the last to
  the first, and the operator \<open>==\<close> derived from it is equality: identifiers are usable as keys of the
  ordered maps and sets of the implementation.
\<close>

theorem guid_order:
  "class.linorder (\<lambda>v w. guid_eq v w \<or> GUID_tKeyLessThan v w) GUID_tKeyLessThan
   \<and> (guid_eq v w \<longleftrightarrow> v = w) \<and> (\<forall>v. v = GUID_UNKNOWN \<or> GUID_tKeyLessThan GUID_UNKNOWN v)"
proof (intro conjI allI)
  have "(\<le>) = (\<lambda>v w. guid_eq v w \<or> GUID_tKeyLessThan v w)" "(<) = GUID_tKeyLessThan"
    by (auto simp: less_eq_GUID_t_def less_GUID_t_def fun_eq_iff)
  then show "class.linorder (\<lambda>v w. guid_eq v w \<or> GUID_tKeyLessThan v w) GUID_tKeyLessThan"
    using Orderings.linorder_class.linorder_axioms [where ?'a = GUID_t] by simp
  show "guid_eq v w \<longleftrightarrow> v = w" by simp
  fix v
  have "octets_less (zip xs (replicate (length xs) 0)) False = False" for xs
    by (induction xs) auto
  moreover have "guid_key GUID_UNKNOWN = replicate 16 0"
    by (simp add: guid_key_def GUID_UNKNOWN_def GUIDPREFIX_UNKNOWN_def ENTITYID_UNKNOWN_def numeral_eq_Suc)
  ultimately have "\<not> GUID_tKeyLessThan v GUID_UNKNOWN"
    using length_guid_key [of v] by (metis guid_less_key)
  then show "v = GUID_UNKNOWN \<or> GUID_tKeyLessThan GUID_UNKNOWN v"
    by (metis less_GUID_t_def not_less_iff_gr_or_eq)
qed

end
