(* ===== verification/Sample_Header.thy ===== *)
theory Sample_Header
  imports Guid Disjoint_Sequence
begin

text \<open>
  The message structures a reader receives: \<open>DataSampleHeader\<close>
  (\<open>src/dds/DCPS/DataSampleHeader.{h,inl,cpp}\<close>) and \<open>CoherentChangeControl\<close>
  (\<open>src/dds/DCPS/CoherentChangeControl.{h,inl}\<close>). The reserved flag bits of the header are never used and
  are left out. A \<open>std::map\<close> is the list of its entries in the order of the keys.
\<close>

section \<open>Message headers\<close>

datatype MessageId =
  SAMPLE_DATA | DATAWRITER_LIVELINESS | INSTANCE_REGISTRATION | UNREGISTER_INSTANCE | DISPOSE_INSTANCE
| GRACEFUL_DISCONNECT | REQUEST_ACK | SAMPLE_ACK | END_COHERENT_CHANGES | TRANSPORT_CONTROL
| DISPOSE_UNREGISTER_INSTANCE | END_HISTORIC_SAMPLES

text \<open>The value of an enumerator in the one-byte field.\<close>

primrec message_id_value :: "MessageId \<Rightarrow> octet" where
  "message_id_value SAMPLE_DATA = 0"
| "message_id_value DATAWRITER_LIVELINESS = 1"
| "message_id_value INSTANCE_REGISTRATION = 2"
| "message_id_value UNREGISTER_INSTANCE = 3"
| "message_id_value DISPOSE_INSTANCE = 4"
| "message_id_value GRACEFUL_DISCONNECT = 5"
| "message_id_value REQUEST_ACK = 6"
| "message_id_value SAMPLE_ACK = 7"
| "message_id_value END_COHERENT_CHANGES = 8"
| "message_id_value TRANSPORT_CONTROL = 9"
| "message_id_value DISPOSE_UNREGISTER_INSTANCE = 10"
| "message_id_value END_HISTORIC_SAMPLES = 11"

definition MESSAGE_ID_MAX :: nat where "MESSAGE_ID_MAX = 12"
definition SUBMESSAGE_ID_MAX :: nat where "SUBMESSAGE_ID_MAX = 5"

record DataSampleHeader =
  h_message_id :: octet
  h_submessage_id :: octet
  h_byte_order :: bool
  h_coherent_change :: bool
  h_historic_sample :: bool
  h_lifespan_duration :: bool
  h_group_coherent :: bool
  h_content_filter :: bool
  h_sequence_repair :: bool
  h_more_fragments :: bool
  h_cdr_encapsulation :: bool
  h_key_fields_only :: bool
  h_message_length :: ulong
  h_sequence :: sequence_number
  h_source_timestamp_sec :: ulong
  h_source_timestamp_nanosec :: ulong
  h_lifespan_duration_sec :: ulong
  h_lifespan_duration_nanosec :: ulong
  h_publication_id :: GUID_t
  h_publisher_id :: GUID_t
  h_content_filter_entries :: "GUID_t list"
  h_marshaled_size :: nat

text \<open>The default constructors; \<open>native\<close> is \<open>ACE_CDR_BYTE_ORDER\<close>, true on a little-endian host.\<close>

definition default_sn :: sequence_number where
  "default_sn = setValue MIN_VALUE"

definition mk_DataSampleHeader :: "bool \<Rightarrow> DataSampleHeader" where
  "mk_DataSampleHeader native =
     \<lparr>h_message_id = 0, h_submessage_id = 0, h_byte_order = native, h_coherent_change = False,
      h_historic_sample = False, h_lifespan_duration = False, h_group_coherent = False,
      h_content_filter = False, h_sequence_repair = False, h_more_fragments = False,
      h_cdr_encapsulation = False, h_key_fields_only = False, h_message_length = 0,
      h_sequence = default_sn, h_source_timestamp_sec = 0, h_source_timestamp_nanosec = 0,
      h_lifespan_duration_sec = 0, h_lifespan_duration_nanosec = 0, h_publication_id = GUID_UNKNOWN,
      h_publisher_id = GUID_UNKNOWN, h_content_filter_entries = [], h_marshaled_size = 0\<rparr>"

section \<open>Coherent changes\<close>

record WriterCoherentSample =
  num_samples :: ulong
  last_sample :: sequence_number

definition mk_WriterCoherentSample :: WriterCoherentSample where
  "mk_WriterCoherentSample = \<lparr>num_samples = 0, last_sample = default_sn\<rparr>"

definition wcs_reset :: "WriterCoherentSample \<Rightarrow> WriterCoherentSample" where
  "wcs_reset w = w\<lparr>num_samples := 0, last_sample := default_sn\<rparr>"

type_synonym GroupCoherentSamples = "(GUID_t \<times> WriterCoherentSample) list"

record CoherentChangeControl =
  cc_coherent_samples :: WriterCoherentSample
  cc_group_coherent :: bool
  cc_publisher_id :: GUID_t
  cc_group_coherent_samples :: GroupCoherentSamples

definition mk_CoherentChangeControl :: CoherentChangeControl where
  "mk_CoherentChangeControl =
     \<lparr>cc_coherent_samples = mk_WriterCoherentSample, cc_group_coherent = False,
      cc_publisher_id = GUID_UNKNOWN, cc_group_coherent_samples = []\<rparr>"

definition cc_reset :: "CoherentChangeControl \<Rightarrow> CoherentChangeControl" where
  "cc_reset c =
     c\<lparr>cc_coherent_samples := mk_WriterCoherentSample, cc_group_coherent := False,
       cc_publisher_id := GUID_UNKNOWN, cc_group_coherent_samples := []\<rparr>"

end
