(* ===== verification/Time_Value.thy ===== *)
theory Time_Value
  imports Qos_Policies "HOL-Library.Signed_Division"
begin

text \<open>
  The conversions between DDS times and \<open>ACE_Time_Value\<close> of \<open>src/dds/DCPS/Qos_Helper.inl\<close>. An
  \<open>ACE_Time_Value\<close> is a normalised pair of seconds and microseconds, here its total number of microseconds;
  the largest one, \<open>ACE_Time_Value::max_time\<close>, and the saturating cast to \<open>CORBA::Long\<close> belong to the ACE
  library and are arguments.
\<close>

type_synonym ace_time = int

definition ACE_ONE_SECOND_IN_USECS :: int where "ACE_ONE_SECOND_IN_USECS = 1000000"

definition tv_sec :: "ace_time \<Rightarrow> int" where "tv_sec tv = tv sdiv ACE_ONE_SECOND_IN_USECS"
definition tv_usec :: "ace_time \<Rightarrow> int" where "tv_usec tv = tv smod ACE_ONE_SECOND_IN_USECS"
definition mk_time_value :: "int \<Rightarrow> int \<Rightarrow> ace_time" where
  "mk_time_value s us = s * ACE_ONE_SECOND_IN_USECS + us"

definition time_to_time_value :: "Time_t \<Rightarrow> ace_time" where
  "time_to_time_value t = mk_time_value (time_sec t) (uint (time_nanosec t div 1000))"

definition time_value_to_time :: "(int \<Rightarrow> int) \<Rightarrow> ace_time \<Rightarrow> Time_t" where
  "time_value_to_time truncate_long tv =
     \<lparr>time_sec = truncate_long (tv_sec tv), time_nanosec = word_of_int (tv_usec tv * 1000)\<rparr>"

definition duration_to_time_value :: "ace_time \<Rightarrow> Duration_t \<Rightarrow> ace_time" where
  "duration_to_time_value max_time t =
     (let s = sec t + uint (nanosec t div 1000) div ACE_ONE_SECOND_IN_USECS;
          us = uint (nanosec t div 1000) mod ACE_ONE_SECOND_IN_USECS
      in if s > tv_sec max_time then max_time else mk_time_value s us)"

definition duration_to_absolute_time_value :: "ace_time \<Rightarrow> Duration_t \<Rightarrow> ace_time \<Rightarrow> ace_time" where
  "duration_to_absolute_time_value max_time t now =
     (let s = sec t + tv_sec now + (uint (nanosec t div 1000) + tv_usec now) sdiv ACE_ONE_SECOND_IN_USECS;
          us = (uint (nanosec t div 1000) + tv_usec now) smod ACE_ONE_SECOND_IN_USECS
      in if s > tv_sec max_time then max_time else mk_time_value s us)"

definition time_value_to_duration :: "(int \<Rightarrow> int) \<Rightarrow> ace_time \<Rightarrow> Duration_t" where
  "time_value_to_duration truncate_long tv =
     Duration_t (truncate_long (tv_sec tv)) (word_of_int (tv_usec tv * 1000))"

section \<open>Exactness\<close>

lemma sdiv_smod_nonneg: "0 \<le> (a::int) \<Longrightarrow> a sdiv 1000000 = a div 1000000" "0 \<le> a \<Longrightarrow> a smod 1000000 = a mod 1000000"
  by (simp_all add: signed_divide_int_def signed_modulo_int_def sgn_if minus_div_mult_eq_mod)

lemma tv_parts:
  assumes "0 \<le> tv"
  shows "tv_sec tv = tv div 1000000" "tv_usec tv = tv mod 1000000"
  using assms by (simp_all add: tv_sec_def tv_usec_def ACE_ONE_SECOND_IN_USECS_def sdiv_smod_nonneg)

definition duration_usec :: "Duration_t \<Rightarrow> int" where
  "duration_usec t = sec t * 1000000 + uint (nanosec t) div 1000"

lemma uint_div_1000: "uint (x div (1000::32 word)) = uint x div 1000"
  by (simp add: uint_div)

text \<open>
  Adding a duration to a point in time is exact to the microsecond and saturates at the largest time.
\<close>

theorem absolute_time_exact:
  assumes "0 \<le> now" and "0 \<le> max_time"
  shows "duration_to_absolute_time_value max_time t now =
    (if (now + duration_usec t) div 1000000 > max_time div 1000000 then max_time else now + duration_usec t)"
proof -
  let ?n = "uint (nanosec t) div 1000"
  have n: "0 \<le> ?n" by (simp add: pos_imp_zdiv_nonneg_iff)
  have "0 \<le> ?n + now mod 1000000" using n by (intro add_nonneg_nonneg) simp_all
  note d = sdiv_smod_nonneg [OF this]
  have x: "now + duration_usec t = (?n + now mod 1000000) + (sec t + now div 1000000) * 1000000"
    using div_mult_mod_eq [of now 1000000] by (simp add: duration_usec_def algebra_simps)
  have s: "sec t + now div 1000000 + (?n + now mod 1000000) div 1000000 = (now + duration_usec t) div 1000000"
    unfolding x by (subst div_mult_self1) simp_all
  have v: "(now + duration_usec t) div 1000000 * 1000000 + (?n + now mod 1000000) mod 1000000 = now + duration_usec t"
    using div_mult_mod_eq [of "now + duration_usec t" 1000000] mod_mult_self1 [of "?n + now mod 1000000"]
    unfolding x by metis
  show ?thesis
    using s v
    by (simp add: duration_to_absolute_time_value_def Let_def mk_time_value_def tv_parts assms uint_div_1000
        ACE_ONE_SECOND_IN_USECS_def d)
qed

theorem absolute_time_exact_witness:
  "duration_to_absolute_time_value 9000000000000000 (Duration_t 2 500000000) 7000001 = 9500001"
  using absolute_time_exact [of 7000001 9000000000000000 "Duration_t 2 500000000"] by (simp add: duration_usec_def)

end
