(* ===== verification/Writer_Info.thy ===== *)
theory Writer_Info
  imports Sample_Header Time_Value Initial_Qos "HOL-Library.AList"
begin

text \<open>
  \<open>WriterInfo\<close> (\<open>src/dds/DCPS/WriterInfo.{h,cpp}\<close>): what a reader keeps of one associated writer, its
  liveliness, the acknowledgements it has to send and the state of a coherent change. The calls back to
  the reader (\<open>check_activity\<close>, \<open>received_activity\<close>, \<open>removed\<close>) are in the theory of the reader. The
  back pointer to the reader is left out. Operations whose \<open>DisjointSequence\<close> calls can fail return the
  error.
\<close>

section \<open>State\<close>

datatype Coherent_State = NOT_COMPLETED_YET | COMPLETED | REJECTED

datatype WriterState = NOT_SET | ALIVE | DEAD

definition NOT_WAITING :: int where "NOT_WAITING = - 1"

definition HANDLE_NIL :: int where "HANDLE_NIL = 0"

type_synonym DeadlineList = "(sequence_number \<times> ace_time) list"

record WriterInfo =
  last_liveliness_activity_time :: ace_time
  ack_deadlines :: DeadlineList
  wi_ack_sequence :: range_set
  seen_data :: bool
  historic_samples_timer :: int
  wi_state :: WriterState
  writer_id :: GUID_t
  writer_qos :: DataWriterQos
  wi_handle :: int
  coherent_samples :: ulong
  owner_evaluated :: "(int \<times> bool) list"
  wi_group_coherent :: bool
  wi_publisher_id :: GUID_t
  coherent_sample_sequence :: range_set
  writer_coherent_samples :: WriterCoherentSample
  group_coherent_samples :: GroupCoherentSamples

definition reset_coherent_info :: "WriterInfo \<Rightarrow> WriterInfo" where
  "reset_coherent_info i =
     i\<lparr>coherent_samples := 0, wi_group_coherent := False, wi_publisher_id := GUID_UNKNOWN,
       coherent_sample_sequence := ds_reset (coherent_sample_sequence i),
       writer_coherent_samples := wcs_reset (writer_coherent_samples i), group_coherent_samples := []\<rparr>"

definition mk_WriterInfo :: "ace_time \<Rightarrow> GUID_t \<Rightarrow> DataWriterQos \<Rightarrow> WriterInfo" where
  "mk_WriterInfo now wid qos =
     reset_coherent_info
       \<lparr>last_liveliness_activity_time = now, ack_deadlines = [], wi_ack_sequence = ds_empty, seen_data = False,
        historic_samples_timer = NOT_WAITING, wi_state = NOT_SET, writer_id = wid, writer_qos = qos,
        wi_handle = HANDLE_NIL, coherent_samples = 0, owner_evaluated = [], wi_group_coherent = False,
        wi_publisher_id = GUID_UNKNOWN, coherent_sample_sequence = ds_empty,
        writer_coherent_samples = mk_WriterCoherentSample, group_coherent_samples = []\<rparr>"

section \<open>Ownership flags\<close>

definition clear_owner_evaluated :: "WriterInfo \<Rightarrow> WriterInfo" where
  "clear_owner_evaluated i = i\<lparr>owner_evaluated := []\<rparr>"

definition set_owner_evaluated :: "int \<Rightarrow> bool \<Rightarrow> WriterInfo \<Rightarrow> WriterInfo" where
  "set_owner_evaluated inst flag i =
     (if flag \<or> \<not> flag \<and> map_of (owner_evaluated i) inst \<noteq> None
      then i\<lparr>owner_evaluated := AList.update inst flag (owner_evaluated i)\<rparr> else i)"

definition is_owner_evaluated :: "int \<Rightarrow> WriterInfo \<Rightarrow> bool \<times> WriterInfo" where
  "is_owner_evaluated inst i =
     (case map_of (owner_evaluated i) inst of
        None \<Rightarrow> (False, i\<lparr>owner_evaluated := AList.update inst False (owner_evaluated i)\<rparr>)
      | Some b \<Rightarrow> (b, i))"

section \<open>Acknowledgements\<close>

fun clear_deadlines :: "sequence_number \<Rightarrow> DeadlineList \<Rightarrow> DeadlineList" where
  "clear_deadlines sequence [] = []"
| "clear_deadlines sequence (d # ds) = (if fst d \<le> sequence then clear_deadlines sequence ds else d # ds)"

definition clear_acks :: "sequence_number \<Rightarrow> WriterInfo \<Rightarrow> WriterInfo" where
  "clear_acks sequence i = i\<lparr>ack_deadlines := clear_deadlines sequence (ack_deadlines i)\<rparr>"

text \<open>The loop of \<open>should_ack\<close>: expired deadlines are erased on the way.\<close>

fun should_ack_loop :: "ace_time \<Rightarrow> range_set \<Rightarrow> DeadlineList \<Rightarrow> bool \<times> DeadlineList" where
  "should_ack_loop now acks [] = (False, [])"
| "should_ack_loop now acks (d # ds) =
     (if snd d < now then should_ack_loop now acks ds
      else if \<not> ds_is_empty acks \<and> fst d \<le> cumulative_ack acks then (True, d # ds)
      else case should_ack_loop now acks ds of (b, ds') \<Rightarrow> (b, d # ds'))"

definition should_ack :: "ace_time \<Rightarrow> WriterInfo \<Rightarrow> bool \<times> WriterInfo" where
  "should_ack now i =
     (if length (ack_deadlines i) = 0 then (False, i)
      else case should_ack_loop now (wi_ack_sequence i) (ack_deadlines i) of
             (b, ds) \<Rightarrow> (b, i\<lparr>ack_deadlines := ds\<rparr>))"

definition ack_deadline :: "sequence_number \<Rightarrow> ace_time \<Rightarrow> WriterInfo \<Rightarrow> WriterInfo" where
  "ack_deadline sequence when_tv i =
     (case ack_deadlines i of
        [] \<Rightarrow> i\<lparr>ack_deadlines := [(sequence, when_tv)]\<rparr>
      | current # rest \<Rightarrow>
          if sequence < fst current then i\<lparr>ack_deadlines := (sequence, when_tv) # current # rest\<rparr>
          else if sequence = fst current
          then if snd current < when_tv then i\<lparr>ack_deadlines := (fst current, when_tv) # rest\<rparr> else i
          else i)"

definition set_ack_sequence :: "sequence_number \<Rightarrow> WriterInfo \<Rightarrow> ds_error + WriterInfo" where
  "set_ack_sequence v i =
     (case insert_value (wi_ack_sequence i) v of
        Inl e \<Rightarrow> Inl e | Inr (_, rs) \<Rightarrow> Inr (i\<lparr>wi_ack_sequence := rs\<rparr>))"

definition get_ack_sequence :: "WriterInfo \<Rightarrow> sequence_number" where
  "get_ack_sequence i = cumulative_ack (wi_ack_sequence i)"

section \<open>Coherent changes\<close>

definition coherent_change_received :: "WriterInfo \<Rightarrow> ds_error + Coherent_State" where
  "coherent_change_received i =
     (if num_samples (writer_coherent_samples i) = 0 then Inr NOT_COMPLETED_YET
      else case ds_high (coherent_sample_sequence i) of
             Inl e \<Rightarrow> Inl e
           | Inr high \<Rightarrow>
               if \<not> disjoint_seq (coherent_sample_sequence i) \<and> high = last_sample (writer_coherent_samples i)
               then Inr COMPLETED
               else if high > last_sample (writer_coherent_samples i) then Inr REJECTED
               else Inr NOT_COMPLETED_YET)"

text \<open>A mismatch of the publisher or of the scope is only logged.\<close>

definition set_group_info :: "CoherentChangeControl \<Rightarrow> WriterInfo \<Rightarrow> WriterInfo" where
  "set_group_info info i =
     i\<lparr>writer_coherent_samples := cc_coherent_samples info,
       group_coherent_samples := cc_group_coherent_samples info\<rparr>"

section \<open>Properties\<close>

text \<open>The requests for acknowledgement are kept in the order of their sequence numbers, one for each.\<close>

definition deadlines_inv :: "WriterInfo \<Rightarrow> bool" where
  "deadlines_inv i \<longleftrightarrow> sorted_wrt (<) (map fst (ack_deadlines i))"

lemma clear_deadlines_filter:
  "sorted_wrt (<) (map fst ds) \<Longrightarrow> clear_deadlines s ds = filter (\<lambda>d. s < fst d) ds"
proof (induction ds)
  case (Cons d ds)
  show ?case
  proof (cases "fst d \<le> s")
    case False
    then have "\<forall>e \<in> set ds. s < fst e" using Cons.prems by force
    then have "filter (\<lambda>d. s < fst d) ds = ds" by (simp add: filter_id_conv)
    then show ?thesis using False by simp
  qed (use Cons in auto)
qed simp

lemma should_ack_loop_correct:
  assumes "should_ack_loop now acks ds = (b, ds')"
  shows "b \<longleftrightarrow> (\<exists>d \<in> set ds. now \<le> snd d \<and> \<not> ds_is_empty acks \<and> fst d \<le> cumulative_ack acks)"
    and "\<exists>m. m \<le> length ds \<and> ds' = filter (\<lambda>d. now \<le> snd d) (take m ds) @ drop m ds"
proof -
  have "(b \<longleftrightarrow> (\<exists>d \<in> set ds. now \<le> snd d \<and> \<not> ds_is_empty acks \<and> fst d \<le> cumulative_ack acks))
    \<and> (\<exists>m. m \<le> length ds \<and> ds' = filter (\<lambda>d. now \<le> snd d) (take m ds) @ drop m ds)"
    using assms
  proof (induction ds arbitrary: b ds')
    case (Cons d ds)
    obtain c es where r: "should_ack_loop now acks ds = (c, es)" by (metis surj_pair)
    then obtain m where ih: "c \<longleftrightarrow> (\<exists>d \<in> set ds. now \<le> snd d \<and> \<not> ds_is_empty acks \<and> fst d \<le> cumulative_ack acks)"
        "m \<le> length ds" "es = filter (\<lambda>d. now \<le> snd d) (take m ds) @ drop m ds"
      using Cons.IH by blast
    show ?case
    proof (cases "now \<le> snd d \<and> \<not> ds_is_empty acks \<and> fst d \<le> cumulative_ack acks")
      case True
      then show ?thesis using Cons.prems by (auto intro: exI [of _ 0])
    next
      case False
      then have "b = c" "ds' = (if now \<le> snd d then d # es else es)"
        using Cons.prems r by (auto split: if_splits)
      then show ?thesis using ih False by (auto intro!: exI [of _ "Suc m"])
    qed
  qed simp
  then show "b \<longleftrightarrow> (\<exists>d \<in> set ds. now \<le> snd d \<and> \<not> ds_is_empty acks \<and> fst d \<le> cumulative_ack acks)"
    and "\<exists>m. m \<le> length ds \<and> ds' = filter (\<lambda>d. now \<le> snd d) (take m ds) @ drop m ds" by blast+
qed

lemma deadlines_inv_filter:
  "sorted_wrt (<) (map fst ds) \<Longrightarrow> sorted_wrt (<) (map fst (filter P (take m ds) @ drop m ds))"
  using sorted_wrt_append [of "(<)" "map fst (take m ds)" "map fst (drop m ds)"]
  by (simp add: sorted_wrt_append sorted_wrt_map sorted_wrt_filter flip: map_append)

text \<open>
  (C34) A request for acknowledgement is answered exactly when one that has not expired asks for a
  sequence number up to which everything was received, an answer clears exactly the requests up to its
  number, and the list of the requests stays ordered with one request for each number.
\<close>

theorem ack_requests_correct:
  assumes "deadlines_inv i"
  shows "(fst (should_ack now i) \<longleftrightarrow>
        (\<exists>d \<in> set (ack_deadlines i). now \<le> snd d \<and> \<not> ds_is_empty (wi_ack_sequence i) \<and> fst d \<le> get_ack_sequence i))
    \<and> set (ack_deadlines (clear_acks s i)) = {d \<in> set (ack_deadlines i). s < fst d}
    \<and> deadlines_inv (snd (should_ack now i)) \<and> deadlines_inv (clear_acks s i) \<and> deadlines_inv (ack_deadline s t i)"
proof (intro conjI)
  obtain b ds where l: "should_ack_loop now (wi_ack_sequence i) (ack_deadlines i) = (b, ds)" by (metis surj_pair)
  note c = should_ack_loop_correct [OF l]
  show "fst (should_ack now i) \<longleftrightarrow>
      (\<exists>d \<in> set (ack_deadlines i). now \<le> snd d \<and> \<not> ds_is_empty (wi_ack_sequence i) \<and> fst d \<le> get_ack_sequence i)"
    using c(1) l by (simp add: should_ack_def get_ack_sequence_def)
  show "deadlines_inv (snd (should_ack now i))"
    using c(2) l assms by (auto simp: should_ack_def deadlines_inv_def intro: deadlines_inv_filter simp del: map_append)
  show "set (ack_deadlines (clear_acks s i)) = {d \<in> set (ack_deadlines i). s < fst d}" "deadlines_inv (clear_acks s i)"
    using assms
    by (simp_all add: clear_acks_def deadlines_inv_def clear_deadlines_filter sorted_wrt_map sorted_wrt_filter)
  show "deadlines_inv (ack_deadline s t i)"
    using assms by (fastforce simp: deadlines_inv_def ack_deadline_def split: list.splits)
qed

text \<open>
  (C35) Only one request is remembered beside earlier ones: a request for a later number than the first
  one is dropped, and after the first one was answered the later one is never answered, whatever arrives.
\<close>

theorem later_ack_request_lost:
  assumes "ack_deadlines i = []" and "s1 < s2"
  shows "let i' = clear_acks s1 (ack_deadline s2 t2 (ack_deadline s1 t1 i))
    in \<not> fst (should_ack now (i'\<lparr>wi_ack_sequence := received\<rparr>))"
  using assms less_imp_le [OF assms(2)] less_not_sym [OF assms(2)]
  by (simp add: Let_def ack_deadline_def clear_acks_def should_ack_def)

theorem ack_requests_correct_witness:
  "deadlines_inv (ack_deadline (SN 3) 50 (ack_deadline (SN 5) 50 (mk_WriterInfo 0 GUID_UNKNOWN initial_DataWriterQos)))"
proof -
  have "deadlines_inv (ack_deadline (SN 5) 50 (mk_WriterInfo 0 GUID_UNKNOWN initial_DataWriterQos))"
    by (simp add: deadlines_inv_def ack_deadline_def mk_WriterInfo_def reset_coherent_info_def)
  then show ?thesis using ack_requests_correct by blast
qed

theorem later_ack_request_lost_witness:
  "\<not> fst (should_ack 9 ((clear_acks (SN 2) (ack_deadline (SN 3) 50 (ack_deadline (SN 2) 50
       (mk_WriterInfo 0 GUID_UNKNOWN initial_DataWriterQos))))\<lparr>wi_ack_sequence := [(SN 1, SN 4)]\<rparr>))"
  using later_ack_request_lost [of "mk_WriterInfo 0 GUID_UNKNOWN initial_DataWriterQos" "SN 2" "SN 3" 50 50 9 "[(SN 1, SN 4)]"]
  by (simp add: mk_WriterInfo_def reset_coherent_info_def sn_simps getValue_SN Let_def MAX_VALUE_def)

end
