(* ===== verification/Instance_State.thy ===== *)
theory Instance_State
  imports Guid Initial_Qos
begin
unbundle bit_operations_syntax

text \<open>
  \<open>InstanceState\<close> (\<open>src/dds/DCPS/InstanceState.{h,inl,cpp}\<close>): the view state, instance state and release
  timer of one instance in a reader. A method is a function on the record of the members; calls on the
  reader and the reactor are returned as a list of effects. The reactor's answer to \<open>schedule_timer\<close>, an
  identifier or -1, is the parameter \<open>schedule_timer\<close>, and the reader's current quality of service is an
  argument. The methods that consult the ownership manager are in the theory of the instance lifecycle.
\<close>

section \<open>State\<close>

definition ALIVE_INSTANCE_STATE :: ulong where "ALIVE_INSTANCE_STATE = push_bit 0 0x0001"
definition NOT_ALIVE_DISPOSED_INSTANCE_STATE :: ulong where
  "NOT_ALIVE_DISPOSED_INSTANCE_STATE = push_bit 1 0x0001"
definition NOT_ALIVE_NO_WRITERS_INSTANCE_STATE :: ulong where
  "NOT_ALIVE_NO_WRITERS_INSTANCE_STATE = push_bit 2 0x0001"
definition NOT_ALIVE_INSTANCE_STATE :: ulong where "NOT_ALIVE_INSTANCE_STATE = 0x006"
definition NEW_VIEW_STATE :: ulong where "NEW_VIEW_STATE = push_bit 0 0x0001"
definition NOT_NEW_VIEW_STATE :: ulong where "NOT_NEW_VIEW_STATE = push_bit 1 0x0001"
definition ANY_VIEW_STATE :: ulong where "ANY_VIEW_STATE = 0xffff"

record InstanceState =
  instance_state :: ulong
  view_state :: ulong
  disposed_generation_count :: "64 word"
  no_writers_generation_count :: "64 word"
  is_empty :: bool
  release_pending :: bool
  release_timer_id :: int
  is_handle :: int
  writers :: "GUID_t set"
  is_owner_id :: GUID_t
  exclusive :: bool
  is_registered :: bool

datatype is_effect =
  CancelTimer int
| ScheduleTimer Duration_t
| ReleaseInstance int
| ReaderResetOwnership int

definition mk_InstanceState :: "OwnershipQosPolicyKind \<Rightarrow> int \<Rightarrow> InstanceState" where
  "mk_InstanceState kind handle =
     \<lparr>instance_state = 0, view_state = 0, disposed_generation_count = 0, no_writers_generation_count = 0,
      is_empty = True, release_pending = False, release_timer_id = - 1, is_handle = handle,
      writers = {}, is_owner_id = GUID_UNKNOWN, exclusive = (kind = EXCLUSIVE_OWNERSHIP_QOS),
      is_registered = False\<rparr>"

section \<open>Release of resources\<close>

definition schedule_pending :: "InstanceState \<Rightarrow> InstanceState" where
  "schedule_pending st = st\<lparr>release_pending := True\<rparr>"

definition cancel_release :: "InstanceState \<Rightarrow> InstanceState \<times> is_effect list" where
  "cancel_release st =
     (let st = st\<lparr>release_pending := False\<rparr> in
      if release_timer_id st \<noteq> - 1
      then (st\<lparr>release_timer_id := - 1\<rparr>, [CancelTimer (release_timer_id st)])
      else (st, []))"

definition schedule_release ::
    "DataReaderQos \<Rightarrow> (Duration_t \<Rightarrow> int) \<Rightarrow> InstanceState \<Rightarrow> InstanceState \<times> is_effect list" where
  "schedule_release qos schedule_timer st =
     (case (if instance_state st = NOT_ALIVE_NO_WRITERS_INSTANCE_STATE
            then Some (rd_autopurge_nowriter_samples_delay (rq_reader_data_lifecycle qos))
            else if instance_state st = NOT_ALIVE_DISPOSED_INSTANCE_STATE
            then Some (rd_autopurge_disposed_samples_delay (rq_reader_data_lifecycle qos))
            else None) of
        None \<Rightarrow> (st, [])
      | Some delay \<Rightarrow>
          if sec delay \<noteq> DURATION_INFINITE_SEC \<and> nanosec delay \<noteq> DURATION_INFINITE_NSEC
          then (case cancel_release st of
                  (st, es) \<Rightarrow>
                    (st\<lparr>release_timer_id := schedule_timer delay\<rparr>, es @ [ScheduleTimer delay]))
          else (schedule_pending st, []))"

definition release :: "InstanceState \<Rightarrow> is_effect list" where
  "release st = [ReleaseInstance (is_handle st)]"

definition release_if_empty :: "InstanceState \<Rightarrow> bool \<times> InstanceState \<times> is_effect list" where
  "release_if_empty st =
     (if is_empty st \<and> writers st = {} then (True, st, release st)
      else (False, schedule_pending st, []))"

definition set_empty :: "bool \<Rightarrow> InstanceState \<Rightarrow> bool \<times> InstanceState \<times> is_effect list" where
  "set_empty v st =
     (let st = st\<lparr>is_empty := v\<rparr> in
      if is_empty st \<and> release_pending st then release_if_empty st else (False, st, []))"

definition handle_timeout :: "InstanceState \<Rightarrow> is_effect list" where
  "handle_timeout st = release st"

section \<open>Access and reception\<close>

definition accessed :: "InstanceState \<Rightarrow> InstanceState" where
  "accessed st =
     (if view_state st AND ANY_VIEW_STATE \<noteq> 0 then st\<lparr>view_state := NOT_NEW_VIEW_STATE\<rparr> else st)"

definition most_recent_generation :: "64 word \<Rightarrow> 64 word \<Rightarrow> InstanceState \<Rightarrow> bool" where
  "most_recent_generation item_disposed item_no_writers st \<longleftrightarrow>
     item_disposed = disposed_generation_count st \<and> item_no_writers = no_writers_generation_count st"

definition view_on_data :: "InstanceState \<Rightarrow> ulong" where
  "view_on_data st =
     (if view_state st = NEW_VIEW_STATE then view_state st
      else if view_state st = NOT_NEW_VIEW_STATE
      then (if instance_state st AND NOT_ALIVE_INSTANCE_STATE \<noteq> 0 then NEW_VIEW_STATE else view_state st)
      else NEW_VIEW_STATE)"

definition data_was_received :: "GUID_t \<Rightarrow> InstanceState \<Rightarrow> InstanceState \<times> is_effect list" where
  "data_was_received writer_id st =
     (case cancel_release st of
        (st, es) \<Rightarrow>
          let st = st\<lparr>writers := insert writer_id (writers st)\<rparr>;
              st = st\<lparr>view_state := view_on_data st\<rparr>;
              st = (if instance_state st = NOT_ALIVE_DISPOSED_INSTANCE_STATE
                    then st\<lparr>disposed_generation_count := disposed_generation_count st + 1\<rparr>
                    else if instance_state st = NOT_ALIVE_NO_WRITERS_INSTANCE_STATE
                    then st\<lparr>no_writers_generation_count := no_writers_generation_count st + 1\<rparr>
                    else st)
          in (st\<lparr>instance_state := ALIVE_INSTANCE_STATE\<rparr>, es))"

definition lively :: "GUID_t \<Rightarrow> InstanceState \<Rightarrow> InstanceState \<times> is_effect list" where
  "lively writer_id st =
     (let st = st\<lparr>writers := insert writer_id (writers st)\<rparr> in
      if instance_state st = NOT_ALIVE_NO_WRITERS_INSTANCE_STATE
      then (case cancel_release st of
              (st, es) \<Rightarrow>
                (st\<lparr>no_writers_generation_count := no_writers_generation_count st + 1,
                    instance_state := ALIVE_INSTANCE_STATE\<rparr>, es))
      else (st, []))"

definition is_last :: "GUID_t \<Rightarrow> InstanceState \<Rightarrow> bool" where
  "is_last pub st \<longleftrightarrow> card (writers st) = 1 \<and> pub \<in> writers st"

definition no_writer :: "InstanceState \<Rightarrow> bool" where
  "no_writer st \<longleftrightarrow> card (writers st) = 0"

definition erase_writer :: "GUID_t \<Rightarrow> InstanceState \<Rightarrow> InstanceState" where
  "erase_writer writer_id st = st\<lparr>writers := writers st - {writer_id}\<rparr>"

text \<open>The transition to \<open>NOT_ALIVE_NO_WRITERS\<close> once the last writer is gone, with its result.\<close>

definition check_no_writers ::
    "DataReaderQos \<Rightarrow> (Duration_t \<Rightarrow> int) \<Rightarrow> InstanceState \<Rightarrow> bool \<times> InstanceState \<times> is_effect list" where
  "check_no_writers qos schedule_timer st =
     (if writers st = {} \<and> instance_state st AND ALIVE_INSTANCE_STATE \<noteq> 0
      then (True, schedule_release qos schedule_timer
                    (st\<lparr>instance_state := NOT_ALIVE_NO_WRITERS_INSTANCE_STATE\<rparr>))
      else (False, st, []))"

definition writer_became_dead ::
    "DataReaderQos \<Rightarrow> (Duration_t \<Rightarrow> int) \<Rightarrow> GUID_t \<Rightarrow> InstanceState \<Rightarrow> InstanceState \<times> is_effect list" where
  "writer_became_dead qos schedule_timer writer_id st =
     snd (check_no_writers qos schedule_timer (erase_writer writer_id st))"

text \<open>
  \<open>dispose_was_received\<close>: the answer of \<open>is_owner\<close> of the ownership manager is an argument.
\<close>

definition dispose_was_received ::
    "DataReaderQos \<Rightarrow> (Duration_t \<Rightarrow> int) \<Rightarrow> bool \<Rightarrow> GUID_t \<Rightarrow> InstanceState
     \<Rightarrow> bool \<times> InstanceState \<times> is_effect list" where
  "dispose_was_received qos schedule_timer is_owner writer_id st =
     (let st = erase_writer writer_id st in
      if instance_state st AND ALIVE_INSTANCE_STATE \<noteq> 0 \<and> (\<not> exclusive st \<or> is_owner)
      then (True, schedule_release qos schedule_timer
                    (st\<lparr>instance_state := NOT_ALIVE_DISPOSED_INSTANCE_STATE\<rparr>))
      else (False, st, []))"

section \<open>Ownership\<close>

definition set_owner :: "GUID_t \<Rightarrow> InstanceState \<Rightarrow> InstanceState" where
  "set_owner owner st = st\<lparr>is_owner_id := owner\<rparr>"

text \<open>The accessor \<open>registered()\<close> also sets the flag.\<close>

definition get_registered :: "InstanceState \<Rightarrow> bool \<times> InstanceState" where
  "get_registered st = (is_registered st, st\<lparr>is_registered := True\<rparr>)"

definition set_registered :: "bool \<Rightarrow> InstanceState \<Rightarrow> InstanceState" where
  "set_registered flag st = st\<lparr>is_registered := flag\<rparr>"

definition reset_ownership :: "int \<Rightarrow> InstanceState \<Rightarrow> InstanceState \<times> is_effect list" where
  "reset_ownership handle st =
     (st\<lparr>is_owner_id := GUID_UNKNOWN, is_registered := False\<rparr>, [ReaderResetOwnership handle])"

section \<open>The state machine of one instance\<close>

text \<open>
  The events of an instance: a method call, or the parts of \<open>unregister_was_received\<close> around the call to
  the ownership manager.
\<close>

datatype is_event =
  Ev_data GUID_t
| Ev_lively GUID_t
| Ev_dispose bool GUID_t
| Ev_erase GUID_t
| Ev_check
| Ev_dead GUID_t
| Ev_accessed
| Ev_empty bool
| Ev_release_if_empty
| Ev_cancel
| Ev_owner GUID_t
| Ev_registered bool
| Ev_reset int

fun is_exec ::
    "DataReaderQos \<Rightarrow> (Duration_t \<Rightarrow> int) \<Rightarrow> is_event \<Rightarrow> InstanceState \<Rightarrow> InstanceState \<times> is_effect list" where
  "is_exec qos sched (Ev_data w) st = data_was_received w st"
| "is_exec qos sched (Ev_lively w) st = lively w st"
| "is_exec qos sched (Ev_dispose own w) st = snd (dispose_was_received qos sched own w st)"
| "is_exec qos sched (Ev_erase w) st = (erase_writer w st, [])"
| "is_exec qos sched Ev_check st = snd (check_no_writers qos sched st)"
| "is_exec qos sched (Ev_dead w) st = writer_became_dead qos sched w st"
| "is_exec qos sched Ev_accessed st = (accessed st, [])"
| "is_exec qos sched (Ev_empty v) st = snd (set_empty v st)"
| "is_exec qos sched Ev_release_if_empty st = snd (release_if_empty st)"
| "is_exec qos sched Ev_cancel st = cancel_release st"
| "is_exec qos sched (Ev_owner g) st = (set_owner g st, [])"
| "is_exec qos sched (Ev_registered b) st = (set_registered b st, [])"
| "is_exec qos sched (Ev_reset h) st = reset_ownership h st"

lemmas is_method_defs =
  data_was_received_def lively_def dispose_was_received_def erase_writer_def check_no_writers_def
  writer_became_dead_def accessed_def set_empty_def release_if_empty_def set_owner_def
  set_registered_def reset_ownership_def schedule_release_def schedule_pending_def cancel_release_def
  release_def view_on_data_def

lemmas is_kinds =
  ALIVE_INSTANCE_STATE_def NOT_ALIVE_DISPOSED_INSTANCE_STATE_def NOT_ALIVE_NO_WRITERS_INSTANCE_STATE_def
  NOT_ALIVE_INSTANCE_STATE_def NEW_VIEW_STATE_def NOT_NEW_VIEW_STATE_def ANY_VIEW_STATE_def

text \<open>
  A run of an instance, with the number of times it went from disposed and from without writers to alive.
\<close>

inductive is_run :: "InstanceState \<Rightarrow> nat \<Rightarrow> nat \<Rightarrow> InstanceState \<Rightarrow> bool" where
  start: "is_run (mk_InstanceState kind handle) 0 0 (mk_InstanceState kind handle)"
| step: "is_run s d n t \<Longrightarrow> is_exec qos sched ev t = (u, es) \<Longrightarrow>
    is_run s
      (d + (if instance_state t = NOT_ALIVE_DISPOSED_INSTANCE_STATE \<and> instance_state u = ALIVE_INSTANCE_STATE
            then 1 else 0))
      (n + (if instance_state t = NOT_ALIVE_NO_WRITERS_INSTANCE_STATE \<and> instance_state u = ALIVE_INSTANCE_STATE
            then 1 else 0)) u"

section \<open>Invariants\<close>

text \<open>
  The instance state is unset or one of the three kinds, and so for the view state; an instance without
  writers has none; a release timer runs only for an instance that is not alive; and the view state is
  unset exactly while the instance state is.
\<close>

definition is_inv :: "InstanceState \<Rightarrow> bool" where
  "is_inv st \<longleftrightarrow>
     instance_state st \<in> {0, ALIVE_INSTANCE_STATE, NOT_ALIVE_DISPOSED_INSTANCE_STATE,
                         NOT_ALIVE_NO_WRITERS_INSTANCE_STATE}
     \<and> view_state st \<in> {0, NEW_VIEW_STATE, NOT_NEW_VIEW_STATE}
     \<and> (view_state st = 0 \<longleftrightarrow> instance_state st = 0)
     \<and> (instance_state st = NOT_ALIVE_NO_WRITERS_INSTANCE_STATE \<longrightarrow> writers st = {})
     \<and> (release_timer_id st \<noteq> - 1 \<longrightarrow> instance_state st AND NOT_ALIVE_INSTANCE_STATE \<noteq> 0)"

lemma is_inv_start: "is_inv (mk_InstanceState kind handle)"
  by (simp add: is_inv_def mk_InstanceState_def)

lemma is_kind_masks:
  "ALIVE_INSTANCE_STATE AND ALIVE_INSTANCE_STATE \<noteq> 0" "(0::ulong) AND ALIVE_INSTANCE_STATE = 0"
  "NOT_ALIVE_DISPOSED_INSTANCE_STATE AND ALIVE_INSTANCE_STATE = 0"
  "NOT_ALIVE_NO_WRITERS_INSTANCE_STATE AND ALIVE_INSTANCE_STATE = 0"
  "ALIVE_INSTANCE_STATE AND NOT_ALIVE_INSTANCE_STATE = 0" "(0::ulong) AND NOT_ALIVE_INSTANCE_STATE = 0"
  "NOT_ALIVE_DISPOSED_INSTANCE_STATE AND NOT_ALIVE_INSTANCE_STATE \<noteq> 0"
  "NOT_ALIVE_NO_WRITERS_INSTANCE_STATE AND NOT_ALIVE_INSTANCE_STATE \<noteq> 0"
  "NEW_VIEW_STATE AND ANY_VIEW_STATE \<noteq> 0" "NOT_NEW_VIEW_STATE AND ANY_VIEW_STATE \<noteq> 0"
  "(0::ulong) AND ANY_VIEW_STATE = 0"
  by (simp_all add: is_kinds)

lemma is_kinds_distinct:
  "ALIVE_INSTANCE_STATE \<noteq> 0" "NOT_ALIVE_DISPOSED_INSTANCE_STATE \<noteq> 0"
  "NOT_ALIVE_NO_WRITERS_INSTANCE_STATE \<noteq> 0" "ALIVE_INSTANCE_STATE \<noteq> NOT_ALIVE_DISPOSED_INSTANCE_STATE"
  "ALIVE_INSTANCE_STATE \<noteq> NOT_ALIVE_NO_WRITERS_INSTANCE_STATE"
  "NOT_ALIVE_DISPOSED_INSTANCE_STATE \<noteq> NOT_ALIVE_NO_WRITERS_INSTANCE_STATE"
  "NEW_VIEW_STATE \<noteq> 0" "NOT_NEW_VIEW_STATE \<noteq> 0" "NEW_VIEW_STATE \<noteq> NOT_NEW_VIEW_STATE"
  by (simp_all add: is_kinds)

text \<open>Cancelling and scheduling a release touch the timer and the pending flag only.\<close>

lemma cancel_release_fields [simp]:
  "instance_state (fst (cancel_release st)) = instance_state st"
  "view_state (fst (cancel_release st)) = view_state st"
  "disposed_generation_count (fst (cancel_release st)) = disposed_generation_count st"
  "no_writers_generation_count (fst (cancel_release st)) = no_writers_generation_count st"
  "is_empty (fst (cancel_release st)) = is_empty st"
  "is_handle (fst (cancel_release st)) = is_handle st"
  "writers (fst (cancel_release st)) = writers st"
  "is_owner_id (fst (cancel_release st)) = is_owner_id st"
  "exclusive (fst (cancel_release st)) = exclusive st"
  "is_registered (fst (cancel_release st)) = is_registered st"
  "release_timer_id (fst (cancel_release st)) = - 1" "\<not> release_pending (fst (cancel_release st))"
  by (simp_all add: cancel_release_def Let_def)

lemma schedule_release_fields [simp]:
  "instance_state (fst (schedule_release qos sched st)) = instance_state st"
  "view_state (fst (schedule_release qos sched st)) = view_state st"
  "disposed_generation_count (fst (schedule_release qos sched st)) = disposed_generation_count st"
  "no_writers_generation_count (fst (schedule_release qos sched st)) = no_writers_generation_count st"
  "is_empty (fst (schedule_release qos sched st)) = is_empty st"
  "is_handle (fst (schedule_release qos sched st)) = is_handle st"
  "writers (fst (schedule_release qos sched st)) = writers st"
  "is_owner_id (fst (schedule_release qos sched st)) = is_owner_id st"
  "exclusive (fst (schedule_release qos sched st)) = exclusive st"
  "is_registered (fst (schedule_release qos sched st)) = is_registered st"
  by (auto simp: schedule_release_def schedule_pending_def split: prod.splits)
    (metis cancel_release_fields fst_conv)+

lemma schedule_release_idle:
  assumes "instance_state st \<noteq> NOT_ALIVE_NO_WRITERS_INSTANCE_STATE"
    and "instance_state st \<noteq> NOT_ALIVE_DISPOSED_INSTANCE_STATE"
  shows "schedule_release qos sched st = (st, [])"
  using assms by (simp add: schedule_release_def)

lemma is_inv_schedule:
  assumes "instance_state st \<in> {NOT_ALIVE_DISPOSED_INSTANCE_STATE, NOT_ALIVE_NO_WRITERS_INSTANCE_STATE}"
    and "view_state st \<in> {NEW_VIEW_STATE, NOT_NEW_VIEW_STATE}"
    and "instance_state st = NOT_ALIVE_NO_WRITERS_INSTANCE_STATE \<Longrightarrow> writers st = {}"
  shows "is_inv (fst (schedule_release qos sched st))"
  using assms is_kind_masks is_kinds_distinct by (auto simp: is_inv_def)

text \<open>Every method but those below keeps the fields the invariant speaks of.\<close>

lemma is_inv_alive:
  assumes "is_inv st" and "instance_state st AND ALIVE_INSTANCE_STATE \<noteq> 0"
  shows "instance_state st = ALIVE_INSTANCE_STATE \<and> view_state st \<in> {NEW_VIEW_STATE, NOT_NEW_VIEW_STATE}"
  using assms is_kind_masks is_kinds_distinct by (auto simp: is_inv_def)

lemma is_inv_data:
  assumes "is_inv st"
  shows "is_inv (fst (data_was_received w st))"
proof -
  obtain st' es where c: "cancel_release st = (st', es)" by (metis surj_pair)
  then have f: "release_timer_id st' = - 1" using cancel_release_fields [of st] by simp
  show ?thesis
    using f is_kinds_distinct by (simp add: data_was_received_def c Let_def is_inv_def view_on_data_def)
qed

lemma is_inv_lively:
  assumes "is_inv st"
  shows "is_inv (fst (lively w st))"
proof (cases "instance_state st = NOT_ALIVE_NO_WRITERS_INSTANCE_STATE")
  case True
  define st1 where "st1 = st\<lparr>writers := insert w (writers st)\<rparr>"
  obtain st' es where c: "cancel_release st1 = (st', es)" by (metis surj_pair)
  then have f: "release_timer_id st' = - 1" "view_state st' = view_state st"
    using cancel_release_fields [of st1] by (simp_all add: st1_def)
  then show ?thesis
    using True assms is_kinds_distinct c
    by (simp add: lively_def Let_def st1_def [symmetric]) (auto simp: st1_def is_inv_def)
next
  case False
  then show ?thesis using assms by (auto simp: lively_def is_inv_def)
qed

lemma is_inv_erase: "is_inv st \<Longrightarrow> is_inv (erase_writer w st)"
  by (auto simp: is_inv_def erase_writer_def)

lemma is_inv_check: "is_inv st \<Longrightarrow> is_inv (fst (snd (check_no_writers qos sched st)))"
  using is_inv_alive [of st] by (auto simp: check_no_writers_def intro!: is_inv_schedule)

lemma is_inv_dispose: "is_inv st \<Longrightarrow> is_inv (fst (snd (dispose_was_received qos sched own w st)))"
  using is_inv_alive [OF is_inv_erase, of st w] is_inv_erase [of st w] is_kinds_distinct
  by (auto simp: dispose_was_received_def Let_def intro!: is_inv_schedule)

lemma is_inv_accessed: "is_inv st \<Longrightarrow> is_inv (accessed st)"
  using is_kind_masks is_kinds_distinct by (auto simp: is_inv_def accessed_def)

lemma is_inv_cancel: "is_inv st \<Longrightarrow> is_inv (fst (cancel_release st))"
  by (auto simp: is_inv_def)

lemma is_inv_other:
  assumes "is_inv st"
  shows "is_inv (schedule_pending st)" "is_inv (st\<lparr>is_empty := v\<rparr>)" "is_inv (set_owner g st)"
    "is_inv (set_registered b st)" "is_inv (fst (reset_ownership h st))"
  using assms by (auto simp: is_inv_def schedule_pending_def set_owner_def set_registered_def reset_ownership_def)

lemmas is_inv_methods =
  is_inv_data is_inv_lively is_inv_erase is_inv_check is_inv_dispose is_inv_accessed is_inv_cancel is_inv_other

lemma is_inv_step:
  assumes "is_inv st" and "is_exec qos sched ev st = (st', es)"
  shows "is_inv st'"
proof -
  have "is_inv (fst (is_exec qos sched ev st))"
    using assms(1)
    by (cases ev)
      (auto simp: writer_became_dead_def release_if_empty_def set_empty_def Let_def intro: is_inv_methods)
  then show ?thesis using assms(2) by simp
qed

section \<open>Generation counts\<close>

definition gen_step :: "InstanceState \<Rightarrow> InstanceState \<Rightarrow> bool" where
  "gen_step t u \<longleftrightarrow>
     disposed_generation_count u = disposed_generation_count t
       + (if instance_state t = NOT_ALIVE_DISPOSED_INSTANCE_STATE \<and> instance_state u = ALIVE_INSTANCE_STATE
          then 1 else 0)
     \<and> no_writers_generation_count u = no_writers_generation_count t
       + (if instance_state t = NOT_ALIVE_NO_WRITERS_INSTANCE_STATE \<and> instance_state u = ALIVE_INSTANCE_STATE
          then 1 else 0)"

lemma gen_step_same:
  assumes "instance_state u = instance_state t" "disposed_generation_count u = disposed_generation_count t"
    "no_writers_generation_count u = no_writers_generation_count t"
  shows "gen_step t u"
  using assms is_kinds_distinct by (auto simp: gen_step_def)

lemma gen_step_not_alive:
  assumes "instance_state u \<noteq> ALIVE_INSTANCE_STATE"
    "disposed_generation_count u = disposed_generation_count t"
    "no_writers_generation_count u = no_writers_generation_count t"
  shows "gen_step t u"
  using assms by (auto simp: gen_step_def)

lemma gen_step_data: "gen_step st (fst (data_was_received w st))"
proof -
  obtain st' es where c: "cancel_release st = (st', es)" by (metis surj_pair)
  then have "instance_state st' = instance_state st"
      "disposed_generation_count st' = disposed_generation_count st"
      "no_writers_generation_count st' = no_writers_generation_count st"
    using cancel_release_fields [of st] by simp_all
  then show ?thesis
    using is_kinds_distinct by (auto simp: data_was_received_def c Let_def gen_step_def)
qed

lemma gen_step_lively: "gen_step st (fst (lively w st))"
proof (cases "instance_state st = NOT_ALIVE_NO_WRITERS_INSTANCE_STATE")
  case True
  define st1 where "st1 = st\<lparr>writers := insert w (writers st)\<rparr>"
  obtain st' es where c: "cancel_release st1 = (st', es)" by (metis surj_pair)
  then have "disposed_generation_count st' = disposed_generation_count st"
      "no_writers_generation_count st' = no_writers_generation_count st"
    using cancel_release_fields [of st1] by (simp_all add: st1_def)
  then show ?thesis
    using True is_kinds_distinct c
    by (simp add: lively_def Let_def st1_def [symmetric]) (simp add: st1_def gen_step_def)
next
  case False
  then show ?thesis by (auto simp: lively_def intro: gen_step_same)
qed

lemma gen_step_check: "gen_step st (fst (snd (check_no_writers qos sched st)))"
  using is_kinds_distinct
  by (auto simp: check_no_writers_def intro: gen_step_not_alive gen_step_same)

lemma gen_step_dispose: "gen_step st (fst (snd (dispose_was_received qos sched own w st)))"
  using is_kinds_distinct
  by (auto simp: dispose_was_received_def Let_def erase_writer_def intro: gen_step_not_alive gen_step_same)

lemma gen_step_dead: "gen_step st (fst (writer_became_dead qos sched w st))"
  using gen_step_check [of "erase_writer w st" qos sched]
  by (simp add: writer_became_dead_def gen_step_def erase_writer_def)

lemma gen_step_other:
  "gen_step st (erase_writer w st)" "gen_step st (accessed st)" "gen_step st (fst (cancel_release st))"
  "gen_step st (schedule_pending st)" "gen_step st (st\<lparr>is_empty := v\<rparr>)"
  "gen_step st (schedule_pending (st\<lparr>is_empty := v\<rparr>))" "gen_step st (set_owner g st)"
  "gen_step st (set_registered b st)" "gen_step st (fst (reset_ownership h st))" "gen_step st st"
  by (rule gen_step_same; simp add: erase_writer_def accessed_def schedule_pending_def set_owner_def
      set_registered_def reset_ownership_def)+

lemmas gen_steps = gen_step_data gen_step_lively gen_step_check gen_step_dispose gen_step_dead gen_step_other

lemma gen_step_exec:
  assumes "is_exec qos sched ev st = (st', es)"
  shows "gen_step st st'"
proof -
  have "gen_step st (fst (is_exec qos sched ev st))"
    by (cases ev) (auto simp: release_if_empty_def set_empty_def Let_def intro: gen_steps)
  then show ?thesis using assms by simp
qed

section \<open>Properties\<close>

text \<open>
  (C26) Along every run of an instance the states stay well formed: the instance state is unset or one of
  the three kinds, an instance without writers has none, a release timer runs only while the instance is
  not alive; and the two generation counters are the numbers of changes from disposed, and from without
  writers, to alive.
\<close>

theorem instance_run:
  assumes "is_run s d n t"
  shows "is_inv t \<and> disposed_generation_count t = of_nat d \<and> no_writers_generation_count t = of_nat n"
  using assms
proof induction
  case (start kind handle)
  then show ?case by (simp add: is_inv_start) (simp add: mk_InstanceState_def)
next
  case (step s d n t qos sched ev u es)
  then show ?case using is_inv_step [of t] gen_step_exec [of qos sched ev t u es] by (auto simp: gen_step_def)
qed

definition example_writer :: GUID_t where
  "example_writer = GUID_t (GuidPrefix_t 1 0 0 0 0 0 0 0 0 0 0 0) (EntityId_t 0 0 1 2)"

theorem instance_run_witness:
  "\<exists>t. is_inv t \<and> disposed_generation_count t = of_nat 1 \<and> instance_state t = ALIVE_INSTANCE_STATE"
proof -
  define s0 where "s0 = mk_InstanceState SHARED_OWNERSHIP_QOS 7"
  define q where "q = initial_DataReaderQos"
  define s1 where "s1 = fst (is_exec q (\<lambda>_. 3) (Ev_data example_writer) s0)"
  define s2 where "s2 = fst (is_exec q (\<lambda>_. 3) (Ev_dispose False example_writer) s1)"
  define s3 where "s3 = fst (is_exec q (\<lambda>_. 3) (Ev_data example_writer) s2)"
  have k: "instance_state s0 = 0" "instance_state s1 = ALIVE_INSTANCE_STATE"
      "instance_state s3 = ALIVE_INSTANCE_STATE" "exclusive s1 = False"
    by (simp_all add: s0_def s1_def s3_def mk_InstanceState_def data_was_received_def Let_def
        cancel_release_def split: prod.splits)
  then have k2: "instance_state s2 = NOT_ALIVE_DISPOSED_INSTANCE_STATE"
    using is_kind_masks by (simp add: s2_def dispose_was_received_def Let_def erase_writer_def)
  have r0: "is_run s0 0 0 s0" unfolding s0_def by (rule is_run.start)
  have r1: "is_run s0 0 0 s1"
    using is_run.step [OF r0, of q "\<lambda>_. 3" "Ev_data example_writer" s1] k is_kinds_distinct
    by (auto simp: s1_def prod_eq_iff simp del: is_exec.simps)
  have r2: "is_run s0 0 0 s2"
    using is_run.step [OF r1, of q "\<lambda>_. 3" "Ev_dispose False example_writer" s2] k k2 is_kinds_distinct
    by (auto simp: s2_def prod_eq_iff simp del: is_exec.simps)
  have "is_run s0 1 0 s3"
    using is_run.step [OF r2, of q "\<lambda>_. 3" "Ev_data example_writer" s3] k k2 is_kinds_distinct
    by (auto simp: s3_def prod_eq_iff simp del: is_exec.simps)
  from instance_run [OF this] show ?thesis using k by blast
qed

text \<open>
  A received sample makes the instance alive: its writer is recorded, a running release timer is
  cancelled and no release is pending; the view becomes new when the instance was not alive or had never
  been seen, and the number of the current generation grows exactly then when it was not alive.
\<close>

theorem data_was_received_correct:
  assumes "is_inv st" and "data_was_received w st = (st', es)"
  shows "instance_state st' = ALIVE_INSTANCE_STATE \<and> writers st' = insert w (writers st)
    \<and> release_timer_id st' = - 1 \<and> \<not> release_pending st'
    \<and> es = (if release_timer_id st \<noteq> - 1 then [CancelTimer (release_timer_id st)] else [])
    \<and> view_state st' = (if instance_state st = ALIVE_INSTANCE_STATE then view_state st else NEW_VIEW_STATE)"
proof -
  have inv: "view_state st \<in> {0, NEW_VIEW_STATE, NOT_NEW_VIEW_STATE}" "view_state st = 0 \<longleftrightarrow> instance_state st = 0"
      "instance_state st \<in> {0, ALIVE_INSTANCE_STATE, NOT_ALIVE_DISPOSED_INSTANCE_STATE,
         NOT_ALIVE_NO_WRITERS_INSTANCE_STATE}"
    using assms(1) unfolding is_inv_def by blast+
  have v: "view_on_data st = (if instance_state st = ALIVE_INSTANCE_STATE then view_state st else NEW_VIEW_STATE)"
    using inv is_kind_masks is_kinds_distinct by (auto simp: view_on_data_def)
  have "view_on_data (st\<lparr>release_pending := p, release_timer_id := i, writers := ws\<rparr>) = view_on_data st"
      "view_on_data (st\<lparr>release_pending := p, writers := ws\<rparr>) = view_on_data st" for p i ws
    by (simp_all add: view_on_data_def)
  then show ?thesis
    using assms(2) v by (auto simp: data_was_received_def cancel_release_def Let_def split: if_splits)
qed

theorem data_was_received_correct_witness:
  "instance_state (fst (data_was_received example_writer (mk_InstanceState SHARED_OWNERSHIP_QOS 7)))
     = ALIVE_INSTANCE_STATE"
  using data_was_received_correct [OF is_inv_start surjective_pairing] by blast

end
