(* ===== verification/Ownership_Manager.thy ===== *)
theory Ownership_Manager
  imports Instance_State "HOL-Library.Multiset" "HOL-Library.AList"
begin

text \<open>
  \<open>OwnershipManager\<close> (\<open>src/dds/DCPS/OwnershipManager.{h,cpp}\<close>): which writer owns an instance under
  exclusive ownership. Pointers to \<open>InstanceState\<close> objects are addresses into a store of such objects,
  because the manager writes the owner into every registered one; maps are association lists. The
  instance lock is held by every operation, so operations are atomic. \<open>std::sort\<close>, which may leave equal
  elements in any order, is the parameter \<open>std_sort\<close>; what the standard promises of it is the locale
  \<open>descending_sort\<close>.
\<close>

section \<open>Data\<close>

record OM_WriterInfo =
  pub_id :: GUID_t
  ownership_strength :: int

definition no_writer_info :: OM_WriterInfo where
  "no_writer_info = \<lparr>pub_id = GUID_UNKNOWN, ownership_strength = 0\<rparr>"

record OwnershipWriterInfos =
  om_owner :: OM_WriterInfo
  candidates :: "OM_WriterInfo list"
  instance_states :: "nat list"

record InstanceMap =
  im_map :: nat
  im_readers :: "nat list"

record om_world =
  instance_ownership_infos :: "(int \<times> OwnershipWriterInfos) list"
  type_instance_map :: "(string \<times> InstanceMap) list"
  om_store :: "nat \<Rightarrow> InstanceState"
  om_effects :: "(nat \<times> is_effect) list"
  deleted_maps :: "(nat \<times> nat) list"

definition DescendingOwnershipStrengthSort :: "OM_WriterInfo \<Rightarrow> OM_WriterInfo \<Rightarrow> bool" where
  "DescendingOwnershipStrengthSort w1 w2 \<longleftrightarrow> ownership_strength w1 > ownership_strength w2"

type_synonym sorter = "OM_WriterInfo list \<Rightarrow> OM_WriterInfo list"
type_synonym is_store = "nat \<Rightarrow> InstanceState"

section \<open>Instance maps per type\<close>

definition get_instance_map :: "string \<Rightarrow> nat \<Rightarrow> om_world \<Rightarrow> nat \<times> om_world" where
  "get_instance_map type_name reader w =
     (case map_of (type_instance_map w) type_name of
        None \<Rightarrow> (0, w)
      | Some inst \<Rightarrow>
          (im_map inst,
           w\<lparr>type_instance_map :=
               AList.update type_name (inst\<lparr>im_readers := im_readers inst @ [reader]\<rparr>) (type_instance_map w)\<rparr>))"

text \<open>\<open>bind\<close> does not overwrite an existing entry; the failure is only logged.\<close>

definition set_instance_map :: "string \<Rightarrow> nat \<Rightarrow> nat \<Rightarrow> om_world \<Rightarrow> om_world" where
  "set_instance_map type_name instance_map reader w =
     (case map_of (type_instance_map w) type_name of
        Some _ \<Rightarrow> w
      | None \<Rightarrow> w\<lparr>type_instance_map :=
                  AList.update type_name \<lparr>im_map = instance_map, im_readers = [reader]\<rparr> (type_instance_map w)\<rparr>)"

definition unregister_reader :: "string \<Rightarrow> nat \<Rightarrow> om_world \<Rightarrow> om_world" where
  "unregister_reader type_name reader w =
     (case map_of (type_instance_map w) type_name of
        None \<Rightarrow> w
      | Some inst \<Rightarrow>
          let inst = inst\<lparr>im_readers := remove1 reader (im_readers inst)\<rparr> in
          if im_readers inst = []
          then w\<lparr>type_instance_map := AList.delete type_name (type_instance_map w),
                 deleted_maps := deleted_maps w @ [(reader, im_map inst)]\<rparr>
          else w\<lparr>type_instance_map := AList.update type_name inst (type_instance_map w)\<rparr>)"

section \<open>Owners\<close>

definition broadcast_new_owner :: "OwnershipWriterInfos \<Rightarrow> GUID_t \<Rightarrow> is_store \<Rightarrow> is_store" where
  "broadcast_new_owner infos owner store =
     fold (\<lambda>i store. store(i := set_owner owner (store i))) (instance_states infos) store"

definition remove_owner_infos ::
    "sorter \<Rightarrow> OwnershipWriterInfos \<Rightarrow> bool \<Rightarrow> is_store \<Rightarrow> OwnershipWriterInfos \<times> is_store" where
  "remove_owner_infos std_sort infos do_sort store =
     (if candidates infos = []
      then let infos = infos\<lparr>om_owner := no_writer_info\<rparr>
           in (infos, broadcast_new_owner infos GUID_UNKNOWN store)
      else let cs = (if do_sort then std_sort (candidates infos) else candidates infos);
               infos = infos\<lparr>om_owner := hd cs, candidates := tl cs\<rparr>
           in (infos, broadcast_new_owner infos (pub_id (om_owner infos)) store))"

fun erase_candidate :: "GUID_t \<Rightarrow> OM_WriterInfo list \<Rightarrow> OM_WriterInfo list" where
  "erase_candidate p [] = []"
| "erase_candidate p (c # cs) = (if pub_id c = p then cs else c # erase_candidate p cs)"

definition remove_candidate :: "OwnershipWriterInfos \<Rightarrow> GUID_t \<Rightarrow> OwnershipWriterInfos" where
  "remove_candidate infos p = infos\<lparr>candidates := erase_candidate p (candidates infos)\<rparr>"

definition remove_writer_infos ::
    "sorter \<Rightarrow> OwnershipWriterInfos \<Rightarrow> GUID_t \<Rightarrow> is_store \<Rightarrow> bool \<times> OwnershipWriterInfos \<times> is_store" where
  "remove_writer_infos std_sort infos p store =
     (if pub_id (om_owner infos) = p then (True, remove_owner_infos std_sort infos False store)
      else (False, remove_candidate infos p, store))"

text \<open>\<open>remove_writer(pub_id)\<close>: from the infos of every instance.\<close>

fun remove_writer_each ::
    "sorter \<Rightarrow> GUID_t \<Rightarrow> (int \<times> OwnershipWriterInfos) list \<Rightarrow> is_store
     \<Rightarrow> (int \<times> OwnershipWriterInfos) list \<times> is_store" where
  "remove_writer_each std_sort p [] store = ([], store)"
| "remove_writer_each std_sort p ((h, infos) # rest) store =
     (case remove_writer_infos std_sort infos p store of
        (_, infos', store') \<Rightarrow>
          (case remove_writer_each std_sort p rest store' of
             (rest', store'') \<Rightarrow> ((h, infos') # rest', store'')))"

definition remove_writer_all :: "sorter \<Rightarrow> GUID_t \<Rightarrow> om_world \<Rightarrow> om_world" where
  "remove_writer_all std_sort p w =
     (case remove_writer_each std_sort p (instance_ownership_infos w) (om_store w) of
        (infos', store') \<Rightarrow> w\<lparr>instance_ownership_infos := infos', om_store := store'\<rparr>)"

definition remove_writer :: "sorter \<Rightarrow> int \<Rightarrow> GUID_t \<Rightarrow> om_world \<Rightarrow> bool \<times> om_world" where
  "remove_writer std_sort handle p w =
     (case map_of (instance_ownership_infos w) handle of
        None \<Rightarrow> (False, w)
      | Some infos \<Rightarrow>
          (case remove_writer_infos std_sort infos p (om_store w) of
             (b, infos', store') \<Rightarrow>
               (b, w\<lparr>instance_ownership_infos := AList.update handle infos' (instance_ownership_infos w),
                     om_store := store'\<rparr>)))"

text \<open>
  The public \<open>remove_owner\<close> uses the result of \<open>find\<close> without comparing it to \<open>end()\<close>: for an instance
  that is not in the map its behaviour is undefined, here \<open>None\<close>.
\<close>

definition remove_owner :: "sorter \<Rightarrow> int \<Rightarrow> om_world \<Rightarrow> om_world option" where
  "remove_owner std_sort handle w =
     (case map_of (instance_ownership_infos w) handle of
        None \<Rightarrow> None
      | Some infos \<Rightarrow>
          (case remove_owner_infos std_sort infos False (om_store w) of
             (infos', store') \<Rightarrow>
               Some (w\<lparr>instance_ownership_infos := AList.update handle infos' (instance_ownership_infos w),
                       om_store := store'\<rparr>)))"

definition remove_instance :: "nat \<Rightarrow> om_world \<Rightarrow> om_world" where
  "remove_instance inst w =
     (let ih = is_handle (om_store w inst) in
      case map_of (instance_ownership_infos w) ih of
        None \<Rightarrow> w
      | Some infos \<Rightarrow>
          w\<lparr>instance_ownership_infos :=
              AList.update ih (infos\<lparr>instance_states := remove1 inst (instance_states infos)\<rparr>)
                (instance_ownership_infos w)\<rparr>)"

text \<open>The loop of \<open>remove_writers\<close> that resets the ownership of every registered instance.\<close>

fun reset_each :: "int \<Rightarrow> nat list \<Rightarrow> om_world \<Rightarrow> om_world" where
  "reset_each handle [] w = w"
| "reset_each handle (i # is) w =
     (case reset_ownership handle (om_store w i) of
        (st, es) \<Rightarrow>
          reset_each handle is (w\<lparr>om_store := (om_store w)(i := st),
                                  om_effects := om_effects w @ map (Pair i) es\<rparr>))"

definition remove_writers :: "int \<Rightarrow> om_world \<Rightarrow> om_world" where
  "remove_writers handle w =
     (case map_of (instance_ownership_infos w) handle of
        None \<Rightarrow> w
      | Some infos \<Rightarrow>
          (reset_each handle (instance_states infos) w)
            \<lparr>instance_ownership_infos := AList.delete handle (instance_ownership_infos w)\<rparr>)"

definition is_owner :: "int \<Rightarrow> GUID_t \<Rightarrow> om_world \<Rightarrow> bool" where
  "is_owner handle p w =
     (case map_of (instance_ownership_infos w) handle of
        None \<Rightarrow> False
      | Some infos \<Rightarrow> pub_id (om_owner infos) = p)"

section \<open>Selecting the owner\<close>

text \<open>Registration of the instance state with the infos of its instance.\<close>

definition register_instance ::
    "nat \<Rightarrow> OwnershipWriterInfos \<Rightarrow> is_store \<Rightarrow> OwnershipWriterInfos \<times> is_store" where
  "register_instance inst infos store =
     (case get_registered (store inst) of
        (registered, st) \<Rightarrow>
          if \<not> registered
          then (infos\<lparr>instance_states := instance_states infos @ [inst]\<rparr>,
                store(inst := set_registered True st))
          else (infos, store(inst := st)))"

text \<open>The search of the candidates: the updated list and the flags \<open>found\<close> and \<open>sort\<close>.\<close>

fun update_candidate :: "GUID_t \<Rightarrow> int \<Rightarrow> OM_WriterInfo list \<Rightarrow> OM_WriterInfo list \<times> bool \<times> bool" where
  "update_candidate p strength [] = ([], False, True)"
| "update_candidate p strength (c # cs) =
     (if pub_id c = p
      then if ownership_strength c \<noteq> strength
           then (c\<lparr>ownership_strength := strength\<rparr> # cs, True, True)
           else (c # cs, True, False)
      else case update_candidate p strength cs of (cs', found, do_sort) \<Rightarrow> (c # cs', found, do_sort))"

definition reevaluate_owner ::
    "sorter \<Rightarrow> GUID_t \<Rightarrow> int \<Rightarrow> OwnershipWriterInfos \<Rightarrow> is_store \<Rightarrow> OwnershipWriterInfos \<times> is_store" where
  "reevaluate_owner std_sort p strength infos store =
     (let replace_owner = (strength > ownership_strength (om_owner infos));
          cs = (if replace_owner then candidates infos @ [om_owner infos] else candidates infos)
      in case update_candidate p strength cs of
           (cs, found, do_sort) \<Rightarrow>
             let cs = (if \<not> found then cs @ [\<lparr>pub_id = p, ownership_strength = strength\<rparr>] else cs);
                 cs = (if do_sort then std_sort cs else cs);
                 infos = infos\<lparr>candidates := cs\<rparr>
             in if replace_owner then remove_owner_infos std_sort infos False store else (infos, store))"

definition select_infos ::
    "sorter \<Rightarrow> GUID_t \<Rightarrow> int \<Rightarrow> OwnershipWriterInfos \<Rightarrow> is_store
     \<Rightarrow> bool \<times> OwnershipWriterInfos \<times> is_store" where
  "select_infos std_sort p strength infos store =
     (if pub_id (om_owner infos) = GUID_UNKNOWN
      then let infos = infos\<lparr>om_owner := \<lparr>pub_id = p, ownership_strength = strength\<rparr>\<rparr>
           in (True, infos, broadcast_new_owner infos p store)
      else if pub_id (om_owner infos) = p
      then if ownership_strength (om_owner infos) \<le> strength
           then (True, infos\<lparr>om_owner := (om_owner infos)\<lparr>ownership_strength := strength\<rparr>\<rparr>, store)
           else (case remove_owner_infos std_sort
                        (infos\<lparr>candidates :=
                           candidates infos @ [\<lparr>pub_id = p, ownership_strength = strength\<rparr>]\<rparr>) True store of
                   (infos', store') \<Rightarrow> (pub_id (om_owner infos') = p, infos', store'))
      else (case reevaluate_owner std_sort p strength infos store of
              (infos', store') \<Rightarrow> (pub_id (om_owner infos') = p, infos', store')))"

definition select_owner :: "sorter \<Rightarrow> int \<Rightarrow> GUID_t \<Rightarrow> int \<Rightarrow> nat \<Rightarrow> om_world \<Rightarrow> bool \<times> om_world" where
  "select_owner std_sort handle p strength inst w =
     (case map_of (instance_ownership_infos w) handle of
        Some infos \<Rightarrow>
          (case register_instance inst infos (om_store w) of
             (infos, store) \<Rightarrow>
               (case select_infos std_sort p strength infos store of
                  (b, infos', store') \<Rightarrow>
                    (b, w\<lparr>instance_ownership_infos :=
                            AList.update handle infos' (instance_ownership_infos w),
                          om_store := store'\<rparr>)))
      | None \<Rightarrow>
          (case register_instance inst
                  \<lparr>om_owner = \<lparr>pub_id = p, ownership_strength = strength\<rparr>, candidates = [],
                   instance_states = []\<rparr> (om_store w) of
             (infos, store) \<Rightarrow>
               (True, w\<lparr>instance_ownership_infos := AList.update handle infos (instance_ownership_infos w),
                        om_store := broadcast_new_owner infos p store\<rparr>)))"

section \<open>Invariant\<close>

abbreviation stronger :: "OM_WriterInfo \<Rightarrow> OM_WriterInfo \<Rightarrow> bool" where
  "stronger a b \<equiv> ownership_strength b \<le> ownership_strength a"

definition infos_inv :: "OwnershipWriterInfos \<Rightarrow> bool" where
  "infos_inv i \<longleftrightarrow>
     sorted_wrt stronger (candidates i)
     \<and> (\<forall>c \<in> set (candidates i). stronger (om_owner i) c)
     \<and> distinct (map pub_id (candidates i))
     \<and> pub_id (om_owner i) \<notin> pub_id ` set (candidates i)
     \<and> GUID_UNKNOWN \<notin> pub_id ` set (candidates i)
     \<and> (pub_id (om_owner i) = GUID_UNKNOWN \<longrightarrow> candidates i = [])"

text \<open>What the infos stand for: the writers that contend for the instance, with their strengths.\<close>

definition wi_pair :: "OM_WriterInfo \<Rightarrow> GUID_t \<times> int" where
  "wi_pair c = (pub_id c, ownership_strength c)"

definition contenders :: "OwnershipWriterInfos \<Rightarrow> (GUID_t \<times> int) set" where
  "contenders i = wi_pair ` {c \<in> insert (om_owner i) (set (candidates i)). pub_id c \<noteq> GUID_UNKNOWN}"

definition contend :: "GUID_t \<Rightarrow> int \<Rightarrow> (GUID_t \<times> int) set \<Rightarrow> (GUID_t \<times> int) set" where
  "contend p strength cs = insert (p, strength) {x \<in> cs. fst x \<noteq> p}"

text \<open>What every registered instance sees: no owner, or the current one.\<close>

definition seen_ok :: "OwnershipWriterInfos \<Rightarrow> is_store \<Rightarrow> bool" where
  "seen_ok i store \<longleftrightarrow>
     (\<forall>a \<in> set (instance_states i). is_owner_id (store a) \<in> {GUID_UNKNOWN, pub_id (om_owner i)})"

lemma broadcast_new_owner_apply:
  "broadcast_new_owner i g store a = (if a \<in> set (instance_states i) then set_owner g (store a) else store a)"
proof -
  have "fold (\<lambda>i store. store(i := set_owner g (store i))) is store a
      = (if a \<in> set is then set_owner g (store a) else store a)" for "is"
    by (induction "is" arbitrary: store) (auto simp: set_owner_def)
  then show ?thesis by (simp add: broadcast_new_owner_def)
qed

lemma erase_candidate_filter:
  "distinct (map pub_id cs) \<Longrightarrow> erase_candidate p cs = filter (\<lambda>c. pub_id c \<noteq> p) cs"
proof (induction cs)
  case (Cons c cs)
  have "filter (\<lambda>c. pub_id c \<noteq> p) cs = cs" if "pub_id c = p"
    using Cons.prems that by (auto simp: filter_id_conv rev_image_eqI)
  then show ?case using Cons by auto
qed simp

lemma update_candidate_absent: "p \<notin> pub_id ` set cs \<Longrightarrow> update_candidate p s cs = (cs, False, True)"
  by (induction cs) auto

lemma update_candidate_present:
  "p \<notin> pub_id ` set xs \<Longrightarrow>
   update_candidate p s (xs @ c # ys) =
     (if pub_id c = p then (xs @ c\<lparr>ownership_strength := s\<rparr> # ys, True, ownership_strength c \<noteq> s)
      else update_candidate p s (xs @ c # ys))"
  by (induction xs) auto

text \<open>How the store changes: the owner is written into every registered instance, or nothing changes.\<close>

definition told :: "OwnershipWriterInfos \<Rightarrow> is_store \<Rightarrow> OwnershipWriterInfos \<Rightarrow> is_store \<Rightarrow> bool" where
  "told i store i' store' \<longleftrightarrow>
     instance_states i' = instance_states i
     \<and> (store' = broadcast_new_owner i (pub_id (om_owner i')) store
        \<or> store' = store \<and> pub_id (om_owner i') = pub_id (om_owner i))"

definition selected :: "GUID_t \<Rightarrow> int \<Rightarrow> OwnershipWriterInfos \<Rightarrow> OwnershipWriterInfos \<Rightarrow> bool" where
  "selected p s i i' \<longleftrightarrow>
     infos_inv i' \<and> contenders i' = contend p s (contenders i) \<and> pub_id (om_owner i') \<noteq> GUID_UNKNOWN
     \<and> (pub_id (om_owner i) \<notin> {GUID_UNKNOWN, p}
         \<longrightarrow> om_owner i' = (if ownership_strength (om_owner i) < s then \<lparr>pub_id = p, ownership_strength = s\<rparr>
                             else om_owner i))"

section \<open>Sorting\<close>

text \<open>What \<open>std::sort\<close> with \<open>DescendingOwnershipStrengthSort\<close> promises.\<close>

locale descending_sort =
  fixes std_sort :: sorter
  assumes mset_std_sort: "mset (std_sort cs) = mset cs"
    and sorted_std_sort: "sorted_wrt (\<lambda>a b. \<not> DescendingOwnershipStrengthSort b a) (std_sort cs)"
begin

lemma set_std_sort: "set (std_sort cs) = set cs"
  using mset_std_sort by (rule mset_eq_setD)

lemma sorted_strength: "sorted_wrt stronger (std_sort cs)"
  using sorted_std_sort [of cs] by (simp add: DescendingOwnershipStrengthSort_def not_less)

lemma distinct_std_sort: "distinct (map pub_id (std_sort cs)) \<longleftrightarrow> distinct (map pub_id cs)"
  by (metis mset_eq_imp_distinct_iff mset_map mset_std_sort)

lemma std_sort_Nil: "std_sort cs = [] \<longleftrightarrow> cs = []"
  using set_std_sort [of cs] by (metis set_empty)

end

definition strength_sort :: sorter where
  "strength_sort cs = sort_key (\<lambda>c. - ownership_strength c) cs"

interpretation ss: descending_sort strength_sort
proof
  fix cs
  show "mset (strength_sort cs) = mset cs" by (simp add: strength_sort_def)
  have "sorted_wrt (\<lambda>a b. - ownership_strength a \<le> - ownership_strength b) (strength_sort cs)"
    using sorted_sort_key [of "\<lambda>c. - ownership_strength c" cs] by (simp add: strength_sort_def sorted_map)
  then show "sorted_wrt (\<lambda>a b. \<not> DescendingOwnershipStrengthSort b a) (strength_sort cs)"
    by (simp add: DescendingOwnershipStrengthSort_def not_less)
qed

context descending_sort
begin

text \<open>The head of the candidates becomes the owner.\<close>

lemma promote_inv:
  assumes "sorted_wrt stronger cs" "distinct (map pub_id cs)" "GUID_UNKNOWN \<notin> pub_id ` set cs" "cs \<noteq> []"
  shows "infos_inv (i\<lparr>om_owner := hd cs, candidates := tl cs\<rparr>)"
  using assms by (cases cs) (auto simp: infos_inv_def)

lemma promote_contenders:
  assumes "GUID_UNKNOWN \<notin> pub_id ` set cs" "cs \<noteq> []"
  shows "contenders (i\<lparr>om_owner := hd cs, candidates := tl cs\<rparr>)
    = wi_pair ` set cs"
proof -
  have "{c \<in> set cs. pub_id c \<noteq> GUID_UNKNOWN} = set cs" using assms(1) by force
  then show ?thesis using assms(2) by (cases cs) (simp_all add: contenders_def)
qed


lemma remove_owner_infos_correct:
  assumes "sorted_wrt stronger (candidates i) \<or> do_sort" "distinct (map pub_id (candidates i))"
    "GUID_UNKNOWN \<notin> pub_id ` set (candidates i)" "remove_owner_infos std_sort i do_sort store = (i', store')"
  shows "infos_inv i'" and "contenders i' = wi_pair ` set (candidates i)"
    and "instance_states i' = instance_states i" and "store' = broadcast_new_owner i (pub_id (om_owner i')) store"
    and "candidates i \<noteq> [] \<Longrightarrow> om_owner i' \<in> set (candidates i) \<and> (\<forall>c \<in> set (candidates i). stronger (om_owner i') c)"
proof -
  have "infos_inv i' \<and> contenders i' = wi_pair ` set (candidates i) \<and> instance_states i' = instance_states i
    \<and> store' = broadcast_new_owner i (pub_id (om_owner i')) store
    \<and> (candidates i \<noteq> [] \<longrightarrow> om_owner i' \<in> set (candidates i) \<and> (\<forall>c \<in> set (candidates i). stronger (om_owner i') c))"
  proof (cases "candidates i = []")
    case True
    then show ?thesis
      using assms(4)
      by (auto simp: remove_owner_infos_def infos_inv_def no_writer_info_def contenders_def broadcast_new_owner_def)
  next
    case False
    define cs where "cs = (if do_sort then std_sort (candidates i) else candidates i)"
    have cs: "sorted_wrt stronger cs" "distinct (map pub_id cs)" "set cs = set (candidates i)" "cs \<noteq> []"
      using assms(1,2) False sorted_strength distinct_std_sort set_std_sort std_sort_Nil by (auto simp: cs_def)
    have i': "i' = i\<lparr>om_owner := hd cs, candidates := tl cs\<rparr>"
        "store' = broadcast_new_owner i (pub_id (hd cs)) store"
      using assms(4) False
      by (auto simp: remove_owner_infos_def Let_def cs_def [symmetric] broadcast_new_owner_def)
    have "hd cs \<in> set cs \<and> (\<forall>c \<in> set cs. stronger (hd cs) c)" using cs(1,4) by (cases cs) auto
    then show ?thesis
      using promote_inv [of cs i] promote_contenders [of cs i] cs assms(3) i' by auto
  qed
  then show "infos_inv i'" and "contenders i' = wi_pair ` set (candidates i)"
    and "instance_states i' = instance_states i" and "store' = broadcast_new_owner i (pub_id (om_owner i')) store"
    and "candidates i \<noteq> [] \<Longrightarrow> om_owner i' \<in> set (candidates i) \<and> (\<forall>c \<in> set (candidates i). stronger (om_owner i') c)"
    by blast+
qed

text \<open>The candidates after the search, the insertion and the sort.\<close>

lemma candidates_after:
  assumes cs: "sorted_wrt stronger cs \<or> ownership_strength ow < s \<and> cs = cs0 @ [ow] \<and> (\<forall>c \<in> set cs. stronger ow c)"
    and d: "distinct (map pub_id cs)" and p: "p \<noteq> GUID_UNKNOWN" "GUID_UNKNOWN \<notin> pub_id ` set cs"
    and own: "pub_id ow \<noteq> p"
    and u: "update_candidate p s cs = (cs1, found, do_sort)"
  defines "cs2 \<equiv> (if \<not> found then cs1 @ [\<lparr>pub_id = p, ownership_strength = s\<rparr>] else cs1)"
  defines "cs3 \<equiv> (if do_sort then std_sort cs2 else cs2)"
  shows "sorted_wrt stronger cs3 \<and> distinct (map pub_id cs3)
    \<and> set cs3 = insert \<lparr>pub_id = p, ownership_strength = s\<rparr> {c \<in> set cs. pub_id c \<noteq> p}"
proof (cases "p \<in> pub_id ` set cs")
  case False
  then have "found = False" "do_sort = True" "cs1 = cs" using u update_candidate_absent [of p cs s] by simp_all
  moreover from False have "{c \<in> set cs. pub_id c \<noteq> p} = set cs" by force
  ultimately show ?thesis
    using False d by (auto simp: cs3_def cs2_def sorted_strength distinct_std_sort set_std_sort)
next
  case True
  then obtain c where "c \<in> set cs" "pub_id c = p" by auto
  then obtain xs ys where xs: "cs = xs @ c # ys" by (auto dest: split_list)
  then have px: "p \<notin> pub_id ` set xs" "p \<notin> pub_id ` set ys" using d \<open>pub_id c = p\<close> by force+
  have u': "cs1 = xs @ c\<lparr>ownership_strength := s\<rparr> # ys" "found" "do_sort = (ownership_strength c \<noteq> s)"
    using u update_candidate_present [OF px(1), of s c ys] \<open>pub_id c = p\<close> xs by simp_all
  have c: "c\<lparr>ownership_strength := s\<rparr> = \<lparr>pub_id = p, ownership_strength = s\<rparr>"
    using \<open>pub_id c = p\<close> by (simp add: OM_WriterInfo.equality)
  have set: "set cs1 = insert \<lparr>pub_id = p, ownership_strength = s\<rparr> {c \<in> set cs. pub_id c \<noteq> p}"
    using px \<open>pub_id c = p\<close> by (auto simp: u' xs c rev_image_eqI)
  have d1: "distinct (map pub_id cs1)" using d \<open>pub_id c = p\<close> by (simp add: u' xs)
  show ?thesis
  proof (cases do_sort)
    case True
    then show ?thesis using set d1 u' by (simp add: cs3_def cs2_def sorted_strength distinct_std_sort set_std_sort)
  next
    case False
    then have "ownership_strength c = s" using u' by simp
    then have same: "cs1 = cs" "stronger ow c \<Longrightarrow> \<not> ownership_strength ow < s" using u' xs by simp_all
    then have "sorted_wrt stronger cs" using cs \<open>c \<in> set cs\<close> by auto
    moreover have "cs3 = cs1" using False u'(2) by (simp add: cs3_def cs2_def)
    ultimately show ?thesis using set d1 same(1) by metis
  qed
qed


lemma fst_wi_pair [simp]: "fst (wi_pair c) = pub_id c"
  by (simp add: wi_pair_def)

lemma wi_pair_filter: "{x \<in> wi_pair ` B. fst x \<noteq> p} = wi_pair ` {c \<in> B. pub_id c \<noteq> p}"
  by force

lemma contenders_without:
  "{x \<in> contenders i. fst x \<noteq> p}
    = wi_pair ` {c \<in> insert (om_owner i) (set (candidates i)). pub_id c \<noteq> GUID_UNKNOWN \<and> pub_id c \<noteq> p}"
  unfolding contenders_def wi_pair_filter by (rule arg_cong [where f = "image wi_pair"]) blast

lemma contenders_without_owner:
  assumes "pub_id (om_owner i) = p" "p \<notin> pub_id ` set (candidates i)" "GUID_UNKNOWN \<notin> pub_id ` set (candidates i)"
  shows "{x \<in> contenders i. fst x \<noteq> p} = wi_pair ` set (candidates i)"
proof -
  have "{c \<in> insert (om_owner i) (set (candidates i)). pub_id c \<noteq> GUID_UNKNOWN \<and> pub_id c \<noteq> p} = set (candidates i)"
    using assms by (auto simp: rev_image_eqI)
  then show ?thesis by (simp only: contenders_without)
qed

lemma contend_image:
  assumes "pub_id ow \<noteq> p"
  shows "wi_pair ` insert ow (insert \<lparr>pub_id = p, ownership_strength = s\<rparr> {c \<in> A. pub_id c \<noteq> p})
    = contend p s (wi_pair ` insert ow A)"
proof -
  have g: "{c \<in> insert ow A. pub_id c \<noteq> p} = insert ow {c \<in> A. pub_id c \<noteq> p}" using assms by auto
  have "contend p s (wi_pair ` insert ow A) = insert (p, s) (wi_pair ` insert ow {c \<in> A. pub_id c \<noteq> p})"
    by (simp only: contend_def wi_pair_filter g)
  then show ?thesis by (simp add: wi_pair_def [of "\<lparr>pub_id = p, ownership_strength = s\<rparr>"] insert_commute)
qed

lemma contenders_known:
  "pub_id (om_owner i) \<noteq> GUID_UNKNOWN \<Longrightarrow> GUID_UNKNOWN \<notin> pub_id ` set (candidates i)
   \<Longrightarrow> contenders i = wi_pair ` insert (om_owner i) (set (candidates i))"
  unfolding contenders_def by (rule arg_cong [where f = "image wi_pair"]) force

lemma reevaluate_owner_correct:
  assumes inv: "infos_inv i" and p: "p \<noteq> GUID_UNKNOWN" "pub_id (om_owner i) \<notin> {GUID_UNKNOWN, p}"
    and r: "reevaluate_owner std_sort p s i store = (i', store')"
  shows "selected p s i i'" "told i store i' store'"
proof -
  let ?o = "om_owner i" and ?new = "\<lparr>pub_id = p, ownership_strength = s\<rparr>"
  define rep where "rep = (ownership_strength ?o < s)"
  define cs where "cs = (if rep then candidates i @ [?o] else candidates i)"
  obtain cs1 found srt where u: "update_candidate p s cs = (cs1, found, srt)" by (metis prod_cases3)
  define cs2 where "cs2 = (if \<not> found then cs1 @ [?new] else cs1)"
  define cs3 where "cs3 = (if srt then std_sort cs2 else cs2)"
  have i: "sorted_wrt stronger (candidates i)" "\<And>c. c \<in> set (candidates i) \<Longrightarrow> stronger ?o c"
      "distinct (map pub_id (candidates i))" "pub_id ?o \<notin> pub_id ` set (candidates i)"
      "GUID_UNKNOWN \<notin> pub_id ` set (candidates i)"
    using inv by (auto simp: infos_inv_def)
  have d: "distinct (map pub_id cs)" "GUID_UNKNOWN \<notin> pub_id ` set cs" using i p by (auto simp: cs_def)
  have "sorted_wrt stronger cs \<or> ownership_strength ?o < s \<and> cs = candidates i @ [?o] \<and> (\<forall>c \<in> set cs. stronger ?o c)"
    using i by (auto simp: cs_def rep_def)
  moreover have "pub_id ?o \<noteq> p" using p(2) by simp
  ultimately have c3: "sorted_wrt stronger cs3" "distinct (map pub_id cs3)"
      "set cs3 = insert ?new {c \<in> set cs. pub_id c \<noteq> p}"
    using candidates_after [OF _ d(1) p(1) d(2) _ u] unfolding cs3_def cs2_def by blast+
  have unk: "GUID_UNKNOWN \<notin> pub_id ` set cs3" using d(2) p(1) c3(3) by auto
  have con: "contenders i = wi_pair ` insert ?o (set (candidates i))" by (rule contenders_known) (use i p in auto)
  have r': "(if rep then remove_owner_infos std_sort (i\<lparr>candidates := cs3\<rparr>) False store
      else (i\<lparr>candidates := cs3\<rparr>, store)) = (i', store')"
    using r unfolding reevaluate_owner_def Let_def rep_def [symmetric] cs_def [symmetric] u prod.case
      cs2_def [symmetric] cs3_def [symmetric] .
  have "selected p s i i' \<and> told i store i' store'"
  proof (cases rep)
    case True
    note ro = remove_owner_infos_correct [of "i\<lparr>candidates := cs3\<rparr>" False store i' store', simplified, OF c3(1,2) unk]
    have ri: "remove_owner_infos std_sort (i\<lparr>candidates := cs3\<rparr>) False store = (i', store')" using r' True by simp
    have ne: "cs3 \<noteq> []" using c3(3) by auto
    have top: "om_owner i' \<in> set cs3" "stronger (om_owner i') ?new" using ro(5) [OF ri ne] c3(3) by auto
    have "om_owner i' = ?new"
    proof (rule ccontr)
      assume "om_owner i' \<noteq> ?new"
      then have "om_owner i' \<in> set cs" using top(1) c3(3) by auto
      then have "stronger ?o (om_owner i')" using i(2) by (auto simp: cs_def split: if_splits)
      then show False using top(2) True by (simp add: rep_def)
    qed
    moreover have "contenders i' = contend p s (contenders i)"
    proof -
      have "set cs3 = insert ?o (insert ?new {c \<in> set (candidates i). pub_id c \<noteq> p})"
        using c3(3) True p(2) by (auto simp: cs_def)
      then show ?thesis using ro(2) [OF ri] contend_image [of ?o p s] p(2) con by simp
    qed
    moreover have "told i store i' store'"
      using ro(3,4) [OF ri] by (simp add: told_def broadcast_new_owner_def)
    ultimately show ?thesis using ro(1) [OF ri] p True by (simp add: selected_def rep_def)
  next
    case False
    then have i': "i' = i\<lparr>candidates := cs3\<rparr>" "store' = store" using r' by simp_all
    have "set cs3 = insert ?new {c \<in> set (candidates i). pub_id c \<noteq> p}" using c3(3) False by (simp add: cs_def)
    moreover have "contenders i' = wi_pair ` insert ?o (set cs3)"
      using contenders_known [of i'] unk p(2) by (simp add: i')
    ultimately have "contenders i' = contend p s (contenders i)"
      using contend_image [of ?o p s] p(2) con by simp
    moreover have "infos_inv i'"
      using c3 unk p False i(2,4) by (auto simp: infos_inv_def i' cs_def rep_def)
    ultimately show ?thesis using p False by (simp add: selected_def told_def i' rep_def)
  qed
  then show "selected p s i i'" "told i store i' store'" by simp_all
qed


lemma select_infos_correct:
  assumes inv: "infos_inv i" and p: "p \<noteq> GUID_UNKNOWN"
    and r: "select_infos std_sort p s i store = (b, i', store')"
  shows "selected p s i i'" "told i store i' store'" "b \<longleftrightarrow> pub_id (om_owner i') = p"
proof -
  let ?o = "om_owner i" and ?new = "\<lparr>pub_id = p, ownership_strength = s\<rparr>"
  have i: "\<And>c. c \<in> set (candidates i) \<Longrightarrow> stronger ?o c" "distinct (map pub_id (candidates i))"
      "pub_id ?o \<notin> pub_id ` set (candidates i)" "GUID_UNKNOWN \<notin> pub_id ` set (candidates i)"
    using inv by (auto simp: infos_inv_def)
  have own: "wi_pair ` insert ?new (set (candidates i)) = contend p s (contenders i)" if "pub_id ?o = p"
  proof -
    have "{x \<in> contenders i. fst x \<noteq> p} = wi_pair ` set (candidates i)"
      using i(3,4) that by (intro contenders_without_owner) simp_all
    then show ?thesis by (simp add: contend_def wi_pair_def)
  qed
  consider "pub_id ?o = GUID_UNKNOWN" | "pub_id ?o = p" "ownership_strength ?o \<le> s"
    | "pub_id ?o = p" "\<not> ownership_strength ?o \<le> s" | "pub_id ?o \<notin> {GUID_UNKNOWN, p}" by blast
  then have "selected p s i i' \<and> told i store i' store' \<and> (b \<longleftrightarrow> pub_id (om_owner i') = p)"
  proof cases
    case 1
    then have c: "candidates i = []" using inv by (simp add: infos_inv_def)
    have "i' = i\<lparr>om_owner := ?new\<rparr>" "b" "store' = broadcast_new_owner i p store"
      using r 1 by (auto simp: select_infos_def Let_def broadcast_new_owner_def)
    then show ?thesis
      using p 1 c by (auto simp: selected_def told_def infos_inv_def contenders_def contend_def wi_pair_def)
  next
    case 2
    then have i': "i' = i\<lparr>om_owner := ?new\<rparr>" "b" "store' = store"
      using r p by (auto simp: select_infos_def intro!: OwnershipWriterInfos.equality OM_WriterInfo.equality)
    have "contenders i' = wi_pair ` insert ?new (set (candidates i))"
      using contenders_known [of i'] p i(4) by (simp add: i')
    moreover have "infos_inv i'" using inv 2 p by (fastforce simp: infos_inv_def i')
    ultimately show ?thesis using own 2 p i' by (simp add: selected_def told_def)
  next
    case 3
    then have ri: "remove_owner_infos std_sort (i\<lparr>candidates := candidates i @ [?new]\<rparr>) True store = (i', store')"
        "b \<longleftrightarrow> pub_id (om_owner i') = p"
      using r p by (auto simp: select_infos_def split: prod.splits)
    note ro = remove_owner_infos_correct [OF _ _ _ ri(1)]
    have pre: "sorted_wrt stronger (candidates (i\<lparr>candidates := candidates i @ [?new]\<rparr>)) \<or> True"
        "distinct (map pub_id (candidates (i\<lparr>candidates := candidates i @ [?new]\<rparr>)))"
        "GUID_UNKNOWN \<notin> pub_id ` set (candidates (i\<lparr>candidates := candidates i @ [?new]\<rparr>))"
      using i 3 p by auto
    have "contenders i' = contend p s (contenders i)" using ro(2) [OF pre] own 3 by simp
    moreover have "pub_id (om_owner i') \<noteq> GUID_UNKNOWN" using ro(5) [OF pre] pre(3) by (auto simp: rev_image_eqI)
    moreover have "told i store i' store'"
      using ro(3,4) [OF pre] by (simp add: told_def broadcast_new_owner_def)
    ultimately show ?thesis using ro(1) [OF pre] ri(2) 3 by (simp add: selected_def)
  next
    case 4
    then have "reevaluate_owner std_sort p s i store = (i', store')" "b \<longleftrightarrow> pub_id (om_owner i') = p"
      using r by (auto simp: select_infos_def split: prod.splits)
    then show ?thesis using reevaluate_owner_correct [OF inv p 4] by blast
  qed
  then show "selected p s i i'" "told i store i' store'" "b \<longleftrightarrow> pub_id (om_owner i') = p" by blast+
qed

lemma remove_writer_infos_correct:
  assumes inv: "infos_inv i" and p: "p \<noteq> GUID_UNKNOWN"
    and r: "remove_writer_infos std_sort i p store = (b, i', store')"
  shows "infos_inv i'" "contenders i' = {x \<in> contenders i. fst x \<noteq> p}" "told i store i' store'"
    "b \<longleftrightarrow> pub_id (om_owner i) = p"
proof -
  let ?o = "om_owner i"
  have i: "sorted_wrt stronger (candidates i)" "distinct (map pub_id (candidates i))"
      "pub_id ?o \<notin> pub_id ` set (candidates i)" "GUID_UNKNOWN \<notin> pub_id ` set (candidates i)"
    using inv by (auto simp: infos_inv_def)
  have "infos_inv i' \<and> contenders i' = {x \<in> contenders i. fst x \<noteq> p} \<and> told i store i' store'
    \<and> (b \<longleftrightarrow> pub_id ?o = p)"
  proof (cases "pub_id ?o = p")
    case True
    then have ri: "remove_owner_infos std_sort i False store = (i', store')" "b"
      using r by (simp_all add: remove_writer_infos_def)
    note ro = remove_owner_infos_correct [OF _ i(2,4) ri(1)]
    have "{x \<in> contenders i. fst x \<noteq> p} = wi_pair ` set (candidates i)"
      using i(3,4) True by (intro contenders_without_owner) simp_all
    then show ?thesis using ro i(1) True ri(2) by (simp add: told_def)
  next
    case False
    then have i': "i' = i\<lparr>candidates := filter (\<lambda>c. pub_id c \<noteq> p) (candidates i)\<rparr>" "store' = store" "\<not> b"
      using r i(2) by (auto simp: remove_writer_infos_def remove_candidate_def erase_candidate_filter)
    have "infos_inv i'"
      using inv by (auto simp: infos_inv_def i' sorted_wrt_filter distinct_map_filter)
    moreover have "contenders i' = {x \<in> contenders i. fst x \<noteq> p}"
      unfolding contenders_without using False
      by (auto simp: contenders_def i' intro: arg_cong [where f = "image wi_pair"])
    ultimately show ?thesis using i' False by (simp add: told_def)
  qed
  then show "infos_inv i'" "contenders i' = {x \<in> contenders i. fst x \<noteq> p}" "told i store i' store'"
    "b \<longleftrightarrow> pub_id (om_owner i) = p" by blast+
qed

end

section \<open>The whole manager\<close>

text \<open>
  The infos of an instance and the store fit together: the listed instances are registered, belong to
  the handle and see no owner or the current one. Instances that are not registered see no owner.
\<close>

definition infos_ok :: "int \<Rightarrow> OwnershipWriterInfos \<Rightarrow> is_store \<Rightarrow> bool" where
  "infos_ok h i store \<longleftrightarrow>
     infos_inv i \<and> seen_ok i store \<and> distinct (instance_states i)
     \<and> (\<forall>a \<in> set (instance_states i). is_handle (store a) = h \<and> is_registered (store a))"

definition store_clean :: "is_store \<Rightarrow> bool" where
  "store_clean store \<longleftrightarrow> (\<forall>a. \<not> is_registered (store a) \<longrightarrow> is_owner_id (store a) = GUID_UNKNOWN)"

definition om_inv :: "om_world \<Rightarrow> bool" where
  "om_inv w \<longleftrightarrow>
     distinct (map fst (instance_ownership_infos w)) \<and> store_clean (om_store w)
     \<and> (\<forall>(h, i) \<in> set (instance_ownership_infos w). infos_ok h i (om_store w))"

text \<open>What the manager promises of the owner of an instance: the strongest of the contenders.\<close>

definition owner_of :: "om_world \<Rightarrow> int \<Rightarrow> (GUID_t \<times> int) option" where
  "owner_of w h =
     (case map_of (instance_ownership_infos w) h of
        None \<Rightarrow> None
      | Some i \<Rightarrow> if pub_id (om_owner i) = GUID_UNKNOWN then None else Some (wi_pair (om_owner i)))"

fun strongest :: "(GUID_t \<times> int) option \<Rightarrow> (GUID_t \<times> int) set \<Rightarrow> bool" where
  "strongest None cs \<longleftrightarrow> cs = {}"
| "strongest (Some x) cs \<longleftrightarrow> x \<in> cs \<and> (\<forall>y \<in> cs. snd y \<le> snd x)"

definition contenders_of :: "om_world \<Rightarrow> int \<Rightarrow> (GUID_t \<times> int) set" where
  "contenders_of w h = (case map_of (instance_ownership_infos w) h of None \<Rightarrow> {} | Some i \<Rightarrow> contenders i)"

text \<open>A change of the store that leaves the instances of other handles alone.\<close>

definition store_frame :: "int set \<Rightarrow> is_store \<Rightarrow> is_store \<Rightarrow> bool" where
  "store_frame hs store store' \<longleftrightarrow>
     (\<forall>a. is_handle (store' a) = is_handle (store a) \<and> (is_handle (store a) \<notin> hs \<longrightarrow> store' a = store a))"

lemma store_frame_refl: "store_frame hs store store"
  by (simp add: store_frame_def)

lemma store_frame_trans:
  "store_frame hs s1 s2 \<Longrightarrow> store_frame hs' s2 s3 \<Longrightarrow> store_frame (hs \<union> hs') s1 s3"
  by (auto simp: store_frame_def)

lemma infos_ok_frame: "infos_ok h i store \<Longrightarrow> store_frame hs store store' \<Longrightarrow> h \<notin> hs \<Longrightarrow> infos_ok h i store'"
  by (auto simp: infos_ok_def seen_ok_def store_frame_def)

lemma told_ok:
  assumes "infos_ok h i store" "infos_inv i'" "told i store i' store'" "store_clean store"
  shows "infos_ok h i' store'" "store_clean store'" "store_frame {h} store store'"
  using assms
  by (auto simp: infos_ok_def told_def seen_ok_def broadcast_new_owner_apply set_owner_def store_clean_def
      store_frame_def)

lemma register_instance_ok:
  assumes "infos_ok h i store" "store_clean store" "is_handle (store inst) = h"
    "register_instance inst i store = (i1, store1)"
  shows "infos_ok h i1 store1" "store_clean store1" "store_frame {h} store store1"
    "om_owner i1 = om_owner i" "candidates i1 = candidates i"
proof -
  have e: "store1 = store(inst := (store inst)\<lparr>is_registered := True\<rparr>)"
      "i1 = (if is_registered (store inst) then i else i\<lparr>instance_states := instance_states i @ [inst]\<rparr>)"
    using assms(4) by (auto simp: register_instance_def get_registered_def set_registered_def split: if_splits)
  show "om_owner i1 = om_owner i" "candidates i1 = candidates i" by (simp_all add: e)
  show "store_clean store1" using assms(2) by (simp add: store_clean_def e)
  show "store_frame {h} store store1" using assms(3) by (simp add: store_frame_def e)
  show "infos_ok h i1 store1"
    using assms(1-3) by (auto simp: infos_ok_def seen_ok_def infos_inv_def store_clean_def e)
qed

lemma om_inv_lookup:
  "om_inv w \<Longrightarrow> map_of (instance_ownership_infos w) h = Some i \<Longrightarrow> infos_ok h i (om_store w)"
  by (auto simp: om_inv_def dest: map_of_SomeD)

lemma om_inv_clean: "om_inv w \<Longrightarrow> store_clean (om_store w)"
  by (simp add: om_inv_def)

lemma infos_inv_strongest:
  assumes "infos_inv i"
  shows "strongest (if pub_id (om_owner i) = GUID_UNKNOWN then None else Some (wi_pair (om_owner i))) (contenders i)"
  using assms by (auto simp: infos_inv_def contenders_def wi_pair_def)

lemma owner_of_strongest: "om_inv w \<Longrightarrow> strongest (owner_of w h) (contenders_of w h)"
  using om_inv_lookup [of w h] infos_inv_strongest
  by (auto simp: owner_of_def contenders_of_def infos_ok_def split: option.splits)

lemma is_owner_owner_of: "p \<noteq> GUID_UNKNOWN \<Longrightarrow> is_owner h p w \<longleftrightarrow> (\<exists>s. owner_of w h = Some (p, s))"
  by (auto simp: is_owner_def owner_of_def wi_pair_def split: option.splits)

lemma om_inv_update:
  assumes "om_inv w" "infos_ok h i' store'" "store_clean store'" "store_frame {h} (om_store w) store'"
  shows "om_inv (w\<lparr>instance_ownership_infos := AList.update h i' (instance_ownership_infos w), om_store := store'\<rparr>)"
proof -
  let ?es = "instance_ownership_infos w"
  have d: "distinct (map fst ?es)" using assms(1) by (simp add: om_inv_def)
  have "infos_ok k j store'" if "(k, j) \<in> set (AList.update h i' ?es)" for k j
  proof (cases "k = h")
    case True
    then have "map_of (AList.update h i' ?es) k = Some j" using that d by (simp add: distinct_update)
    then show ?thesis using True assms(2) by (simp add: update_conv)
  next
    case False
    then have "map_of ?es k = Some j"
      using that d map_of_eq_Some_iff [of "AList.update h i' ?es" k j] by (simp add: distinct_update update_conv)
    then show ?thesis using om_inv_lookup [OF assms(1)] infos_ok_frame [OF _ assms(4)] False by blast
  qed
  then show ?thesis using d assms(3) by (auto simp: om_inv_def distinct_update)
qed

lemma contenders_of_update:
  "contenders_of (w\<lparr>instance_ownership_infos := AList.update h i' (instance_ownership_infos w), om_store := st\<rparr>) k
    = (if k = h then contenders i' else contenders_of w k)"
  by (simp add: contenders_of_def update_conv)

context descending_sort
begin

lemma select_owner_correct:
  assumes inv: "om_inv w" and p: "p \<noteq> GUID_UNKNOWN" and h: "is_handle (om_store w inst) = h"
    and r: "select_owner std_sort h p s inst w = (b, w')"
  shows "om_inv w'" "b \<longleftrightarrow> is_owner h p w'"
    "contenders_of w' k = (if k = h then contend p s (contenders_of w h) else contenders_of w k)"
    "owner_of w h = Some (q, t) \<Longrightarrow> q \<noteq> p \<Longrightarrow> owner_of w' h = Some (if t < s then (p, s) else (q, t))"
proof -
  let ?es = "instance_ownership_infos w" and ?new = "\<lparr>pub_id = p, ownership_strength = s\<rparr>"
  note clean = om_inv_clean [OF inv]
  have "om_inv w' \<and> (b \<longleftrightarrow> is_owner h p w')
    \<and> contenders_of w' k = (if k = h then contend p s (contenders_of w h) else contenders_of w k)
    \<and> (owner_of w h = Some (q, t) \<longrightarrow> q \<noteq> p \<longrightarrow> owner_of w' h = Some (if t < s then (p, s) else (q, t)))"
  proof (cases "map_of ?es h")
    case None
    define i0 where "i0 = \<lparr>om_owner = ?new, candidates = [], instance_states = []\<rparr>"
    obtain i1 st1 where reg: "register_instance inst i0 (om_store w) = (i1, st1)" by (metis surj_pair)
    have ok0: "infos_ok h i0 (om_store w)" by (simp add: i0_def infos_ok_def infos_inv_def seen_ok_def)
    note reg' = register_instance_ok [OF ok0 clean h reg]
    have inv1: "infos_inv i1" using reg'(1) by (simp add: infos_ok_def)
    have p1: "pub_id (om_owner i1) = p" using reg'(4) by (simp add: i0_def)
    have t: "told i1 st1 i1 (broadcast_new_owner i1 p st1)" by (simp add: told_def p1)
    note ok = told_ok [OF reg'(1) inv1 t reg'(2)]
    have w': "w' = w\<lparr>instance_ownership_infos := AList.update h i1 ?es, om_store := broadcast_new_owner i1 p st1\<rparr>" "b"
      using r None reg by (simp_all add: select_owner_def i0_def)
    have "om_inv w'"
      unfolding w' using store_frame_trans [OF reg'(3) ok(3)] by (intro om_inv_update [OF inv ok(1,2)]) simp
    moreover have "is_owner h p w'" by (simp add: w' is_owner_def update_conv p1)
    moreover have "contenders i1 = contend p s {}"
      using reg'(4,5) p by (simp add: contenders_def i0_def contend_def wi_pair_def conj_commute cong: conj_cong)
    moreover have "owner_of w h = None" using None by (simp add: owner_of_def)
    ultimately show ?thesis using w' None by (simp add: contenders_of_update) (simp add: contenders_of_def)
  next
    case (Some i)
    obtain i1 st1 where reg: "register_instance inst i (om_store w) = (i1, st1)" by (metis surj_pair)
    note reg' = register_instance_ok [OF om_inv_lookup [OF inv Some] clean h reg]
    obtain c i2 st2 where sel: "select_infos std_sort p s i1 st1 = (c, i2, st2)" by (metis prod_cases3)
    have inv1: "infos_inv i1" using reg'(1) by (simp add: infos_ok_def)
    note sel' = select_infos_correct [OF inv1 p sel]
    have inv2: "infos_inv i2" using sel'(1) by (simp add: selected_def)
    note ok = told_ok [OF reg'(1) inv2 sel'(2) reg'(2)]
    have w': "w' = w\<lparr>instance_ownership_infos := AList.update h i2 ?es, om_store := st2\<rparr>" "b = c"
      using r Some reg sel by (simp_all add: select_owner_def)
    have "om_inv w'"
      unfolding w' using store_frame_trans [OF reg'(3) ok(3)] by (intro om_inv_update [OF inv ok(1,2)]) simp
    moreover have "is_owner h p w' \<longleftrightarrow> pub_id (om_owner i2) = p" by (simp add: w' is_owner_def update_conv)
    moreover have "contenders i2 = contend p s (contenders i)"
      using sel'(1) reg'(4,5) by (simp add: selected_def contenders_def)
    moreover have "owner_of w' h = Some (if t < s then (p, s) else (q, t))"
      if "owner_of w h = Some (q, t)" "q \<noteq> p"
      using that sel'(1) reg'(4) Some p
      by (auto simp: owner_of_def selected_def w' update_conv wi_pair_def split: if_splits)
    ultimately show ?thesis
      using w' sel'(3) Some by (simp add: contenders_of_update) (simp add: contenders_of_def)
  qed
  then show "om_inv w'" "b \<longleftrightarrow> is_owner h p w'"
    "contenders_of w' k = (if k = h then contend p s (contenders_of w h) else contenders_of w k)"
    "owner_of w h = Some (q, t) \<Longrightarrow> q \<noteq> p \<Longrightarrow> owner_of w' h = Some (if t < s then (p, s) else (q, t))" by blast+
qed

lemma remove_writer_correct:
  assumes inv: "om_inv w" and p: "p \<noteq> GUID_UNKNOWN" and r: "remove_writer std_sort h p w = (b, w')"
  shows "om_inv w'" "b \<longleftrightarrow> is_owner h p w"
    "contenders_of w' k = (if k = h then {x \<in> contenders_of w h. fst x \<noteq> p} else contenders_of w k)"
proof -
  let ?es = "instance_ownership_infos w"
  have "om_inv w' \<and> (b \<longleftrightarrow> is_owner h p w)
    \<and> contenders_of w' k = (if k = h then {x \<in> contenders_of w h. fst x \<noteq> p} else contenders_of w k)"
  proof (cases "map_of ?es h")
    case None
    then show ?thesis using r inv by (auto simp: remove_writer_def is_owner_def contenders_of_def)
  next
    case (Some i)
    obtain c i2 st2 where rem: "remove_writer_infos std_sort i p (om_store w) = (c, i2, st2)"
      by (metis prod_cases3)
    have inv1: "infos_inv i" using om_inv_lookup [OF inv Some] by (simp add: infos_ok_def)
    note rem' = remove_writer_infos_correct [OF inv1 p rem]
    note ok = told_ok [OF om_inv_lookup [OF inv Some] rem'(1,3) om_inv_clean [OF inv]]
    have w': "w' = w\<lparr>instance_ownership_infos := AList.update h i2 ?es, om_store := st2\<rparr>" "b = c"
      using r Some rem by (simp_all add: remove_writer_def)
    have "om_inv w'" unfolding w' by (rule om_inv_update [OF inv ok])
    then show ?thesis
      using w' rem'(2,4) Some by (simp add: contenders_of_update) (simp add: contenders_of_def is_owner_def)
  qed
  then show "om_inv w'" "b \<longleftrightarrow> is_owner h p w"
    "contenders_of w' k = (if k = h then {x \<in> contenders_of w h. fst x \<noteq> p} else contenders_of w k)" by blast+
qed

lemma remove_writer_each_correct:
  assumes "remove_writer_each std_sort p es store = (es', store')" "p \<noteq> GUID_UNKNOWN"
    "distinct (map fst es)" "store_clean store" "\<And>h i. (h, i) \<in> set es \<Longrightarrow> infos_ok h i store"
  shows "map fst es' = map fst es \<and> store_clean store' \<and> store_frame (fst ` set es) store store'
    \<and> (\<forall>(h, i') \<in> set es'. infos_ok h i' store' \<and> (\<forall>x \<in> contenders i'. fst x \<noteq> p))"
  using assms
proof (induction es arbitrary: store es' store')
  case Nil
  then show ?case by (simp add: store_frame_refl)
next
  case (Cons e es)
  obtain h i where e: "e = (h, i)" by (cases e)
  obtain c i1 st1 where rem: "remove_writer_infos std_sort i p store = (c, i1, st1)" by (metis prod_cases3)
  obtain es2 st2 where rest: "remove_writer_each std_sort p es st1 = (es2, st2)" by (metis surj_pair)
  have res: "es' = (h, i1) # es2" "store' = st2" using Cons.prems(1) by (simp_all add: e rem rest)
  have oki: "infos_ok h i store" using Cons.prems(5) e by simp
  then have inv1: "infos_inv i" by (simp add: infos_ok_def)
  note rem' = remove_writer_infos_correct [OF inv1 Cons.prems(2) rem]
  note ok = told_ok [OF oki rem'(1,3) Cons.prems(4)]
  have hn: "h \<notin> fst ` set es" using Cons.prems(3) e by simp
  have "infos_ok k j st1" if "(k, j) \<in> set es" for k j
  proof -
    have "k \<in> fst ` set es" using that by (metis fst_conv image_eqI)
    then have "k \<notin> {h}" using hn by auto
    then show ?thesis using Cons.prems(5) [of k j] that infos_ok_frame [OF _ ok(3)] by simp
  qed
  then have IH: "map fst es2 = map fst es" "store_clean st2" "store_frame (fst ` set es) st1 st2"
      "\<forall>(h, i') \<in> set es2. infos_ok h i' st2 \<and> (\<forall>x \<in> contenders i'. fst x \<noteq> p)"
    using Cons.IH [OF rest Cons.prems(2) _ ok(2)] Cons.prems(3) by auto
  have "infos_ok h i1 st2" using infos_ok_frame [OF ok(1) IH(3) hn] .
  moreover have "store_frame (fst ` set (e # es)) store st2" using store_frame_trans [OF ok(3) IH(3)] by (simp add: e)
  ultimately show ?case using IH rem'(2) res e by auto
qed

lemma remove_writer_all_correct:
  assumes inv: "om_inv w" and p: "p \<noteq> GUID_UNKNOWN"
  shows "om_inv (remove_writer_all std_sort p w)" "\<forall>x \<in> contenders_of (remove_writer_all std_sort p w) h. fst x \<noteq> p"
proof -
  obtain es' st' where r: "remove_writer_each std_sort p (instance_ownership_infos w) (om_store w) = (es', st')"
    by (metis surj_pair)
  have w': "remove_writer_all std_sort p w = w\<lparr>instance_ownership_infos := es', om_store := st'\<rparr>"
    by (simp add: remove_writer_all_def r)
  have "distinct (map fst (instance_ownership_infos w))" "store_clean (om_store w)"
      "\<And>h i. (h, i) \<in> set (instance_ownership_infos w) \<Longrightarrow> infos_ok h i (om_store w)"
    using inv by (auto simp: om_inv_def)
  from remove_writer_each_correct [OF r p this]
  have c: "map fst es' = map fst (instance_ownership_infos w)" "store_clean st'"
      "\<And>h i'. (h, i') \<in> set es' \<Longrightarrow> infos_ok h i' st' \<and> (\<forall>x \<in> contenders i'. fst x \<noteq> p)" by auto
  show "om_inv (remove_writer_all std_sort p w)" using c inv by (auto simp: w' om_inv_def)
  show "\<forall>x \<in> contenders_of (remove_writer_all std_sort p w) h. fst x \<noteq> p"
    using c(3) by (auto simp: w' contenders_of_def split: option.splits dest: map_of_SomeD)
qed

lemma remove_owner_correct:
  assumes inv: "om_inv w" and r: "remove_owner std_sort h w = Some w'"
  shows "om_inv w'"
proof -
  from r obtain i i2 st2 where i: "map_of (instance_ownership_infos w) h = Some i"
      and rem: "remove_owner_infos std_sort i False (om_store w) = (i2, st2)"
      and w': "w' = w\<lparr>instance_ownership_infos := AList.update h i2 (instance_ownership_infos w), om_store := st2\<rparr>"
    by (auto simp: remove_owner_def split: option.splits prod.splits)
  have "infos_inv i" using om_inv_lookup [OF inv i] by (simp add: infos_ok_def)
  then have pre: "sorted_wrt stronger (candidates i) \<or> False" "distinct (map pub_id (candidates i))"
      "GUID_UNKNOWN \<notin> pub_id ` set (candidates i)" by (simp_all add: infos_inv_def)
  note ro = remove_owner_infos_correct [OF pre rem]
  have t: "told i (om_store w) i2 st2" using ro(3,4) by (simp add: told_def)
  show ?thesis unfolding w'
    by (rule om_inv_update [OF inv told_ok [OF om_inv_lookup [OF inv i] ro(1) t om_inv_clean [OF inv]]])
qed

end

lemma reset_each_store:
  "om_store (reset_each h is w) a =
     (if a \<in> set is then (om_store w a)\<lparr>is_owner_id := GUID_UNKNOWN, is_registered := False\<rparr> else om_store w a)"
  by (induction "is" arbitrary: w) (simp_all add: reset_ownership_def)

lemma reset_each_infos: "instance_ownership_infos (reset_each h is w) = instance_ownership_infos w"
  by (induction "is" arbitrary: w) (simp_all add: reset_ownership_def)

lemma remove_writers_correct:
  assumes inv: "om_inv w"
  shows "om_inv (remove_writers h w)"
    "contenders_of (remove_writers h w) k = (if k = h then {} else contenders_of w k)"
proof -
  have "om_inv (remove_writers h w)
    \<and> contenders_of (remove_writers h w) k = (if k = h then {} else contenders_of w k)"
  proof (cases "map_of (instance_ownership_infos w) h")
    case None
    then show ?thesis using inv by (auto simp: remove_writers_def contenders_of_def)
  next
    case (Some i)
    let ?w = "reset_each h (instance_states i) w"
    have f: "store_frame {h} (om_store w) (om_store ?w)"
      using om_inv_lookup [OF inv Some] by (auto simp: store_frame_def reset_each_store infos_ok_def)
    have "infos_ok l j (om_store ?w)" if "(l, j) \<in> set (AList.delete h (instance_ownership_infos w))" for l j
      using that inv infos_ok_frame [OF _ f] by (auto simp: om_inv_def AList.delete_eq)
    moreover have "store_clean (om_store ?w)"
      using om_inv_clean [OF inv] by (auto simp: store_clean_def reset_each_store)
    ultimately show ?thesis
      using inv Some
      by (auto simp: remove_writers_def om_inv_def distinct_delete contenders_of_def delete_conv')
  qed
  then show "om_inv (remove_writers h w)"
    "contenders_of (remove_writers h w) k = (if k = h then {} else contenders_of w k)" by blast+
qed

lemma remove_instance_correct:
  assumes inv: "om_inv w"
  shows "om_inv (remove_instance a w)" "contenders_of (remove_instance a w) k = contenders_of w k"
proof -
  let ?h = "is_handle (om_store w a)"
  have "om_inv (remove_instance a w) \<and> contenders_of (remove_instance a w) k = contenders_of w k"
  proof (cases "map_of (instance_ownership_infos w) ?h")
    case None
    then show ?thesis using inv by (simp add: remove_instance_def Let_def)
  next
    case (Some i)
    let ?i = "i\<lparr>instance_states := remove1 a (instance_states i)\<rparr>"
    have w': "remove_instance a w = w\<lparr>instance_ownership_infos :=
        AList.update ?h ?i (instance_ownership_infos w), om_store := om_store w\<rparr>"
      using Some by (simp add: remove_instance_def Let_def)
    have "infos_ok ?h ?i (om_store w)"
      using om_inv_lookup [OF inv Some] notin_set_remove1 [of _ "instance_states i" a]
      by (auto simp: infos_ok_def infos_inv_def seen_ok_def)
    then have "om_inv (remove_instance a w)"
      unfolding w' by (intro om_inv_update [OF inv _ om_inv_clean [OF inv] store_frame_refl])
    moreover have "contenders_of (remove_instance a w) k = contenders_of w k"
      unfolding w' contenders_of_update using Some by (simp add: contenders_of_def contenders_def)
    ultimately show ?thesis by simp
  qed
  then show "om_inv (remove_instance a w)" "contenders_of (remove_instance a w) k = contenders_of w k" by blast+
qed

section \<open>Properties\<close>

text \<open>
  (C4) \<open>select_owner\<close> enters the writer with its strength among the contenders for the instance, in place
  of an older strength, and leaves those of other instances alone; the owner is then a contender of maximal
  strength, the result tells whether the writer is the owner, and the books stay consistent: candidates
  sorted, every writer listed once, every registered instance seeing no owner or the current one.
\<close>

theorem select_owner_elects_strongest:
  assumes "descending_sort std_sort" and "om_inv w" and "p \<noteq> GUID_UNKNOWN"
    and "is_handle (om_store w inst) = h" and "select_owner std_sort h p s inst w = (b, w')"
  shows "om_inv w' \<and> strongest (owner_of w' h) (contenders_of w' h) \<and> (b \<longleftrightarrow> is_owner h p w')
    \<and> contenders_of w' = (contenders_of w)(h := contend p s (contenders_of w h))"
  using descending_sort.select_owner_correct [OF assms] owner_of_strongest by fastforce

text \<open>
  Ownership is stable: when another writer owns the instance, \<open>select_owner\<close> makes the new writer the
  owner exactly when it is strictly stronger, and otherwise the owner keeps the instance, ties included.
\<close>

theorem select_owner_stable:
  assumes "descending_sort std_sort" and "om_inv w" and "p \<noteq> GUID_UNKNOWN"
    and "is_handle (om_store w inst) = h" and "select_owner std_sort h p s inst w = (b, w')"
    and "owner_of w h = Some (q, t)" and "q \<noteq> p"
  shows "owner_of w' h = Some (if t < s then (p, s) else (q, t)) \<and> (b \<longleftrightarrow> t < s)"
proof -
  note c = descending_sort.select_owner_correct [OF assms(1-5)]
  have "owner_of w' h = Some (if t < s then (p, s) else (q, t))" by (rule c(4) [OF assms(6,7)])
  then show ?thesis using c(2) is_owner_owner_of [OF assms(3)] assms(7) by auto
qed

text \<open>
  (C31) When a writer unregisters an instance, \<open>remove_writer\<close> takes it from the contenders of that
  instance, reports whether it was the owner, and hands the instance to the strongest of the remaining
  contenders, or to nobody when there is none.
\<close>

theorem remove_writer_hands_over:
  assumes "descending_sort std_sort" and "om_inv w" and "p \<noteq> GUID_UNKNOWN"
    and "remove_writer std_sort h p w = (b, w')"
  shows "om_inv w' \<and> (b \<longleftrightarrow> is_owner h p w) \<and> strongest (owner_of w' h) (contenders_of w' h)
    \<and> contenders_of w' = (contenders_of w)(h := {x \<in> contenders_of w h. fst x \<noteq> p})"
  using descending_sort.remove_writer_correct [OF assms] owner_of_strongest by fastforce

text \<open>
  The other removals keep the books consistent: \<open>remove_writer(pub_id)\<close> takes the writer from every
  instance, \<open>remove_writers\<close> takes every writer from one instance, \<open>remove_instance\<close> changes no contender,
  and the public \<open>remove_owner\<close> is defined exactly for an instance with an entry.
\<close>

theorem removals_consistent:
  assumes "descending_sort std_sort" and "om_inv w" and "p \<noteq> GUID_UNKNOWN"
  shows "om_inv (remove_writer_all std_sort p w) \<and> p \<notin> fst ` contenders_of (remove_writer_all std_sort p w) h
    \<and> om_inv (remove_writers h w) \<and> contenders_of (remove_writers h w) = (contenders_of w)(h := {})
    \<and> om_inv (remove_instance a w) \<and> contenders_of (remove_instance a w) = contenders_of w
    \<and> (case remove_owner std_sort h w of
         None \<Rightarrow> h \<notin> fst ` set (instance_ownership_infos w)
       | Some w' \<Rightarrow> om_inv w' \<and> h \<in> fst ` set (instance_ownership_infos w))"
proof (intro conjI)
  note all = descending_sort.remove_writer_all_correct [OF assms]
  show "om_inv (remove_writer_all std_sort p w)" by (rule all)
  show "p \<notin> fst ` contenders_of (remove_writer_all std_sort p w) h" using all(2) by auto
  show "om_inv (remove_writers h w)" "contenders_of (remove_writers h w) = (contenders_of w)(h := {})"
    using remove_writers_correct [OF assms(2)] by auto
  show "om_inv (remove_instance a w)" "contenders_of (remove_instance a w) = contenders_of w"
    using remove_instance_correct [OF assms(2)] by auto
  have "remove_owner std_sort h w = None \<longleftrightarrow> map_of (instance_ownership_infos w) h = None"
    by (simp add: remove_owner_def split: option.splits prod.splits)
  then show "case remove_owner std_sort h w of
         None \<Rightarrow> h \<notin> fst ` set (instance_ownership_infos w)
       | Some w' \<Rightarrow> om_inv w' \<and> h \<in> fst ` set (instance_ownership_infos w)"
    using descending_sort.remove_owner_correct [OF assms(1,2)]
    by (auto simp: map_of_eq_None_iff split: option.splits)
qed

text \<open>A manager of one instance that two writers, of strengths 5 and 9, contend for.\<close>

definition weak_writer :: GUID_t where
  "weak_writer = GUID_t (GuidPrefix_t 1 0 0 0 0 0 0 0 0 0 0 0) (EntityId_t 0 0 1 2)"

definition strong_writer :: GUID_t where
  "strong_writer = GUID_t (GuidPrefix_t 2 0 0 0 0 0 0 0 0 0 0 0) (EntityId_t 0 0 1 2)"

definition example_manager :: om_world where
  "example_manager =
     \<lparr>instance_ownership_infos = [], type_instance_map = [],
      om_store = (\<lambda>_. mk_InstanceState EXCLUSIVE_OWNERSHIP_QOS 7), om_effects = [], deleted_maps = []\<rparr>"

definition example_owned :: om_world where
  "example_owned = snd (select_owner strength_sort 7 weak_writer 5 0 example_manager)"

lemma example_writers_known: "weak_writer \<noteq> GUID_UNKNOWN" "strong_writer \<noteq> GUID_UNKNOWN" "weak_writer \<noteq> strong_writer"
  by (simp_all add: weak_writer_def strong_writer_def GUID_UNKNOWN_def GUIDPREFIX_UNKNOWN_def)

lemma om_inv_example: "om_inv example_manager" "is_handle (om_store example_manager a) = 7"
  by (simp_all add: om_inv_def example_manager_def store_clean_def mk_InstanceState_def)

lemma example_owned_facts:
  "om_inv example_owned" "owner_of example_owned 7 = Some (weak_writer, 5)" "is_handle (om_store example_owned a) = 7"
proof -
  obtain b where r: "select_owner strength_sort 7 weak_writer 5 0 example_manager = (b, example_owned)"
    unfolding example_owned_def by (metis prod.collapse)
  show "om_inv example_owned"
    by (rule ss.select_owner_correct(1) [OF om_inv_example(1) example_writers_known(1) om_inv_example(2) r])
  show "owner_of example_owned 7 = Some (weak_writer, 5)" "is_handle (om_store example_owned a) = 7"
    using example_writers_known
    by (simp_all add: example_owned_def example_manager_def select_owner_def register_instance_def get_registered_def
        mk_InstanceState_def owner_of_def wi_pair_def set_registered_def broadcast_new_owner_def set_owner_def)
qed

theorem select_owner_elects_strongest_witness:
  "strongest (owner_of example_owned 7) (contenders_of example_owned 7)"
  unfolding example_owned_def
  using select_owner_elects_strongest [OF ss.descending_sort_axioms om_inv_example(1) example_writers_known(1)
      om_inv_example(2) surjective_pairing, of 5 0] by blast

theorem select_owner_stable_witness:
  "\<exists>w'. owner_of w' 7 = Some (strong_writer, 9)"
  using select_owner_stable [OF ss.descending_sort_axioms example_owned_facts(1) example_writers_known(2)
      example_owned_facts(3) surjective_pairing example_owned_facts(2) example_writers_known(3), of 9 0] by auto

theorem remove_writer_hands_over_witness:
  "om_inv (snd (remove_writer strength_sort 7 weak_writer example_owned))"
  using remove_writer_hands_over [OF ss.descending_sort_axioms example_owned_facts(1) example_writers_known(1)
      surjective_pairing, of 7] by blast

theorem removals_consistent_witness:
  "om_inv (remove_writer_all strength_sort weak_writer example_owned)"
  using removals_consistent [OF ss.descending_sort_axioms example_owned_facts(1) example_writers_known(1)] by blast

end
