(* ===== verification/Data_Reader.thy ===== *)
theory Data_Reader
  imports Writer_Info Ownership_Manager
begin
unbundle bit_operations_syntax

text \<open>
  The part of \<open>DataReaderImpl\<close> (\<open>src/dds/DCPS/DataReaderImpl.cpp\<close>) that follows the associated writers:
  liveliness, exclusive ownership and the bookkeeping of what was received from each writer. The state
  is a record of the members involved; the instances of the reader are addresses into the store of
  \<open>InstanceState\<close> objects that the ownership manager shares. Each call of \<open>gettimeofday\<close> takes the next
  reading of the clock. Calls on the reactor, the listener, the transport and the discovery service are
  recorded as effects; their answers come from the record \<open>reader_env\<close>. Logging and the monitor are left
  out. The locks make the operations atomic.
\<close>

section \<open>State\<close>

record LivelinessChangedStatus =
  alive_count :: int
  not_alive_count :: int
  alive_count_change :: int
  not_alive_count_change :: int
  lc_last_publication_handle :: int

record SubscriptionMatchedStatus =
  sm_total_count :: int
  sm_total_count_change :: int
  sm_current_count :: int
  sm_current_count_change :: int
  sm_last_publication_handle :: int

definition DATA_ON_READERS_STATUS :: ulong where "DATA_ON_READERS_STATUS = push_bit 9 0x0001"
definition DATA_AVAILABLE_STATUS :: ulong where "DATA_AVAILABLE_STATUS = push_bit 10 0x0001"
definition LIVELINESS_CHANGED_STATUS :: ulong where "LIVELINESS_CHANGED_STATUS = push_bit 12 0x0001"
definition SUBSCRIPTION_MATCHED_STATUS :: ulong where "SUBSCRIPTION_MATCHED_STATUS = push_bit 14 0x0001"

datatype reader_effect =
  On_liveliness_changed LivelinessChangedStatus
| On_subscription_matched SubscriptionMatchedStatus
| Signal_status_condition
| Cancel_liveliness_timer int
| Schedule_liveliness_timer ace_time
| Schedule_sweeper GUID_t
| Cancel_sweeper int
| Associate_transport GUID_t bool
| Disassociate_transport GUID_t
| Send_sample_ack GUID_t sequence_number Time_t
| Subscription_lost "int list"
| Association_complete GUID_t
| Purge_data int
| Release_instance int
| Accept_coherent nat GUID_t GUID_t
| Reject_coherent nat GUID_t GUID_t
| Subscriber_coherent_change GUID_t Coherent_State
| Subscriber_status ulong bool
| Signal_subscriber_condition
| Subscriber_data_received
| On_data_on_readers
| On_data_available
| Process_latency GUID_t
| Notify_read_conditions
| Watchdog_schedule nat
| Watchdog_execute nat
| Watchdog_cancel "nat option"

record reader_env =
  env_max_time :: ace_time
  env_clock :: "nat \<Rightarrow> ace_time"
  env_truncate_long :: "int \<Rightarrow> int"
  env_liveliness_timer :: "ace_time \<Rightarrow> int"
  env_release_timer :: "Duration_t \<Rightarrow> int"
  env_sweeper_timer :: "GUID_t \<Rightarrow> int"
  env_has_listener :: "ulong \<Rightarrow> bool"
  env_sub_listener :: "ulong \<Rightarrow> bool"
  env_associate :: "GUID_t \<Rightarrow> bool"
  env_ack_sent :: "GUID_t \<Rightarrow> sequence_number \<Rightarrow> bool"
  env_get_handle :: "GUID_t \<Rightarrow> int"
  env_sort :: sorter

record DataReaderImpl =
  dr_writers :: "(GUID_t \<times> WriterInfo) list"
  liveliness_changed_status :: LivelinessChangedStatus
  subscription_match_status :: SubscriptionMatchedStatus
  id_to_handle_map :: "(GUID_t \<times> int) list"
  liveliness_timer_id :: int
  liveliness_lease_duration :: ace_time
  is_exclusive_ownership :: bool
  always_get_history :: bool
  is_bit :: bool
  entity_deleted :: bool
  subscription_id :: GUID_t
  dr_qos :: DataReaderQos
  dr_instances :: "(int \<times> nat) list"
  last_accepted :: "nat \<Rightarrow> ace_time"
  last_sample_tv :: "nat \<Rightarrow> ace_time"
  cur_sample_tv :: "nat \<Rightarrow> ace_time"
  has_watchdog :: bool
  sub_presentation :: PresentationQosPolicy
  status_changes :: ulong
  owner_manager :: om_world
  clock_reads :: nat
  effects :: "reader_effect list"

definition emit :: "reader_effect \<Rightarrow> DataReaderImpl \<Rightarrow> DataReaderImpl" where
  "emit e r = r\<lparr>effects := effects r @ [e]\<rparr>"

definition gettimeofday :: "reader_env \<Rightarrow> DataReaderImpl \<Rightarrow> ace_time \<times> DataReaderImpl" where
  "gettimeofday env r = (env_clock env (clock_reads r), r\<lparr>clock_reads := clock_reads r + 1\<rparr>)"

definition set_status_changed_flag :: "ulong \<Rightarrow> bool \<Rightarrow> DataReaderImpl \<Rightarrow> DataReaderImpl" where
  "set_status_changed_flag status flag r =
     (if flag then r\<lparr>status_changes := status_changes r OR status\<rparr>
      else r\<lparr>status_changes := status_changes r AND NOT status\<rparr>)"

definition find_writer :: "GUID_t \<Rightarrow> DataReaderImpl \<Rightarrow> WriterInfo option" where
  "find_writer p r = map_of (dr_writers r) p"

text \<open>An update of the \<open>WriterInfo\<close> object that the map holds for a writer.\<close>

definition update_writer :: "GUID_t \<Rightarrow> (WriterInfo \<Rightarrow> WriterInfo) \<Rightarrow> DataReaderImpl \<Rightarrow> DataReaderImpl" where
  "update_writer p f r = r\<lparr>dr_writers := map (\<lambda>(q, i). (q, if q = p then f i else i)) (dr_writers r)\<rparr>"

definition update_status ::
    "(LivelinessChangedStatus \<Rightarrow> LivelinessChangedStatus) \<Rightarrow> DataReaderImpl \<Rightarrow> DataReaderImpl" where
  "update_status f r = r\<lparr>liveliness_changed_status := f (liveliness_changed_status r)\<rparr>"

section \<open>Liveliness\<close>

definition notify_liveliness_change :: "reader_env \<Rightarrow> DataReaderImpl \<Rightarrow> DataReaderImpl" where
  "notify_liveliness_change env r =
     (let r = (if env_has_listener env LIVELINESS_CHANGED_STATUS
               then update_status (\<lambda>s. s\<lparr>alive_count_change := 0, not_alive_count_change := 0\<rparr>)
                      (emit (On_liveliness_changed (liveliness_changed_status r)) r)
               else r)
      in emit Signal_status_condition r)"

definition get_liveliness_changed_status :: "DataReaderImpl \<Rightarrow> LivelinessChangedStatus \<times> DataReaderImpl" where
  "get_liveliness_changed_status r =
     (liveliness_changed_status r,
      update_status (\<lambda>s. s\<lparr>alive_count_change := 0, not_alive_count_change := 0\<rparr>)
        (set_status_changed_flag LIVELINESS_CHANGED_STATUS False r))"

text \<open>A method call on the \<open>InstanceState\<close> at an address.\<close>

definition on_instance ::
    "(InstanceState \<Rightarrow> InstanceState \<times> is_effect list) \<Rightarrow> nat \<Rightarrow> om_world \<Rightarrow> om_world" where
  "on_instance f a w =
     (case f (om_store w a) of
        (st, es) \<Rightarrow> w\<lparr>om_store := (om_store w)(a := st), om_effects := om_effects w @ map (Pair a) es\<rparr>)"

definition instances_liveliness_update :: "reader_env \<Rightarrow> GUID_t \<Rightarrow> DataReaderImpl \<Rightarrow> DataReaderImpl" where
  "instances_liveliness_update env p r =
     r\<lparr>owner_manager :=
         fold (\<lambda>(h, a). on_instance (writer_became_dead (dr_qos r) (env_release_timer env) p) a)
           (dr_instances r) (owner_manager r)\<rparr>"

text \<open>The ownership part of \<open>writer_removed\<close> and \<open>writer_became_dead\<close>.\<close>

definition drop_ownership :: "reader_env \<Rightarrow> GUID_t \<Rightarrow> DataReaderImpl \<Rightarrow> DataReaderImpl" where
  "drop_ownership env p r =
     (if is_exclusive_ownership r
      then update_writer p clear_owner_evaluated
             (r\<lparr>owner_manager := remove_writer_all (env_sort env) p (owner_manager r)\<rparr>)
      else r)"

definition writer_removed :: "reader_env \<Rightarrow> GUID_t \<Rightarrow> WriterInfo \<Rightarrow> DataReaderImpl \<Rightarrow> DataReaderImpl" where
  "writer_removed env p info r =
     (let r = drop_ownership env p r;
          liveliness_changed = (wi_state info = ALIVE \<or> wi_state info = DEAD);
          r = (if wi_state info = ALIVE
               then update_status (\<lambda>s. s\<lparr>alive_count := alive_count s - 1,
                                          alive_count_change := alive_count_change s - 1\<rparr>) r
               else r);
          r = (if wi_state info = DEAD
               then update_status (\<lambda>s. s\<lparr>not_alive_count := not_alive_count s - 1,
                                          not_alive_count_change := not_alive_count_change s - 1\<rparr>) r
               else r);
          r = update_status (\<lambda>s. s\<lparr>lc_last_publication_handle := wi_handle info\<rparr>) r;
          (now, r) = gettimeofday env r;
          r = instances_liveliness_update env p r
      in if liveliness_changed
         then notify_liveliness_change env (set_status_changed_flag LIVELINESS_CHANGED_STATUS True r)
         else r)"

definition dr_writer_became_dead :: "reader_env \<Rightarrow> GUID_t \<Rightarrow> WriterInfo \<Rightarrow> DataReaderImpl \<Rightarrow> DataReaderImpl" where
  "dr_writer_became_dead env p info r =
     (let r = drop_ownership env p r;
          liveliness_changed = (wi_state info = NOT_SET \<or> wi_state info = ALIVE);
          r = (if wi_state info = NOT_SET
               then update_status (\<lambda>s. s\<lparr>not_alive_count := not_alive_count s + 1,
                                          not_alive_count_change := not_alive_count_change s + 1\<rparr>) r
               else r);
          r = (if wi_state info = ALIVE
               then update_status (\<lambda>s. s\<lparr>alive_count := alive_count s - 1,
                                          alive_count_change := alive_count_change s - 1,
                                          not_alive_count := not_alive_count s + 1,
                                          not_alive_count_change := not_alive_count_change s + 1\<rparr>) r
               else r);
          r = update_status (\<lambda>s. s\<lparr>lc_last_publication_handle := wi_handle info\<rparr>) r;
          r = update_writer p (\<lambda>i. i\<lparr>wi_state := DEAD, seen_data := False\<rparr>) r
      in if alive_count (liveliness_changed_status r) < 0 then r
         else if not_alive_count (liveliness_changed_status r) < 0 then r
         else let r = instances_liveliness_update env p r
              in if liveliness_changed
                 then notify_liveliness_change env (set_status_changed_flag LIVELINESS_CHANGED_STATUS True r)
                 else r)"

text \<open>\<open>WriterInfo::check_activity\<close> for the writer \<open>p\<close>, with the call back to its reader.\<close>

definition check_activity :: "reader_env \<Rightarrow> ace_time \<Rightarrow> GUID_t \<Rightarrow> WriterInfo \<Rightarrow> DataReaderImpl \<Rightarrow> ace_time \<times> DataReaderImpl" where
  "check_activity env now p info r =
     (if wi_state info = ALIVE \<and> liveliness_lease_duration r \<noteq> 0
      then let expires_at = last_liveliness_activity_time info + liveliness_lease_duration r
           in if expires_at \<le> now then (env_max_time env, dr_writer_became_dead env p info r)
              else (expires_at, r)
      else (env_max_time env, r))"

text \<open>The loop of \<open>handle_timeout\<close> over the writers: the earliest expiry and the number of live writers.\<close>

fun check_writers ::
    "reader_env \<Rightarrow> ace_time \<Rightarrow> GUID_t list \<Rightarrow> ace_time \<Rightarrow> nat \<Rightarrow> DataReaderImpl \<Rightarrow> ace_time \<times> nat \<times> DataReaderImpl" where
  "check_writers env tv [] smallest alive_writers r = (smallest, alive_writers, r)"
| "check_writers env tv (p # ps) smallest alive_writers r =
     (case find_writer p r of
        None \<Rightarrow> check_writers env tv ps smallest alive_writers r
      | Some info \<Rightarrow>
          (case check_activity env tv p info r of
             (next_absolute, r) \<Rightarrow>
               if next_absolute \<noteq> env_max_time env
               then check_writers env tv ps
                      (if next_absolute < smallest then next_absolute else smallest) (alive_writers + 1) r
               else check_writers env tv ps smallest alive_writers r))"

definition dr_handle_timeout :: "reader_env \<Rightarrow> ace_time \<Rightarrow> bool \<Rightarrow> DataReaderImpl \<Rightarrow> DataReaderImpl" where
  "dr_handle_timeout env tv from_this r =
     (let local_timer_id = liveliness_timer_id r;
          timer_was_reset = (local_timer_id \<noteq> - 1 \<and> from_this);
          r = (if timer_was_reset then emit (Cancel_liveliness_timer local_timer_id) r else r);
          r = (if timer_was_reset \<and> liveliness_timer_id r = local_timer_id
               then r\<lparr>liveliness_timer_id := - 1\<rparr> else r)
      in case check_writers env tv (map fst (dr_writers r)) (env_max_time env) 0 r of
           (smallest, alive_writers, r) \<Rightarrow>
             let r = (if alive_writers = 0 then r\<lparr>liveliness_timer_id := - 1\<rparr> else r)
             in if alive_writers \<noteq> 0
                then (case gettimeofday env r of
                        (now, r) \<Rightarrow>
                          let relative = (if now < smallest then smallest - now else 1)
                          in emit (Schedule_liveliness_timer relative)
                               (r\<lparr>liveliness_timer_id := env_liveliness_timer env relative\<rparr>))
                else r)"

definition dr_writer_became_alive :: "reader_env \<Rightarrow> GUID_t \<Rightarrow> WriterInfo \<Rightarrow> DataReaderImpl \<Rightarrow> DataReaderImpl" where
  "dr_writer_became_alive env p info r =
     (let liveliness_changed = (wi_state info \<noteq> ALIVE \<or> wi_state info = DEAD);
          r = (if wi_state info \<noteq> ALIVE
               then update_status (\<lambda>s. s\<lparr>alive_count := alive_count s + 1,
                                          alive_count_change := alive_count_change s + 1\<rparr>) r
               else r);
          r = (if wi_state info = DEAD
               then update_status (\<lambda>s. s\<lparr>not_alive_count := not_alive_count s - 1,
                                          not_alive_count_change := not_alive_count_change s - 1\<rparr>) r
               else r);
          r = update_status (\<lambda>s. s\<lparr>lc_last_publication_handle := wi_handle info\<rparr>) r;
          r = set_status_changed_flag LIVELINESS_CHANGED_STATUS True r
      in if alive_count (liveliness_changed_status r) < 0 then r
         else if not_alive_count (liveliness_changed_status r) < 0 then r
         else let r = update_writer p (\<lambda>i. i\<lparr>wi_state := ALIVE\<rparr>) r;
                  r = (if liveliness_changed then notify_liveliness_change env r else r)
              in case gettimeofday env r of (now, r) \<Rightarrow> dr_handle_timeout env now True r)"

definition received_activity :: "reader_env \<Rightarrow> ace_time \<Rightarrow> GUID_t \<Rightarrow> DataReaderImpl \<Rightarrow> DataReaderImpl" where
  "received_activity env when_tv p r =
     (let r = update_writer p (\<lambda>i. i\<lparr>last_liveliness_activity_time := when_tv\<rparr>) r
      in case find_writer p r of
           None \<Rightarrow> r
         | Some info \<Rightarrow> if wi_state info \<noteq> ALIVE then dr_writer_became_alive env p info r else r)"


section \<open>What the operations leave alone\<close>

lemma emit_fields [simp]:
  "dr_writers (emit e r) = dr_writers r" "liveliness_changed_status (emit e r) = liveliness_changed_status r"
  "liveliness_lease_duration (emit e r) = liveliness_lease_duration r" "liveliness_timer_id (emit e r) = liveliness_timer_id r"
  "is_exclusive_ownership (emit e r) = is_exclusive_ownership r" "dr_instances (emit e r) = dr_instances r"
  "owner_manager (emit e r) = owner_manager r" "clock_reads (emit e r) = clock_reads r"
  by (simp_all add: emit_def)

lemma set_status_changed_flag_fields [simp]:
  "dr_writers (set_status_changed_flag k b r) = dr_writers r"
  "liveliness_changed_status (set_status_changed_flag k b r) = liveliness_changed_status r"
  "liveliness_lease_duration (set_status_changed_flag k b r) = liveliness_lease_duration r"
  "liveliness_timer_id (set_status_changed_flag k b r) = liveliness_timer_id r"
  "is_exclusive_ownership (set_status_changed_flag k b r) = is_exclusive_ownership r"
  "dr_instances (set_status_changed_flag k b r) = dr_instances r"
  "owner_manager (set_status_changed_flag k b r) = owner_manager r"
  "clock_reads (set_status_changed_flag k b r) = clock_reads r"
  by (simp_all add: set_status_changed_flag_def)

lemma update_writer_fields [simp]:
  "liveliness_changed_status (update_writer p f r) = liveliness_changed_status r"
  "liveliness_lease_duration (update_writer p f r) = liveliness_lease_duration r"
  "liveliness_timer_id (update_writer p f r) = liveliness_timer_id r"
  "is_exclusive_ownership (update_writer p f r) = is_exclusive_ownership r"
  "dr_instances (update_writer p f r) = dr_instances r" "owner_manager (update_writer p f r) = owner_manager r"
  "clock_reads (update_writer p f r) = clock_reads r"
  by (simp_all add: update_writer_def)

lemma update_status_fields [simp]:
  "dr_writers (update_status f r) = dr_writers r"
  "liveliness_changed_status (update_status f r) = f (liveliness_changed_status r)"
  "liveliness_lease_duration (update_status f r) = liveliness_lease_duration r"
  "liveliness_timer_id (update_status f r) = liveliness_timer_id r"
  "is_exclusive_ownership (update_status f r) = is_exclusive_ownership r"
  "dr_instances (update_status f r) = dr_instances r" "owner_manager (update_status f r) = owner_manager r"
  "clock_reads (update_status f r) = clock_reads r"
  by (simp_all add: update_status_def)

lemma notify_liveliness_change_fields [simp]:
  "dr_writers (notify_liveliness_change env r) = dr_writers r"
  "alive_count (liveliness_changed_status (notify_liveliness_change env r)) = alive_count (liveliness_changed_status r)"
  "not_alive_count (liveliness_changed_status (notify_liveliness_change env r))
    = not_alive_count (liveliness_changed_status r)"
  "liveliness_lease_duration (notify_liveliness_change env r) = liveliness_lease_duration r"
  "liveliness_timer_id (notify_liveliness_change env r) = liveliness_timer_id r"
  "is_exclusive_ownership (notify_liveliness_change env r) = is_exclusive_ownership r"
  "dr_instances (notify_liveliness_change env r) = dr_instances r"
  "owner_manager (notify_liveliness_change env r) = owner_manager r"
  "clock_reads (notify_liveliness_change env r) = clock_reads r"
  by (simp_all add: notify_liveliness_change_def Let_def)

lemma instances_liveliness_update_fields [simp]:
  "dr_writers (instances_liveliness_update env p r) = dr_writers r"
  "liveliness_changed_status (instances_liveliness_update env p r) = liveliness_changed_status r"
  "liveliness_lease_duration (instances_liveliness_update env p r) = liveliness_lease_duration r"
  "liveliness_timer_id (instances_liveliness_update env p r) = liveliness_timer_id r"
  "is_exclusive_ownership (instances_liveliness_update env p r) = is_exclusive_ownership r"
  "dr_instances (instances_liveliness_update env p r) = dr_instances r"
  "clock_reads (instances_liveliness_update env p r) = clock_reads r"
  by (simp_all add: instances_liveliness_update_def)

lemma drop_ownership_fields [simp]:
  "liveliness_changed_status (drop_ownership env p r) = liveliness_changed_status r"
  "liveliness_lease_duration (drop_ownership env p r) = liveliness_lease_duration r"
  "liveliness_timer_id (drop_ownership env p r) = liveliness_timer_id r"
  "is_exclusive_ownership (drop_ownership env p r) = is_exclusive_ownership r"
  "dr_instances (drop_ownership env p r) = dr_instances r"
  "clock_reads (drop_ownership env p r) = clock_reads r"
  by (simp_all add: drop_ownership_def)

section \<open>The states of the writers\<close>

text \<open>The liveliness and last activity of each associated writer, which is all the counting depends on.\<close>

definition liveness_of :: "DataReaderImpl \<Rightarrow> (GUID_t \<times> WriterState \<times> ace_time) list" where
  "liveness_of r = map (\<lambda>(p, i). (p, wi_state i, last_liveliness_activity_time i)) (dr_writers r)"

definition ids_of :: "DataReaderImpl \<Rightarrow> (GUID_t \<times> GUID_t) list" where
  "ids_of r = map (\<lambda>(p, i). (p, writer_id i)) (dr_writers r)"

definition count_state :: "WriterState \<Rightarrow> (GUID_t \<times> WriterState \<times> ace_time) list \<Rightarrow> int" where
  "count_state s ls = int (length (filter (\<lambda>(p, t, l). t = s) ls))"

definition set_state :: "GUID_t \<Rightarrow> WriterState \<Rightarrow> (GUID_t \<times> WriterState \<times> ace_time) list
    \<Rightarrow> (GUID_t \<times> WriterState \<times> ace_time) list" where
  "set_state p s ls = map (\<lambda>(q, t, l). (q, if q = p then s else t, l)) ls"

text \<open>
  The counters of the status agree with the states of the writers, each writer is in the map once and
  under its own identifier.
\<close>

definition reader_inv :: "DataReaderImpl \<Rightarrow> bool" where
  "reader_inv r \<longleftrightarrow>
     distinct (map fst (liveness_of r)) \<and> (\<forall>(p, q) \<in> set (ids_of r). p = q)
     \<and> alive_count (liveliness_changed_status r) = count_state ALIVE (liveness_of r)
     \<and> not_alive_count (liveliness_changed_status r) = count_state DEAD (liveness_of r)"

lemma liveness_of_keys: "map fst (liveness_of r) = map fst (dr_writers r)"
  by (simp add: liveness_of_def comp_def case_prod_beta)

lemma find_writer_liveness:
  "map_of (liveness_of r) p = map_option (\<lambda>i. (wi_state i, last_liveliness_activity_time i)) (find_writer p r)"
  by (simp add: liveness_of_def find_writer_def map_of_map)

lemma find_update_writer:
  "find_writer q (update_writer p f r) = (if q = p then map_option f (find_writer q r) else find_writer q r)"
proof -
  have "map_of (map (\<lambda>(q, i). (q, if q = p then f i else i)) ws) q = (if q = p then map_option f (map_of ws q) else map_of ws q)"
    for ws :: "(GUID_t \<times> WriterInfo) list"
    by (induction ws) auto
  then show ?thesis by (simp add: find_writer_def update_writer_def)
qed

lemma update_writer_liveness:
  assumes "\<And>i. last_liveliness_activity_time (f i) = last_liveliness_activity_time i" "\<And>i. wi_state (f i) = s"
  shows "liveness_of (update_writer p f r) = set_state p s (liveness_of r)"
  using assms by (auto simp: liveness_of_def update_writer_def set_state_def)

lemma liveness_of_cong: "dr_writers r = dr_writers r' \<Longrightarrow> liveness_of r = liveness_of r'"
  by (simp add: liveness_of_def)

lemma count_set_state:
  assumes "distinct (map fst ls)" "map_of ls p = Some (t, l)"
  shows "count_state u (set_state p s ls) = count_state u ls - (if t = u then 1 else 0) + (if s = u then 1 else 0)"
proof -
  have same: "map_of ls p = None \<Longrightarrow> set_state p s ls = ls" for ls
    by (induction ls) (auto simp: set_state_def split: if_splits)
  show ?thesis using assms
  proof (induction ls)
    case (Cons x ls)
    obtain q t' l' where x: "x = (q, t', l')" by (metis prod_cases3)
    show ?case
    proof (cases "q = p")
      case True
      then have "map_of ls p = None" using Cons.prems x by (simp add: map_of_eq_None_iff)
      then show ?thesis using Cons.prems x True same [of ls] by (auto simp: count_state_def set_state_def)
    next
      case False
      then show ?thesis using Cons x by (auto simp: count_state_def set_state_def)
    qed
  qed simp
qed

section \<open>Counting\<close>

lemma projection_frames [simp]:
  "liveness_of (emit e r) = liveness_of r" "ids_of (emit e r) = ids_of r"
  "liveness_of (set_status_changed_flag k b r) = liveness_of r" "ids_of (set_status_changed_flag k b r) = ids_of r"
  "liveness_of (update_status g r) = liveness_of r" "ids_of (update_status g r) = ids_of r"
  "liveness_of (notify_liveliness_change env r) = liveness_of r" "ids_of (notify_liveliness_change env r) = ids_of r"
  "liveness_of (instances_liveliness_update env p r) = liveness_of r"
  "ids_of (instances_liveliness_update env p r) = ids_of r"
  "liveness_of (r\<lparr>clock_reads := c\<rparr>) = liveness_of r" "ids_of (r\<lparr>clock_reads := c\<rparr>) = ids_of r"
  "liveness_of (r\<lparr>liveliness_timer_id := t\<rparr>) = liveness_of r" "ids_of (r\<lparr>liveliness_timer_id := t\<rparr>) = ids_of r"
  by (simp_all add: liveness_of_def ids_of_def)

lemma drop_ownership_projections [simp]:
  "liveness_of (drop_ownership env p r) = liveness_of r" "ids_of (drop_ownership env p r) = ids_of r"
  by (auto simp: drop_ownership_def liveness_of_def ids_of_def update_writer_def clear_owner_evaluated_def)

lemma update_writer_ids [simp]:
  "(\<And>i. writer_id (f i) = writer_id i) \<Longrightarrow> ids_of (update_writer p f r) = ids_of r"
  by (auto simp: ids_of_def update_writer_def)

lemma set_state_keys [simp]: "map fst (set_state p s ls) = map fst ls"
  by (simp add: set_state_def comp_def case_prod_beta)

lemma became_dead_fields:
  "liveness_of (dr_writer_became_dead env p info r) = set_state p DEAD (liveness_of r)"
  "ids_of (dr_writer_became_dead env p info r) = ids_of r"
  "alive_count (liveliness_changed_status (dr_writer_became_dead env p info r))
    = alive_count (liveliness_changed_status r) - (if wi_state info = ALIVE then 1 else 0)"
  "not_alive_count (liveliness_changed_status (dr_writer_became_dead env p info r))
    = not_alive_count (liveliness_changed_status r) + (if wi_state info = DEAD then 0 else 1)"
  "liveliness_lease_duration (dr_writer_became_dead env p info r) = liveliness_lease_duration r"
  by (cases "wi_state info"; simp add: dr_writer_became_dead_def Let_def update_writer_liveness)+

lemma reader_inv_became_dead:
  assumes inv: "reader_inv r" and i: "find_writer p r = Some info"
  shows "reader_inv (dr_writer_became_dead env p info r)"
proof -
  have d: "distinct (map fst (liveness_of r))" using inv by (simp add: reader_inv_def)
  have m: "map_of (liveness_of r) p = Some (wi_state info, last_liveliness_activity_time info)"
    using i by (simp add: find_writer_liveness)
  show ?thesis
    using inv count_set_state [OF d m, of ALIVE DEAD] count_set_state [OF d m, of DEAD DEAD]
    by (auto simp: reader_inv_def became_dead_fields)
qed

section \<open>Expiry\<close>

text \<open>What a check of the leases at a time should do to the writers of a set of identifiers.\<close>

definition expire :: "ace_time \<Rightarrow> ace_time \<Rightarrow> WriterState \<times> ace_time \<Rightarrow> WriterState \<times> ace_time" where
  "expire tv lease x =
     (if fst x = ALIVE \<and> lease \<noteq> 0 \<and> snd x + lease \<le> tv then (DEAD, snd x) else x)"

definition expire_in :: "ace_time \<Rightarrow> ace_time \<Rightarrow> GUID_t set \<Rightarrow> (GUID_t \<times> WriterState \<times> ace_time) list
    \<Rightarrow> (GUID_t \<times> WriterState \<times> ace_time) list" where
  "expire_in tv lease P ls = map (\<lambda>(p, x). (p, if p \<in> P then expire tv lease x else x)) ls"

text \<open>When a writer expires; the largest time if it is not alive or has no lease.\<close>

definition expiry :: "ace_time \<Rightarrow> ace_time \<Rightarrow> WriterState \<times> ace_time \<Rightarrow> ace_time" where
  "expiry max_time lease x = (if fst x = ALIVE \<and> lease \<noteq> 0 then snd x + lease else max_time)"

definition expiry_at :: "ace_time \<Rightarrow> ace_time \<Rightarrow> (GUID_t \<times> WriterState \<times> ace_time) list \<Rightarrow> GUID_t \<Rightarrow> ace_time" where
  "expiry_at max_time lease ls p = (case map_of ls p of None \<Rightarrow> max_time | Some x \<Rightarrow> expiry max_time lease x)"

lemma expire_idem [simp]: "expire tv lease (expire tv lease x) = expire tv lease x"
  by (auto simp: expire_def)

lemma expire_in_keys [simp]: "map fst (expire_in tv lease P ls) = map fst ls"
  by (simp add: expire_in_def comp_def case_prod_beta)

lemma expire_in_twice: "expire_in tv lease Q (expire_in tv lease P ls) = expire_in tv lease (P \<union> Q) ls"
  by (auto simp: expire_in_def)

lemma map_of_expire_in:
  "map_of (expire_in tv lease P ls) p = map_option (\<lambda>x. if p \<in> P then expire tv lease x else x) (map_of ls p)"
  by (induction ls) (auto simp: expire_in_def)

lemma expire_in_absent: "map_of ls p = None \<Longrightarrow> expire_in tv lease {p} ls = ls"
  by (induction ls) (auto simp: expire_in_def split: if_splits)

lemma expire_in_one:
  assumes "distinct (map fst ls)" "map_of ls p = Some (s, l)"
  shows "expire_in tv lease {p} ls = (if expire tv lease (s, l) = (s, l) then ls else set_state p DEAD ls)"
  using assms
proof (induction ls)
  case (Cons x ls)
  obtain q t l' where x: "x = (q, t, l')" by (metis prod_cases3)
  show ?case
  proof (cases "q = p")
    case True
    then have n: "map_of ls p = None" using Cons.prems x by (simp add: map_of_eq_None_iff)
    have "map_of ls p = None \<Longrightarrow> set_state p DEAD ls = ls" for ls
      by (induction ls) (auto simp: set_state_def split: if_splits)
    then show ?thesis
      using Cons.prems x True expire_in_absent [OF n, of tv lease] n
      by (auto simp: expire_in_def set_state_def expire_def)
  next
    case False
    then show ?thesis using Cons x by (auto simp: expire_in_def set_state_def)
  qed
qed simp

lemma check_activity_correct:
  assumes inv: "reader_inv r" and i: "find_writer p r = Some info"
    and c: "check_activity env tv p info r = (na, r1)"
  shows "reader_inv r1" "liveness_of r1 = expire_in tv (liveliness_lease_duration r) {p} (liveness_of r)"
    "liveliness_lease_duration r1 = liveliness_lease_duration r"
    "na = expiry_at (env_max_time env) (liveliness_lease_duration r) (liveness_of r1) p"
proof -
  let ?lease = "liveliness_lease_duration r" and ?x = "(wi_state info, last_liveliness_activity_time info)"
  have d: "distinct (map fst (liveness_of r))" using inv by (simp add: reader_inv_def)
  have m: "map_of (liveness_of r) p = Some ?x" using i by (simp add: find_writer_liveness)
  have "reader_inv r1 \<and> liveness_of r1 = expire_in tv ?lease {p} (liveness_of r)
    \<and> liveliness_lease_duration r1 = ?lease \<and> na = expiry (env_max_time env) ?lease (expire tv ?lease ?x)"
    using c inv reader_inv_became_dead [OF inv i, of env] expire_in_one [OF d m, of tv ?lease]
    by (auto simp: check_activity_def expire_def expiry_def became_dead_fields Let_def split: if_splits)
  then show "reader_inv r1" "liveness_of r1 = expire_in tv ?lease {p} (liveness_of r)"
    "liveliness_lease_duration r1 = ?lease" "na = expiry_at (env_max_time env) ?lease (liveness_of r1) p"
    using m by (simp_all add: expiry_at_def map_of_expire_in)
qed

lemma check_writers_correct:
  assumes "reader_inv r" "check_writers env tv ps sm n r = (sm', n', r')" "sm \<le> env_max_time env"
  shows "reader_inv r' \<and> liveness_of r' = expire_in tv (liveliness_lease_duration r) (set ps) (liveness_of r)
    \<and> liveliness_lease_duration r' = liveliness_lease_duration r
    \<and> sm' = fold min (map (expiry_at (env_max_time env) (liveliness_lease_duration r) (liveness_of r')) ps) sm
    \<and> n' = n + length (filter (\<lambda>p. expiry_at (env_max_time env) (liveliness_lease_duration r) (liveness_of r') p
                              \<noteq> env_max_time env) ps)"
  using assms
proof (induction ps arbitrary: r sm n)
  case Nil
  then show ?case by (simp add: expire_in_def)
next
  case (Cons p ps)
  let ?lease = "liveliness_lease_duration r" and ?max = "env_max_time env"
  show ?case
  proof (cases "find_writer p r")
    case None
    have m: "map_of (liveness_of r) p = None" using None by (simp add: find_writer_liveness)
    have IH: "reader_inv r' \<and> liveness_of r' = expire_in tv ?lease (set ps) (liveness_of r)
        \<and> liveliness_lease_duration r' = ?lease
        \<and> sm' = fold min (map (expiry_at ?max ?lease (liveness_of r')) ps) sm
        \<and> n' = n + length (filter (\<lambda>p. expiry_at ?max ?lease (liveness_of r') p \<noteq> ?max) ps)"
      by (rule Cons.IH [OF Cons.prems(1) _ Cons.prems(3)]) (use Cons.prems(2) None in simp)
    moreover have "expiry_at ?max ?lease (liveness_of r') p = ?max"
      using IH m by (simp add: expiry_at_def map_of_expire_in)
    moreover have "expire_in tv ?lease (set (p # ps)) (liveness_of r) = expire_in tv ?lease (set ps) (liveness_of r)"
      using expire_in_twice [of tv ?lease "set ps" "{p}" "liveness_of r"] expire_in_absent [OF m, of tv ?lease] by simp
    ultimately show ?thesis using Cons.prems(3) by (simp add: min_absorb2)
  next
    case (Some info)
    obtain na r1 where c: "check_activity env tv p info r = (na, r1)" by (metis surj_pair)
    note cc = check_activity_correct [OF Cons.prems(1) Some c]
    define sm1 where "sm1 = min sm na"
    define n1 where "n1 = (if na \<noteq> ?max then n + 1 else n)"
    have sm1: "sm1 = (if na \<noteq> ?max then (if na < sm then na else sm) else sm)" "sm1 \<le> ?max"
      using Cons.prems(3) by (auto simp: sm1_def)
    have "check_writers env tv ps sm1 n1 r1 = (sm', n', r')"
      using Cons.prems(2) Some c by (simp add: sm1(1) n1_def split: if_splits)
    from Cons.IH [OF cc(1) this sm1(2)]
    have IH: "reader_inv r'" "liveness_of r' = expire_in tv ?lease (set ps) (liveness_of r1)"
        "liveliness_lease_duration r' = ?lease"
        "sm' = fold min (map (expiry_at ?max ?lease (liveness_of r')) ps) sm1"
        "n' = n1 + length (filter (\<lambda>p. expiry_at ?max ?lease (liveness_of r') p \<noteq> ?max) ps)"
      by (simp_all add: cc(3))
    have l: "liveness_of r' = expire_in tv ?lease (set (p # ps)) (liveness_of r)"
      using IH(2) expire_in_twice [of tv ?lease "set ps" "{p}" "liveness_of r"] by (simp add: cc(2))
    have "expiry_at ?max ?lease (liveness_of r') p = na"
      unfolding cc(4) using l by (simp add: expiry_at_def map_of_expire_in cc(2))
    then show ?thesis using IH l by (simp add: sm1_def n1_def min.commute)
  qed
qed


lemma expire_in_all: "expire_in tv lease (set (map fst ls)) ls = map (\<lambda>(p, x). (p, expire tv lease x)) ls"
  by (auto simp: expire_in_def rev_image_eqI)

lemma map_expiry_at:
  "distinct (map fst ls) \<Longrightarrow> map (expiry_at max_time lease ls) (map fst ls) = map (\<lambda>(p, x). expiry max_time lease x) ls"
  by (auto simp: expiry_at_def)

lemma fold_min: "fold min xs (m::'a::linorder) = Min (insert m (set xs))"
  using Min.set_eq_fold [of m xs] by simp

text \<open>The times at which live writers expire, as far as they differ from the largest time.\<close>

definition expiries :: "reader_env \<Rightarrow> DataReaderImpl \<Rightarrow> ace_time list" where
  "expiries env r =
     filter (\<lambda>t. t \<noteq> env_max_time env)
       (map (\<lambda>(p, x). expiry (env_max_time env) (liveliness_lease_duration r) x) (liveness_of r))"

text \<open>The state in which \<open>handle_timeout\<close> starts its loop.\<close>

definition timeout_start :: "bool \<Rightarrow> DataReaderImpl \<Rightarrow> DataReaderImpl" where
  "timeout_start from_this r =
     (if liveliness_timer_id r \<noteq> - 1 \<and> from_this
      then (emit (Cancel_liveliness_timer (liveliness_timer_id r)) r)\<lparr>liveliness_timer_id := - 1\<rparr> else r)"

lemma handle_timeout_start:
  "dr_handle_timeout env tv b r =
     (case check_writers env tv (map fst (dr_writers (timeout_start b r))) (env_max_time env) 0 (timeout_start b r) of
        (sm, n, r1) \<Rightarrow>
          if n = 0 then r1\<lparr>liveliness_timer_id := - 1\<rparr>
          else let now = env_clock env (clock_reads r1); rel = (if now < sm then sm - now else 1)
               in emit (Schedule_liveliness_timer rel)
                    (r1\<lparr>clock_reads := clock_reads r1 + 1, liveliness_timer_id := env_liveliness_timer env rel\<rparr>))"
proof -
  have "(let local_timer_id = liveliness_timer_id r;
             timer_was_reset = (local_timer_id \<noteq> - 1 \<and> b);
             r = (if timer_was_reset then emit (Cancel_liveliness_timer local_timer_id) r else r)
         in if timer_was_reset \<and> liveliness_timer_id r = local_timer_id then r\<lparr>liveliness_timer_id := - 1\<rparr> else r)
      = timeout_start b r"
    by (simp add: timeout_start_def)
  then show ?thesis
    by (auto simp: dr_handle_timeout_def gettimeofday_def Let_def split: prod.splits)
qed

lemma handle_timeout_cases:
  assumes inv: "reader_inv r"
  obtains sm n r1 where
    "dr_handle_timeout env tv b r =
       (if n = 0 then r1\<lparr>liveliness_timer_id := - 1\<rparr>
        else let now = env_clock env (clock_reads r1); rel = (if now < sm then sm - now else 1)
             in emit (Schedule_liveliness_timer rel)
                  (r1\<lparr>clock_reads := clock_reads r1 + 1, liveliness_timer_id := env_liveliness_timer env rel\<rparr>))"
    "reader_inv r1" "liveness_of r1 = map (\<lambda>(p, x). (p, expire tv (liveliness_lease_duration r) x)) (liveness_of r)"
    "liveliness_lease_duration r1 = liveliness_lease_duration r"
    "n = length (expiries env r1)" "sm = Min (insert (env_max_time env) (set (expiries env r1)))"
proof -
  let ?lease = "liveliness_lease_duration r" and ?max = "env_max_time env" and ?r0 = "timeout_start b r"
  have f: "liveness_of ?r0 = liveness_of r" "liveliness_lease_duration ?r0 = ?lease" "reader_inv ?r0"
      "map fst (dr_writers ?r0) = map fst (liveness_of r)"
    using inv by (auto simp: timeout_start_def reader_inv_def liveness_of_keys)
  obtain sm n r1 where c: "check_writers env tv (map fst (dr_writers ?r0)) ?max 0 ?r0 = (sm, n, r1)"
    by (metis prod_cases3)
  from check_writers_correct [OF f(3) c order_refl, unfolded f]
  have cc: "reader_inv r1" "liveness_of r1 = expire_in tv ?lease (set (map fst (liveness_of r))) (liveness_of r)"
      "liveliness_lease_duration r1 = ?lease"
      "sm = fold min (map (expiry_at ?max ?lease (liveness_of r1)) (map fst (liveness_of r))) ?max"
      "n = length (filter (\<lambda>p. expiry_at ?max ?lease (liveness_of r1) p \<noteq> ?max) (map fst (liveness_of r)))"
    by simp_all
  have d: "distinct (map fst (liveness_of r1))" using cc(1) by (simp add: reader_inv_def)
  have k: "map fst (liveness_of r) = map fst (liveness_of r1)" by (simp add: cc(2))
  let ?es = "map (\<lambda>(p, x). expiry ?max ?lease x) (liveness_of r1)"
  have me: "map (expiry_at ?max ?lease (liveness_of r1)) (map fst (liveness_of r)) = ?es"
    unfolding k by (rule map_expiry_at [OF d])
  have "n = length (filter (\<lambda>t. t \<noteq> ?max) ?es)"
    using cc(5) by (simp only: me [symmetric]) (simp add: comp_def filter_map)
  then have n: "n = length (expiries env r1)" by (simp add: expiries_def cc(3))
  have "insert ?max (set ?es) = insert ?max (set (filter (\<lambda>t. t \<noteq> ?max) ?es))" by auto
  moreover have "sm = Min (insert ?max (set ?es))" using cc(4) by (simp only: me fold_min)
  ultimately have sm: "sm = Min (insert ?max (set (expiries env r1)))" by (simp only: expiries_def cc(3))
  have h: "dr_handle_timeout env tv b r =
       (if n = 0 then r1\<lparr>liveliness_timer_id := - 1\<rparr>
        else let now = env_clock env (clock_reads r1); rel = (if now < sm then sm - now else 1)
             in emit (Schedule_liveliness_timer rel)
                  (r1\<lparr>clock_reads := clock_reads r1 + 1, liveliness_timer_id := env_liveliness_timer env rel\<rparr>))"
    by (simp only: handle_timeout_start c prod.case)
  show thesis
    by (rule that [OF h]) (simp_all only: cc(1,2,3) n sm expire_in_all)
qed

section \<open>Activity\<close>

lemma count_state_nonneg [simp]: "0 \<le> count_state s ls"
  by (simp add: count_state_def)

lemma count_state_pos: "map_of ls p = Some (s, l) \<Longrightarrow> 0 < count_state s ls"
  by (auto simp: count_state_def filter_empty_conv dest!: map_of_SomeD)

text \<open>The status after \<open>writer_became_alive\<close> counted the writer.\<close>

definition alive_counted :: "WriterInfo \<Rightarrow> LivelinessChangedStatus \<Rightarrow> LivelinessChangedStatus" where
  "alive_counted info s =
     s\<lparr>alive_count := alive_count s + (if wi_state info \<noteq> ALIVE then 1 else 0),
       alive_count_change := alive_count_change s + (if wi_state info \<noteq> ALIVE then 1 else 0),
       not_alive_count := not_alive_count s - (if wi_state info = DEAD then 1 else 0),
       not_alive_count_change := not_alive_count_change s - (if wi_state info = DEAD then 1 else 0),
       lc_last_publication_handle := wi_handle info\<rparr>"

lemma became_alive_cases:
  assumes inv: "reader_inv r" and i: "find_writer p r = Some info"
  obtains r1 now where "dr_writer_became_alive env p info r = dr_handle_timeout env now True r1"
    "reader_inv r1" "liveness_of r1 = set_state p ALIVE (liveness_of r)"
    "liveliness_lease_duration r1 = liveliness_lease_duration r" "now = env_clock env (clock_reads r)"
proof -
  have d: "distinct (map fst (liveness_of r))" using inv by (simp add: reader_inv_def)
  have m: "map_of (liveness_of r) p = Some (wi_state info, last_liveliness_activity_time info)"
    using i by (simp add: find_writer_liveness)
  let ?r1 = "set_status_changed_flag LIVELINESS_CHANGED_STATUS True (update_status (alive_counted info) r)"
  let ?r2 = "update_writer p (\<lambda>i. i\<lparr>wi_state := ALIVE\<rparr>) ?r1"
  let ?r3 = "if wi_state info \<noteq> ALIVE then notify_liveliness_change env ?r2 else ?r2"
  have nn: "\<not> alive_count (alive_counted info (liveliness_changed_status r)) < 0"
      "\<not> not_alive_count (alive_counted info (liveliness_changed_status r)) < 0"
    using inv count_state_pos [OF m] count_state_nonneg [of _ "liveness_of r"]
    by (auto simp: reader_inv_def alive_counted_def not_less)
  have "dr_writer_became_alive env p info r = dr_handle_timeout env (env_clock env (clock_reads ?r3)) True
      (?r3\<lparr>clock_reads := clock_reads ?r3 + 1\<rparr>)"
    using nn
    by (cases "wi_state info")
      (simp_all add: dr_writer_became_alive_def gettimeofday_def Let_def alive_counted_def update_status_def
        set_status_changed_flag_def)
  moreover have l: "liveness_of ?r3 = set_state p ALIVE (liveness_of r)"
    by (simp add: update_writer_liveness)
  moreover have "reader_inv ?r3"
    using inv l count_set_state [OF d m, of ALIVE ALIVE] count_set_state [OF d m, of DEAD ALIVE]
    by (auto simp: reader_inv_def alive_counted_def)
  ultimately show thesis
    by (intro that [of "env_clock env (clock_reads r)" "?r3\<lparr>clock_reads := clock_reads ?r3 + 1\<rparr>"])
      (simp_all add: reader_inv_def)
qed

lemma lease_check_step:
  assumes "reader_inv r"
  shows "reader_inv (dr_handle_timeout env tv b r)"
    "liveness_of (dr_handle_timeout env tv b r)
      = map (\<lambda>(p, x). (p, expire tv (liveliness_lease_duration r) x)) (liveness_of r)"
proof -
  obtain sm n r1 where h: "dr_handle_timeout env tv b r =
       (if n = 0 then r1\<lparr>liveliness_timer_id := - 1\<rparr>
        else let now = env_clock env (clock_reads r1); rel = (if now < sm then sm - now else 1)
             in emit (Schedule_liveliness_timer rel)
                  (r1\<lparr>clock_reads := clock_reads r1 + 1, liveliness_timer_id := env_liveliness_timer env rel\<rparr>))"
    and c: "reader_inv r1" "liveness_of r1 = map (\<lambda>(p, x). (p, expire tv (liveliness_lease_duration r) x)) (liveness_of r)"
    "liveliness_lease_duration r1 = liveliness_lease_duration r"
    "n = length (expiries env r1)" "sm = Min (insert (env_max_time env) (set (expiries env r1)))"
    by (rule handle_timeout_cases [OF assms])
  show "reader_inv (dr_handle_timeout env tv b r)"
    "liveness_of (dr_handle_timeout env tv b r)
      = map (\<lambda>(p, x). (p, expire tv (liveliness_lease_duration r) x)) (liveness_of r)"
    using c by (auto simp: h Let_def reader_inv_def)
qed

section \<open>Properties\<close>

text \<open>
  (C12) A check of the leases, whether the timer fired or a writer made it, declares exactly those live
  writers dead whose lease has run out and leaves the states of the others alone; the counts of live and
  dead writers in the liveliness status stay right; and afterwards a timer is running exactly when some
  live writer can still expire, set to the earliest expiry or to at once when that has passed.
\<close>

theorem lease_check_correct:
  assumes "reader_inv r" and "dr_handle_timeout env tv from_this r = r'"
  shows "reader_inv r' \<and> liveness_of r' = map (\<lambda>(p, x). (p, expire tv (liveliness_lease_duration r) x)) (liveness_of r)
    \<and> (if expiries env r' = [] then liveliness_timer_id r' = - 1
       else \<exists>now. let t = Min (insert (env_max_time env) (set (expiries env r')));
                      rel = (if now < t then t - now else 1)
                  in liveliness_timer_id r' = env_liveliness_timer env rel
                     \<and> last (effects r') = Schedule_liveliness_timer rel)"
proof -
  from handle_timeout_cases [OF assms(1), of env tv from_this] obtain sm n r1 where
    r': "r' =
       (if n = 0 then r1\<lparr>liveliness_timer_id := - 1\<rparr>
        else let now = env_clock env (clock_reads r1); rel = (if now < sm then sm - now else 1)
             in emit (Schedule_liveliness_timer rel)
                  (r1\<lparr>clock_reads := clock_reads r1 + 1, liveliness_timer_id := env_liveliness_timer env rel\<rparr>))"
    and c: "reader_inv r1" "liveness_of r1 = map (\<lambda>(p, x). (p, expire tv (liveliness_lease_duration r) x)) (liveness_of r)"
    "liveliness_lease_duration r1 = liveliness_lease_duration r"
    "n = length (expiries env r1)" "sm = Min (insert (env_max_time env) (set (expiries env r1)))"
    unfolding assms(2) by metis
  have e: "expiries env r' = expiries env r1" "liveness_of r' = liveness_of r1" "reader_inv r'"
    using c(1) by (auto simp: r' expiries_def reader_inv_def Let_def emit_def liveness_of_def ids_of_def)
  show ?thesis
  proof (cases "n = 0")
    case True
    then show ?thesis using e c by (simp add: r')
  next
    case False
    then show ?thesis
      using e c by (auto simp: r' Let_def emit_def intro!: exI [of _ "env_clock env (clock_reads r1)"])
  qed
qed


text \<open>The entry of a writer after activity of it at a time.\<close>

definition touch :: "GUID_t \<Rightarrow> ace_time \<Rightarrow> (GUID_t \<times> WriterState \<times> ace_time) list
    \<Rightarrow> (GUID_t \<times> WriterState \<times> ace_time) list" where
  "touch p tv ls = map (\<lambda>(q, s, l). (q, if q = p then (ALIVE, tv) else (s, l))) ls"

lemma update_activity:
  assumes "reader_inv r"
  shows "reader_inv (update_writer p (\<lambda>i. i\<lparr>last_liveliness_activity_time := tv\<rparr>) r)"
    "liveness_of (update_writer p (\<lambda>i. i\<lparr>last_liveliness_activity_time := tv\<rparr>) r)
      = map (\<lambda>(q, s, l). (q, s, if q = p then tv else l)) (liveness_of r)"
    "find_writer p (update_writer p (\<lambda>i. i\<lparr>last_liveliness_activity_time := tv\<rparr>) r)
      = map_option (\<lambda>i. i\<lparr>last_liveliness_activity_time := tv\<rparr>) (find_writer p r)"
proof -
  let ?r = "update_writer p (\<lambda>i. i\<lparr>last_liveliness_activity_time := tv\<rparr>) r"
  show l: "liveness_of ?r = map (\<lambda>(q, s, l). (q, s, if q = p then tv else l)) (liveness_of r)"
    by (auto simp: liveness_of_def update_writer_def)
  have "count_state s (liveness_of ?r) = count_state s (liveness_of r)" for s
    unfolding l by (simp add: count_state_def filter_map comp_def case_prod_unfold)
  moreover have "map fst (liveness_of ?r) = map fst (liveness_of r)" by (simp add: l comp_def case_prod_beta)
  ultimately show "reader_inv ?r" using assms by (simp add: reader_inv_def)
  show "find_writer p ?r = map_option (\<lambda>i. i\<lparr>last_liveliness_activity_time := tv\<rparr>) (find_writer p r)"
    by (simp add: find_update_writer)
qed

text \<open>
  (C19) Activity of an associated writer, at the time the clock shows, makes it alive with that time as its
  last activity and keeps the counts right; if it was not alive before, the leases of all writers are
  checked at the next reading of the clock, and nothing else happens to the other writers.
\<close>

theorem activity_correct:
  assumes "reader_inv r" and "find_writer p r = Some info" and "received_activity env tv p r = r'"
  shows "reader_inv r' \<and> liveness_of r' =
    (if wi_state info = ALIVE then touch p tv (liveness_of r)
     else map (\<lambda>(q, x). (q, expire (env_clock env (clock_reads r)) (liveliness_lease_duration r) x))
            (touch p tv (liveness_of r)))"
proof -
  let ?r = "update_writer p (\<lambda>i. i\<lparr>last_liveliness_activity_time := tv\<rparr>) r"
  let ?info = "info\<lparr>last_liveliness_activity_time := tv\<rparr>"
  note u = update_activity [OF assms(1), of p tv]
  have i: "find_writer p ?r = Some ?info" using u(3) assms(2) by simp
  have d: "distinct (map fst (liveness_of r))" using assms(1) by (simp add: reader_inv_def)
  have mem: "(s, l) = (wi_state info, last_liveliness_activity_time info)" if "(p, s, l) \<in> set (liveness_of r)" for s l
    using that assms(2) d find_writer_liveness [of r p] by (auto simp: map_of_eq_Some_iff)
  show ?thesis
  proof (cases "wi_state info = ALIVE")
    case True
    then have "r' = ?r" using assms(3) i by (simp add: received_activity_def)
    moreover have "liveness_of ?r = touch p tv (liveness_of r)"
      unfolding u(2) touch_def using mem True by (auto intro!: map_cong)
    ultimately show ?thesis using True u(1) by simp
  next
    case False
    then have r': "r' = dr_writer_became_alive env p ?info ?r" using assms(3) i by (simp add: received_activity_def)
    obtain r1 now where b: "dr_writer_became_alive env p ?info ?r = dr_handle_timeout env now True r1" "reader_inv r1"
        "liveness_of r1 = set_state p ALIVE (liveness_of ?r)"
        "liveliness_lease_duration r1 = liveliness_lease_duration ?r" "now = env_clock env (clock_reads ?r)"
      by (rule became_alive_cases [OF u(1) i])
    have "liveness_of r1 = touch p tv (liveness_of r)"
      unfolding b(3) u(2) by (auto simp: set_state_def touch_def)
    moreover obtain r2 where "r' = r2" "reader_inv r2"
        "liveness_of r2 = map (\<lambda>(p, x). (p, expire now (liveliness_lease_duration r1) x)) (liveness_of r1)"
      using lease_check_step [OF b(2)] r' b(1) by metis
    ultimately show ?thesis using False b(4,5) by simp
  qed
qed


text \<open>A reader with one live writer whose lease of ten microseconds ran out, and an environment.\<close>

definition example_env :: reader_env where
  "example_env =
     \<lparr>env_max_time = 1000000, env_clock = (\<lambda>n. 20 + int n), env_truncate_long = (\<lambda>i. i),
      env_liveliness_timer = (\<lambda>_. 5), env_release_timer = (\<lambda>_. 6), env_sweeper_timer = (\<lambda>_. 7),
      env_has_listener = (\<lambda>_. False), env_sub_listener = (\<lambda>_. False), env_associate = (\<lambda>_. True), env_ack_sent = (\<lambda>_ _. True),
      env_get_handle = (\<lambda>_. 3), env_sort = strength_sort\<rparr>"

definition example_reader :: "WriterState \<Rightarrow> DataReaderImpl" where
  "example_reader s =
     \<lparr>dr_writers = [(weak_writer, (mk_WriterInfo 0 weak_writer initial_DataWriterQos)\<lparr>wi_state := s\<rparr>)],
      liveliness_changed_status =
        \<lparr>alive_count = (if s = ALIVE then 1 else 0), not_alive_count = (if s = DEAD then 1 else 0),
         alive_count_change = 0, not_alive_count_change = 0, lc_last_publication_handle = 0\<rparr>,
      subscription_match_status =
        \<lparr>sm_total_count = 0, sm_total_count_change = 0, sm_current_count = 0, sm_current_count_change = 0,
         sm_last_publication_handle = 0\<rparr>,
      id_to_handle_map = [], liveliness_timer_id = - 1, liveliness_lease_duration = 10,
      is_exclusive_ownership = True, always_get_history = False, is_bit = False, entity_deleted = False,
      subscription_id = GUID_UNKNOWN, dr_qos = initial_DataReaderQos, dr_instances = [(7, 0)],
      last_accepted = (\<lambda>_. 0), last_sample_tv = (\<lambda>_. 0), cur_sample_tv = (\<lambda>_. 0), has_watchdog = False,
      sub_presentation = initial_PresentationQosPolicy, status_changes = 0, owner_manager = example_owned, clock_reads = 0, effects = []\<rparr>"

lemma example_reader_facts:
  "reader_inv (example_reader s)" "liveness_of (example_reader s) = [(weak_writer, s, 0)]"
  "liveliness_lease_duration (example_reader s) = 10"
  "find_writer weak_writer (example_reader s) = Some ((mk_WriterInfo 0 weak_writer initial_DataWriterQos)\<lparr>wi_state := s\<rparr>)"
proof -
  show l: "liveness_of (example_reader s) = [(weak_writer, s, 0)]"
    by (simp add: example_reader_def liveness_of_def mk_WriterInfo_def reset_coherent_info_def)
  show "reader_inv (example_reader s)"
    by (simp add: reader_inv_def l count_state_def)
      (simp add: example_reader_def ids_of_def mk_WriterInfo_def reset_coherent_info_def)
  show "liveliness_lease_duration (example_reader s) = 10"
    "find_writer weak_writer (example_reader s) = Some ((mk_WriterInfo 0 weak_writer initial_DataWriterQos)\<lparr>wi_state := s\<rparr>)"
    by (simp_all add: example_reader_def find_writer_def)
qed

theorem lease_check_correct_witness:
  "liveness_of (dr_handle_timeout example_env 15 True (example_reader ALIVE)) = [(weak_writer, DEAD, 0)]"
  using lease_check_correct [OF example_reader_facts(1) refl, of example_env 15 True ALIVE]
  by (simp add: example_reader_facts(2,3) expire_def)

theorem activity_correct_witness:
  "liveness_of (received_activity example_env 18 weak_writer (example_reader DEAD)) = [(weak_writer, ALIVE, 18)]"
  using activity_correct [OF example_reader_facts(1,4) [of DEAD] refl, of example_env 18]
  by (simp add: example_reader_facts(2,3) expire_def touch_def example_env_def mk_WriterInfo_def
      reset_coherent_info_def) (simp add: example_reader_def)

end
