(* ===== verification/Std_Map.thy ===== *)
theory Std_Map
  imports DDS_Prelude "HOL-Library.Multiset"
begin

text \<open>
  \<open>std::map\<close> as an association list in the order of its keys: insertion, which leaves an existing entry
  alone, the update of an entry through an iterator, and erasure by key.
\<close>

definition map_insert :: "'k::linorder \<Rightarrow> 'v \<Rightarrow> ('k \<times> 'v) list \<Rightarrow> ('k \<times> 'v) list" where
  "map_insert k v m = (if map_of m k = None then insort_key fst (k, v) m else m)"

definition map_update :: "'k \<Rightarrow> 'v \<Rightarrow> ('k \<times> 'v) list \<Rightarrow> ('k \<times> 'v) list" where
  "map_update k v m = map (\<lambda>(k', v'). (k', if k' = k then v else v')) m"

definition map_erase :: "'k \<Rightarrow> ('k \<times> 'v) list \<Rightarrow> ('k \<times> 'v) list" where
  "map_erase k m = filter (\<lambda>(k', _). k' \<noteq> k) m"

lemma map_insert_keys: "set (map fst (map_insert k v m)) = insert k (set (map fst m))"
  by (auto simp: map_insert_def map_of_eq_None_iff set_insort_key rev_image_eqI dest: map_of_SomeD)

lemma distinct_map_insert: "distinct (map fst (map_insert k v m)) \<longleftrightarrow> distinct (map fst m)"
proof -
  have "mset (map fst (insort_key fst (k, v) m)) = add_mset k (mset (map fst m))"
    by (simp add: mset_map)
  then have "distinct (map fst (insort_key fst (k, v) m)) \<longleftrightarrow> distinct (k # map fst m)"
    by (metis mset.simps(2) mset_eq_imp_distinct_iff)
  then show ?thesis by (auto simp: map_insert_def map_of_eq_None_iff)
qed

lemma map_of_insort: "map_of m k = None \<Longrightarrow> map_of (insort_key fst (k, v) m) = (map_of m)(k \<mapsto> v)"
  by (induction m) (auto split: if_splits)

lemma map_of_map_insert:
  "map_of (map_insert k v m) = (if map_of m k = None then (map_of m)(k \<mapsto> v) else map_of m)"
  by (simp add: map_insert_def map_of_insort)

lemma map_of_map_update: "map_of (map_update k v m) k' = (if k' = k then map_option (\<lambda>_. v) (map_of m k) else map_of m k')"
  by (induction m) (auto simp: map_update_def)

lemma map_of_map_erase: "map_of (map_erase k m) k' = (if k' = k then None else map_of m k')"
  by (induction m) (auto simp: map_erase_def)

lemmas map_of_std = map_of_map_insert map_of_map_update map_of_map_erase

end
