(* ===== verification/Reader_Association.thy ===== *)
theory Reader_Association
  imports Data_Reader Std_Map
begin

text \<open>
  The association of writers with a reader: \<open>add_association\<close>, \<open>remove_associations\<close> and
  \<open>remove_all_associations\<close> of \<open>src/dds/DCPS/DataReaderImpl.cpp\<close>. The latency statistics of a writer,
  which are kept in a map of their own, and the monitor are left out. The answer of the transport to
  \<open>associate\<close> and of the participant to \<open>get_handle\<close> come from the environment.
\<close>

section \<open>Operations\<close>

definition update_match ::
    "(SubscriptionMatchedStatus \<Rightarrow> SubscriptionMatchedStatus) \<Rightarrow> DataReaderImpl \<Rightarrow> DataReaderImpl" where
  "update_match f r = r\<lparr>subscription_match_status := f (subscription_match_status r)\<rparr>"

text \<open>The listener is called with the status, whose changes are then reset.\<close>

definition notify_match :: "reader_env \<Rightarrow> DataReaderImpl \<Rightarrow> DataReaderImpl" where
  "notify_match env r =
     (let r = set_status_changed_flag SUBSCRIPTION_MATCHED_STATUS True r;
          r = (if env_has_listener env SUBSCRIPTION_MATCHED_STATUS
               then update_match (\<lambda>s. s\<lparr>sm_total_count_change := 0, sm_current_count_change := 0\<rparr>)
                      (emit (On_subscription_matched (subscription_match_status r)) r)
               else r)
      in emit Signal_status_condition r)"

definition get_subscription_matched_status :: "DataReaderImpl \<Rightarrow> SubscriptionMatchedStatus \<times> DataReaderImpl" where
  "get_subscription_matched_status r =
     (subscription_match_status r,
      update_match (\<lambda>s. s\<lparr>sm_total_count_change := 0, sm_current_count_change := 0\<rparr>)
        (set_status_changed_flag SUBSCRIPTION_MATCHED_STATUS False r))"

definition is_durable :: "DataReaderImpl \<Rightarrow> bool" where
  "is_durable r \<longleftrightarrow> du_kind (rq_durability (dr_qos r)) > VOLATILE_DURABILITY_QOS"

text \<open>
  The new \<open>WriterInfo\<close> enters the map unless there is one already; the timer of a durable reader is
  recorded in the new object in both cases.
\<close>

definition insert_writer :: "reader_env \<Rightarrow> GUID_t \<Rightarrow> DataWriterQos \<Rightarrow> DataReaderImpl \<Rightarrow> DataReaderImpl" where
  "insert_writer env wid qos r =
     (case gettimeofday env r of
        (now, r) \<Rightarrow>
          let info = mk_WriterInfo now wid qos;
              info = (if is_durable r then info\<lparr>historic_samples_timer := env_sweeper_timer env wid\<rparr> else info);
              r = (if is_durable r then emit (Schedule_sweeper wid) r else r)
          in r\<lparr>dr_writers := map_insert wid info (dr_writers r)\<rparr>)"

text \<open>An acknowledgement is sent if one is due, and the deadlines it satisfies are removed when it went out.\<close>

definition send_due_ack :: "reader_env \<Rightarrow> GUID_t \<Rightarrow> sequence_number \<Rightarrow> ace_time \<Rightarrow> DataReaderImpl \<Rightarrow> DataReaderImpl" where
  "send_due_ack env wid sequence now r =
     (let r = emit (Send_sample_ack wid sequence (time_value_to_time (env_truncate_long env) now)) r
      in if env_ack_sent env wid sequence then update_writer wid (clear_acks sequence) r else r)"

definition check_request_ack :: "reader_env \<Rightarrow> GUID_t \<Rightarrow> DataReaderImpl \<Rightarrow> DataReaderImpl" where
  "check_request_ack env wid r =
     (case find_writer wid r of
        None \<Rightarrow> r
      | Some info \<Rightarrow>
          (case gettimeofday env r of
             (now, r) \<Rightarrow>
               (case should_ack now info of
                  (due, info) \<Rightarrow>
                    let r = update_writer wid (\<lambda>_. info) r
                    in if due then send_due_ack env wid (get_ack_sequence info) now r else r)))"

definition match_writer :: "reader_env \<Rightarrow> GUID_t \<Rightarrow> DataReaderImpl \<Rightarrow> DataReaderImpl" where
  "match_writer env wid r =
     (let handle = env_get_handle env wid;
          r = r\<lparr>id_to_handle_map := map_insert wid handle (id_to_handle_map r)\<rparr>;
          matched = int (length (id_to_handle_map r));
          r = update_match (\<lambda>s. s\<lparr>sm_current_count_change := matched - sm_current_count s,
                                   sm_current_count := matched,
                                   sm_total_count := sm_total_count s + 1,
                                   sm_total_count_change := sm_total_count_change s + 1,
                                   sm_last_publication_handle := handle\<rparr>) r;
          r = notify_match env r
      in update_writer wid (\<lambda>i. i\<lparr>wi_handle := handle\<rparr>) r)"

definition add_association ::
    "reader_env \<Rightarrow> GUID_t \<Rightarrow> GUID_t \<Rightarrow> DataWriterQos \<Rightarrow> bool \<Rightarrow> DataReaderImpl \<Rightarrow> DataReaderImpl" where
  "add_association env your_id wid qos active r =
     (if entity_deleted r then r
      else
        let r = (if subscription_id r = GUID_UNKNOWN then r\<lparr>subscription_id := your_id\<rparr> else r);
            r = insert_writer env wid qos r;
            r = emit (Associate_transport wid active) r
        in if \<not> env_associate env wid then r
           else
             let r = check_request_ack env wid r;
                 r = (if liveliness_lease_duration r \<noteq> 0
                      then (case gettimeofday env r of (now, r) \<Rightarrow> dr_handle_timeout env now True r)
                      else r);
                 r = (if \<not> is_bit r then match_writer env wid r else r)
             in if \<not> active then emit (Association_complete wid) r else r)"

text \<open>The loop of \<open>remove_associations\<close>: the writers that were in the map.\<close>

fun remove_writers_loop :: "reader_env \<Rightarrow> GUID_t list \<Rightarrow> DataReaderImpl \<Rightarrow> GUID_t list \<times> DataReaderImpl" where
  "remove_writers_loop env [] r = ([], r)"
| "remove_writers_loop env (p # ps) r =
     (case find_writer p r of
        None \<Rightarrow> remove_writers_loop env ps r
      | Some info \<Rightarrow>
          let r = writer_removed env p info r;
              r = r\<lparr>dr_writers := AList.delete p (dr_writers r)\<rparr>
          in case remove_writers_loop env ps r of (updated, r) \<Rightarrow> (p # updated, r))"

definition lookup_instance_handles :: "reader_env \<Rightarrow> GUID_t list \<Rightarrow> int list" where
  "lookup_instance_handles env ids = map (env_get_handle env) ids"

definition unmatch_writers :: "reader_env \<Rightarrow> int list \<Rightarrow> DataReaderImpl \<Rightarrow> DataReaderImpl" where
  "unmatch_writers env handles r =
     (let matched = int (length (id_to_handle_map r));
          r = update_match (\<lambda>s. s\<lparr>sm_current_count_change := matched - sm_current_count s\<rparr>) r
      in if sm_current_count_change (subscription_match_status r) \<noteq> 0
         then notify_match env
                (update_match (\<lambda>s. s\<lparr>sm_current_count := matched, sm_last_publication_handle := last handles\<rparr>) r)
         else r)"

definition remove_associations :: "reader_env \<Rightarrow> GUID_t list \<Rightarrow> bool \<Rightarrow> DataReaderImpl \<Rightarrow> DataReaderImpl" where
  "remove_associations env ws notify_lost r =
     (if ws = [] then r
      else case remove_writers_loop env ws r of
             (updated, r) \<Rightarrow>
               if updated = [] then r
               else
                 let handles = (if \<not> is_bit r then lookup_instance_handles env updated else []);
                     r = (if \<not> is_bit r
                          then r\<lparr>id_to_handle_map := fold AList.delete updated (id_to_handle_map r)\<rparr> else r);
                     r = fold (\<lambda>p. emit (Disassociate_transport p)) updated r;
                     r = (if \<not> is_bit r then unmatch_writers env handles r else r)
                 in if notify_lost then emit (Subscription_lost handles) r else r)"

definition remove_all_associations :: "reader_env \<Rightarrow> DataReaderImpl \<Rightarrow> DataReaderImpl" where
  "remove_all_associations env r =
     (let writers = map fst (dr_writers r)
      in if 0 < length writers then remove_associations env writers False r else r)"


section \<open>Frames\<close>

lemma update_match_fields [simp]:
  "dr_writers (update_match f r) = dr_writers r" "liveliness_changed_status (update_match f r) = liveliness_changed_status r"
  "id_to_handle_map (update_match f r) = id_to_handle_map r" "is_bit (update_match f r) = is_bit r"
  "subscription_match_status (update_match f r) = f (subscription_match_status r)"
  "liveness_of (update_match f r) = liveness_of r" "ids_of (update_match f r) = ids_of r"
  "dr_instances (update_match f r) = dr_instances r" "owner_manager (update_match f r) = owner_manager r"
  by (simp_all add: update_match_def liveness_of_def ids_of_def)

lemma emit_match [simp]:
  "id_to_handle_map (emit e r) = id_to_handle_map r" "is_bit (emit e r) = is_bit r"
  "subscription_match_status (emit e r) = subscription_match_status r"
  by (simp_all add: emit_def)

lemma set_status_changed_flag_match [simp]:
  "id_to_handle_map (set_status_changed_flag k b r) = id_to_handle_map r"
  "is_bit (set_status_changed_flag k b r) = is_bit r"
  "subscription_match_status (set_status_changed_flag k b r) = subscription_match_status r"
  by (simp_all add: set_status_changed_flag_def)

lemma update_writer_match [simp]:
  "id_to_handle_map (update_writer p f r) = id_to_handle_map r" "is_bit (update_writer p f r) = is_bit r"
  "subscription_match_status (update_writer p f r) = subscription_match_status r"
  by (simp_all add: update_writer_def)

lemma notify_match_fields [simp]:
  "dr_writers (notify_match env r) = dr_writers r"
  "liveliness_changed_status (notify_match env r) = liveliness_changed_status r"
  "id_to_handle_map (notify_match env r) = id_to_handle_map r" "is_bit (notify_match env r) = is_bit r"
  "liveness_of (notify_match env r) = liveness_of r" "ids_of (notify_match env r) = ids_of r"
  "sm_current_count (subscription_match_status (notify_match env r)) = sm_current_count (subscription_match_status r)"
  "sm_total_count (subscription_match_status (notify_match env r)) = sm_total_count (subscription_match_status r)"
  "dr_instances (notify_match env r) = dr_instances r" "owner_manager (notify_match env r) = owner_manager r"
  by (simp_all add: notify_match_def Let_def)

text \<open>The liveliness operations do not touch the matching status.\<close>

definition match_part :: "DataReaderImpl \<Rightarrow> (GUID_t \<times> int) list \<times> SubscriptionMatchedStatus \<times> bool" where
  "match_part r = (id_to_handle_map r, subscription_match_status r, is_bit r)"

lemma match_part_frames [simp]:
  "match_part (emit e r) = match_part r" "match_part (set_status_changed_flag k b r) = match_part r"
  "match_part (update_writer p f r) = match_part r" "match_part (update_status g r) = match_part r"
  "match_part (instances_liveliness_update env p r) = match_part r"
  "match_part (r\<lparr>clock_reads := c\<rparr>) = match_part r" "match_part (r\<lparr>liveliness_timer_id := t\<rparr>) = match_part r"
  "match_part (r\<lparr>dr_writers := ws\<rparr>) = match_part r" "match_part (r\<lparr>owner_manager := w\<rparr>) = match_part r"
  by (simp_all add: match_part_def update_status_def instances_liveliness_update_def)

lemma match_part_liveliness [simp]:
  "match_part (notify_liveliness_change env r) = match_part r"
  "match_part (drop_ownership env p r) = match_part r"
  by (simp_all add: notify_liveliness_change_def Let_def drop_ownership_def)

lemma match_part_dead [simp]: "match_part (dr_writer_became_dead env p info r) = match_part r"
  by (simp add: dr_writer_became_dead_def Let_def)

lemma match_part_check: "check_activity env tv p info r = (t, r') \<Longrightarrow> match_part r' = match_part r"
  by (auto simp: check_activity_def Let_def split: if_splits)

lemma match_part_check_writers: "match_part (snd (snd (check_writers env tv ps sm n r))) = match_part r"
proof (induction ps arbitrary: sm n r)
  case (Cons p ps)
  show ?case
  proof (cases "find_writer p r")
    case (Some info)
    then show ?thesis
      using Cons match_part_check [of env tv p info r] by (simp split: prod.splits)
  qed (use Cons in simp)
qed simp

lemma match_part_timeout [simp]: "match_part (dr_handle_timeout env tv b r) = match_part r"
proof -
  have s: "match_part (timeout_start b r) = match_part r" by (simp add: timeout_start_def)
  show ?thesis
    using match_part_check_writers [of env tv "map fst (dr_writers (timeout_start b r))" "env_max_time env" 0 "timeout_start b r"] s
    by (auto simp: handle_timeout_start Let_def match_part_def emit_def split: prod.splits)
qed

section \<open>Insertion and removal of writers\<close>

lemma count_map_insert:
  "t \<noteq> NOT_SET \<Longrightarrow> count_state t (map (\<lambda>(p, i). (p, wi_state i, last_liveliness_activity_time i))
      (insort_key fst (k, v) m)) = count_state t (map (\<lambda>(p, i). (p, wi_state i, last_liveliness_activity_time i)) m)"
  if "wi_state v = NOT_SET" for t
  using that by (induction m) (auto simp: count_state_def)

lemma insert_writer_correct:
  assumes inv: "reader_inv r"
  shows "reader_inv (insert_writer env wid qos r)" "match_part (insert_writer env wid qos r) = match_part r"
    "set (map fst (liveness_of (insert_writer env wid qos r))) = insert wid (set (map fst (liveness_of r)))"
proof -
  let ?now = "env_clock env (clock_reads r)"
  define info where "info = (let i = mk_WriterInfo ?now wid qos in
    if is_durable r then i\<lparr>historic_samples_timer := env_sweeper_timer env wid\<rparr> else i)"
  have i: "wi_state info = NOT_SET" "writer_id info = wid"
    by (simp_all add: info_def mk_WriterInfo_def reset_coherent_info_def Let_def)
  let ?r = "insert_writer env wid qos r"
  have w: "dr_writers ?r = map_insert wid info (dr_writers r)"
      "liveliness_changed_status ?r = liveliness_changed_status r"
    by (simp_all add: insert_writer_def gettimeofday_def info_def is_durable_def Let_def emit_def)
  show "match_part ?r = match_part r"
    by (simp add: insert_writer_def gettimeofday_def Let_def)
  show "set (map fst (liveness_of ?r)) = insert wid (set (map fst (liveness_of r)))"
    by (simp only: liveness_of_keys w map_insert_keys)
  have "distinct (map fst (liveness_of ?r))"
    using inv by (simp add: reader_inv_def liveness_of_keys w distinct_map_insert)
  moreover have "\<forall>(p, q) \<in> set (ids_of ?r). p = q"
    using inv i by (auto simp: reader_inv_def ids_of_def w map_insert_def set_insort_key)
  moreover have "count_state t (liveness_of ?r) = count_state t (liveness_of r)" if "t \<noteq> NOT_SET" for t
    using count_map_insert [OF i(1) that] by (simp add: liveness_of_def w map_insert_def)
  ultimately show "reader_inv ?r" using inv by (simp add: reader_inv_def w)
qed


lemma removed_writer_fields:
  "liveness_of (writer_removed env p info r) = liveness_of r" "ids_of (writer_removed env p info r) = ids_of r"
  "alive_count (liveliness_changed_status (writer_removed env p info r))
    = alive_count (liveliness_changed_status r) - (if wi_state info = ALIVE then 1 else 0)"
  "not_alive_count (liveliness_changed_status (writer_removed env p info r))
    = not_alive_count (liveliness_changed_status r) - (if wi_state info = DEAD then 1 else 0)"
  "match_part (writer_removed env p info r) = match_part r"
  "dr_instances (writer_removed env p info r) = dr_instances r"
  by (cases "wi_state info"; simp add: writer_removed_def Let_def gettimeofday_def)+

lemma count_delete:
  assumes "distinct (map fst ls)" "map_of ls p = Some (s, l)"
  shows "count_state t (AList.delete p ls) = count_state t ls - (if s = t then 1 else 0)"
  using assms
proof (induction ls)
  case (Cons x ls)
  obtain q t' l' where x: "x = (q, t', l')" by (metis prod_cases3)
  show ?case
  proof (cases "q = p")
    case True
    then have "p \<notin> fst ` set ls" using Cons.prems x by simp
    then have "AList.delete p ls = ls" by (simp add: delete_idem)
    then show ?thesis using Cons.prems x True by (auto simp: count_state_def)
  next
    case False
    then show ?thesis using Cons x by (auto simp: count_state_def)
  qed
qed simp

lemma delete_filter: "AList.delete p ls = filter (\<lambda>x. fst x \<noteq> p) ls"
  by (auto simp: AList.delete_eq intro!: filter_cong)

lemma delete_projections:
  "liveness_of (r\<lparr>dr_writers := AList.delete p (dr_writers r)\<rparr>) = AList.delete p (liveness_of r)"
  "set (ids_of (r\<lparr>dr_writers := AList.delete p (dr_writers r)\<rparr>)) \<subseteq> set (ids_of r)"
  by (auto simp: liveness_of_def ids_of_def AList.delete_eq filter_map comp_def case_prod_unfold)

text \<open>One round of the loop of \<open>remove_associations\<close>.\<close>

definition forget_writer :: "reader_env \<Rightarrow> GUID_t \<Rightarrow> WriterInfo \<Rightarrow> DataReaderImpl \<Rightarrow> DataReaderImpl" where
  "forget_writer env p info r =
     (let r = writer_removed env p info r in r\<lparr>dr_writers := AList.delete p (dr_writers r)\<rparr>)"

lemma forget_writer_correct:
  assumes inv: "reader_inv r" and i: "find_writer p r = Some info"
  shows "reader_inv (forget_writer env p info r)"
    "liveness_of (forget_writer env p info r) = AList.delete p (liveness_of r)"
    "match_part (forget_writer env p info r) = match_part r"
    "dr_instances (forget_writer env p info r) = dr_instances r"
proof -
  let ?r = "writer_removed env p info r"
  have d: "distinct (map fst (liveness_of r))" using inv by (simp add: reader_inv_def)
  have m: "map_of (liveness_of r) p = Some (wi_state info, last_liveliness_activity_time info)"
    using i by (simp add: find_writer_liveness)
  show l: "liveness_of (forget_writer env p info r) = AList.delete p (liveness_of r)"
    by (simp add: forget_writer_def Let_def delete_projections(1) removed_writer_fields)
  have "\<forall>(p, q) \<in> set (ids_of (forget_writer env p info r)). p = q"
    using inv delete_projections(2) [of p ?r] by (auto simp: forget_writer_def Let_def reader_inv_def removed_writer_fields)
  then show "reader_inv (forget_writer env p info r)"
    using inv count_delete [OF d m] l
    by (simp add: reader_inv_def distinct_delete) (simp add: forget_writer_def Let_def removed_writer_fields)
  show "match_part (forget_writer env p info r) = match_part r"
    "dr_instances (forget_writer env p info r) = dr_instances r"
    by (simp_all add: forget_writer_def Let_def removed_writer_fields)
qed

lemma remove_writers_loop_correct:
  assumes "reader_inv r" "remove_writers_loop env ps r = (updated, r')"
  shows "reader_inv r' \<and> match_part r' = match_part r \<and> dr_instances r' = dr_instances r
    \<and> liveness_of r' = filter (\<lambda>x. fst x \<notin> set ps) (liveness_of r)
    \<and> set updated = set ps \<inter> fst ` set (liveness_of r)"
  using assms
proof (induction ps arbitrary: r updated r')
  case (Cons p ps)
  show ?case
  proof (cases "find_writer p r")
    case None
    then have "p \<notin> fst ` set (liveness_of r)"
      using find_writer_liveness [of r p] by (simp add: map_of_eq_None_iff)
    then have "filter (\<lambda>x. fst x \<notin> set (p # ps)) (liveness_of r) = filter (\<lambda>x. fst x \<notin> set ps) (liveness_of r)"
      by (intro filter_cong) (auto simp: rev_image_eqI)
    then show ?thesis
      using Cons.IH [OF Cons.prems(1), of updated r'] Cons.prems(2) None \<open>p \<notin> _\<close> by auto
  next
    case (Some info)
    note f = forget_writer_correct [OF Cons.prems(1) Some, of env]
    obtain ups r2 where l: "remove_writers_loop env ps (forget_writer env p info r) = (ups, r2)" by (metis surj_pair)
    then have r: "updated = p # ups" "r' = r2"
      using Cons.prems(2) Some by (simp_all add: forget_writer_def Let_def)
    have "p \<in> fst ` set (liveness_of r)"
      using Some find_writer_liveness [of r p] by (force dest: map_of_SomeD)
    moreover from Cons.IH [OF f(1) l]
    have IH: "reader_inv r'" "match_part r' = match_part r" "dr_instances r' = dr_instances r"
        "liveness_of r' = filter (\<lambda>x. fst x \<notin> set ps) (AList.delete p (liveness_of r))"
        "set ups = set ps \<inter> fst ` set (AList.delete p (liveness_of r))"
      by (simp_all add: f r)
    moreover have "liveness_of r' = filter (\<lambda>x. fst x \<notin> set (p # ps)) (liveness_of r)"
      using IH(4) by (auto simp: delete_filter intro!: filter_cong)
    moreover have "fst ` set (AList.delete p (liveness_of r)) = fst ` set (liveness_of r) - {p}"
      by (auto simp: delete_filter)
    ultimately show ?thesis using r(1) by auto
  qed
qed (auto simp: filter_id_conv)


section \<open>The writers of the instances\<close>

text \<open>The writers an instance of the reader knows; operations on the owner do not change them.\<close>

definition inst_writers :: "DataReaderImpl \<Rightarrow> nat \<Rightarrow> GUID_t set" where
  "inst_writers r a = writers (om_store (owner_manager r) a)"

lemma writers_became_dead [simp]: "writers (fst (writer_became_dead qos sched p st)) = writers st - {p}"
  by (simp add: writer_became_dead_def check_no_writers_def erase_writer_def)

lemma on_instance_writers:
  "writers (om_store (on_instance (writer_became_dead qos sched p) a w) b)
    = (if b = a then writers (om_store w b) - {p} else writers (om_store w b))"
  by (simp add: on_instance_def case_prod_beta)

lemma inst_writers_update:
  "inst_writers (instances_liveliness_update env p r) a
    = (if a \<in> snd ` set (dr_instances r) then inst_writers r a - {p} else inst_writers r a)"
proof -
  have "writers (om_store (fold (\<lambda>(h, a). on_instance (writer_became_dead qos sched p) a) is w) a)
      = (if a \<in> snd ` set is then writers (om_store w a) - {p} else writers (om_store w a))"
    for "is" :: "(int \<times> nat) list" and qos sched w
    by (induction "is" arbitrary: w) (auto simp: on_instance_writers split: if_splits)
  then show ?thesis by (simp add: inst_writers_def instances_liveliness_update_def)
qed

lemma remove_owner_infos_writers:
  "remove_owner_infos srt i b store = (i', store') \<Longrightarrow> writers (store' a) = writers (store a)"
  by (auto simp: remove_owner_infos_def Let_def broadcast_new_owner_apply set_owner_def split: if_splits)

lemma remove_writer_each_writers:
  "remove_writer_each srt p es store = (es', store') \<Longrightarrow> writers (store' a) = writers (store a)"
proof (induction es arbitrary: store es' store')
  case (Cons e es)
  obtain h i where e: "e = (h, i)" by (cases e)
  obtain c i1 st1 where w: "remove_writer_infos srt i p store = (c, i1, st1)" by (metis prod_cases3)
  obtain es2 st2 where l: "remove_writer_each srt p es st1 = (es2, st2)" by (metis surj_pair)
  have "writers (st1 a) = writers (store a)"
    using w remove_owner_infos_writers [of srt i False store i1 st1 a]
    by (auto simp: remove_writer_infos_def split: if_splits)
  then show ?case using Cons.IH [OF l] Cons.prems by (simp add: e w l)
qed simp

lemma inst_writers_drop [simp]: "inst_writers (drop_ownership env p r) a = inst_writers r a"
  using remove_writer_each_writers [of "env_sort env" p "instance_ownership_infos (owner_manager r)" "om_store (owner_manager r)"]
  by (auto simp: inst_writers_def drop_ownership_def remove_writer_all_def split: prod.splits)

lemma inst_writers_frames [simp]:
  "inst_writers (emit e r) a = inst_writers r a" "inst_writers (set_status_changed_flag k b r) a = inst_writers r a"
  "inst_writers (update_status g r) a = inst_writers r a" "inst_writers (notify_liveliness_change env r) a = inst_writers r a"
  "inst_writers (r\<lparr>clock_reads := c\<rparr>) a = inst_writers r a" "inst_writers (r\<lparr>dr_writers := ws\<rparr>) a = inst_writers r a"
  "inst_writers (r\<lparr>id_to_handle_map := m\<rparr>) a = inst_writers r a"
  "inst_writers (update_match g' r) a = inst_writers r a" "inst_writers (notify_match env r) a = inst_writers r a"
  by (simp_all add: inst_writers_def)

lemma inst_writers_forget:
  "inst_writers (forget_writer env p info r) a
    = (if a \<in> snd ` set (dr_instances r) then inst_writers r a - {p} else inst_writers r a)"
  by (cases "wi_state info")
    (simp_all add: forget_writer_def writer_removed_def Let_def gettimeofday_def inst_writers_update)

lemma inst_writers_loop:
  assumes "reader_inv r" "remove_writers_loop env ps r = (updated, r')"
  shows "inst_writers r' a = (if a \<in> snd ` set (dr_instances r) then inst_writers r a - set updated else inst_writers r a)"
  using assms
proof (induction ps arbitrary: r updated r')
  case (Cons p ps)
  show ?case
  proof (cases "find_writer p r")
    case None
    then show ?thesis using Cons.IH [OF Cons.prems(1), of updated r'] Cons.prems(2) by simp
  next
    case (Some info)
    note f = forget_writer_correct [OF Cons.prems(1) Some, of env]
    obtain ups r2 where l: "remove_writers_loop env ps (forget_writer env p info r) = (ups, r2)" by (metis surj_pair)
    then have "updated = p # ups" "r' = r2"
      using Cons.prems(2) Some by (simp_all add: forget_writer_def Let_def)
    then show ?thesis using Cons.IH [OF f(1) l] f(4) by (auto simp: inst_writers_forget)
  qed
qed simp

section \<open>Properties\<close>

text \<open>
  The number of matched publications is that of the identifiers with a handle; each of them is an
  associated writer, and a reader of a built-in topic has none.
\<close>

definition match_inv :: "DataReaderImpl \<Rightarrow> bool" where
  "match_inv r \<longleftrightarrow>
     distinct (map fst (id_to_handle_map r))
     \<and> sm_current_count (subscription_match_status r) = int (length (id_to_handle_map r))
     \<and> fst ` set (id_to_handle_map r) \<subseteq> fst ` set (liveness_of r)
     \<and> (is_bit r \<longrightarrow> id_to_handle_map r = [])"

lemma match_inv_part:
  assumes "match_part r = match_part r'" "fst ` set (liveness_of r') \<subseteq> fst ` set (liveness_of r)" "match_inv r'"
  shows "match_inv r"
proof -
  have "fst ` set (id_to_handle_map r') \<subseteq> fst ` set (liveness_of r)"
    using assms(2,3) unfolding match_inv_def by (meson subset_trans)
  then show ?thesis using assms(1,3) by (simp add: match_part_def match_inv_def)
qed

lemma reader_inv_emit [simp]: "reader_inv (emit e r) = reader_inv r"
  by (simp add: reader_inv_def)

lemma fold_emit_fields [simp]:
  "match_part (fold (\<lambda>p. emit (e p)) ps r) = match_part r" "liveness_of (fold (\<lambda>p. emit (e p)) ps r) = liveness_of r"
  "is_bit (fold (\<lambda>p. emit (e p)) ps r) = is_bit r"
  "reader_inv (fold (\<lambda>p. emit (e p)) ps r) = reader_inv r" "inst_writers (fold (\<lambda>p. emit (e p)) ps r) a = inst_writers r a"
  by (induction ps arbitrary: r) simp_all

lemma set_handles_fields [simp]:
  "liveness_of (r\<lparr>id_to_handle_map := m\<rparr>) = liveness_of r" "reader_inv (r\<lparr>id_to_handle_map := m\<rparr>) = reader_inv r"
  "match_part (r\<lparr>id_to_handle_map := m\<rparr>) = (m, subscription_match_status r, is_bit r)"
  by (simp_all add: reader_inv_def liveness_of_def ids_of_def match_part_def)

lemma unmatch_writers_fields [simp]:
  "liveness_of (unmatch_writers env hs r) = liveness_of r" "reader_inv (unmatch_writers env hs r) = reader_inv r"
  "inst_writers (unmatch_writers env hs r) a = inst_writers r a"
  "id_to_handle_map (unmatch_writers env hs r) = id_to_handle_map r" "is_bit (unmatch_writers env hs r) = is_bit r"
  "sm_current_count (subscription_match_status (unmatch_writers env hs r)) = int (length (id_to_handle_map r))"
  by (simp_all add: unmatch_writers_def Let_def reader_inv_def)

lemma set_writer_projections:
  assumes inv: "reader_inv r" and i: "find_writer p r = Some i"
    and same: "wi_state j = wi_state i" "last_liveliness_activity_time j = last_liveliness_activity_time i"
      "writer_id j = writer_id i"
  shows "liveness_of (update_writer p (\<lambda>_. j) r) = liveness_of r" "ids_of (update_writer p (\<lambda>_. j) r) = ids_of r"
proof -
  have "distinct (map fst (dr_writers r))" using inv by (simp add: reader_inv_def liveness_of_keys)
  then have "k = i" if "(p, k) \<in> set (dr_writers r)" for k
    using that i map_of_is_SomeI [of "dr_writers r" p k] by (simp add: find_writer_def)
  then show "liveness_of (update_writer p (\<lambda>_. j) r) = liveness_of r" "ids_of (update_writer p (\<lambda>_. j) r) = ids_of r"
    using same by (auto simp: liveness_of_def ids_of_def update_writer_def)
qed

lemma should_ack_fields:
  "should_ack now i = (b, j) \<Longrightarrow> wi_state j = wi_state i \<and> last_liveliness_activity_time j = last_liveliness_activity_time i
     \<and> writer_id j = writer_id i"
  by (auto simp: should_ack_def split: if_splits prod.splits)

lemma update_writer_same:
  assumes "\<And>i. wi_state (f i) = wi_state i" "\<And>i. last_liveliness_activity_time (f i) = last_liveliness_activity_time i"
  shows "liveness_of (update_writer p f r) = liveness_of r"
  using assms by (auto simp: liveness_of_def update_writer_def)

lemma reader_inv_cong:
  "liveness_of r = liveness_of r' \<Longrightarrow> ids_of r = ids_of r' \<Longrightarrow>
   liveliness_changed_status r = liveliness_changed_status r' \<Longrightarrow> reader_inv r = reader_inv r'"
  by (simp add: reader_inv_def)

lemma check_request_ack_correct:
  assumes inv: "reader_inv r"
  shows "reader_inv (check_request_ack env wid r)" "liveness_of (check_request_ack env wid r) = liveness_of r"
    "match_part (check_request_ack env wid r) = match_part r"
proof -
  have "reader_inv (check_request_ack env wid r) \<and> liveness_of (check_request_ack env wid r) = liveness_of r
    \<and> match_part (check_request_ack env wid r) = match_part r"
  proof (cases "find_writer wid r")
    case None
    then show ?thesis using inv by (simp add: check_request_ack_def)
  next
    case (Some info)
    let ?now = "env_clock env (clock_reads r)" and ?r = "r\<lparr>clock_reads := clock_reads r + 1\<rparr>"
    obtain due j where a: "should_ack ?now info = (due, j)" by (metis surj_pair)
    have r: "reader_inv ?r" "find_writer wid ?r = Some info" using inv Some by (simp_all add: reader_inv_def find_writer_def)
    let ?r1 = "update_writer wid (\<lambda>_. j) ?r"
    have p: "liveness_of ?r1 = liveness_of r" "ids_of ?r1 = ids_of r"
      using set_writer_projections [OF r, of j] should_ack_fields [OF a] by simp_all
    define r2 where "r2 = (if due then send_due_ack env wid (get_ack_sequence j) ?now ?r1 else ?r1)"
    have "liveness_of r2 = liveness_of r" "ids_of r2 = ids_of r"
        "liveliness_changed_status r2 = liveliness_changed_status r" "match_part r2 = match_part r"
      using p by (simp_all add: r2_def send_due_ack_def Let_def update_writer_same clear_acks_def)
    moreover have "check_request_ack env wid r = r2"
      using Some a by (simp add: check_request_ack_def gettimeofday_def r2_def Let_def)
    ultimately show ?thesis using inv reader_inv_cong [of r2 r] by simp
  qed
  then show "reader_inv (check_request_ack env wid r)" "liveness_of (check_request_ack env wid r) = liveness_of r"
    "match_part (check_request_ack env wid r) = match_part r" by blast+
qed

lemma match_writer_correct:
  assumes "reader_inv r" "match_inv r" "wid \<in> fst ` set (liveness_of r)" "\<not> is_bit r"
  shows "reader_inv (match_writer env wid r) \<and> match_inv (match_writer env wid r)
    \<and> liveness_of (match_writer env wid r) = liveness_of r \<and> is_bit (match_writer env wid r) = is_bit r
    \<and> set (map fst (id_to_handle_map (match_writer env wid r))) = insert wid (set (map fst (id_to_handle_map r)))
    \<and> sm_total_count (subscription_match_status (match_writer env wid r)) = sm_total_count (subscription_match_status r) + 1"
proof -
  let ?r = "match_writer env wid r"
  have l: "liveness_of ?r = liveness_of r" "ids_of ?r = ids_of r" "liveliness_changed_status ?r = liveliness_changed_status r"
      "is_bit ?r = is_bit r" "id_to_handle_map ?r = map_insert wid (env_get_handle env wid) (id_to_handle_map r)"
      "sm_current_count (subscription_match_status ?r) = int (length (id_to_handle_map ?r))"
      "sm_total_count (subscription_match_status ?r) = sm_total_count (subscription_match_status r) + 1"
    by (simp_all add: match_writer_def Let_def update_writer_same) (simp_all add: liveness_of_def ids_of_def)
  have "match_inv ?r"
    unfolding match_inv_def using assms(2-4) l map_insert_keys [of wid "env_get_handle env wid" "id_to_handle_map r"]
    by (simp add: match_inv_def distinct_map_insert)
  moreover have "reader_inv ?r" using assms(1) l reader_inv_cong [of ?r r] by simp
  ultimately show ?thesis using l by (simp only: map_insert_keys)
qed



text \<open>
  (C13) \<open>remove_associations\<close> removes the given writers and no others: they are no longer associated or
  matched, the states of the others are unchanged, no instance of the reader lists a removed writer any
  more, and all counts stay right.
\<close>

theorem remove_associations_correct:
  assumes "reader_inv r" and "match_inv r" and "remove_associations env ws notify_lost r = r'"
  shows "reader_inv r' \<and> match_inv r' \<and> liveness_of r' = filter (\<lambda>x. fst x \<notin> set ws) (liveness_of r)
    \<and> fst ` set (id_to_handle_map r') = fst ` set (id_to_handle_map r) - set ws
    \<and> (\<forall>a \<in> snd ` set (dr_instances r). inst_writers r' a = inst_writers r a - (set ws \<inter> fst ` set (liveness_of r)))"
proof (cases "ws = []")
  case True
  then show ?thesis using assms by (simp add: remove_associations_def)
next
  case False
  obtain updated r1 where l: "remove_writers_loop env ws r = (updated, r1)" by (metis surj_pair)
  from remove_writers_loop_correct [OF assms(1) l] inst_writers_loop [OF assms(1) l]
  have 1: "reader_inv r1" "match_part r1 = match_part r" "liveness_of r1 = filter (\<lambda>x. fst x \<notin> set ws) (liveness_of r)"
      "set updated = set ws \<inter> fst ` set (liveness_of r)"
      "\<And>a. a \<in> snd ` set (dr_instances r) \<Longrightarrow> inst_writers r1 a = inst_writers r a - set updated" by auto
  have sub: "fst ` set (id_to_handle_map r) \<subseteq> fst ` set (liveness_of r)" and m: "distinct (map fst (id_to_handle_map r))"
      "sm_current_count (subscription_match_status r) = int (length (id_to_handle_map r))"
      "is_bit r \<Longrightarrow> id_to_handle_map r = []"
    using assms(2) by (auto simp: match_inv_def)
  have p: "id_to_handle_map r1 = id_to_handle_map r" "is_bit r1 = is_bit r"
      "subscription_match_status r1 = subscription_match_status r"
    using 1(2) by (simp_all add: match_part_def)
  have keys: "fst ` set (liveness_of r1) = fst ` set (liveness_of r) - set ws" by (auto simp: 1(3))
  define ids where "ids = fold AList.delete updated (id_to_handle_map r)"
  have del: "set (fold AList.delete us m) = {x \<in> set m. fst x \<notin> set us}" "distinct (map fst m) \<Longrightarrow> distinct (map fst (fold AList.delete us m))"
    for us and m :: "(GUID_t \<times> int) list"
    by (induction us arbitrary: m) (auto simp: delete_filter distinct_map_filter)
  have ids: "fst ` set ids = fst ` set (id_to_handle_map r) - set ws" "distinct (map fst ids)"
    using del sub 1(4) m(1) by (auto simp: ids_def)
  show ?thesis
  proof (cases "updated = []")
    case True
    then have "r' = r1" "ids = id_to_handle_map r" using assms(3) False l by (simp_all add: remove_associations_def ids_def)
    moreover have "match_inv r1"
    proof -
      have "fst ` set (liveness_of r) \<inter> set ws = {}" using True 1(4) by (simp add: inf_commute)
      then have "fst ` set (id_to_handle_map r) \<subseteq> fst ` set (liveness_of r1)" using sub by (simp add: keys Diff_triv)
      then show ?thesis using m p by (simp add: match_inv_def)
    qed
    ultimately show ?thesis using 1 ids True p by simp
  next
    case upd: False
    have nil: "fold AList.delete us [] = ([] :: (GUID_t \<times> int) list)" for us by (induction us) auto
    define hs where "hs = (if \<not> is_bit r then lookup_instance_handles env updated else [])"
    define r2 where "r2 = fold (\<lambda>p. emit (Disassociate_transport p)) updated
      (if \<not> is_bit r then r1\<lparr>id_to_handle_map := ids\<rparr> else r1)"
    define r3 where "r3 = (if \<not> is_bit r then unmatch_writers env hs r2 else r2)"
    have r': "r' = (if notify_lost then emit (Subscription_lost hs) r3 else r3)"
      unfolding assms(3) [symmetric] remove_associations_def hs_def r2_def r3_def ids_def Let_def
      using False l upd p by (cases "is_bit r") simp_all
    have 2: "match_part r2 = (if \<not> is_bit r then (ids, subscription_match_status r, False) else match_part r)"
        "liveness_of r2 = liveness_of r1" "reader_inv r2" "\<And>a. inst_writers r2 a = inst_writers r1 a"
      using 1 p by (simp_all add: r2_def)
    have 3: "reader_inv r3" "liveness_of r3 = liveness_of r1" "\<And>a. inst_writers r3 a = inst_writers r1 a"
        "id_to_handle_map r3 = ids" "is_bit r3 = is_bit r"
        "sm_current_count (subscription_match_status r3) = int (length ids)"
      using 2 m by (auto simp: r3_def match_part_def ids_def nil split: if_splits)
    then have "match_inv r3"
      using ids keys sub m(3) by (auto simp: match_inv_def ids_def)
    then show ?thesis using r' 3 1 ids by (auto simp: match_inv_def)
  qed
qed


theorem remove_associations_correct_witness:
  "liveness_of (remove_associations example_env [weak_writer] True (example_reader ALIVE)) = []"
proof -
  have m: "match_inv (example_reader ALIVE)"
    by (simp add: match_inv_def example_reader_def)
  show ?thesis
    using remove_associations_correct [OF example_reader_facts(1) m refl, of example_env "[weak_writer]" True]
    by (simp add: example_reader_facts(2))
qed

end
