(* ===== verification/Reader_Ownership.thy ===== *)
theory Reader_Ownership
  imports Reader_Association
begin

text \<open>
  Exclusive ownership as a reader sees it: the filters of \<open>src/dds/DCPS/DataReaderImpl.cpp\<close>, the
  operations that reset the ownership, and the two methods of \<open>src/dds/DCPS/InstanceState.cpp\<close> that call
  the ownership manager, with its destructor. An instance is given by its handle and the address of its
  \<open>InstanceState\<close>.
\<close>

section \<open>Operations\<close>

definition is_dispose_was_received :: "reader_env \<Rightarrow> GUID_t \<Rightarrow> nat \<Rightarrow> DataReaderImpl \<Rightarrow> bool \<times> DataReaderImpl" where
  "is_dispose_was_received env p a r =
     (let w = owner_manager r;
          owns = is_owner (is_handle (om_store w a)) p w
      in case dispose_was_received (dr_qos r) (env_release_timer env) owns p (om_store w a) of
           (changed, st, es) \<Rightarrow>
             (changed, r\<lparr>owner_manager := w\<lparr>om_store := (om_store w)(a := st),
                                             om_effects := om_effects w @ map (Pair a) es\<rparr>\<rparr>))"

definition is_unregister_was_received :: "reader_env \<Rightarrow> GUID_t \<Rightarrow> nat \<Rightarrow> DataReaderImpl \<Rightarrow> bool \<times> DataReaderImpl" where
  "is_unregister_was_received env p a r =
     (let w = owner_manager r;
          w = w\<lparr>om_store := (om_store w)(a := erase_writer p (om_store w a))\<rparr>;
          w = (if exclusive (om_store w a)
               then snd (remove_writer (env_sort env) (is_handle (om_store w a)) p w) else w)
      in case check_no_writers (dr_qos r) (env_release_timer env) (om_store w a) of
           (changed, st, es) \<Rightarrow>
             (changed, r\<lparr>owner_manager := w\<lparr>om_store := (om_store w)(a := st),
                                             om_effects := om_effects w @ map (Pair a) es\<rparr>\<rparr>))"

text \<open>The destructor; the object is gone afterwards.\<close>

definition destroy_InstanceState :: "nat \<Rightarrow> om_world \<Rightarrow> om_world" where
  "destroy_InstanceState a w =
     (let w = on_instance cancel_release a w
      in if is_registered (om_store w a) then remove_instance a w else w)"

definition dr_reset_ownership :: "int \<Rightarrow> DataReaderImpl \<Rightarrow> DataReaderImpl" where
  "dr_reset_ownership inst r =
     r\<lparr>dr_writers := map (\<lambda>(q, i). (q, set_owner_evaluated inst False i)) (dr_writers r)\<rparr>"

fun update_strength_loop ::
    "GUID_t \<Rightarrow> int \<Rightarrow> (GUID_t \<times> WriterInfo) list \<Rightarrow> (GUID_t \<times> WriterInfo) list" where
  "update_strength_loop p strength [] = []"
| "update_strength_loop p strength ((q, i) # ws) =
     (if writer_id i = p
      then if strength \<noteq> os_value (wq_ownership_strength (writer_qos i))
           then (q, clear_owner_evaluated
                      (i\<lparr>writer_qos := (writer_qos i)\<lparr>wq_ownership_strength := \<lparr>os_value = strength\<rparr>\<rparr>\<rparr>)) # ws
           else (q, i) # ws
      else (q, i) # update_strength_loop p strength ws)"

definition update_ownership_strength :: "GUID_t \<Rightarrow> int \<Rightarrow> DataReaderImpl \<Rightarrow> DataReaderImpl" where
  "update_ownership_strength p strength r =
     r\<lparr>dr_writers := update_strength_loop p strength (dr_writers r)\<rparr>"

text \<open>
  \<open>release_instance\<close>: \<open>remove_writers\<close> calls \<open>reset_ownership\<close> back on the readers of the registered
  instances, which matters here for the instances of this reader. \<open>purge_data\<close> and \<open>release_instance_i\<close>
  belong to the typed reader.
\<close>

definition release_instance :: "int \<Rightarrow> DataReaderImpl \<Rightarrow> DataReaderImpl" where
  "release_instance handle r =
     (let r = (if is_exclusive_ownership r
               then let w = remove_writers handle (owner_manager r);
                        called = drop (length (om_effects (owner_manager r))) (om_effects w);
                        r = r\<lparr>owner_manager := w\<rparr>
                    in if \<exists>e \<in> set called. fst e \<in> snd ` set (dr_instances r) \<and> snd e = ReaderResetOwnership handle
                       then dr_reset_ownership handle r else r
               else r)
      in case map_of (dr_instances r) handle of
           None \<Rightarrow> r
         | Some a \<Rightarrow>
             emit (Release_instance handle)
               ((emit (Purge_data handle) r)\<lparr>dr_instances := AList.delete handle (dr_instances r)\<rparr>))"

definition resume_sample_processing :: "GUID_t \<Rightarrow> DataReaderImpl \<Rightarrow> DataReaderImpl" where
  "resume_sample_processing p r =
     (case find_writer p r of
        None \<Rightarrow> r
      | Some info \<Rightarrow>
          if historic_samples_timer info \<noteq> NOT_WAITING
          then update_writer p (\<lambda>i. i\<lparr>historic_samples_timer := NOT_WAITING\<rparr>)
                 (emit (Cancel_sweeper (historic_samples_timer info)) r)
          else r)"

text \<open>The addition of the seconds is of signed 32-bit numbers, that of the nanoseconds wraps around.\<close>

definition filter_sample :: "reader_env \<Rightarrow> DataSampleHeader \<Rightarrow> DataReaderImpl \<Rightarrow> bool \<times> DataReaderImpl" where
  "filter_sample env header r =
     (case gettimeofday env r of
        (now, r) \<Rightarrow>
          (if \<not> always_get_history r \<and> h_historic_sample header
              \<and> du_kind (rq_durability (dr_qos r)) = VOLATILE_DURABILITY_QOS
           then True
           else if h_lifespan_duration header
                \<and> now \<ge> time_to_time_value
                          \<lparr>time_sec = sint (h_source_timestamp_sec header) + sint (h_lifespan_duration_sec header),
                           time_nanosec = h_source_timestamp_nanosec header + h_lifespan_duration_nanosec header\<rparr>
           then True
           else if \<not> h_historic_sample header
           then (case find_writer (h_publication_id header) r of
                   Some info \<Rightarrow> historic_samples_timer info \<noteq> NOT_WAITING
                 | None \<Rightarrow> False)
           else False, r))"

text \<open>The ownership test of \<open>filter_instance\<close>: whether the sample is dropped.\<close>

definition filter_owner :: "reader_env \<Rightarrow> int \<Rightarrow> nat \<Rightarrow> GUID_t \<Rightarrow> DataReaderImpl \<Rightarrow> bool \<times> DataReaderImpl" where
  "filter_owner env h a pubid r =
     (case find_writer pubid r of
        None \<Rightarrow> (True, r)
      | Some info \<Rightarrow>
          (case (if is_owner_id (om_store (owner_manager r) a) = GUID_UNKNOWN then (False, info)
                 else is_owner_evaluated h info) of
             (evaluated, info) \<Rightarrow>
               let r = update_writer pubid (\<lambda>_. info) r
               in if is_owner_id (om_store (owner_manager r) a) = GUID_UNKNOWN \<or> \<not> evaluated
                  then (case select_owner (env_sort env) h (writer_id info)
                               (os_value (wq_ownership_strength (writer_qos info))) a (owner_manager r) of
                          (owns, w) \<Rightarrow>
                            (\<not> owns, update_writer pubid (set_owner_evaluated h True) (r\<lparr>owner_manager := w\<rparr>)))
                  else (is_owner_id (om_store (owner_manager r) a) \<noteq> pubid, r)))"

definition filter_instance :: "reader_env \<Rightarrow> int \<Rightarrow> nat \<Rightarrow> GUID_t \<Rightarrow> DataReaderImpl \<Rightarrow> bool \<times> DataReaderImpl" where
  "filter_instance env h a pubid r =
     (case (if is_exclusive_ownership r then filter_owner env h a pubid r else (False, r)) of
        (dropped, r) \<Rightarrow>
          if dropped then (True, r)
          else (case gettimeofday env r of
                  (now, r) \<Rightarrow>
                    let separation_min = tb_minimum_separation (rq_time_based_filter (dr_qos r))
                    in if duration_greater separation_min (Duration_t DURATION_ZERO_SEC DURATION_ZERO_NSEC)
                          \<and> duration_less (time_value_to_duration (env_truncate_long env) (now - last_accepted r a))
                              separation_min
                       then (True, r)
                       else (False, r\<lparr>last_accepted := (last_accepted r)(a := now)\<rparr>)))"

section \<open>Registered instances\<close>

text \<open>A registered instance is listed with the infos of its handle, so that it is told of every change.\<close>

definition linked :: "om_world \<Rightarrow> nat \<Rightarrow> bool" where
  "linked w a \<longleftrightarrow>
     (is_registered (om_store w a)
       \<longrightarrow> (\<exists>i. map_of (instance_ownership_infos w) (is_handle (om_store w a)) = Some i \<and> a \<in> set (instance_states i)))"

lemma told_same:
  assumes "told i store i' store'"
  shows "instance_states i' = instance_states i" "is_registered (store' a) = is_registered (store a)"
    "is_handle (store' a) = is_handle (store a)"
  using assms by (auto simp: told_def broadcast_new_owner_apply set_owner_def split: if_splits)

lemma linked_update:
  assumes "linked w a" "map_of (instance_ownership_infos w) h = Some i \<Longrightarrow> set (instance_states i) \<subseteq> set (instance_states i')"
    and "is_handle (store' a) = is_handle (om_store w a)"
    and "is_registered (store' a) \<Longrightarrow> is_registered (om_store w a) \<or> is_handle (store' a) = h \<and> a \<in> set (instance_states i')"
    and "map_of (instance_ownership_infos w) h = None \<or> map_of (instance_ownership_infos w) h = Some i"
  shows "linked (w\<lparr>instance_ownership_infos := AList.update h i' (instance_ownership_infos w), om_store := store'\<rparr>) a"
  using assms by (auto simp: linked_def update_conv)

lemma register_instance_states:
  assumes "register_instance inst i store = (i1, store1)"
  shows "set (instance_states i) \<subseteq> set (instance_states i1)" "is_handle (store1 a) = is_handle (store a)"
    "is_registered (store1 a) \<Longrightarrow> is_registered (store a) \<or> a = inst \<and> inst \<in> set (instance_states i1)"
  using assms
  by (auto simp: register_instance_def get_registered_def set_registered_def split: if_splits)

context descending_sort
begin

lemma select_owner_linked:
  assumes inv: "om_inv w" and p: "p \<noteq> GUID_UNKNOWN" and h: "is_handle (om_store w inst) = h"
    and r: "select_owner std_sort h p s inst w = (b, w')" and l: "linked w a"
  shows "linked w' a" "is_handle (om_store w' a) = is_handle (om_store w a)"
proof -
  let ?es = "instance_ownership_infos w"
  have "linked w' a \<and> is_handle (om_store w' a) = is_handle (om_store w a)"
  proof (cases "map_of ?es h")
    case None
    define i0 where "i0 = \<lparr>om_owner = \<lparr>pub_id = p, ownership_strength = s\<rparr>, candidates = [], instance_states = []\<rparr>"
    obtain i1 st1 where reg: "register_instance inst i0 (om_store w) = (i1, st1)" by (metis surj_pair)
    have w': "w' = w\<lparr>instance_ownership_infos := AList.update h i1 ?es, om_store := broadcast_new_owner i1 p st1\<rparr>"
      using r None reg by (simp_all add: select_owner_def i0_def)
    have t: "is_handle (broadcast_new_owner i1 p st1 a) = is_handle (st1 a)"
        "is_registered (broadcast_new_owner i1 p st1 a) = is_registered (st1 a)"
      by (simp_all add: broadcast_new_owner_apply set_owner_def)
    show ?thesis
      unfolding w' using register_instance_states [OF reg] None h l t
      by (intro conjI linked_update [where i = i0]) auto
  next
    case (Some i)
    obtain i1 st1 where reg: "register_instance inst i (om_store w) = (i1, st1)" by (metis surj_pair)
    note reg' = register_instance_ok [OF om_inv_lookup [OF inv Some] om_inv_clean [OF inv] h reg]
    obtain c i2 st2 where sel: "select_infos std_sort p s i1 st1 = (c, i2, st2)" by (metis prod_cases3)
    have inv1: "infos_inv i1" using reg'(1) by (simp add: infos_ok_def)
    note t = told_same [OF select_infos_correct(2) [OF inv1 p sel]]
    have w': "w' = w\<lparr>instance_ownership_infos := AList.update h i2 ?es, om_store := st2\<rparr>"
      using r Some reg sel by (simp_all add: select_owner_def)
    show ?thesis
      unfolding w' using register_instance_states [OF reg] Some h l t
      by (intro conjI linked_update [where i = i]) auto
  qed
  then show "linked w' a" "is_handle (om_store w' a) = is_handle (om_store w a)" by blast+
qed

lemma remove_writer_linked:
  assumes inv: "om_inv w" and p: "p \<noteq> GUID_UNKNOWN" and r: "remove_writer std_sort h p w = (b, w')" and l: "linked w a"
  shows "linked w' a" "is_handle (om_store w' a) = is_handle (om_store w a)"
    "is_registered (om_store w' a) = is_registered (om_store w a)"
proof -
  have "linked w' a \<and> is_handle (om_store w' a) = is_handle (om_store w a)
      \<and> is_registered (om_store w' a) = is_registered (om_store w a)"
  proof (cases "map_of (instance_ownership_infos w) h")
    case None
    then show ?thesis using r l by (simp add: remove_writer_def)
  next
    case (Some i)
    obtain c i2 st2 where rem: "remove_writer_infos std_sort i p (om_store w) = (c, i2, st2)" by (metis prod_cases3)
    have "infos_inv i" using om_inv_lookup [OF inv Some] by (simp add: infos_ok_def)
    note t = told_same [OF remove_writer_infos_correct(3) [OF this p rem]]
    have w': "w' = w\<lparr>instance_ownership_infos := AList.update h i2 (instance_ownership_infos w), om_store := st2\<rparr>"
      using r Some rem by (simp_all add: remove_writer_def)
    show ?thesis
      unfolding w' using Some l t by (intro conjI linked_update [where i = i]) auto
  qed
  then show "linked w' a" "is_handle (om_store w' a) = is_handle (om_store w a)"
    "is_registered (om_store w' a) = is_registered (om_store w a)" by blast+
qed

end

text \<open>What an instance sees as its owner is the owner, for a linked instance.\<close>

lemma linked_owner:
  assumes "om_inv w" "linked w a" "is_handle (om_store w a) = h" "is_owner_id (om_store w a) = p" "p \<noteq> GUID_UNKNOWN"
  shows "is_owner h p w"
proof -
  have "is_registered (om_store w a)" using om_inv_clean [OF assms(1)] assms(4,5) by (auto simp: store_clean_def)
  then obtain i where i: "map_of (instance_ownership_infos w) h = Some i" "a \<in> set (instance_states i)"
    using assms(2,3) by (auto simp: linked_def)
  then have "is_owner_id (om_store w a) \<in> {GUID_UNKNOWN, pub_id (om_owner i)}"
    using om_inv_lookup [OF assms(1)] by (auto simp: infos_ok_def seen_ok_def)
  then show ?thesis using assms(4,5) i(1) by (auto simp: is_owner_def)
qed

section \<open>Filtering by ownership\<close>

lemma found_writer_id: "reader_inv r \<Longrightarrow> find_writer p r = Some info \<Longrightarrow> writer_id info = p"
  by (force simp: reader_inv_def ids_of_def find_writer_def dest: map_of_SomeD)

lemma update_writer_manager [simp]: "owner_manager (update_writer p f r) = owner_manager r"
  by (simp add: update_writer_def)

text \<open>The books of the ownership manager and the instances of a reader fit together.\<close>

definition ownership_inv :: "nat set \<Rightarrow> om_world \<Rightarrow> bool" where
  "ownership_inv live w \<longleftrightarrow> om_inv w \<and> (\<forall>a \<in> live. linked w a)"

lemma filter_owner_cases:
  assumes "find_writer pubid r = Some info" "filter_owner env h a pubid r = (dropped, r')" "writer_id info = pubid"
  obtains (select) owns w' where
      "select_owner (env_sort env) h pubid (os_value (wq_ownership_strength (writer_qos info))) a (owner_manager r) = (owns, w')"
      "owner_manager r' = w'" "dropped \<longleftrightarrow> \<not> owns"
    | (known) "is_owner_id (om_store (owner_manager r) a) \<noteq> GUID_UNKNOWN" "owner_manager r' = owner_manager r"
      "dropped \<longleftrightarrow> is_owner_id (om_store (owner_manager r) a) \<noteq> pubid"
proof -
  obtain b i where e: "(if is_owner_id (om_store (owner_manager r) a) = GUID_UNKNOWN then (False, info)
      else is_owner_evaluated h info) = (b, i)" by (metis surj_pair)
  have i: "writer_id i = writer_id info" "writer_qos i = writer_qos info"
    using e by (auto simp: is_owner_evaluated_def split: if_splits option.splits)
  show thesis
  proof (cases "is_owner_id (om_store (owner_manager r) a) = GUID_UNKNOWN \<or> \<not> b")
    case True
    obtain owns w' where s: "select_owner (env_sort env) h pubid (os_value (wq_ownership_strength (writer_qos info))) a
        (owner_manager r) = (owns, w')" by (metis surj_pair)
    show thesis
      by (rule select [OF s]) (use True assms e i s in \<open>auto simp: filter_owner_def Let_def\<close>)
  next
    case False
    then show thesis using assms e by (intro known) (auto simp: filter_owner_def Let_def)
  qed
qed

text \<open>
  (C5) A reader of exclusively owned instances accepts a sample only from the writer that owns the instance
  when the sample is accepted: whatever \<open>filter_instance\<close> decides, the books of the ownership manager stay
  consistent, every instance stays known to it, and a sample that is not dropped is the owner's.
\<close>

theorem filter_accepts_only_owner:
  assumes "descending_sort (env_sort env)" and "reader_inv r" and "ownership_inv live (owner_manager r)"
    and "a \<in> live" and "is_handle (om_store (owner_manager r) a) = h" and "pubid \<noteq> GUID_UNKNOWN"
    and "is_exclusive_ownership r" and "filter_instance env h a pubid r = (dropped, r')"
  shows "ownership_inv live (owner_manager r') \<and> (dropped \<or> is_owner h pubid (owner_manager r'))"
proof -
  obtain d r1 where f: "filter_owner env h a pubid r = (d, r1)" by (metis surj_pair)
  have r': "owner_manager r' = owner_manager r1" "dropped \<or> \<not> d"
    using assms(7,8) f by (auto simp: filter_instance_def gettimeofday_def Let_def split: if_splits)
  have inv: "om_inv (owner_manager r)" "\<And>a. a \<in> live \<Longrightarrow> linked (owner_manager r) a"
    using assms(3) by (auto simp: ownership_inv_def)
  show ?thesis
  proof (cases "find_writer pubid r")
    case None
    then have "d" "r1 = r" using f by (simp_all add: filter_owner_def)
    then show ?thesis using r' assms(3) by auto
  next
    case (Some info)
    from Some f found_writer_id [OF assms(2) Some] show ?thesis
    proof (cases rule: filter_owner_cases)
      case (select owns w')
      note c = descending_sort.select_owner_correct [OF assms(1) inv(1) assms(6,5) select(1)]
        and l = descending_sort.select_owner_linked [OF assms(1) inv(1) assms(6,5) select(1)]
      show ?thesis using c(1,2) l(1) inv(2) select(2,3) r' by (auto simp: ownership_inv_def)
    next
      case known
      then show ?thesis
        using r' assms(3) linked_owner [OF inv(1) inv(2) [OF assms(4)] assms(5) _ assms(6)] by auto
    qed
  qed
qed

section \<open>The other operations\<close>

text \<open>The fields of an instance that concern its ownership; the lifecycle operations leave them alone.\<close>

definition own_part :: "InstanceState \<Rightarrow> int \<times> bool \<times> GUID_t" where
  "own_part st = (is_handle st, is_registered st, is_owner_id st)"

lemma cancel_release_own: "own_part (fst (cancel_release st)) = own_part st"
  by (simp add: own_part_def cancel_release_def Let_def)

lemma schedule_release_own [simp]: "own_part (fst (schedule_release qos sched st)) = own_part st"
proof -
  have "own_part (st'\<lparr>release_timer_id := t\<rparr>) = own_part st" if "cancel_release st = (st', es)" for st' es t
    using cancel_release_own [of st] that by (simp add: own_part_def)
  then show ?thesis
    by (auto simp: schedule_release_def split: option.splits prod.splits)
      (simp_all add: own_part_def schedule_pending_def)
qed

lemma lifecycle_own [simp]:
  "own_part (erase_writer p st) = own_part st"
  "own_part (fst (cancel_release st)) = own_part st"
  "own_part (fst (snd (check_no_writers qos sched st))) = own_part st"
  "own_part (fst (snd (dispose_was_received qos sched own p st))) = own_part st"
  by (simp_all add: check_no_writers_def dispose_was_received_def Let_def cancel_release_own)
    (simp_all add: own_part_def erase_writer_def)

lemma ownership_inv_frame:
  assumes "ownership_inv live w" "instance_ownership_infos w' = instance_ownership_infos w"
    and "\<And>a. own_part (om_store w' a) = own_part (om_store w a)"
  shows "ownership_inv live w'"
proof -
  have f: "is_handle (om_store w' a) = is_handle (om_store w a)" "is_registered (om_store w' a) = is_registered (om_store w a)"
      "is_owner_id (om_store w' a) = is_owner_id (om_store w a)" for a
    using assms(3) [of a] by (auto simp: own_part_def)
  show ?thesis
    using assms(1) by (simp add: ownership_inv_def om_inv_def assms(2) linked_def store_clean_def infos_ok_def seen_ok_def f
        del: map_of_eq_Some_iff)
qed

lemma ownership_inv_store:
  "ownership_inv live w \<Longrightarrow> own_part st = own_part (om_store w a)
   \<Longrightarrow> ownership_inv live (w\<lparr>om_store := (om_store w)(a := st), om_effects := es\<rparr>)"
  by (erule ownership_inv_frame) auto

lemma ownership_inv_remove_writer:
  assumes "descending_sort std_sort" "ownership_inv live w" "p \<noteq> GUID_UNKNOWN"
  shows "ownership_inv live (snd (remove_writer std_sort h p w))"
proof -
  obtain b w' where r: "remove_writer std_sort h p w = (b, w')" by (metis surj_pair)
  show ?thesis
    using descending_sort.remove_writer_correct(1) [OF assms(1) _ assms(3) r]
      descending_sort.remove_writer_linked(1) [OF assms(1) _ assms(3) r] assms(2)
    by (simp add: ownership_inv_def r)
qed

lemma remove_writers_linked:
  assumes "linked w a"
  shows "linked (remove_writers h w) a"
proof (cases "map_of (instance_ownership_infos w) h")
  case None
  then show ?thesis using assms by (simp add: remove_writers_def)
next
  case (Some i)
  have "is_handle (om_store (reset_each h js w) a) = is_handle (om_store w a)" for js
    by (simp add: reset_each_store)
  then show ?thesis
    using assms Some
    by (auto simp: linked_def remove_writers_def reset_each_store delete_conv split: if_splits)
qed

lemma remove_instance_linked: "linked w b \<Longrightarrow> a \<noteq> b \<Longrightarrow> linked (remove_instance a w) b"
  by (auto simp: linked_def remove_instance_def Let_def update_conv split: option.splits)

lemma release_instance_manager:
  "owner_manager (release_instance h r)
    = (if is_exclusive_ownership r then remove_writers h (owner_manager r) else owner_manager r)"
  by (simp add: release_instance_def Let_def emit_def dr_reset_ownership_def split: option.splits)


section \<open>Unregistering\<close>

context descending_sort
begin

text \<open>When the owner is removed, every listed instance is told of its successor.\<close>

lemma remove_owner_told:
  assumes inv: "om_inv w" and p: "p \<noteq> GUID_UNKNOWN" and own: "is_owner h p w"
    and a: "linked w a" "is_registered (om_store w a)" "is_handle (om_store w a) = h"
    and r: "remove_writer std_sort h p w = (b, w')" and q: "owner_of w' h = Some (q, t)"
  shows "is_owner_id (om_store w' a) = q"
proof -
  obtain i where i: "map_of (instance_ownership_infos w) h = Some i" "a \<in> set (instance_states i)"
    using a by (auto simp: linked_def)
  have o: "pub_id (om_owner i) = p" using own i by (simp add: is_owner_def)
  have "infos_inv i" using om_inv_lookup [OF inv i(1)] by (simp add: infos_ok_def)
  then have c: "sorted_wrt stronger (candidates i)" "distinct (map pub_id (candidates i))"
      "GUID_UNKNOWN \<notin> pub_id ` set (candidates i)"
    by (simp_all add: infos_inv_def)
  obtain i2 st2 where rem: "remove_owner_infos std_sort i False (om_store w) = (i2, st2)" by (metis surj_pair)
  note t = remove_owner_infos_correct(4) [OF disjI1 [OF c(1)] c(2,3) rem]
  have "w' = w\<lparr>instance_ownership_infos := AList.update h i2 (instance_ownership_infos w), om_store := st2\<rparr>"
    using r i(1) o rem by (simp add: remove_writer_def remove_writer_infos_def)
  then show ?thesis
    using q t i(2)
    by (auto simp: owner_of_def update_conv wi_pair_def broadcast_new_owner_apply set_owner_def split: if_splits)
qed

end

lemma contenders_of_known: "x \<in> contenders_of w h \<Longrightarrow> fst x \<noteq> GUID_UNKNOWN"
  by (auto simp: contenders_of_def contenders_def split: option.splits)

lemma ownership_frame_observers:
  assumes "own_part st = own_part (om_store w a)"
  shows "owner_of (w\<lparr>om_store := (om_store w)(a := st), om_effects := es\<rparr>) h = owner_of w h"
    "is_owner_id (om_store (w\<lparr>om_store := (om_store w)(a := st), om_effects := es\<rparr>) a) = is_owner_id (om_store w a)"
  using assms by (simp_all add: owner_of_def own_part_def)

lemma unregister_successor:
  assumes "descending_sort (env_sort env)" and "ownership_inv live (owner_manager r)"
    and "a \<in> live" and "is_registered (om_store (owner_manager r) a)" and "is_handle (om_store (owner_manager r) a) = h"
    and "exclusive (om_store (owner_manager r) a)" and "p \<noteq> GUID_UNKNOWN" and "owner_of (owner_manager r) h = Some (p, s)"
    and "(q, t) \<in> contenders_of (owner_manager r) h" and "q \<noteq> p"
    and "is_unregister_was_received env p a r = (changed, r1)"
  shows "is_owner_id (om_store (owner_manager r1) a) \<notin> {GUID_UNKNOWN, p}" "dr_writers r1 = dr_writers r"
    "is_exclusive_ownership r1 = is_exclusive_ownership r"
proof -
  let ?w = "owner_manager r"
  let ?w1 = "?w\<lparr>om_store := (om_store ?w)(a := erase_writer p (om_store ?w a))\<rparr>"
  obtain b w2 where rem: "remove_writer (env_sort env) h p ?w1 = (b, w2)" by (metis surj_pair)
  have own: "own_part (erase_writer p (om_store ?w a)) = own_part (om_store ?w a)" by simp
  have a: "is_registered (om_store ?w1 a)" "is_handle (om_store ?w1 a) = h" "exclusive (om_store ?w1 a)"
    using assms(4-6) by (auto simp: erase_writer_def)
  have inv1: "ownership_inv live ?w1" by (rule ownership_inv_frame [OF assms(2)]) simp_all
  have inv: "om_inv ?w1" "linked ?w1 a" using inv1 assms(3) by (auto simp: ownership_inv_def)
  have "owner_of ?w1 h = Some (p, s)" "contenders_of ?w1 h = contenders_of ?w h"
    using assms(8) by (simp_all add: owner_of_def contenders_of_def)
  then have o: "is_owner h p ?w1" and c1: "(q, t) \<in> contenders_of ?w1 h"
    using is_owner_owner_of [OF assms(7)] assms(9) by auto
  note c = descending_sort.remove_writer_correct [OF assms(1) inv(1) assms(7) rem]
  have "(q, t) \<in> contenders_of w2 h" using c(3) [of h] c1 assms(10) by simp
  then obtain q' t' where q': "owner_of w2 h = Some (q', t')" "(q', t') \<in> contenders_of w2 h"
    using owner_of_strongest [OF c(1), of h] by (cases "owner_of w2 h") auto
  have "is_owner_id (om_store w2 a) = q'"
    by (rule descending_sort.remove_owner_told [OF assms(1) inv(1) assms(7) o inv(2) a(1,2) rem q'(1)])
  moreover have "q' \<notin> {GUID_UNKNOWN, p}" using contenders_of_known [OF q'(2)] q'(2) c(3) [of h] by auto
  moreover obtain ch st es where e: "check_no_writers (dr_qos r) (env_release_timer env) (om_store w2 a) = (ch, st, es)"
    by (metis prod_cases3)
  moreover have "own_part st = own_part (om_store w2 a)"
    using lifecycle_own(3) [of "dr_qos r" "env_release_timer env" "om_store w2 a"] by (simp only: e fst_conv snd_conv)
  moreover have r1: "r1 = r\<lparr>owner_manager := w2\<lparr>om_store := (om_store w2)(a := st), om_effects := om_effects w2 @ map (Pair a) es\<rparr>\<rparr>"
    using assms(11) a e rem unfolding is_unregister_was_received_def Let_def by simp
  ultimately show "is_owner_id (om_store (owner_manager r1) a) \<notin> {GUID_UNKNOWN, p}"
    by (simp add: own_part_def)
  show "dr_writers r1 = dr_writers r" "is_exclusive_ownership r1 = is_exclusive_ownership r" by (simp_all add: r1)
qed

text \<open>
  (C33) After the owner of an instance unregistered it while another writer contends for it, the samples it
  sends later are dropped without its strength being looked at: it was marked as evaluated for the instance
  and \<open>unregister_was_received\<close> does not take the mark back, so that even the strongest writer does not
  become the owner again.
\<close>

theorem unregistered_owner_starves:
  assumes "descending_sort (env_sort env)" and "ownership_inv live (owner_manager r)"
    and "a \<in> live" and "is_registered (om_store (owner_manager r) a)" and "is_handle (om_store (owner_manager r) a) = h"
    and "exclusive (om_store (owner_manager r) a)" and "p \<noteq> GUID_UNKNOWN" and "owner_of (owner_manager r) h = Some (p, s)"
    and "(q, t) \<in> contenders_of (owner_manager r) h" and "q \<noteq> p" and "is_exclusive_ownership r"
    and "find_writer p r = Some info" and "map_of (owner_evaluated info) h = Some True"
    and "is_unregister_was_received env p a r = (changed, r1)"
  shows "\<exists>r2. filter_instance env h a p r1 = (True, r2) \<and> owner_manager r2 = owner_manager r1"
proof -
  note u = unregister_successor [OF assms(1-10,14)]
  have "find_writer p r1 = Some info" using u(2) assms(12) by (simp add: find_writer_def)
  then show ?thesis
    using u(1,3) assms(11,13) by (simp add: filter_instance_def filter_owner_def is_owner_evaluated_def Let_def)
qed

text \<open>An instance that the strong writer took over from the weak one, and a reader that knows both.\<close>

definition example_contended :: om_world where
  "example_contended = snd (select_owner strength_sort 7 strong_writer 9 0 example_owned)"

definition example_strong_info :: WriterInfo where
  "example_strong_info = (mk_WriterInfo 0 strong_writer initial_DataWriterQos)\<lparr>owner_evaluated := [(7, True)]\<rparr>"

definition example_contended_reader :: DataReaderImpl where
  "example_contended_reader =
     (example_reader ALIVE)\<lparr>dr_writers := dr_writers (example_reader ALIVE) @ [(strong_writer, example_strong_info)],
        owner_manager := example_contended\<rparr>"

lemma example_linked: "linked example_manager a"
  by (simp add: linked_def example_manager_def mk_InstanceState_def)

lemma example_owned_inv: "ownership_inv live example_owned"
proof -
  obtain b where r: "select_owner strength_sort 7 weak_writer 5 0 example_manager = (b, example_owned)"
    unfolding example_owned_def by (metis prod.collapse)
  show ?thesis
    using ss.select_owner_linked(1) [OF om_inv_example(1) example_writers_known(1) om_inv_example(2) r example_linked]
      example_owned_facts(1)
    by (simp add: ownership_inv_def)
qed

lemma example_contended_facts:
  "ownership_inv live example_contended" "owner_of example_contended 7 = Some (strong_writer, 9)"
  "(weak_writer, 5) \<in> contenders_of example_contended 7"
  "is_registered (om_store example_contended 0)" "is_handle (om_store example_contended 0) = 7"
  "exclusive (om_store example_contended 0)"
proof -
  obtain b where r: "select_owner strength_sort 7 strong_writer 9 0 example_owned = (b, example_contended)"
    unfolding example_contended_def by (metis prod.collapse)
  note c = ss.select_owner_correct [OF example_owned_facts(1) example_writers_known(2) example_owned_facts(3) r]
    and l = ss.select_owner_linked [OF example_owned_facts(1) example_writers_known(2) example_owned_facts(3) r]
  show "ownership_inv live example_contended"
    using c(1) l(1) example_owned_inv [of UNIV] by (simp add: ownership_inv_def)
  show "owner_of example_contended 7 = Some (strong_writer, 9)"
    using c(4) [OF example_owned_facts(2) example_writers_known(3)] by simp
  have "(weak_writer, 5) \<in> contenders_of example_owned 7"
    using owner_of_strongest [OF example_owned_facts(1), of 7] example_owned_facts(2) by simp
  then show "(weak_writer, 5) \<in> contenders_of example_contended 7"
    using c(3) [of 7] example_writers_known(3) by (simp add: contend_def)
  show "is_registered (om_store example_contended 0)" "is_handle (om_store example_contended 0) = 7"
    "exclusive (om_store example_contended 0)"
    using example_writers_known
    by (simp_all add: example_contended_def example_owned_def example_manager_def select_owner_def register_instance_def
        get_registered_def set_registered_def select_infos_def reevaluate_owner_def update_conv mk_InstanceState_def
        broadcast_new_owner_def set_owner_def remove_owner_infos_def strength_sort_def Let_def)
qed

theorem filter_accepts_only_owner_witness:
  "ownership_inv {0} (owner_manager (snd (filter_instance example_env 7 0 weak_writer (example_reader ALIVE))))"
  using filter_accepts_only_owner [of example_env "example_reader ALIVE" "{0}" 0 7 weak_writer, OF _ _ _ _ _ _ _ surjective_pairing]
  by (simp add: example_reader_facts example_writers_known)
    (simp add: example_env_def example_reader_def ss.descending_sort_axioms example_owned_inv example_owned_facts)


theorem unregistered_owner_starves_witness:
  "fst (filter_instance example_env 7 0 strong_writer
          (snd (is_unregister_was_received example_env strong_writer 0 example_contended_reader)))"
proof -
  have "find_writer strong_writer example_contended_reader = Some example_strong_info"
      "owner_manager example_contended_reader = example_contended" "is_exclusive_ownership example_contended_reader"
    using example_writers_known
    by (simp_all add: example_contended_reader_def example_reader_def find_writer_def)
  moreover have "descending_sort (env_sort example_env)" by (simp add: example_env_def ss.descending_sort_axioms)
  ultimately have "\<exists>r2. filter_instance example_env 7 0 strong_writer
      (snd (is_unregister_was_received example_env strong_writer 0 example_contended_reader)) = (True, r2)"
    using unregistered_owner_starves [of example_env "{0}" example_contended_reader 0 7 strong_writer 9 weak_writer 5
        example_strong_info, OF _ _ _ _ _ _ _ _ _ _ _ _ _ surjective_pairing]
      example_contended_facts example_writers_known
    by (simp add: example_strong_info_def) blast
  then show ?thesis by auto
qed

end
