(* ===== verification/Serializer_Core.thy ===== *)
theory Serializer_Core
  imports DDS_Prelude
begin

text \<open>
  The \<open>Serializer\<close> (\<open>src/dds/DCPS/Serializer.{h,inl,cpp}\<close>): reading and writing of octets in a chain of
  message blocks, with byte swapping and alignment. An \<open>ACE_Message_Block\<close> is the address of its buffer, the
  buffer and the two positions in it; a chain is a list of blocks, and the serializer keeps the blocks it
  has left behind the current one. A null \<open>current_\<close> is the empty list. Operations that dereference
  \<open>current_\<close> without a test have no result when it is null.
\<close>

section \<open>Message blocks\<close>

record mblock =
  mb_base :: nat
  mb_buf :: "octet list"
  mb_rd :: nat
  mb_wr :: nat

definition mb_length :: "mblock \<Rightarrow> nat" where "mb_length b = mb_wr b - mb_rd b"
definition mb_space :: "mblock \<Rightarrow> nat" where "mb_space b = length (mb_buf b) - mb_wr b"
definition rd_ptr :: "mblock \<Rightarrow> nat" where "rd_ptr b = mb_base b + mb_rd b"
definition wr_ptr :: "mblock \<Rightarrow> nat" where "wr_ptr b = mb_base b + mb_wr b"

definition total_length :: "mblock list \<Rightarrow> nat" where
  "total_length bs = sum_list (map mb_length bs)"

section \<open>State\<close>

datatype Alignment = ALIGN_NONE | ALIGN_INITIALIZE | ALIGN_CDR

record Serializer =
  se_done :: "mblock list"
  se_current :: "mblock list"
  se_swap :: bool
  se_good :: bool
  se_alignment :: Alignment
  align_rshift :: nat
  align_wshift :: nat

definition MAX_ALIGN :: nat where "MAX_ALIGN = 8"

text \<open>A remainder computed in \<open>size_t\<close>.\<close>

definition size_mod :: "int \<Rightarrow> nat \<Rightarrow> nat" where
  "size_mod x m = nat ((x mod 2 ^ 64) mod int m)"

definition mk_Serializer :: "mblock list \<Rightarrow> bool \<Rightarrow> Alignment \<Rightarrow> Serializer" where
  "mk_Serializer chain swap al =
     \<lparr>se_done = [], se_current = chain, se_swap = swap, se_good = True, se_alignment = al,
      align_rshift = (case chain of [] \<Rightarrow> 0 | b # _ \<Rightarrow> size_mod (int (rd_ptr b)) MAX_ALIGN),
      align_wshift = (case chain of [] \<Rightarrow> 0 | b # _ \<Rightarrow> size_mod (int (wr_ptr b)) MAX_ALIGN)\<rparr>"

section \<open>Moving along the chain\<close>

definition next_block :: "Serializer \<Rightarrow> Serializer" where
  "next_block s = s\<lparr>se_done := se_done s @ take 1 (se_current s), se_current := tl (se_current s)\<rparr>"

definition align_cont_r :: "Serializer \<Rightarrow> Serializer" where
  "align_cont_r s =
     (let thisblock = size_mod (int (rd_ptr (hd (se_current s))) - int (align_rshift s)) MAX_ALIGN;
          s = next_block s
      in case se_current s of
           [] \<Rightarrow> s
         | b # _ \<Rightarrow> s\<lparr>align_rshift := size_mod (int (rd_ptr b) - int thisblock) MAX_ALIGN\<rparr>)"

definition align_cont_w :: "Serializer \<Rightarrow> Serializer" where
  "align_cont_w s =
     (let thisblock = size_mod (int (wr_ptr (hd (se_current s))) - int (align_wshift s)) MAX_ALIGN;
          s = next_block s
      in case se_current s of
           [] \<Rightarrow> s
         | b # _ \<Rightarrow> s\<lparr>align_wshift := size_mod (int (wr_ptr b) - int thisblock) MAX_ALIGN\<rparr>)"

section \<open>Copying\<close>

definition smemcpy :: "nat \<Rightarrow> octet list \<Rightarrow> octet list \<Rightarrow> nat \<Rightarrow> octet list" where
  "smemcpy p to from n = take p to @ take n from @ drop (p + n) to"

text \<open>The unrolled loop of \<open>swapcpy\<close>, for a destination that starts at offset \<open>p\<close>.\<close>

fun swap_loop :: "nat \<Rightarrow> octet list \<Rightarrow> nat \<Rightarrow> octet list \<Rightarrow> nat \<Rightarrow> octet list" where
  "swap_loop p from n to 0 = to"
| "swap_loop p from n to (Suc k) = swap_loop p from n (to[p + k := from ! (n - Suc k)]) k"

text \<open>More than 16 octets are not swapped; the caller clears the good bit.\<close>

definition swapcpy :: "nat \<Rightarrow> octet list \<Rightarrow> octet list \<Rightarrow> nat \<Rightarrow> octet list option" where
  "swapcpy p to from n = (if n \<le> 16 then Some (swap_loop p from n to n) else None)"

section \<open>Reading\<close>

definition doread :: "octet list \<Rightarrow> nat \<Rightarrow> bool \<Rightarrow> nat \<Rightarrow> Serializer \<Rightarrow> nat \<times> octet list \<times> Serializer" where
  "doread dest sz swap offset s =
     (case se_current s of
        [] \<Rightarrow> (sz, dest, s\<lparr>se_good := False\<rparr>)
      | b # bs \<Rightarrow>
          let len = mb_length b;
              remainder = (if sz - offset > len then sz - offset - len else 0);
              initial = sz - offset - remainder;
              from = drop (mb_rd b) (mb_buf b);
              (dest, s) = (if swap
                           then (case swapcpy remainder dest from initial of
                                   Some d \<Rightarrow> (d, s) | None \<Rightarrow> (dest, s\<lparr>se_good := False\<rparr>))
                           else (smemcpy offset dest from initial, s));
              b = b\<lparr>mb_rd := mb_rd b + initial\<rparr>;
              s = s\<lparr>se_current := b # bs\<rparr>;
              s = (if mb_length b = 0
                   then if se_alignment s = ALIGN_NONE then next_block s else align_cont_r s
                   else s)
          in (offset + initial, dest, s))"

lemma next_block_fields [simp]:
  "se_current (next_block s) = tl (se_current s)" "se_done (next_block s) = se_done s @ take 1 (se_current s)"
  "se_swap (next_block s) = se_swap s" "se_good (next_block s) = se_good s"
  "se_alignment (next_block s) = se_alignment s"
  "align_rshift (next_block s) = align_rshift s" "align_wshift (next_block s) = align_wshift s"
  by (simp_all add: next_block_def)

lemma align_cont_fields [simp]:
  "se_current (align_cont_r s) = tl (se_current s)" "se_done (align_cont_r s) = se_done s @ take 1 (se_current s)"
  "se_swap (align_cont_r s) = se_swap s" "se_good (align_cont_r s) = se_good s"
  "se_alignment (align_cont_r s) = se_alignment s" "align_wshift (align_cont_r s) = align_wshift s"
  "se_current (align_cont_w s) = tl (se_current s)" "se_done (align_cont_w s) = se_done s @ take 1 (se_current s)"
  "se_swap (align_cont_w s) = se_swap s" "se_good (align_cont_w s) = se_good s"
  "se_alignment (align_cont_w s) = se_alignment s" "align_rshift (align_cont_w s) = align_rshift s"
  by (auto simp: align_cont_r_def align_cont_w_def Let_def split: list.splits)

text \<open>Every step reads something or leaves a block behind.\<close>

lemma doread_progress:
  assumes "offset < sz" "doread dest sz swap offset s = (offset', dest', s')"
  shows "sz - offset' < sz - offset \<or> sz - offset' = sz - offset \<and> length (se_current s') < length (se_current s)"
proof (cases "se_current s")
  case Nil
  then show ?thesis using assms by (auto simp: doread_def)
next
  case (Cons b bs)
  show ?thesis
  proof (cases "mb_length b = 0")
    case True
    then show ?thesis
      using assms Cons by (auto simp: doread_def Let_def mb_length_def split: if_splits prod.splits option.splits)
  next
    case False
    then show ?thesis
      using assms Cons by (auto simp: doread_def Let_def split: if_splits prod.splits)
  qed
qed

function read_loop :: "octet list \<Rightarrow> nat \<Rightarrow> bool \<Rightarrow> nat \<Rightarrow> Serializer \<Rightarrow> octet list \<times> Serializer" where
  "read_loop dest sz swap offset s =
     (if sz > offset
      then case doread dest sz swap offset s of
             (offset', dest', s') \<Rightarrow> read_loop dest' sz swap offset' s'
      else (dest, s))"
  by pat_completeness auto
termination
  apply (relation "measures [\<lambda>(dest, sz, swap, offset, s). sz - offset,
        \<lambda>(dest, sz, swap, offset, s). length (se_current s)]")
   apply simp
  subgoal for dest sz swap offset s
    by (cases "doread dest sz swap offset s") (use doread_progress [of offset sz dest swap s] in auto)
  done

declare read_loop.simps [simp del]

definition buffer_read :: "octet list \<Rightarrow> nat \<Rightarrow> bool \<Rightarrow> Serializer \<Rightarrow> octet list \<times> Serializer" where
  "buffer_read dest sz swap s = read_loop dest sz swap 0 s"

section \<open>Writing\<close>

definition dowrite :: "octet list \<Rightarrow> nat \<Rightarrow> bool \<Rightarrow> nat \<Rightarrow> Serializer \<Rightarrow> nat \<times> Serializer" where
  "dowrite src sz swap offset s =
     (case se_current s of
        [] \<Rightarrow> (sz, s\<lparr>se_good := False\<rparr>)
      | b # bs \<Rightarrow>
          let spc = mb_space b;
              remainder = (if sz - offset > spc then sz - offset - spc else 0);
              initial = sz - offset - remainder;
              (buf, s) = (if swap
                          then (case swapcpy (mb_wr b) (mb_buf b) (drop remainder src) initial of
                                  Some d \<Rightarrow> (d, s) | None \<Rightarrow> (mb_buf b, s\<lparr>se_good := False\<rparr>))
                          else (smemcpy (mb_wr b) (mb_buf b) (drop offset src) initial, s));
              b = b\<lparr>mb_buf := buf, mb_wr := mb_wr b + initial\<rparr>;
              s = s\<lparr>se_current := b # bs\<rparr>;
              s = (if mb_space b = 0
                   then if se_alignment s = ALIGN_NONE then next_block s else align_cont_w s
                   else s)
          in (offset + initial, s))"


lemma swap_loop_length [simp]: "length (swap_loop p from n to k) = length to"
  by (induction k arbitrary: to) simp_all

lemma dowrite_progress:
  assumes "offset < sz" "dowrite src sz swap offset s = (offset', s')"
  shows "sz - offset' < sz - offset \<or> sz - offset' = sz - offset \<and> length (se_current s') < length (se_current s)"
proof (cases "se_current s")
  case Nil
  then show ?thesis using assms by (auto simp: dowrite_def)
next
  case (Cons b bs)
  show ?thesis
  proof (cases "mb_space b = 0")
    case True
    then have "swapcpy (mb_wr b) (mb_buf b) xs 0 = Some (mb_buf b)" "smemcpy (mb_wr b) (mb_buf b) xs 0 = mb_buf b" for xs
      by (simp_all add: swapcpy_def smemcpy_def)
    then show ?thesis
      using assms Cons True by (auto simp: dowrite_def Let_def mb_space_def split: if_splits prod.splits)
  next
    case False
    then show ?thesis
      using assms Cons by (auto simp: dowrite_def Let_def split: if_splits prod.splits)
  qed
qed

function write_loop :: "octet list \<Rightarrow> nat \<Rightarrow> bool \<Rightarrow> nat \<Rightarrow> Serializer \<Rightarrow> Serializer" where
  "write_loop src sz swap offset s =
     (if sz > offset
      then case dowrite src sz swap offset s of (offset', s') \<Rightarrow> write_loop src sz swap offset' s'
      else s)"
  by pat_completeness auto
termination
  apply (relation "measures [\<lambda>(src, sz, swap, offset, s). sz - offset,
        \<lambda>(src, sz, swap, offset, s). length (se_current s)]")
   apply simp
  subgoal for src sz swap offset s
    by (cases "dowrite src sz swap offset s") (use dowrite_progress [of offset sz src swap s] in auto)
  done

declare write_loop.simps [simp del]

definition buffer_write :: "octet list \<Rightarrow> nat \<Rightarrow> bool \<Rightarrow> Serializer \<Rightarrow> Serializer" where
  "buffer_write src sz swap s = write_loop src sz swap 0 s"

section \<open>Alignment\<close>

text \<open>The loop of \<open>skip\<close> over a number of octets.\<close>

function skip_loop :: "nat \<Rightarrow> Serializer \<Rightarrow> Serializer" where
  "skip_loop len s =
     (if len = 0 then s
      else case se_current s of
             [] \<Rightarrow> s\<lparr>se_good := False\<rparr>
           | b # bs \<Rightarrow>
               if mb_length b \<le> len
               then skip_loop (len - mb_length b)
                      (align_cont_r (s\<lparr>se_current := b\<lparr>mb_rd := mb_wr b\<rparr> # bs\<rparr>))
               else s\<lparr>se_current := b\<lparr>mb_rd := mb_rd b + len\<rparr> # bs\<rparr>)"
  by pat_completeness auto
termination
  by (relation "measure (\<lambda>(len, s). length (se_current s))") auto

declare skip_loop.simps [simp del]

text \<open>\<open>align_r\<close> skips the padding; the count passes through a parameter of 16 bits.\<close>

definition align_r :: "nat \<Rightarrow> Serializer \<Rightarrow> Serializer option" where
  "align_r al s =
     (case se_current s of
        [] \<Rightarrow> None
      | b # _ \<Rightarrow>
          Some (skip_loop (size_mod (int al - int (rd_ptr b) + int (align_rshift s)) al mod 2 ^ 16) s))"

definition skip :: "nat \<Rightarrow> nat \<Rightarrow> Serializer \<Rightarrow> Serializer option" where
  "skip n sz s =
     map_option (skip_loop (n * sz))
       (if sz > 1 \<and> se_alignment s \<noteq> ALIGN_NONE then align_r (if sz > MAX_ALIGN then MAX_ALIGN else sz) s
        else Some s)"

definition ALIGN_PAD :: "octet list" where "ALIGN_PAD = replicate MAX_ALIGN 0"

definition pad_block :: "Alignment \<Rightarrow> nat \<Rightarrow> mblock \<Rightarrow> mblock" where
  "pad_block al n b =
     b\<lparr>mb_buf := (if al = ALIGN_INITIALIZE then smemcpy (mb_wr b) (mb_buf b) ALIGN_PAD n else mb_buf b),
       mb_wr := mb_wr b + n\<rparr>"

function pad_loop :: "nat \<Rightarrow> Serializer \<Rightarrow> Serializer" where
  "pad_loop len s =
     (if len = 0 then s
      else case se_current s of
             [] \<Rightarrow> s\<lparr>se_good := False\<rparr>
           | b # bs \<Rightarrow>
               if mb_space b \<le> len
               then pad_loop (len - mb_space b)
                      (align_cont_w (s\<lparr>se_current := pad_block (se_alignment s) (mb_space b) b # bs\<rparr>))
               else s\<lparr>se_current := pad_block (se_alignment s) len b # bs\<rparr>)"
  by pat_completeness auto
termination
  by (relation "measure (\<lambda>(len, s). length (se_current s))") auto

declare pad_loop.simps [simp del]

definition align_w :: "nat \<Rightarrow> Serializer \<Rightarrow> Serializer option" where
  "align_w al s =
     (case se_current s of
        [] \<Rightarrow> None
      | b # _ \<Rightarrow> Some (pad_loop (size_mod (int al - int (wr_ptr b) + int (align_wshift s)) al) s))"

end
