(* ===== verification/Serializer_Stream.thy ===== *)
theory Serializer_Stream
  imports Serializer_Core
begin

text \<open>
  What the serializer promises: reading and writing behave like operations on one stream of octets, however
  the chain is divided into blocks.
\<close>

section \<open>The stream of a chain\<close>

definition mb_ok :: "mblock \<Rightarrow> bool" where
  "mb_ok b \<longleftrightarrow> mb_rd b \<le> mb_wr b \<and> mb_wr b \<le> length (mb_buf b)"

definition mb_content :: "mblock \<Rightarrow> octet list" where
  "mb_content b = take (mb_length b) (drop (mb_rd b) (mb_buf b))"

definition stream_of :: "mblock list \<Rightarrow> octet list" where
  "stream_of bs = concat (map mb_content bs)"

definition chain_ok :: "mblock list \<Rightarrow> bool" where
  "chain_ok bs \<longleftrightarrow> (\<forall>b \<in> set bs. mb_ok b)"

lemma stream_of_simps [simp]:
  "stream_of [] = []" "stream_of (b # bs) = mb_content b @ stream_of bs" "stream_of (as @ bs) = stream_of as @ stream_of bs"
  by (simp_all add: stream_of_def)

lemma chain_ok_simps [simp]:
  "chain_ok []" "chain_ok (b # bs) \<longleftrightarrow> mb_ok b \<and> chain_ok bs" "chain_ok (as @ bs) \<longleftrightarrow> chain_ok as \<and> chain_ok bs"
  by (auto simp: chain_ok_def)

lemma length_mb_content: "mb_ok b \<Longrightarrow> length (mb_content b) = mb_length b"
  by (auto simp: mb_content_def mb_ok_def mb_length_def)

lemma length_stream_of: "chain_ok bs \<Longrightarrow> length (stream_of bs) = total_length bs"
  by (induction bs) (simp_all add: total_length_def length_mb_content)

text \<open>The octets still to be read, and those that were written so far.\<close>

definition to_read :: "Serializer \<Rightarrow> octet list" where "to_read s = stream_of (se_current s)"
definition chain_of :: "Serializer \<Rightarrow> mblock list" where "chain_of s = se_done s @ se_current s"

text \<open>Everything an operation on the chain leaves alone.\<close>

definition same_mode :: "Serializer \<Rightarrow> Serializer \<Rightarrow> bool" where
  "same_mode s s' \<longleftrightarrow> se_swap s' = se_swap s \<and> se_alignment s' = se_alignment s"

section \<open>Positions\<close>

text \<open>
  The shifts of the serializer make the address of the current position, reduced by the shift, agree with
  the position in the stream up to multiples of the largest alignment.
\<close>

definition r_aligned :: "nat \<Rightarrow> Serializer \<Rightarrow> bool" where
  "r_aligned pos s \<longleftrightarrow> se_alignment s = ALIGN_NONE
     \<or> (case se_current s of [] \<Rightarrow> True
         | b # _ \<Rightarrow> (int (rd_ptr b) - int (align_rshift s)) mod 8 = int pos mod 8)"

definition w_aligned :: "nat \<Rightarrow> Serializer \<Rightarrow> bool" where
  "w_aligned pos s \<longleftrightarrow> se_alignment s = ALIGN_NONE
     \<or> (case se_current s of [] \<Rightarrow> True
         | b # _ \<Rightarrow> (int (wr_ptr b) - int (align_wshift s)) mod 8 = int pos mod 8)"

lemma size_mod_dvd: "0 < m \<Longrightarrow> m dvd 2 ^ 64 \<Longrightarrow> int (size_mod x m) = x mod int m"
  using mod_mod_cancel [of "int m" "2 ^ 64" x] of_nat_dvd_iff [of m "2 ^ 64", where 'a = int] by (simp add: size_mod_def)

lemma size_mod_8: "int (size_mod x MAX_ALIGN) = x mod 8"
  using size_mod_dvd [of 8 x] by (simp add: MAX_ALIGN_def)

lemma cont_shift:
  "(r - (r - p mod 8) mod 8) mod 8 = p mod 8" for r p :: int
  by (simp add: mod_simps)

lemma align_cont_r_aligned:
  assumes "se_current s = b # bs" "r_aligned pos s"
  shows "r_aligned pos (align_cont_r s)"
  using assms by (auto simp: r_aligned_def align_cont_r_def Let_def size_mod_8 cont_shift split: list.splits)

lemma align_cont_w_aligned:
  assumes "se_current s = b # bs" "w_aligned pos s"
  shows "w_aligned pos (align_cont_w s)"
  using assms by (auto simp: w_aligned_def align_cont_w_def Let_def size_mod_8 cont_shift split: list.splits)

lemma aligned_mk: "r_aligned 0 (mk_Serializer chain swap al)" "w_aligned 0 (mk_Serializer chain swap al)"
  by (auto simp: r_aligned_def w_aligned_def mk_Serializer_def size_mod_8 mod_simps split: list.splits)

lemma mod_8_add: "x mod 8 = int pos mod 8 \<Longrightarrow> (x + int n) mod 8 = int (pos + n) mod 8" for x :: int
  by (metis mod_add_left_eq of_nat_add)

section \<open>Copying\<close>

lemma swap_loop_nth:
  "k \<le> n \<Longrightarrow> p + n \<le> length to \<Longrightarrow> i < length to \<Longrightarrow>
   swap_loop p from n to k ! i = (if p \<le> i \<and> i < p + k then from ! (n - Suc (i - p)) else to ! i)"
proof (induction k arbitrary: to)
  case (Suc k)
  then show ?case by (cases "i = p + k") (auto simp: nth_list_update)
qed auto

lemma swap_loop_rev:
  assumes "p + n \<le> length to" "n \<le> length from"
  shows "swap_loop p from n to n = smemcpy p to (rev (take n from)) n"
proof (rule nth_equalityI)
  show "length (swap_loop p from n to n) = length (smemcpy p to (rev (take n from)) n)"
    using assms by (simp add: smemcpy_def)
  fix i
  assume "i < length (swap_loop p from n to n)"
  then show "swap_loop p from n to n ! i = smemcpy p to (rev (take n from)) n ! i"
    using assms by (auto simp: swap_loop_nth smemcpy_def nth_append rev_nth)
qed

lemma length_smemcpy: "p + n \<le> length to \<Longrightarrow> n \<le> length from \<Longrightarrow> length (smemcpy p to from n) = length to"
  by (simp add: smemcpy_def)

section \<open>Reading\<close>

text \<open>The octets of a value in the order in which they are copied.\<close>

definition ordered :: "bool \<Rightarrow> octet list \<Rightarrow> octet list" where
  "ordered swap xs = (if swap then rev xs else xs)"

lemma length_ordered [simp]: "length (ordered swap xs) = length xs"
  by (simp add: ordered_def)

lemma ordered_twice [simp]: "ordered swap (ordered swap xs) = xs"
  by (simp add: ordered_def)

lemma content_advance:
  assumes "mb_ok b" "n \<le> mb_length b"
  shows "mb_ok (b\<lparr>mb_rd := mb_rd b + n\<rparr>)" "mb_content (b\<lparr>mb_rd := mb_rd b + n\<rparr>) = drop n (mb_content b)"
    "take n (drop (mb_rd b) (mb_buf b)) = take n (mb_content b)"
    "mb_length (b\<lparr>mb_rd := mb_rd b + n\<rparr>) = mb_length b - n"
  using assms by (auto simp: mb_ok_def mb_content_def mb_length_def drop_take min_def add.commute)

text \<open>Reading takes octets off the front of the stream and keeps the position in step with them.\<close>

definition consumes :: "nat \<Rightarrow> Serializer \<Rightarrow> Serializer \<Rightarrow> bool" where
  "consumes m s s' \<longleftrightarrow> chain_ok (se_current s') \<and> same_mode s s' \<and> to_read s' = drop m (to_read s)
     \<and> (se_good s' \<longleftrightarrow> se_good s \<and> m \<le> length (to_read s)) \<and> (\<forall>pos. r_aligned pos s \<longrightarrow> r_aligned (pos + m) s')"

lemma consumesD:
  assumes "consumes m s s'"
  shows "chain_ok (se_current s')" "same_mode s s'" "to_read s' = drop m (to_read s)"
    "se_good s' \<longleftrightarrow> se_good s \<and> m \<le> length (to_read s)" "r_aligned pos s \<Longrightarrow> r_aligned (pos + m) s'"
  using assms by (simp_all add: consumes_def)

lemma consumes_0: "chain_ok (se_current s) \<Longrightarrow> consumes 0 s s"
  by (simp add: consumes_def same_mode_def)

lemma consumes_trans:
  assumes "consumes n s t" "n \<le> length (to_read s)" "consumes k t s'"
  shows "consumes (n + k) s s'"
  unfolding consumes_def
proof (intro conjI allI impI)
  show "se_good s' \<longleftrightarrow> se_good s \<and> n + k \<le> length (to_read s)"
    using assms(2) consumesD(4) [OF assms(1)] consumesD(4) [OF assms(3)] unfolding consumesD(3) [OF assms(1)] by auto
  show "r_aligned (pos + (n + k)) s'" if "r_aligned pos s" for pos
    using consumesD(5) [OF assms(3) consumesD(5) [OF assms(1) that]] by (simp only: add.assoc)
qed (use consumesD(1-3) [OF assms(1)] consumesD(1-3) [OF assms(3)] in \<open>simp_all add: same_mode_def add.commute\<close>)

lemma consumes_null: "se_current s = [] \<Longrightarrow> 0 < m \<Longrightarrow> consumes m s (s\<lparr>se_good := False\<rparr>)"
  by (simp add: consumes_def to_read_def same_mode_def r_aligned_def)

lemma consumes_current:
  assumes "se_current s = b # bs" "mb_ok b" "chain_ok bs" "n \<le> mb_length b"
  shows "consumes n s (s\<lparr>se_current := b\<lparr>mb_rd := mb_rd b + n\<rparr> # bs\<rparr>)" "n \<le> length (to_read s)"
proof -
  let ?t = "s\<lparr>se_current := b\<lparr>mb_rd := mb_rd b + n\<rparr> # bs\<rparr>"
  have l: "n \<le> length (mb_content b)" using assms(2,4) by (simp add: length_mb_content)
  then show n: "n \<le> length (to_read s)" using assms(1) by (simp add: to_read_def)
  have "r_aligned (pos + n) ?t" if "r_aligned pos s" for pos
    using that assms(1) mod_8_add [of "int (rd_ptr b) - int (align_rshift s)" pos n]
    by (auto simp: r_aligned_def rd_ptr_def algebra_simps)
  then show "consumes n s ?t"
    using n l assms content_advance [OF assms(2,4)] by (simp add: consumes_def same_mode_def to_read_def)
qed

lemma consumes_block:
  assumes "se_current s = b # bs" "chain_ok bs" "mb_length b = 0"
  shows "consumes 0 s (align_cont_r s)" "se_alignment s = ALIGN_NONE \<Longrightarrow> consumes 0 s (next_block s)"
proof -
  have "mb_content b = []" using assms(3) by (simp add: mb_content_def)
  then show "consumes 0 s (align_cont_r s)" "se_alignment s = ALIGN_NONE \<Longrightarrow> consumes 0 s (next_block s)"
    using assms align_cont_r_aligned [OF assms(1)]
    by (simp_all add: consumes_def same_mode_def to_read_def r_aligned_def)
qed

text \<open>Where the next octets of a value go: behind those that are there, or in front of them when it is swapped.\<close>

definition placed :: "bool \<Rightarrow> nat \<Rightarrow> octet list \<Rightarrow> octet list \<Rightarrow> octet list" where
  "placed swap offset dest xs =
     (if swap then smemcpy (length dest - offset - length xs) dest (rev xs) (length xs) else smemcpy offset dest xs (length xs))"

lemma length_placed: "offset + length xs \<le> length dest \<Longrightarrow> length (placed swap offset dest xs) = length dest"
  by (simp add: placed_def length_smemcpy)

lemma placed_append:
  "offset + length xs + length ys \<le> length dest \<Longrightarrow>
   placed swap (offset + length xs) (placed swap offset dest xs) ys = placed swap offset dest (xs @ ys)"
  by (simp add: placed_def smemcpy_def ac_simps)

lemma placed_Nil [simp]: "placed swap offset dest [] = dest"
  by (simp add: placed_def smemcpy_def)

lemma placed_all: "length xs = length dest \<Longrightarrow> placed swap 0 dest xs = ordered swap xs"
  by (simp add: placed_def smemcpy_def ordered_def)

lemma read_copy:
  assumes "mb_ok b" "n \<le> mb_length b" "n \<le> sz - offset" "offset < sz" "length dest = sz" "swap \<Longrightarrow> sz \<le> 16"
  shows "swap \<Longrightarrow> swapcpy (sz - offset - n) dest (drop (mb_rd b) (mb_buf b)) n = Some (placed swap offset dest (take n (mb_content b)))"
    "\<not> swap \<Longrightarrow> smemcpy offset dest (drop (mb_rd b) (mb_buf b)) n = placed swap offset dest (take n (mb_content b))"
proof -
  note a = content_advance(3) [OF assms(1,2)]
  have l: "length (take n (mb_content b)) = n" using assms(1,2) by (simp add: length_mb_content)
  have "n \<le> length (drop (mb_rd b) (mb_buf b))" using assms(1,2) by (auto simp: mb_ok_def mb_length_def)
  moreover have "sz - offset - n + n \<le> length dest" using assms(3-5) by linarith
  ultimately show "swapcpy (sz - offset - n) dest (drop (mb_rd b) (mb_buf b)) n = Some (placed swap offset dest (take n (mb_content b)))"
    if swap
    using swap_loop_rev [of "sz - offset - n" n dest "drop (mb_rd b) (mb_buf b)"] assms(3-6) that l
    unfolding a by (simp add: swapcpy_def placed_def)
  show "smemcpy offset dest (drop (mb_rd b) (mb_buf b)) n = placed swap offset dest (take n (mb_content b))" if "\<not> swap"
    using that l a by (simp add: placed_def smemcpy_def)
qed

lemma doread_step:
  assumes s: "se_current s = b # bs" and ok: "mb_ok b" "chain_ok bs"
    and sz: "offset < sz" "length dest = sz" "swap \<Longrightarrow> sz \<le> 16" and n: "n = min (sz - offset) (mb_length b)"
  obtains s' where "doread dest sz swap offset s = (offset + n, placed swap offset dest (take n (mb_content b)), s')"
    "consumes n s s'" "se_current s' = (if n = mb_length b then bs else b\<lparr>mb_rd := mb_rd b + n\<rparr> # bs)"
proof -
  have m: "sz - offset - (sz - offset - n) = n"
      "(if sz - offset > mb_length b then sz - offset - mb_length b else 0) = sz - offset - n" and le: "n \<le> mb_length b" "n \<le> sz - offset"
    by (auto simp: n)
  define t where "t = s\<lparr>se_current := b\<lparr>mb_rd := mb_rd b + n\<rparr> # bs\<rparr>"
  define s' where "s' = (if mb_length b - n = 0
      then if se_alignment t = ALIGN_NONE then next_block t else align_cont_r t else t)"
  note a = content_advance [OF ok(1) le(1)] and copy = read_copy [OF ok(1) le sz]
  have t: "consumes n s t" "n \<le> length (to_read s)" "se_current t = b\<lparr>mb_rd := mb_rd b + n\<rparr> # bs"
    unfolding t_def using consumes_current [OF s ok le(1)] by simp_all
  have "consumes 0 t s'"
    using consumes_block [OF t(3) ok(2)] consumes_0 [OF consumesD(1) [OF t(1)]] a(4) by (simp add: s'_def)
  then have "consumes n s s'" using consumes_trans [OF t(1,2)] by fastforce
  moreover have "doread dest sz swap offset s = (offset + n, placed swap offset dest (take n (mb_content b)), s')"
    unfolding doread_def s list.case Let_def m using copy by (simp add: a(4) s'_def t_def del: diff_diff_left)
  moreover have "se_current s' = (if n = mb_length b then bs else b\<lparr>mb_rd := mb_rd b + n\<rparr> # bs)"
    using le(1) by (auto simp: s'_def t_def)
  ultimately show thesis using that by blast
qed

lemma read_loop_null:
  assumes "se_current s = []" "offset < sz"
  shows "read_loop dest sz swap offset s = (dest, s\<lparr>se_good := False\<rparr>)"
  using assms by (simp add: read_loop.simps [of dest sz swap offset s] doread_def read_loop.simps [of dest sz swap sz])

lemma read_loop_correct:
  assumes "chain_ok (se_current s)" "offset \<le> sz" "length dest = sz" "swap \<Longrightarrow> sz \<le> 16"
    and "read_loop dest sz swap offset s = (dest', s')" "m = sz - offset"
  shows "consumes m s s' \<and> length dest' = sz
    \<and> (m \<le> length (to_read s) \<longrightarrow> dest' = placed swap offset dest (take m (to_read s)))"
  using assms
proof (induction dest sz swap offset s arbitrary: dest' s' m rule: read_loop.induct)
  case (1 dest sz swap offset s)
  consider "offset = sz" | "offset < sz" "se_current s = []" | b bs where "offset < sz" "se_current s = b # bs"
    using 1(3) by (cases "se_current s") (force simp: le_less)+
  then show ?case
  proof cases
    case 1
    then show ?thesis using "1.prems" by (simp add: read_loop.simps [of dest] consumes_0)
  next
    case 2
    then show ?thesis
      using "1.prems"(3,5,6) consumes_null [OF 2(2), of m] unfolding read_loop_null [OF 2(2,1)] by (auto simp: to_read_def)
  next
    case (3 b bs)
    define n where "n = min (sz - offset) (mb_length b)"
    let ?xs = "take n (mb_content b)"
    have ok: "mb_ok b" "chain_ok bs" using "1.prems"(1) 3 by simp_all
    have n: "n \<le> mb_length b" "offset + n \<le> sz" "n \<le> m" "sz - (offset + n) = m - n"
      using 3(1) "1.prems"(6) by (auto simp: n_def)
    obtain s1 where d: "doread dest sz swap offset s = (offset + n, placed swap offset dest ?xs, s1)" "consumes n s s1"
      by (rule doread_step [OF 3(2) ok 3(1) "1.prems"(3,4) n_def]) auto
    have xs: "length ?xs = n" "take n (to_read s) = ?xs" "n \<le> length (to_read s)"
      using n(1) length_mb_content [OF ok(1)] 3(2) by (simp_all add: to_read_def)
    then have ld: "length (placed swap offset dest ?xs) = sz"
      using length_placed [of offset ?xs dest swap] n(2) "1.prems"(3) by simp
    have "read_loop (placed swap offset dest ?xs) sz swap (offset + n) s1 = (dest', s')"
      using "1.prems"(5) 3(1) d(1) by (simp add: read_loop.simps [of dest])
    then have ih: "consumes (m - n) s1 s'" "length dest' = sz" "m - n \<le> length (to_read s1) \<Longrightarrow>
        dest' = placed swap (offset + n) (placed swap offset dest ?xs) (take (m - n) (to_read s1))"
      using "1.IH" [OF 3(1) d(1) [symmetric] refl consumesD(1) [OF d(2)] n(2) ld "1.prems"(4) _ refl] unfolding n(4) by blast+
    have "dest' = placed swap offset dest (take m (to_read s))" if "m \<le> length (to_read s)"
    proof -
      have "take m (to_read s) = ?xs @ take (m - n) (to_read s1)"
        using take_add [of n "m - n" "to_read s"] n(3) xs(2) consumesD(3) [OF d(2)] by simp
      then show ?thesis
        using ih(3) placed_append [of offset ?xs "take (m - n) (to_read s1)" dest swap] that xs(1) n "1.prems"(3)
          consumesD(3) [OF d(2)] by simp
    qed
    then show ?thesis using consumes_trans [OF d(2) xs(3) ih(1)] n(3) ih(2) by simp
  qed
qed

text \<open>Reading a value takes its octets off the stream, or fails when there are too few.\<close>

lemma buffer_read_correct:
  assumes "chain_ok (se_current s)" "length dest = sz" "swap \<Longrightarrow> sz \<le> 16" "buffer_read dest sz swap s = (dest', s')"
  shows "chain_ok (se_current s')" "same_mode s s'" "to_read s' = drop sz (to_read s)" "length dest' = sz"
    "se_good s' \<longleftrightarrow> se_good s \<and> sz \<le> length (to_read s)"
    "sz \<le> length (to_read s) \<Longrightarrow> dest' = ordered swap (take sz (to_read s))"
    "r_aligned pos s \<Longrightarrow> r_aligned (pos + sz) s'"
  using read_loop_correct [OF assms(1) _ assms(2,3), of 0 swap dest' s' sz] assms(2,4) placed_all [of "take sz (to_read s)" dest swap]
  by (auto simp: buffer_read_def dest: consumesD)

section \<open>Writing\<close>

definition room :: "Serializer \<Rightarrow> nat" where "room s = sum_list (map mb_space (se_current s))"

definition written :: "Serializer \<Rightarrow> octet list" where "written s = stream_of (chain_of s)"

text \<open>The blocks behind the current one are empty, as they are before anything is written into them.\<close>

definition writable :: "Serializer \<Rightarrow> bool" where
  "writable s \<longleftrightarrow> chain_ok (chain_of s) \<and> stream_of (tl (se_current s)) = []"

lemma piece_swapped:
  assumes "length src = sz" "offset < sz" "n \<le> sz - offset"
  shows "rev (take n (drop (sz - offset - n) src)) = take n (drop offset (rev src))"
proof -
  have "take n (drop offset (rev src)) = take n (rev (take (sz - offset) src))"
    using assms(1) by (simp add: drop_rev)
  also have "\<dots> = rev (drop (sz - offset - n) (take (sz - offset) src))"
    using assms by (simp add: take_rev)
  also have "drop (sz - offset - n) (take (sz - offset) src) = take n (drop (sz - offset - n) src)"
    using assms(3) by (simp add: drop_take del: diff_diff_left)
  finally show ?thesis by simp
qed

definition put_block :: "octet list \<Rightarrow> mblock \<Rightarrow> mblock" where
  "put_block xs b = b\<lparr>mb_buf := smemcpy (mb_wr b) (mb_buf b) xs (length xs), mb_wr := mb_wr b + length xs\<rparr>"

lemma put_block_correct:
  assumes "mb_ok b" "length xs \<le> mb_space b"
  shows "mb_ok (put_block xs b)" "mb_content (put_block xs b) = mb_content b @ xs"
    "mb_space (put_block xs b) = mb_space b - length xs"
proof -
  have l: "mb_rd b \<le> mb_wr b" "mb_wr b + length xs \<le> length (mb_buf b)" using assms by (auto simp: mb_ok_def mb_space_def)
  then have "length (smemcpy (mb_wr b) (mb_buf b) xs (length xs)) = length (mb_buf b)" by (simp add: length_smemcpy)
  then show "mb_ok (put_block xs b)" "mb_space (put_block xs b) = mb_space b - length xs"
    using l by (simp_all add: put_block_def mb_ok_def mb_space_def)
  have "take (mb_wr b + length xs - mb_rd b) (drop (mb_rd b) (smemcpy (mb_wr b) (mb_buf b) xs (length xs)))
      = take (mb_wr b - mb_rd b) (drop (mb_rd b) (mb_buf b)) @ xs"
    using l by (simp add: smemcpy_def drop_take)
  then show "mb_content (put_block xs b) = mb_content b @ xs"
    by (simp add: mb_content_def put_block_def mb_length_def)
qed

text \<open>Writing appends octets to the stream as far as there is room, and keeps the position in step with them.\<close>

definition appends :: "octet list \<Rightarrow> Serializer \<Rightarrow> Serializer \<Rightarrow> bool" where
  "appends xs s s' \<longleftrightarrow> writable s' \<and> same_mode s s' \<and> room s' = room s - length xs
     \<and> (se_good s' \<longleftrightarrow> se_good s \<and> length xs \<le> room s) \<and> written s' = written s @ take (room s) xs
     \<and> (\<forall>pos. w_aligned pos s \<longrightarrow> w_aligned (pos + length xs) s')"

lemma appendsD:
  assumes "appends xs s s'"
  shows "writable s'" "same_mode s s'" "room s' = room s - length xs" "se_good s' \<longleftrightarrow> se_good s \<and> length xs \<le> room s"
    "written s' = written s @ take (room s) xs" "w_aligned pos s \<Longrightarrow> w_aligned (pos + length xs) s'"
  using assms by (simp_all add: appends_def)

lemma appends_Nil: "writable s \<Longrightarrow> appends [] s s"
  by (simp add: appends_def same_mode_def)

lemma appends_trans:
  assumes "appends xs s t" "length xs \<le> room s" "appends ys t s'"
  shows "appends (xs @ ys) s s'"
  unfolding appends_def
proof (intro conjI allI impI)
  show "se_good s' \<longleftrightarrow> se_good s \<and> length (xs @ ys) \<le> room s"
    using assms(2) appendsD(4) [OF assms(1)] appendsD(4) [OF assms(3)] unfolding appendsD(3) [OF assms(1)] by auto
  show "w_aligned (pos + length (xs @ ys)) s'" if "w_aligned pos s" for pos
    using appendsD(6) [OF assms(3) appendsD(6) [OF assms(1) that]] by (simp only: length_append add.assoc)
qed (use assms(2) appendsD(1-3,5) [OF assms(1)] appendsD(1-3,5) [OF assms(3)] in \<open>simp_all add: same_mode_def\<close>)

lemma appends_null: "writable s \<Longrightarrow> se_current s = [] \<Longrightarrow> xs \<noteq> [] \<Longrightarrow> appends xs s (s\<lparr>se_good := False\<rparr>)"
  by (simp add: appends_def same_mode_def room_def written_def chain_of_def writable_def w_aligned_def)

lemma appends_current:
  assumes "writable s" "se_current s = b # bs" "length xs \<le> mb_space b"
  shows "appends xs s (s\<lparr>se_current := put_block xs b # bs\<rparr>)" "length xs \<le> room s"
proof -
  have ok: "mb_ok b" "chain_ok bs" "chain_ok (se_done s)" "stream_of bs = []"
    using assms(1,2) by (simp_all add: writable_def chain_of_def)
  note p = put_block_correct [OF ok(1) assms(3)]
  show "length xs \<le> room s" using assms(2,3) by (simp add: room_def)
  moreover have "w_aligned (pos + length xs) (s\<lparr>se_current := put_block xs b # bs\<rparr>)" if "w_aligned pos s" for pos
    using that assms(2) mod_8_add [of "int (wr_ptr b) - int (align_wshift s)" pos "length xs"]
    by (auto simp: w_aligned_def wr_ptr_def put_block_def algebra_simps)
  ultimately show "appends xs s (s\<lparr>se_current := put_block xs b # bs\<rparr>)"
    using ok p assms(2,3) by (simp add: appends_def writable_def chain_of_def same_mode_def room_def written_def)
qed

lemma appends_block:
  assumes "writable s" "se_current s = b # bs" "mb_space b = 0"
  shows "appends [] s (align_cont_w s)" "se_alignment s = ALIGN_NONE \<Longrightarrow> appends [] s (next_block s)"
proof -
  have "stream_of (tl bs) = []" using assms(1,2) by (cases bs) (simp_all add: writable_def)
  then show "appends [] s (align_cont_w s)" "se_alignment s = ALIGN_NONE \<Longrightarrow> appends [] s (next_block s)"
    using assms align_cont_w_aligned [OF assms(2)]
    by (simp_all add: appends_def writable_def chain_of_def same_mode_def room_def written_def w_aligned_def)
qed

lemma write_copy:
  assumes "mb_ok b" "n \<le> mb_space b" "n \<le> sz - offset" "offset < sz" "length src = sz" "swap \<Longrightarrow> sz \<le> 16"
  defines "xs \<equiv> take n (drop offset (ordered swap src))"
  shows "swap \<Longrightarrow> swapcpy (mb_wr b) (mb_buf b) (drop (sz - offset - n) src) n = Some (smemcpy (mb_wr b) (mb_buf b) xs n)"
    "\<not> swap \<Longrightarrow> smemcpy (mb_wr b) (mb_buf b) (drop offset src) n = smemcpy (mb_wr b) (mb_buf b) xs n"
    "put_block xs b = b\<lparr>mb_buf := smemcpy (mb_wr b) (mb_buf b) xs n, mb_wr := mb_wr b + n\<rparr>"
    "length xs = n"
proof -
  have fits: "mb_wr b + n \<le> length (mb_buf b)" using assms(1,2) by (auto simp: mb_ok_def mb_space_def)
  show "length xs = n" using assms(3,5) by (simp add: xs_def)
  then show "put_block xs b = b\<lparr>mb_buf := smemcpy (mb_wr b) (mb_buf b) xs n, mb_wr := mb_wr b + n\<rparr>"
    by (simp add: put_block_def)
  show "smemcpy (mb_wr b) (mb_buf b) (drop offset src) n = smemcpy (mb_wr b) (mb_buf b) xs n" if "\<not> swap"
    using that by (simp add: smemcpy_def ordered_def xs_def)
  show "swapcpy (mb_wr b) (mb_buf b) (drop (sz - offset - n) src) n = Some (smemcpy (mb_wr b) (mb_buf b) xs n)" if swap
  proof -
    have "n \<le> length (drop (sz - offset - n) src)" "n \<le> 16" using assms(3-6) that by auto
    then show ?thesis
      using swap_loop_rev [OF fits, of "drop (sz - offset - n) src"] piece_swapped [OF assms(5,4,3)] that
      by (simp add: swapcpy_def ordered_def xs_def)
  qed
qed

lemma dowrite_step:
  assumes w: "writable s" and s: "se_current s = b # bs"
    and sz: "offset < sz" "length src = sz" "swap \<Longrightarrow> sz \<le> 16" and n: "n = min (sz - offset) (mb_space b)"
  obtains s' where "dowrite src sz swap offset s = (offset + n, s')" "appends (take n (drop offset (ordered swap src))) s s'"
proof -
  have ok: "mb_ok b" using w s by (simp add: writable_def chain_of_def)
  have m: "sz - offset - (sz - offset - n) = n"
      "(if sz - offset > mb_space b then sz - offset - mb_space b else 0) = sz - offset - n" and le: "n \<le> mb_space b" "n \<le> sz - offset"
    by (auto simp: n)
  let ?xs = "take n (drop offset (ordered swap src))"
  note copy = write_copy [OF ok le sz]
  have fits: "length ?xs \<le> mb_space b" using le(1) copy(4) by simp
  define t where "t = s\<lparr>se_current := put_block ?xs b # bs\<rparr>"
  define s' where "s' = (if mb_space b - n = 0
      then if se_alignment t = ALIGN_NONE then next_block t else align_cont_w t else t)"
  have sp: "mb_space (put_block ?xs b) = mb_space b - n" using put_block_correct(3) [OF ok fits] copy(4) by simp
  have t: "appends ?xs s t" "length ?xs \<le> room s" "se_current t = put_block ?xs b # bs"
    unfolding t_def using appends_current [OF w s fits] by simp_all
  have "appends [] t s'"
    using appends_block [OF appendsD(1) [OF t(1)] t(3)] appends_Nil [OF appendsD(1) [OF t(1)]] sp by (simp add: s'_def)
  then have "appends ?xs s s'" using appends_trans [OF t(1,2)] by fastforce
  moreover have "dowrite src sz swap offset s = (offset + n, s')"
    unfolding dowrite_def s list.case Let_def m using copy(1,2) sp
    by (cases swap) (simp_all add: s'_def t_def copy(3) del: diff_diff_left)
  ultimately show thesis using that by blast
qed

lemma write_loop_null:
  assumes "se_current s = []" "offset < sz"
  shows "write_loop src sz swap offset s = s\<lparr>se_good := False\<rparr>"
  using assms by (simp add: write_loop.simps [of src sz swap offset s] dowrite_def write_loop.simps [of src sz swap sz])

lemma write_loop_correct:
  assumes "writable s" "offset \<le> sz" "length src = sz" "swap \<Longrightarrow> sz \<le> 16"
  shows "appends (drop offset (ordered swap src)) s (write_loop src sz swap offset s)"
  using assms
proof (induction src sz swap offset s rule: write_loop.induct)
  case (1 src sz swap offset s)
  consider "offset = sz" | "offset < sz" "se_current s = []" | b bs where "offset < sz" "se_current s = b # bs"
    using "1.prems"(2) by (cases "se_current s") (force simp: le_less)+
  then show ?case
  proof cases
    case 1
    then show ?thesis using "1.prems" by (simp add: write_loop.simps [of src] appends_Nil)
  next
    case 2
    then show ?thesis
      unfolding write_loop_null [OF 2(2,1)] using "1.prems" by (intro appends_null) simp_all
  next
    case (3 b bs)
    define n where "n = min (sz - offset) (mb_space b)"
    let ?o = "ordered swap src"
    obtain s1 where d: "dowrite src sz swap offset s = (offset + n, s1)" "appends (take n (drop offset ?o)) s s1"
      by (rule dowrite_step [OF "1.prems"(1) 3(2,1) "1.prems"(3,4) n_def]) auto
    have n: "offset + n \<le> sz" "n \<le> mb_space b" using 3(1) by (auto simp: n_def)
    have "length (take n (drop offset ?o)) \<le> room s" using n(2) 3(2) by (simp add: room_def)
    moreover have "appends (drop (offset + n) ?o) s1 (write_loop src sz swap (offset + n) s1)"
      by (rule "1.IH" [OF 3(1) d(1) [symmetric] appendsD(1) [OF d(2)] n(1) "1.prems"(3,4)])
    moreover have "drop offset ?o = take n (drop offset ?o) @ drop (offset + n) ?o"
      by (metis add.commute append_take_drop_id drop_drop)
    moreover have "write_loop src sz swap offset s = write_loop src sz swap (offset + n) s1"
      using 3(1) d(1) by (simp add: write_loop.simps [of src sz swap offset s])
    ultimately show ?thesis using appends_trans [OF d(2)] by metis
  qed
qed

text \<open>Writing a value appends its octets to what was written, as far as there is room.\<close>

lemma buffer_write_correct:
  assumes "writable s" "length src = sz" "swap \<Longrightarrow> sz \<le> 16" "buffer_write src sz swap s = s'"
  shows "writable s'" "same_mode s s'" "room s' = room s - sz" "se_good s' \<longleftrightarrow> se_good s \<and> sz \<le> room s"
    "written s' = written s @ take (room s) (ordered swap src)" "w_aligned pos s \<Longrightarrow> w_aligned (pos + sz) s'"
  using write_loop_correct [OF assms(1) _ assms(2,3), of 0 swap] assms(2,4)
  by (auto simp: buffer_write_def dest: appendsD)

section \<open>Alignment\<close>

definition padding :: "nat \<Rightarrow> nat \<Rightarrow> nat" where
  "padding al pos = nat ((- int pos) mod int al)"

lemma padding_less: "0 < al \<Longrightarrow> padding al pos < al"
  by (simp add: padding_def nat_less_iff)

lemma padding_aligns: "0 < al \<Longrightarrow> al dvd pos + padding al pos"
proof -
  assume "0 < al"
  then have "int (pos + padding al pos) mod int al = (int pos + (- int pos) mod int al) mod int al"
    by (simp add: padding_def)
  then show ?thesis by (metis add.right_inverse mod_0 mod_add_right_eq mod_0_imp_dvd of_nat_dvd_iff)
qed

lemma shift_padding:
  assumes "(a - h) mod 8 = int pos mod 8" "al dvd 8" "0 < al"
  shows "size_mod (int al - a + h) al = padding al pos"
proof -
  have d: "int al dvd 8" using assms(2) by (metis of_nat_dvd_iff of_nat_numeral)
  have "al dvd 2 ^ 64" using assms(2) by (rule dvd_trans) simp
  then have "int (size_mod (int al - a + h) al) = (int al - a + h) mod int al"
    by (rule size_mod_dvd [OF assms(3)])
  also have "\<dots> = (- (a - h)) mod int al" using mod_add_self2 [of "- (a - h)" "int al"] by (simp add: algebra_simps)
  also have "\<dots> = (- int pos) mod int al"
    using assms(1) mod_mod_cancel [OF d] by (metis mod_minus_eq)
  finally show ?thesis using assms(3) by (simp add: padding_def)
qed

lemma skip_loop_correct: "chain_ok (se_current s) \<Longrightarrow> consumes len s (skip_loop len s)"
proof (induction len s rule: skip_loop.induct)
  case (1 len s)
  consider "len = 0" | "len \<noteq> 0" "se_current s = []" | b bs where "len \<noteq> 0" "se_current s = b # bs" "mb_length b \<le> len"
    | b bs where "len \<noteq> 0" "se_current s = b # bs" "len < mb_length b"
    by (metis list.exhaust not_le)
  then show ?case
  proof cases
    case 1
    then show ?thesis using "1.prems" by (simp add: skip_loop.simps [of 0 s] consumes_0)
  next
    case 2
    then show ?thesis by (simp add: skip_loop.simps [of len s] consumes_null)
  next
    case (3 b bs)
    have ok: "mb_ok b" "chain_ok bs" using "1.prems" 3(2) by simp_all
    have e: "b\<lparr>mb_rd := mb_wr b\<rparr> = b\<lparr>mb_rd := mb_rd b + mb_length b\<rparr>" using ok(1) by (simp add: mb_ok_def mb_length_def)
    define t where "t = s\<lparr>se_current := b\<lparr>mb_rd := mb_wr b\<rparr> # bs\<rparr>"
    have t: "consumes (mb_length b) s t" "mb_length b \<le> length (to_read s)" "se_current t = b\<lparr>mb_rd := mb_wr b\<rparr> # bs"
      unfolding t_def e using consumes_current [OF 3(2) ok order_refl] by simp_all
    have "consumes 0 t (align_cont_r t)" by (rule consumes_block(1) [OF t(3) ok(2)]) (simp add: mb_length_def)
    from consumes_trans [OF t(1,2) this] have u: "consumes (mb_length b) s (align_cont_r t)" by simp
    have "consumes (len - mb_length b) (align_cont_r t) (skip_loop (len - mb_length b) (align_cont_r t))"
      using "1.IH" [OF 3] consumesD(1) [OF u] by (simp add: t_def)
    from consumes_trans [OF u t(2) this] show ?thesis using 3 by (simp add: skip_loop.simps [of len s] t_def)
  next
    case (4 b bs)
    then show ?thesis using consumes_current(1) [OF 4(2), of len] "1.prems" by (simp add: skip_loop.simps [of len s])
  qed
qed

lemma align_r_correct:
  assumes "chain_ok (se_current s)" "se_current s \<noteq> []" "al dvd 8" "r_aligned pos s" "se_alignment s \<noteq> ALIGN_NONE"
  shows "align_r al s = Some (skip_loop (padding al pos) s)"
proof -
  have al: "0 < al" using assms(3) by (auto intro: Nat.gr0I)
  then have "padding al pos < 2 ^ 16"
    using padding_less [OF al, of pos] dvd_imp_le [OF assms(3)] by simp
  then show ?thesis
    using assms shift_padding [OF _ assms(3) al] by (auto simp: align_r_def r_aligned_def split: list.splits)
qed

text \<open>The octets of the padding: zeros when they are initialised.\<close>

definition pad_octets :: "Alignment \<Rightarrow> octet list \<Rightarrow> bool" where
  "pad_octets al xs \<longleftrightarrow> (al = ALIGN_INITIALIZE \<longrightarrow> (\<forall>x \<in> set xs. x = 0))"

lemma pad_block_put:
  assumes "mb_ok b" "n \<le> mb_space b" "n \<le> 8"
  obtains xs where "length xs = n" "pad_octets al xs" "pad_block al n b = put_block xs b"
proof -
  define xs where "xs = (if al = ALIGN_INITIALIZE then replicate n 0 else take n (drop (mb_wr b) (mb_buf b)))"
  have l: "mb_wr b + n \<le> length (mb_buf b)" using assms(1,2) by (auto simp: mb_ok_def mb_space_def)
  then have n: "length xs = n" by (simp add: xs_def)
  have "smemcpy (mb_wr b) (mb_buf b) xs n = (if al = ALIGN_INITIALIZE then smemcpy (mb_wr b) (mb_buf b) ALIGN_PAD n else mb_buf b)"
  proof (cases "al = ALIGN_INITIALIZE")
    case True
    then show ?thesis using assms(3) by (simp add: smemcpy_def xs_def ALIGN_PAD_def MAX_ALIGN_def)
  next
    case False
    then show ?thesis
      using append_take_drop_id [of "mb_wr b" "mb_buf b"] append_take_drop_id [of n "drop (mb_wr b) (mb_buf b)"]
      by (simp add: smemcpy_def xs_def add.commute)
  qed
  then have "pad_block al n b = put_block xs b" by (simp add: pad_block_def put_block_def n)
  moreover have "pad_octets al xs" by (simp add: pad_octets_def xs_def)
  ultimately show thesis using n by (intro that)
qed

lemma pad_loop_correct:
  assumes "writable s" "len \<le> 8"
  shows "\<exists>xs. length xs = len \<and> pad_octets (se_alignment s) xs \<and> appends xs s (pad_loop len s)"
  using assms
proof (induction len s rule: pad_loop.induct)
  case (1 len s)
  consider "len = 0" | "len \<noteq> 0" "se_current s = []" | b bs where "len \<noteq> 0" "se_current s = b # bs" "mb_space b \<le> len"
    | b bs where "len \<noteq> 0" "se_current s = b # bs" "len < mb_space b"
    by (metis list.exhaust not_le)
  then show ?case
  proof cases
    case 1
    then show ?thesis using "1.prems" by (simp add: pad_loop.simps [of 0 s] appends_Nil pad_octets_def)
  next
    case 2
    then show ?thesis
      using "1.prems" appends_null [of s "replicate len 0"]
      by (intro exI [of _ "replicate len 0"]) (simp add: pad_loop.simps [of len s] pad_octets_def)
  next
    case (3 b bs)
    have ok: "mb_ok b" using "1.prems"(1) 3(2) by (simp add: writable_def chain_of_def)
    obtain xs where xs: "length xs = mb_space b" "pad_octets (se_alignment s) xs"
        "pad_block (se_alignment s) (mb_space b) b = put_block xs b"
      using pad_block_put [OF ok order_refl, of "se_alignment s"] 3(3) "1.prems"(2) by auto
    define t where "t = s\<lparr>se_current := put_block xs b # bs\<rparr>"
    have t: "appends xs s t" "length xs \<le> room s" "se_current t = put_block xs b # bs" "se_alignment t = se_alignment s"
      unfolding t_def using appends_current [OF "1.prems"(1) 3(2), of xs] xs(1) by simp_all
    have "mb_space (put_block xs b) = 0" using put_block_correct(3) [OF ok, of xs] xs(1) by simp
    from appends_trans [OF t(1,2) appends_block(1) [OF appendsD(1) [OF t(1)] t(3) this]]
    have u: "appends xs s (align_cont_w t)" by simp
    have e: "pad_loop len s = pad_loop (len - mb_space b) (align_cont_w t)"
      using 3 xs(3) by (simp add: pad_loop.simps [of len s] t_def)
    obtain ys where "length ys = len - mb_space b" "pad_octets (se_alignment s) ys" "appends ys (align_cont_w t) (pad_loop len s)"
      using "1.IH" [OF 3(1,2,3)] le_trans [OF diff_le_self "1.prems"(2)] appendsD(1) [OF u] t(4)
      unfolding e xs(3) t_def [symmetric] by auto
    then show ?thesis
      using appends_trans [OF u t(2)] xs(1,2) 3(3) by (intro exI [of _ "xs @ ys"]) (auto simp: pad_octets_def)
  next
    case (4 b bs)
    have ok: "mb_ok b" using "1.prems"(1) 4(2) by (simp add: writable_def chain_of_def)
    obtain xs where xs: "length xs = len" "pad_octets (se_alignment s) xs" "pad_block (se_alignment s) len b = put_block xs b"
      using pad_block_put [OF ok _ "1.prems"(2), of "se_alignment s"] 4(3) by auto
    then show ?thesis
      using appends_current(1) [OF "1.prems"(1) 4(2), of xs] 4
      by (intro exI [of _ xs]) (simp add: pad_loop.simps [of len s])
  qed
qed

lemma align_w_correct:
  assumes "se_current s \<noteq> []" "al dvd 8" "w_aligned pos s" "se_alignment s \<noteq> ALIGN_NONE"
  shows "align_w al s = Some (pad_loop (padding al pos) s)"
proof -
  have al: "0 < al" using assms(2) by (auto intro: Nat.gr0I)
  then show ?thesis
    using assms shift_padding [OF _ assms(2) al] by (auto simp: align_w_def w_aligned_def split: list.splits)
qed

end
