(* ===== verification/Serializer_Ops.thy ===== *)
theory Serializer_Ops
  imports Serializer_Stream "HOL-Library.Monad_Syntax"
begin

text \<open>
  The insertion and extraction operators of the \<open>Serializer\<close> (\<open>src/dds/DCPS/Serializer.{inl,cpp}\<close>) for
  every type. A value is the octets of its representation on the host, which is little-endian if \<open>le\<close> is
  true (\<open>ACE_LITTLE_ENDIAN\<close>); signed integers and floating point numbers are their bit patterns. The boolean
  result of an operator is the good bit of the state it returns. \<open>WChar\<close> has four octets. A variable is
  read into fresh zero octets, which stand for its old contents where a failed read leaves it alone.
\<close>

section \<open>Host representation\<close>

fun le_bytes :: "nat \<Rightarrow> nat \<Rightarrow> octet list" where
  "le_bytes 0 v = []"
| "le_bytes (Suc n) v = of_nat v # le_bytes n (v div 256)"

fun le_value :: "octet list \<Rightarrow> nat" where
  "le_value [] = 0"
| "le_value (b # bs) = unat b + 256 * le_value bs"

definition host_bytes :: "bool \<Rightarrow> nat \<Rightarrow> 'a::len word \<Rightarrow> octet list" where
  "host_bytes le n w = ordered (\<not> le) (le_bytes n (unat w))"

definition host_word :: "bool \<Rightarrow> octet list \<Rightarrow> 'a::len word" where
  "host_word le bs = of_nat (le_value (ordered (\<not> le) bs))"

section \<open>Scalar types\<close>

definition put_value :: "nat \<Rightarrow> octet list \<Rightarrow> Serializer \<Rightarrow> Serializer option" where
  "put_value al bs s =
     (if se_alignment s = ALIGN_NONE then Some s else align_w al s)
       \<bind> (\<lambda>s. Some (buffer_write bs (length bs) (se_swap s) s))"

definition get_value :: "nat \<Rightarrow> nat \<Rightarrow> Serializer \<Rightarrow> (octet list \<times> Serializer) option" where
  "get_value al n s =
     (if se_alignment s = ALIGN_NONE then Some s else align_r al s)
       \<bind> (\<lambda>s. Some (buffer_read (replicate n 0) n (se_swap s) s))"

definition get_word :: "bool \<Rightarrow> nat \<Rightarrow> Serializer \<Rightarrow> ('a::len word \<times> Serializer) option" where
  "get_word le n s = map_option (map_prod (host_word le) id) (get_value n n s)"

definition put_Char :: "octet \<Rightarrow> Serializer \<Rightarrow> Serializer option" where
  "put_Char x s = Some (buffer_write [x] 1 (se_swap s) s)"

definition put_Short :: "bool \<Rightarrow> 16 word \<Rightarrow> Serializer \<Rightarrow> Serializer option" where
  "put_Short le x = put_value 2 (host_bytes le 2 x)"

definition put_UShort :: "bool \<Rightarrow> 16 word \<Rightarrow> Serializer \<Rightarrow> Serializer option" where
  "put_UShort le x = put_value 2 (host_bytes le 2 x)"

definition put_Long :: "bool \<Rightarrow> ulong \<Rightarrow> Serializer \<Rightarrow> Serializer option" where
  "put_Long le x = put_value 4 (host_bytes le 4 x)"

definition put_ULong :: "bool \<Rightarrow> ulong \<Rightarrow> Serializer \<Rightarrow> Serializer option" where
  "put_ULong le x = put_value 4 (host_bytes le 4 x)"

definition put_LongLong :: "bool \<Rightarrow> 64 word \<Rightarrow> Serializer \<Rightarrow> Serializer option" where
  "put_LongLong le x = put_value 8 (host_bytes le 8 x)"

definition put_ULongLong :: "bool \<Rightarrow> 64 word \<Rightarrow> Serializer \<Rightarrow> Serializer option" where
  "put_ULongLong le x = put_value 8 (host_bytes le 8 x)"

definition put_LongDouble :: "octet list \<Rightarrow> Serializer \<Rightarrow> Serializer option" where
  "put_LongDouble bs = put_value 8 bs"

definition put_Float :: "bool \<Rightarrow> ulong \<Rightarrow> Serializer \<Rightarrow> Serializer option" where
  "put_Float le x = put_value 4 (host_bytes le 4 x)"

definition put_Double :: "bool \<Rightarrow> 64 word \<Rightarrow> Serializer \<Rightarrow> Serializer option" where
  "put_Double le x = put_value 8 (host_bytes le 8 x)"

definition put_boolean :: "bool \<Rightarrow> Serializer \<Rightarrow> Serializer option" where
  "put_boolean x s = Some (buffer_write [of_bool x] 1 (se_swap s) s)"

definition put_char :: "octet \<Rightarrow> Serializer \<Rightarrow> Serializer option" where
  "put_char x s = Some (buffer_write [x] 1 False s)"

definition put_octet :: "octet \<Rightarrow> Serializer \<Rightarrow> Serializer option" where
  "put_octet x s = Some (buffer_write [x] 1 False s)"

definition WCHAR_SIZE :: nat where "WCHAR_SIZE = 2"

text \<open>A wide character is written as UTF-16BE; surrogates are not handled.\<close>

definition put_utf16 :: "bool \<Rightarrow> 32 word \<Rightarrow> Serializer \<Rightarrow> Serializer" where
  "put_utf16 le x s =
     (let as_utf16 = (ucast x :: 16 word)
      in if ucast as_utf16 \<noteq> x then s\<lparr>se_good := False\<rparr>
         else buffer_write (host_bytes le 2 as_utf16) WCHAR_SIZE le s)"

definition put_wchar :: "bool \<Rightarrow> 32 word \<Rightarrow> Serializer \<Rightarrow> Serializer option" where
  "put_wchar le x s = Some (put_utf16 le x (buffer_write [of_nat WCHAR_SIZE] 1 False s))"

definition get_Char :: "Serializer \<Rightarrow> (octet \<times> Serializer) option" where
  "get_Char s = Some (map_prod hd id (buffer_read [0] 1 (se_swap s) s))"

definition get_Short :: "bool \<Rightarrow> Serializer \<Rightarrow> (16 word \<times> Serializer) option" where
  "get_Short le = get_word le 2"

definition get_UShort :: "bool \<Rightarrow> Serializer \<Rightarrow> (16 word \<times> Serializer) option" where
  "get_UShort le = get_word le 2"

definition get_Long :: "bool \<Rightarrow> Serializer \<Rightarrow> (ulong \<times> Serializer) option" where
  "get_Long le = get_word le 4"

definition get_ULong :: "bool \<Rightarrow> Serializer \<Rightarrow> (ulong \<times> Serializer) option" where
  "get_ULong le = get_word le 4"

definition get_LongLong :: "bool \<Rightarrow> Serializer \<Rightarrow> (64 word \<times> Serializer) option" where
  "get_LongLong le = get_word le 8"

definition get_ULongLong :: "bool \<Rightarrow> Serializer \<Rightarrow> (64 word \<times> Serializer) option" where
  "get_ULongLong le = get_word le 8"

definition get_LongDouble :: "Serializer \<Rightarrow> (octet list \<times> Serializer) option" where
  "get_LongDouble = get_value 8 16"

definition get_Float :: "bool \<Rightarrow> Serializer \<Rightarrow> (ulong \<times> Serializer) option" where
  "get_Float le = get_word le 4"

definition get_Double :: "bool \<Rightarrow> Serializer \<Rightarrow> (64 word \<times> Serializer) option" where
  "get_Double le = get_word le 8"

definition get_boolean :: "Serializer \<Rightarrow> (bool \<times> Serializer) option" where
  "get_boolean s = Some (map_prod (\<lambda>bs. hd bs \<noteq> 0) id (buffer_read [0] 1 (se_swap s) s))"

definition get_char :: "Serializer \<Rightarrow> (octet \<times> Serializer) option" where
  "get_char s = Some (map_prod hd id (buffer_read [0] 1 (se_swap s) s))"

definition get_octet :: "Serializer \<Rightarrow> (octet \<times> Serializer) option" where
  "get_octet s = Some (map_prod hd id (buffer_read [0] 1 False s))"

definition get_utf16 :: "bool \<Rightarrow> Serializer \<Rightarrow> 32 word \<times> Serializer" where
  "get_utf16 le s =
     map_prod (\<lambda>bs. ucast (host_word le bs :: 16 word)) id (buffer_read [0, 0] WCHAR_SIZE le s)"

definition get_wchar :: "bool \<Rightarrow> Serializer \<Rightarrow> (32 word \<times> Serializer) option" where
  "get_wchar le s =
     (case buffer_read [0] 1 False s of
        (len, s) \<Rightarrow> Some (if hd len \<noteq> of_nat WCHAR_SIZE then (0, s\<lparr>se_good := False\<rparr>) else get_utf16 le s))"

section \<open>Arrays\<close>

text \<open>Swapping is done element by element.\<close>

fun read_elements :: "nat \<Rightarrow> nat \<Rightarrow> Serializer \<Rightarrow> octet list \<times> Serializer" where
  "read_elements sz 0 s = ([], s)"
| "read_elements sz (Suc n) s =
     (case buffer_read (replicate sz 0) sz True s of
        (x, s) \<Rightarrow> (case read_elements sz n s of (xs, s) \<Rightarrow> (x @ xs, s)))"

definition read_array :: "nat \<Rightarrow> nat \<Rightarrow> bool \<Rightarrow> Serializer \<Rightarrow> octet list \<times> Serializer" where
  "read_array sz n swap s =
     (if \<not> swap \<or> sz = 1 then buffer_read (replicate (sz * n) 0) (sz * n) False s else read_elements sz n s)"

fun write_elements :: "nat \<Rightarrow> nat \<Rightarrow> octet list \<Rightarrow> Serializer \<Rightarrow> Serializer" where
  "write_elements sz 0 xs s = s"
| "write_elements sz (Suc n) xs s =
     write_elements sz n (drop sz xs) (buffer_write (take sz xs) sz True s)"

definition write_array :: "nat \<Rightarrow> nat \<Rightarrow> bool \<Rightarrow> octet list \<Rightarrow> Serializer \<Rightarrow> Serializer" where
  "write_array sz n swap xs s =
     (if \<not> swap \<or> sz = 1 then buffer_write xs (sz * n) False s else write_elements sz n xs s)"

text \<open>The array of a type of \<open>sz\<close> octets that is aligned to \<open>al\<close>; one octet needs no alignment.\<close>

definition read_typed_array :: "nat \<Rightarrow> nat \<Rightarrow> nat \<Rightarrow> Serializer \<Rightarrow> (octet list \<times> Serializer) option" where
  "read_typed_array al sz n s =
     (if se_alignment s = ALIGN_NONE \<or> sz = 1 then Some s else align_r al s)
       \<bind> (\<lambda>s. Some (read_array sz n (se_swap s) s))"

definition write_typed_array :: "nat \<Rightarrow> nat \<Rightarrow> nat \<Rightarrow> octet list \<Rightarrow> Serializer \<Rightarrow> Serializer option" where
  "write_typed_array al sz n xs s =
     (if se_alignment s = ALIGN_NONE \<or> sz = 1 then Some s else align_w al s)
       \<bind> (\<lambda>s. Some (write_array sz n (se_swap s) xs s))"

definition read_octet_array :: "nat \<Rightarrow> Serializer \<Rightarrow> (octet list \<times> Serializer) option" where
  "read_octet_array n = read_typed_array 1 1 n"

definition read_char_array :: "nat \<Rightarrow> Serializer \<Rightarrow> (octet list \<times> Serializer) option" where
  "read_char_array n = read_typed_array 1 1 n"

definition read_boolean_array :: "nat \<Rightarrow> Serializer \<Rightarrow> (octet list \<times> Serializer) option" where
  "read_boolean_array n = read_typed_array 1 1 n"

definition read_short_array :: "nat \<Rightarrow> Serializer \<Rightarrow> (octet list \<times> Serializer) option" where
  "read_short_array n = read_typed_array 2 2 n"

definition read_long_array :: "nat \<Rightarrow> Serializer \<Rightarrow> (octet list \<times> Serializer) option" where
  "read_long_array n = read_typed_array 4 4 n"

definition read_longlong_array :: "nat \<Rightarrow> Serializer \<Rightarrow> (octet list \<times> Serializer) option" where
  "read_longlong_array n = read_typed_array 8 8 n"

definition read_longdouble_array :: "nat \<Rightarrow> Serializer \<Rightarrow> (octet list \<times> Serializer) option" where
  "read_longdouble_array n = read_typed_array 8 16 n"

definition write_octet_array :: "nat \<Rightarrow> octet list \<Rightarrow> Serializer \<Rightarrow> Serializer option" where
  "write_octet_array n xs = write_typed_array 1 1 n xs"

definition write_short_array :: "nat \<Rightarrow> octet list \<Rightarrow> Serializer \<Rightarrow> Serializer option" where
  "write_short_array n xs = write_typed_array 2 2 n xs"

definition write_long_array :: "nat \<Rightarrow> octet list \<Rightarrow> Serializer \<Rightarrow> Serializer option" where
  "write_long_array n xs = write_typed_array 4 4 n xs"

definition write_longlong_array :: "nat \<Rightarrow> octet list \<Rightarrow> Serializer \<Rightarrow> Serializer option" where
  "write_longlong_array n xs = write_typed_array 8 8 n xs"

definition write_longdouble_array :: "nat \<Rightarrow> octet list \<Rightarrow> Serializer \<Rightarrow> Serializer option" where
  "write_longdouble_array n xs = write_typed_array 8 16 n xs"

definition read_ushort_array :: "nat \<Rightarrow> Serializer \<Rightarrow> (octet list \<times> Serializer) option" where
  "read_ushort_array n = read_typed_array 2 2 n"

definition read_ulong_array :: "nat \<Rightarrow> Serializer \<Rightarrow> (octet list \<times> Serializer) option" where
  "read_ulong_array n = read_typed_array 4 4 n"

definition read_ulonglong_array :: "nat \<Rightarrow> Serializer \<Rightarrow> (octet list \<times> Serializer) option" where
  "read_ulonglong_array n = read_typed_array 8 8 n"

definition read_float_array :: "nat \<Rightarrow> Serializer \<Rightarrow> (octet list \<times> Serializer) option" where
  "read_float_array n = read_typed_array 4 4 n"

definition read_double_array :: "nat \<Rightarrow> Serializer \<Rightarrow> (octet list \<times> Serializer) option" where
  "read_double_array n = read_typed_array 8 8 n"

definition write_boolean_array :: "nat \<Rightarrow> octet list \<Rightarrow> Serializer \<Rightarrow> Serializer option" where
  "write_boolean_array n xs = write_typed_array 1 1 n xs"

definition write_char_array :: "nat \<Rightarrow> octet list \<Rightarrow> Serializer \<Rightarrow> Serializer option" where
  "write_char_array n xs = write_typed_array 1 1 n xs"

definition write_ushort_array :: "nat \<Rightarrow> octet list \<Rightarrow> Serializer \<Rightarrow> Serializer option" where
  "write_ushort_array n xs = write_typed_array 2 2 n xs"

definition write_ulong_array :: "nat \<Rightarrow> octet list \<Rightarrow> Serializer \<Rightarrow> Serializer option" where
  "write_ulong_array n xs = write_typed_array 4 4 n xs"

definition write_ulonglong_array :: "nat \<Rightarrow> octet list \<Rightarrow> Serializer \<Rightarrow> Serializer option" where
  "write_ulonglong_array n xs = write_typed_array 8 8 n xs"

definition write_float_array :: "nat \<Rightarrow> octet list \<Rightarrow> Serializer \<Rightarrow> Serializer option" where
  "write_float_array n xs = write_typed_array 4 4 n xs"

definition write_double_array :: "nat \<Rightarrow> octet list \<Rightarrow> Serializer \<Rightarrow> Serializer option" where
  "write_double_array n xs = write_typed_array 8 8 n xs"

text \<open>Wide characters are read and written one by one, until one fails.\<close>

fun read_wchar_array :: "bool \<Rightarrow> nat \<Rightarrow> Serializer \<Rightarrow> (32 word list \<times> Serializer) option" where
  "read_wchar_array le 0 s = Some ([], s)"
| "read_wchar_array le (Suc n) s =
     do {
       (x, s) \<leftarrow> get_wchar le s;
       if \<not> se_good s then Some ([x], s)
       else do {
         (xs, s) \<leftarrow> read_wchar_array le n s;
         Some (x # xs, s)
       }
     }"

fun write_wchar_array :: "bool \<Rightarrow> 32 word list \<Rightarrow> Serializer \<Rightarrow> Serializer option" where
  "write_wchar_array le [] s = Some s"
| "write_wchar_array le (x # xs) s =
     do {
       s \<leftarrow> put_wchar le x s;
       if \<not> se_good s then Some s else write_wchar_array le xs s
     }"

section \<open>Strings\<close>

text \<open>A string is its characters without the terminating null, or a null pointer.\<close>

definition put_string :: "bool \<Rightarrow> octet list option \<Rightarrow> Serializer \<Rightarrow> Serializer option" where
  "put_string le x s =
     (case x of
        Some cs \<Rightarrow>
          let stringlen = 1 + of_nat (length cs)
          in put_ULong le stringlen s \<bind> (\<lambda>s. Some (buffer_write (cs @ [0]) (unat stringlen) False s))
      | None \<Rightarrow> put_ULong le 0 s)"

text \<open>
  \<open>read_string\<close>: the octets of the new array, which include the null, or a null pointer. A length beyond
  the end of the chain leaves the good bit alone.
\<close>

definition read_string :: "bool \<Rightarrow> Serializer \<Rightarrow> (octet list option \<times> Serializer) option" where
  "read_string le s =
     do {
       (len, s) \<leftarrow> get_ULong le s;
       if \<not> se_good s then Some (None, s)
       else if se_current s = [] then None
       else if unat len \<le> total_length (se_current s)
       then do {
         (dest, s) \<leftarrow> read_char_array (unat len) s;
         Some (if se_good s then Some dest else None, s)
       }
       else Some (None, s)
     }"

fun put_wchars :: "bool \<Rightarrow> 32 word list \<Rightarrow> Serializer \<Rightarrow> Serializer" where
  "put_wchars le [] s = s"
| "put_wchars le (x # xs) s = (if se_good s then put_wchars le xs (put_utf16 le x s) else s)"

definition put_wstring :: "bool \<Rightarrow> 32 word list option \<Rightarrow> Serializer \<Rightarrow> Serializer option" where
  "put_wstring le x s =
     (case x of
        Some cs \<Rightarrow> put_ULong le (of_nat (length cs) * of_nat WCHAR_SIZE) s \<bind> (\<lambda>s. Some (put_wchars le cs s))
      | None \<Rightarrow> put_ULong le 0 s)"

fun get_wchars :: "bool \<Rightarrow> nat \<Rightarrow> Serializer \<Rightarrow> 32 word list \<times> Serializer" where
  "get_wchars le 0 s = ([], s)"
| "get_wchars le (Suc n) s =
     (if se_good s
      then case get_utf16 le s of
             (x, s) \<Rightarrow> (case get_wchars le n s of (xs, s) \<Rightarrow> (x # xs, s))
      else ([], s))"

definition read_wstring :: "bool \<Rightarrow> Serializer \<Rightarrow> (32 word list option \<times> Serializer) option" where
  "read_wstring le s =
     do {
       (bytecount, s) \<leftarrow> get_ULong le s;
       if \<not> se_good s then Some (None, s)
       else if se_current s = [] then None
       else if unat bytecount \<le> total_length (se_current s)
       then case get_wchars le (unat bytecount div WCHAR_SIZE) s of
              (dest, s) \<Rightarrow> Some (if se_good s then Some dest else None, s)
       else Some (None, s)
     }"

text \<open>The bounded variants also report whether the bound is respected.\<close>

definition put_bounded_string :: "bool \<Rightarrow> nat \<Rightarrow> octet list option \<Rightarrow> Serializer \<Rightarrow> (bool \<times> Serializer) option" where
  "put_bounded_string le bound x s =
     map_option (\<lambda>s. (se_good s \<and>
       (bound = 0 \<or> uint ((case x of None \<Rightarrow> 0 | Some cs \<Rightarrow> 1 + of_nat (length cs)) - 1 :: ulong) \<le> int bound), s))
       (put_string le x s)"

definition put_bounded_wstring :: "bool \<Rightarrow> nat \<Rightarrow> 32 word list option \<Rightarrow> Serializer \<Rightarrow> (bool \<times> Serializer) option" where
  "put_bounded_wstring le bound x s =
     do {
       s \<leftarrow> put_wstring le x s;
       if bound = 0 then Some (se_good s, s)
       else case x of
         None \<Rightarrow> None
       | Some cs \<Rightarrow> Some (se_good s \<and> length cs \<le> bound, s)
     }"

text \<open>\<open>strlen\<close> of the octets that were read: up to the first null; there may be none, or no string at all.\<close>

definition strlen :: "octet list option \<Rightarrow> nat option" where
  "strlen x = (case x of None \<Rightarrow> None
     | Some cs \<Rightarrow> if 0 \<in> set cs then Some (length (takeWhile (\<lambda>c. c \<noteq> 0) cs)) else None)"

definition get_bounded_string :: "bool \<Rightarrow> nat \<Rightarrow> Serializer \<Rightarrow> (bool \<times> octet list option \<times> Serializer) option" where
  "get_bounded_string le bound s =
     do {
       (x, s) \<leftarrow> read_string le s;
       if \<not> se_good s \<or> bound = 0 then Some (se_good s, x, s)
       else do {
         n \<leftarrow> strlen x;
         Some (n \<le> bound, x, s)
       }
     }"

definition get_bounded_wstring :: "bool \<Rightarrow> nat \<Rightarrow> Serializer \<Rightarrow> (bool \<times> 32 word list option \<times> Serializer) option" where
  "get_bounded_wstring le bound s =
     do {
       (x, s) \<leftarrow> read_wstring le s;
       if \<not> se_good s \<or> bound = 0 then Some (se_good s, x, s)
       else case x of
         None \<Rightarrow> None
       | Some cs \<Rightarrow> Some (length (takeWhile (\<lambda>c. c \<noteq> 0) cs) \<le> bound, x, s)
     }"

section \<open>Sizes\<close>

definition find_size_ulong :: "nat \<times> nat \<Rightarrow> nat \<times> nat" where
  "find_size_ulong p =
     (case p of (sz, pad) \<Rightarrow>
        (sz + 4, if (sz + pad) mod 4 \<noteq> 0 then pad + (4 - (sz + pad) mod 4) else pad))"

section \<open>Correctness of scalars\<close>

lemma length_le_bytes [simp]: "length (le_bytes n v) = n"
  by (induction n v rule: le_bytes.induct) simp_all

lemma le_value_bytes: "v < 256 ^ n \<Longrightarrow> le_value (le_bytes n v) = v"
proof (induction n v rule: le_bytes.induct)
  case (2 n v)
  have "v div 256 < 256 ^ n" using "2.prems" by (simp add: less_mult_imp_div_less mult.commute)
  then have "le_value (le_bytes (Suc n) v) = v mod 256 + 256 * (v div 256)"
    using "2.IH" by (simp add: unat_of_nat)
  then show ?case by simp
qed simp

lemma length_host_bytes [simp]: "length (host_bytes le n w) = n"
  by (simp add: host_bytes_def)

lemma host_word_bytes:
  fixes w :: "'a::len word"
  assumes "LENGTH('a) = 8 * n"
  shows "host_word le (host_bytes le n w) = w"
proof -
  have "unat w < 256 ^ n" using unsigned_less [of w, where 'a = nat] assms by (simp add: power_mult)
  then show ?thesis by (simp add: host_word_def host_bytes_def le_value_bytes)
qed

text \<open>What travels: the representation in the byte order of the wire, little-endian if \<open>ord\<close> is true.\<close>

definition wire_bytes :: "bool \<Rightarrow> nat \<Rightarrow> 'a::len word \<Rightarrow> octet list" where
  "wire_bytes ord n w = ordered (\<not> ord) (le_bytes n (unat w))"

lemma wire_host: "ordered swap (host_bytes le n w) = wire_bytes (le \<noteq> swap) n w"
  by (auto simp: wire_bytes_def host_bytes_def ordered_def)

lemma length_wire_bytes [simp]: "length (wire_bytes ord n w) = n"
  by (simp add: wire_bytes_def)

lemma host_wire:
  "LENGTH('a) = 8 * n \<Longrightarrow> host_word le (ordered swap (wire_bytes (le \<noteq> swap) n w)) = w" for w :: "'a::len word"
  by (metis host_word_bytes ordered_twice wire_host)

text \<open>The padding before a value at a position of the stream.\<close>

definition pad_len :: "Alignment \<Rightarrow> nat \<Rightarrow> nat \<Rightarrow> nat" where
  "pad_len a al pos = (if a = ALIGN_NONE then 0 else padding al pos)"

text \<open>A writer and a reader in a good state at a position.\<close>

definition writing :: "nat \<Rightarrow> Serializer \<Rightarrow> bool" where
  "writing pos s \<longleftrightarrow> writable s \<and> w_aligned pos s \<and> se_good s"

definition reading :: "nat \<Rightarrow> Serializer \<Rightarrow> bool" where
  "reading pos s \<longleftrightarrow> chain_ok (se_current s) \<and> r_aligned pos s \<and> se_good s"

lemma room_pos_current: "0 < room s \<Longrightarrow> se_current s \<noteq> []"
  by (auto simp: room_def)

lemma to_read_current: "to_read s \<noteq> [] \<Longrightarrow> se_current s \<noteq> []"
  by (auto simp: to_read_def)

lemma put_padding:
  assumes "writing pos s" "al dvd 8" "pad_len (se_alignment s) al pos < room s"
  obtains pad t where "(if se_alignment s = ALIGN_NONE then Some s else align_w al s) = Some t"
    "length pad = pad_len (se_alignment s) al pos" "pad_octets (se_alignment s) pad"
    "writing (pos + length pad) t" "same_mode s t" "room t = room s - length pad" "written t = written s @ pad"
proof (cases "se_alignment s = ALIGN_NONE")
  case True
  then show thesis using assms by (intro that [of s "[]"]) (simp_all add: pad_len_def same_mode_def pad_octets_def)
next
  case False
  let ?p = "padding al pos"
  have al: "0 < al" "al \<le> 8" using assms(2) by (auto intro: Nat.gr0I dvd_imp_le)
  have p: "pad_len (se_alignment s) al pos = ?p" "?p \<le> 8"
    using False padding_less [OF al(1), of pos] al(2) by (simp_all add: pad_len_def)
  have c: "se_current s \<noteq> []" using assms(3) by (intro room_pos_current) simp
  have w: "writable s" "w_aligned pos s" "se_good s" using assms(1) by (simp_all add: writing_def)
  obtain xs where xs: "length xs = ?p" "pad_octets (se_alignment s) xs" "writable (pad_loop ?p s)"
      "same_mode s (pad_loop ?p s)" "room (pad_loop ?p s) = room s - ?p" "se_good (pad_loop ?p s)"
      "written (pad_loop ?p s) = written s @ take (room s) xs" "w_aligned (pos + ?p) (pad_loop ?p s)"
    using pad_loop_correct [OF w(1) p(2)] w(2,3) assms(3) p(1) by (auto simp: appends_def)
  show thesis
    using xs align_w_correct [OF c assms(2) w(2) False] False assms(3) p(1)
    by (intro that [of "pad_loop ?p s" xs]) (simp_all add: writing_def)
qed

lemma put_value_correct:
  assumes "writing pos s" "al dvd 8" "0 < length bs" "length bs \<le> 16"
    and "pad_len (se_alignment s) al pos + length bs \<le> room s"
  obtains pad s' where "put_value al bs s = Some s'" "length pad = pad_len (se_alignment s) al pos"
    "pad_octets (se_alignment s) pad" "writing (pos + length pad + length bs) s'" "same_mode s s'"
    "room s' = room s - (length pad + length bs)" "written s' = written s @ pad @ ordered (se_swap s) bs"
proof -
  have "pad_len (se_alignment s) al pos < room s" using assms(3,5) by linarith
  from put_padding [OF assms(1,2) this] obtain pad t where
    t: "(if se_alignment s = ALIGN_NONE then Some s else align_w al s) = Some t"
      "length pad = pad_len (se_alignment s) al pos" "pad_octets (se_alignment s) pad"
      "writing (pos + length pad) t" "same_mode s t" "room t = room s - length pad" "written t = written s @ pad"
    by blast
  define s' where "s' = buffer_write bs (length bs) (se_swap t) t"
  have w: "writable t" "w_aligned (pos + length pad) t" "se_good t" using t(4) by (simp_all add: writing_def)
  note b = buffer_write_correct [OF w(1) refl assms(4) s'_def [symmetric]]
  have r: "length bs \<le> room t" using t(2,6) assms(5) by simp
  have p: "put_value al bs s = Some s'" using t(1) by (simp add: put_value_def s'_def)
  have "w_aligned (pos + length pad + length bs) s'" by (rule b(6) [OF w(2)])
  then show thesis
    using t b(1-5) w r by (intro that [OF p, of pad]) (simp_all add: writing_def same_mode_def)
qed

lemma get_value_correct:
  assumes "reading pos s" "al dvd 8" "0 < length xs" "length xs \<le> 16"
    and "to_read s = pad @ xs @ rest" "length pad = pad_len (se_alignment s) al pos"
  obtains s' where "get_value al (length xs) s = Some (ordered (se_swap s) xs, s')"
    "reading (pos + length pad + length xs) s'" "same_mode s s'" "to_read s' = rest"
proof -
  have r: "chain_ok (se_current s)" "r_aligned pos s" "se_good s" using assms(1) by (simp_all add: reading_def)
  have c: "se_current s \<noteq> []" using assms(3,5) by (intro to_read_current) auto
  obtain t where t: "(if se_alignment s = ALIGN_NONE then Some s else align_r al s) = Some t"
      "chain_ok (se_current t)" "same_mode s t" "to_read t = xs @ rest" "se_good t" "r_aligned (pos + length pad) t"
  proof (cases "se_alignment s = ALIGN_NONE")
    case True
    then show thesis using r assms(5,6) by (intro that [of s]) (simp_all add: same_mode_def pad_len_def)
  next
    case False
    then have "length pad = padding al pos" using assms(6) by (simp add: pad_len_def)
    then show thesis
      using skip_loop_correct [OF r(1), of "padding al pos"] align_r_correct [OF r(1) c assms(2) r(2) False] False r assms(5)
      by (intro that [of "skip_loop (padding al pos) s"]) (simp_all add: consumes_def)
  qed
  obtain d s' where b: "buffer_read (replicate (length xs) 0) (length xs) (se_swap t) t = (d, s')" by (metis surj_pair)
  note bb = buffer_read_correct [OF t(2) length_replicate assms(4) b]
  have "r_aligned (pos + length pad + length xs) s'" by (rule bb(7) [OF t(6)])
  then show thesis
    using t bb(1-6) b by (intro that [of s']) (simp_all add: get_value_def reading_def same_mode_def)
qed

section \<open>Sequences of values\<close>

datatype cdr_value = Cdr_octet octet | Cdr_short "16 word" | Cdr_long ulong | Cdr_longlong "64 word"

fun put_cdr :: "bool \<Rightarrow> cdr_value \<Rightarrow> Serializer \<Rightarrow> Serializer option" where
  "put_cdr le (Cdr_octet x) s = put_octet x s"
| "put_cdr le (Cdr_short x) s = put_Short le x s"
| "put_cdr le (Cdr_long x) s = put_Long le x s"
| "put_cdr le (Cdr_longlong x) s = put_LongLong le x s"

datatype cdr_type = T_octet | T_short | T_long | T_longlong

fun cdr_type_of :: "cdr_value \<Rightarrow> cdr_type" where
  "cdr_type_of (Cdr_octet _) = T_octet"
| "cdr_type_of (Cdr_short _) = T_short"
| "cdr_type_of (Cdr_long _) = T_long"
| "cdr_type_of (Cdr_longlong _) = T_longlong"

fun get_cdr :: "bool \<Rightarrow> cdr_type \<Rightarrow> Serializer \<Rightarrow> (cdr_value \<times> Serializer) option" where
  "get_cdr le T_octet s = map_option (map_prod Cdr_octet id) (get_octet s)"
| "get_cdr le T_short s = map_option (map_prod Cdr_short id) (get_Short le s)"
| "get_cdr le T_long s = map_option (map_prod Cdr_long id) (get_Long le s)"
| "get_cdr le T_longlong s = map_option (map_prod Cdr_longlong id) (get_LongLong le s)"

fun put_all :: "bool \<Rightarrow> cdr_value list \<Rightarrow> Serializer \<Rightarrow> Serializer option" where
  "put_all le [] s = Some s"
| "put_all le (v # vs) s = put_cdr le v s \<bind> put_all le vs"

fun get_all :: "bool \<Rightarrow> cdr_type list \<Rightarrow> Serializer \<Rightarrow> (cdr_value list \<times> Serializer) option" where
  "get_all le [] s = Some ([], s)"
| "get_all le (t # ts) s =
     do { (x, s) \<leftarrow> get_cdr le t s; (xs, s) \<leftarrow> get_all le ts s; Some (x # xs, s) }"

fun cdr_size :: "cdr_value \<Rightarrow> nat" where
  "cdr_size (Cdr_octet _) = 1"
| "cdr_size (Cdr_short _) = 2"
| "cdr_size (Cdr_long _) = 4"
| "cdr_size (Cdr_longlong _) = 8"

fun cdr_wire :: "bool \<Rightarrow> cdr_value \<Rightarrow> octet list" where
  "cdr_wire ord (Cdr_octet x) = [x]"
| "cdr_wire ord (Cdr_short x) = wire_bytes ord 2 x"
| "cdr_wire ord (Cdr_long x) = wire_bytes ord 4 x"
| "cdr_wire ord (Cdr_longlong x) = wire_bytes ord 8 x"

lemma cdr_size_facts [simp]: "length (cdr_wire ord v) = cdr_size v" "cdr_size v dvd 8" "0 < cdr_size v" "cdr_size v \<le> 16"
  by (cases v; simp)+

lemma pad_len_octet [simp]: "pad_len a 1 pos = 0" "pad_len a (Suc 0) pos = 0"
  by (simp_all add: pad_len_def padding_def)

text \<open>The encoding of a sequence of values from a position on, and its size.\<close>

fun encodes :: "Alignment \<Rightarrow> bool \<Rightarrow> nat \<Rightarrow> cdr_value list \<Rightarrow> octet list \<Rightarrow> bool" where
  "encodes a ord pos [] xs \<longleftrightarrow> xs = []"
| "encodes a ord pos (v # vs) xs \<longleftrightarrow>
     (\<exists>pad rest. xs = pad @ cdr_wire ord v @ rest \<and> length pad = pad_len a (cdr_size v) pos \<and> pad_octets a pad
        \<and> encodes a ord (pos + length pad + cdr_size v) vs rest)"

fun encoded_size :: "Alignment \<Rightarrow> nat \<Rightarrow> cdr_value list \<Rightarrow> nat" where
  "encoded_size a pos [] = 0"
| "encoded_size a pos (v # vs) =
     (let n = pad_len a (cdr_size v) pos + cdr_size v in n + encoded_size a (pos + n) vs)"

lemma encodes_size: "encodes a ord pos vs xs \<Longrightarrow> length xs = encoded_size a pos vs"
  by (induction vs arbitrary: pos xs) (auto simp: Let_def add.assoc)

lemma put_value_wire:
  assumes "writing pos s" "n dvd 8" "0 < n" "pad_len (se_alignment s) n pos + n \<le> room s"
  shows "\<exists>pad s'. put_value n (host_bytes le n w) s = Some s' \<and> length pad = pad_len (se_alignment s) n pos
    \<and> pad_octets (se_alignment s) pad \<and> writing (pos + length pad + n) s' \<and> same_mode s s'
    \<and> room s' = room s - (length pad + n) \<and> written s' = written s @ pad @ wire_bytes (le \<noteq> se_swap s) n w"
proof -
  have "n \<le> 16" using dvd_imp_le [OF assms(2)] by simp
  from put_value_correct [OF assms(1,2), of "host_bytes le n w", unfolded length_host_bytes, OF assms(3) this assms(4)]
  show ?thesis unfolding wire_host by blast
qed

lemma get_word_wire:
  fixes w :: "'a::len word"
  assumes "reading pos s" "n dvd 8" "0 < n" "LENGTH('a) = 8 * n"
    and "to_read s = pad @ wire_bytes (le \<noteq> se_swap s) n w @ rest" "length pad = pad_len (se_alignment s) n pos"
  shows "\<exists>s'. get_word le n s = Some (w, s') \<and> reading (pos + length pad + n) s' \<and> same_mode s s' \<and> to_read s' = rest"
proof -
  have "n \<le> 16" using dvd_imp_le [OF assms(2)] by simp
  from get_value_correct [OF assms(1,2) _ _ assms(5,6), unfolded length_wire_bytes, OF assms(3) this]
  obtain s' where "get_value n n s = Some (ordered (se_swap s) (wire_bytes (le \<noteq> se_swap s) n w), s')"
    "reading (pos + length pad + n) s'" "same_mode s s'" "to_read s' = rest"
    by blast
  then show ?thesis using host_wire [OF assms(4), of le "se_swap s" w] by (auto simp: get_word_def)
qed

lemma put_octet_correct:
  assumes "writing pos s" "1 \<le> room s"
  shows "\<exists>s'. put_octet x s = Some s' \<and> writing (pos + 1) s' \<and> same_mode s s' \<and> room s' = room s - 1
    \<and> written s' = written s @ [x]"
proof -
  have w: "writable s" "w_aligned pos s" "se_good s" using assms(1) by (simp_all add: writing_def)
  have "length [x] = 1" by simp
  note b = buffer_write_correct [OF w(1) this, of False, OF _ refl]
  show ?thesis using b(1-5) b(6) [OF _ w(2)] w(3) assms(2) by (simp add: put_octet_def writing_def ordered_def)
qed

lemma get_octet_correct:
  assumes "reading pos s" "to_read s = x # rest"
  shows "\<exists>s'. get_octet s = Some (x, s') \<and> reading (pos + 1) s' \<and> same_mode s s' \<and> to_read s' = rest"
proof -
  have r: "chain_ok (se_current s)" "r_aligned pos s" "se_good s" using assms(1) by (simp_all add: reading_def)
  obtain d s' where b: "buffer_read [0] 1 False s = (d, s')" by (metis surj_pair)
  have "length [0 :: octet] = 1" by simp
  note bb = buffer_read_correct [OF r(1) this _ b]
  have "r_aligned (pos + 1) s'" using bb(7) [OF _ r(2)] by simp
  then show ?thesis using bb(1-6) r(3) b assms(2) by (simp add: get_octet_def reading_def ordered_def)
qed

lemma put_cdr_correct:
  assumes "writing pos s" "pad_len (se_alignment s) (cdr_size v) pos + cdr_size v \<le> room s"
  shows "\<exists>pad s'. put_cdr le v s = Some s' \<and> length pad = pad_len (se_alignment s) (cdr_size v) pos
    \<and> pad_octets (se_alignment s) pad \<and> writing (pos + length pad + cdr_size v) s' \<and> same_mode s s'
    \<and> room s' = room s - (length pad + cdr_size v) \<and> written s' = written s @ pad @ cdr_wire (le \<noteq> se_swap s) v"
proof (cases v)
  case (Cdr_octet x)
  then show ?thesis
    using put_octet_correct [OF assms(1), of x] assms(2) by (auto intro!: exI [of _ "[]"] simp: pad_octets_def)
next
  case (Cdr_short x)
  then show ?thesis using put_value_wire [OF assms(1), of 2 le x] assms(2) by (simp add: put_Short_def)
next
  case (Cdr_long x)
  then show ?thesis using put_value_wire [OF assms(1), of 4 le x] assms(2) by (simp add: put_Long_def)
next
  case (Cdr_longlong x)
  then show ?thesis using put_value_wire [OF assms(1), of 8 le x] assms(2) by (simp add: put_LongLong_def)
qed

lemma get_cdr_correct:
  assumes "reading pos s" "to_read s = pad @ cdr_wire (le \<noteq> se_swap s) v @ rest"
    and "length pad = pad_len (se_alignment s) (cdr_size v) pos"
  shows "\<exists>s'. get_cdr le (cdr_type_of v) s = Some (v, s') \<and> reading (pos + length pad + cdr_size v) s'
    \<and> same_mode s s' \<and> to_read s' = rest"
proof (cases v)
  case (Cdr_octet x)
  then show ?thesis using get_octet_correct [OF assms(1), of x rest] assms(2,3) by fastforce
next
  case (Cdr_short x)
  then show ?thesis
    using get_word_wire [OF assms(1), of 2 pad le x rest] assms(2,3) by (fastforce simp: get_Short_def)
next
  case (Cdr_long x)
  then show ?thesis
    using get_word_wire [OF assms(1), of 4 pad le x rest] assms(2,3) by (fastforce simp: get_Long_def)
next
  case (Cdr_longlong x)
  then show ?thesis
    using get_word_wire [OF assms(1), of 8 pad le x rest] assms(2,3) by (fastforce simp: get_LongLong_def)
qed

lemma put_all_correct:
  assumes "writing pos s" "encoded_size (se_alignment s) pos vs \<le> room s"
  shows "\<exists>s' xs. put_all le vs s = Some s' \<and> encodes (se_alignment s) (le \<noteq> se_swap s) pos vs xs
    \<and> written s' = written s @ xs \<and> writing (pos + length xs) s'"
  using assms
proof (induction vs arbitrary: s pos)
  case Nil
  then show ?case by simp
next
  case (Cons v vs)
  let ?n = "pad_len (se_alignment s) (cdr_size v) pos + cdr_size v"
  have n: "?n + encoded_size (se_alignment s) (pos + ?n) vs \<le> room s" using Cons.prems(2) by (simp add: Let_def)
  then have "?n \<le> room s" by linarith
  from put_cdr_correct [OF Cons.prems(1) this, of le] obtain pad t where t: "put_cdr le v s = Some t" "length pad = pad_len (se_alignment s) (cdr_size v) pos"
      "pad_octets (se_alignment s) pad" "writing (pos + length pad + cdr_size v) t" "same_mode s t"
      "room t = room s - (length pad + cdr_size v)" "written t = written s @ pad @ cdr_wire (le \<noteq> se_swap s) v"
    by blast
  have m: "se_alignment t = se_alignment s" "se_swap t = se_swap s" using t(5) by (simp_all add: same_mode_def)
  have r: "encoded_size (se_alignment t) (pos + length pad + cdr_size v) vs \<le> room t"
    unfolding m using n t(2,6) by (simp add: add.assoc)
  obtain s' xs where s': "put_all le vs t = Some s'"
      "encodes (se_alignment s) (le \<noteq> se_swap s) (pos + length pad + cdr_size v) vs xs"
      "written s' = written t @ xs" "writing (pos + length pad + cdr_size v + length xs) s'"
    using Cons.IH [OF t(4) r] unfolding m by blast
  let ?xs = "pad @ cdr_wire (le \<noteq> se_swap s) v @ xs"
  have "encodes (se_alignment s) (le \<noteq> se_swap s) pos (v # vs) ?xs"
    unfolding encodes.simps using t(2,3) s'(2) by (intro exI [of _ pad] exI [of _ xs]) simp
  moreover have "put_all le (v # vs) s = Some s'" using t(1) s'(1) by simp
  moreover have "written s' = written s @ ?xs" using t(7) s'(3) by simp
  moreover have "writing (pos + length ?xs) s'" using s'(4) by (simp add: add.assoc)
  ultimately show ?case by (intro exI conjI)
qed

lemma get_all_correct:
  assumes "reading pos s" "encodes (se_alignment s) (le \<noteq> se_swap s) pos vs xs" "to_read s = xs @ rest"
  shows "\<exists>s'. get_all le (map cdr_type_of vs) s = Some (vs, s') \<and> reading (pos + length xs) s' \<and> to_read s' = rest"
  using assms
proof (induction vs arbitrary: s pos xs)
  case Nil
  then show ?case by simp
next
  case (Cons v vs)
  from Cons.prems(2) obtain pad ys where ys: "xs = pad @ cdr_wire (le \<noteq> se_swap s) v @ ys"
      "length pad = pad_len (se_alignment s) (cdr_size v) pos"
      "encodes (se_alignment s) (le \<noteq> se_swap s) (pos + length pad + cdr_size v) vs ys"
    by auto
  have "to_read s = pad @ cdr_wire (le \<noteq> se_swap s) v @ ys @ rest" using Cons.prems(3) ys(1) by simp
  from get_cdr_correct [OF Cons.prems(1) this ys(2)] obtain t where
    t: "get_cdr le (cdr_type_of v) s = Some (v, t)" "reading (pos + length pad + cdr_size v) t" "same_mode s t"
      "to_read t = ys @ rest"
    by blast
  have m: "se_alignment t = se_alignment s" "se_swap t = se_swap s" using t(3) by (simp_all add: same_mode_def)
  obtain s' where "get_all le (map cdr_type_of vs) t = Some (vs, s')"
      "reading (pos + length pad + cdr_size v + length ys) s'" "to_read s' = rest"
    using Cons.IH [OF t(2) _ t(4)] ys(3) unfolding m by blast
  then show ?case using t(1) ys(1) by (simp add: add.assoc)
qed

lemma writing_mk:
  "chain_ok chain \<Longrightarrow> stream_of chain = [] \<Longrightarrow> writing 0 (mk_Serializer chain swap a)"
  using aligned_mk(2) [of chain swap a]
  by (cases chain) (auto simp: writing_def writable_def chain_of_def mk_Serializer_def)

lemma reading_mk: "chain_ok chain \<Longrightarrow> reading 0 (mk_Serializer chain swap a)"
  using aligned_mk(1) [of chain swap a] by (simp add: reading_def mk_Serializer_def)

lemma mk_Serializer_fields [simp]:
  "se_alignment (mk_Serializer chain swap a) = a" "se_swap (mk_Serializer chain swap a) = swap"
  "to_read (mk_Serializer chain swap a) = stream_of chain" "written (mk_Serializer chain swap a) = stream_of chain"
  "room (mk_Serializer chain swap a) = sum_list (map mb_space chain)" "se_current (mk_Serializer chain swap a) = chain"
  by (simp_all add: mk_Serializer_def to_read_def written_def chain_of_def room_def)

text \<open>
  (C7) What is serialized is what is deserialized: values written one after another into a chain with enough
  room take exactly the size of their encoding, and a reader gets the same values from any chain that
  carries these octets, however it is divided into blocks and wherever the blocks are in memory, on a host
  of either byte order, as long as both sides agree on the byte order of the wire and on the alignment.
\<close>

theorem serializer_roundtrip:
  assumes "chain_ok chain" and "stream_of chain = []" and "encoded_size a 0 vs \<le> sum_list (map mb_space chain)"
    and "(le' \<noteq> swap') = (le \<noteq> swap)"
  shows "\<exists>s. put_all le vs (mk_Serializer chain swap a) = Some s \<and> se_good s
    \<and> length (stream_of (chain_of s)) = encoded_size a 0 vs
    \<and> (\<forall>chain' rest. chain_ok chain' \<and> stream_of chain' = stream_of (chain_of s) @ rest
        \<longrightarrow> (\<exists>s'. get_all le' (map cdr_type_of vs) (mk_Serializer chain' swap' a) = Some (vs, s')
              \<and> se_good s' \<and> to_read s' = rest))"
proof -
  obtain s xs where s: "put_all le vs (mk_Serializer chain swap a) = Some s" "encodes a (le \<noteq> swap) 0 vs xs"
      "written s = xs" "writing (0 + length xs) s"
    using put_all_correct [OF writing_mk [OF assms(1,2), of swap a], of vs le] assms(2,3) by auto
  have "\<exists>s'. get_all le' (map cdr_type_of vs) (mk_Serializer chain' swap' a) = Some (vs, s') \<and> se_good s' \<and> to_read s' = rest"
    if "chain_ok chain'" "stream_of chain' = stream_of (chain_of s) @ rest" for chain' rest
    using get_all_correct [OF reading_mk [OF that(1), of swap' a], of le' vs xs rest] s(2,3) that(2) assms(4)
    by (auto simp: reading_def written_def)
  then show ?thesis using s encodes_size [OF s(2)] by (auto simp: writing_def written_def)
qed

section \<open>Strings\<close>

lemma total_to_read: "reading pos s \<Longrightarrow> total_length (se_current s) = length (to_read s)"
  by (simp add: reading_def to_read_def length_stream_of)

lemma put_octets_correct:
  assumes "writing pos s" "length xs \<le> room s"
  shows "\<exists>s'. buffer_write xs (length xs) False s = s' \<and> writing (pos + length xs) s' \<and> written s' = written s @ xs"
proof -
  have w: "writable s" "w_aligned pos s" "se_good s" using assms(1) by (simp_all add: writing_def)
  note b = buffer_write_correct [OF w(1) refl, of False xs, OF _ refl]
  show ?thesis using b(1-5) b(6) [OF _ w(2)] w(3) assms(2) by (simp add: writing_def ordered_def)
qed

lemma get_octets_correct:
  assumes "reading pos s" "to_read s = xs @ rest"
  shows "\<exists>s'. read_char_array (length xs) s = Some (xs, s') \<and> reading (pos + length xs) s' \<and> to_read s' = rest"
proof -
  have r: "chain_ok (se_current s)" "r_aligned pos s" "se_good s" using assms(1) by (simp_all add: reading_def)
  obtain d s' where b: "buffer_read (replicate (length xs) 0) (length xs) False s = (d, s')" by (metis surj_pair)
  note bb = buffer_read_correct [OF r(1) length_replicate _ b]
  have "r_aligned (pos + length xs) s'" using bb(7) [OF _ r(2)] by simp
  then show ?thesis
    using bb(1-6) r(3) b assms(2)
    by (simp add: read_char_array_def read_typed_array_def read_array_def reading_def ordered_def)
qed

lemma get_ULong_wire:
  assumes "reading pos s" "to_read s = pad @ wire_bytes (le \<noteq> se_swap s) 4 w @ rest"
    and "length pad = pad_len (se_alignment s) 4 pos"
  shows "\<exists>s'. get_ULong le s = Some (w, s') \<and> reading (pos + length pad + 4) s' \<and> to_read s' = rest"
  using get_word_wire [OF assms(1) _ _ _ assms(2,3)] by (fastforce simp: get_ULong_def)

lemma pad_len_start [simp]: "pad_len a al 0 = 0"
  by (simp add: pad_len_def padding_def)

text \<open>
  (C36) A string travels unchanged: written into a chain with enough room, it is read back, with its
  terminating null, from any chain that carries the same octets.
\<close>

theorem string_roundtrip:
  assumes "chain_ok chain" and "stream_of chain = []" and "length cs + 5 \<le> sum_list (map mb_space chain)"
    and "length cs + 1 < 2 ^ 32" and "(le' \<noteq> swap') = (le \<noteq> swap)"
  shows "\<exists>s. put_string le (Some cs) (mk_Serializer chain swap a) = Some s \<and> se_good s
    \<and> (\<forall>chain' rest. chain_ok chain' \<and> stream_of chain' = stream_of (chain_of s) @ rest
        \<longrightarrow> (\<exists>s'. read_string le' (mk_Serializer chain' swap' a) = Some (Some (cs @ [0]), s')
              \<and> se_good s' \<and> to_read s' = rest))"
proof -
  let ?n = "1 + of_nat (length cs) :: ulong"
  have n: "unat ?n = length (cs @ [0])"
    using assms(4) unat_of_nat [of "Suc (length cs)", where 'a = 32] by simp
  obtain t where t: "put_ULong le ?n (mk_Serializer chain swap a) = Some t" "writing 4 t"
      "room t = sum_list (map mb_space chain) - 4" "written t = wire_bytes (le \<noteq> swap) 4 ?n"
    using put_value_wire [OF writing_mk [OF assms(1,2), of swap a], of 4 le ?n] assms(2,3)
    by (auto simp: put_ULong_def)
  obtain s where s: "buffer_write (cs @ [0]) (length (cs @ [0])) False t = s" "writing (4 + length (cs @ [0])) s"
      "written s = wire_bytes (le \<noteq> swap) 4 ?n @ cs @ [0]"
    using put_octets_correct [OF t(2), of "cs @ [0]"] t(3,4) assms(3) by auto
  have "\<exists>s'. read_string le' (mk_Serializer chain' swap' a) = Some (Some (cs @ [0]), s') \<and> se_good s' \<and> to_read s' = rest"
    if c: "chain_ok chain'" "stream_of chain' = stream_of (chain_of s) @ rest" for chain' rest
  proof -
    obtain r where r: "get_ULong le' (mk_Serializer chain' swap' a) = Some (?n, r)" "reading 4 r" "to_read r = (cs @ [0]) @ rest"
      using get_ULong_wire [OF reading_mk [OF c(1), of swap' a], of "[]" le' ?n "(cs @ [0]) @ rest"] c(2) s(3) assms(5)
      by (auto simp: written_def)
    obtain s' where s': "read_char_array (length (cs @ [0])) r = Some (cs @ [0], s')" "reading (4 + length (cs @ [0])) s'"
        "to_read s' = rest"
      using get_octets_correct [OF r(2,3)] by blast
    have "se_current r \<noteq> []" using to_read_current [of r] r(3) by simp
    moreover have "unat ?n \<le> total_length (se_current r)" unfolding total_to_read [OF r(2)] n r(3) by simp
    ultimately show ?thesis using r s' n by (simp add: read_string_def reading_def)
  qed
  then show ?thesis using t(1) s n by (auto simp: put_string_def Let_def writing_def)
qed

lemma read_last_block:
  assumes "mb_ok b" "mb_length b = 4"
  shows "\<exists>x s'. get_ULong le (mk_Serializer [b] swap a) = Some (x, s') \<and> se_current s' = [] \<and> se_good s'"
proof -
  let ?s = "mk_Serializer [b] swap a"
  have c: "chain_ok [b]" "length (stream_of [b]) = 4" using assms length_mb_content [OF assms(1)] by simp_all
  have "\<exists>t. (if a = ALIGN_NONE then Some ?s else align_r 4 ?s) = Some t \<and> se_current t = [b] \<and> se_good t"
  proof (cases "a = ALIGN_NONE")
    case False
    have "align_r 4 ?s = Some (skip_loop (padding 4 0) ?s)"
      using False c aligned_mk(1) [of "[b]" swap a] by (intro align_r_correct) simp_all
    then show ?thesis using False by (simp add: padding_def skip_loop.simps [of 0]) (simp add: mk_Serializer_def)
  qed (simp add: mk_Serializer_def)
  then obtain t where t: "(if a = ALIGN_NONE then Some ?s else align_r 4 ?s) = Some t" "se_current t = [b]" "se_good t"
    by blast
  have 4: "0 < (4 :: nat)" "length (replicate 4 (0 :: octet)) = 4" "se_swap t \<Longrightarrow> (4 :: nat) \<le> 16" by simp_all
  have "\<exists>d s'. doread (replicate 4 0) 4 (se_swap t) 0 t = (4, d, s') \<and> se_current s' = [] \<and> se_good s'"
    by (rule doread_step [OF t(2) assms(1) chain_ok_simps(1) 4 refl])
      (use assms(2) t c(2) in \<open>auto simp: consumes_def to_read_def\<close>)
  then obtain d s' where "doread (replicate 4 0) 4 (se_swap t) 0 t = (4, d, s')" "se_current s' = []" "se_good s'"
    by blast
  then have "read_loop (replicate 4 0) 4 (se_swap t) 0 t = (d, s')" "se_current s' = []" "se_good s'"
    by (simp_all add: read_loop.simps [of "replicate 4 0"] read_loop.simps [of _ _ _ 4])
  then show ?thesis using t(1) by (auto simp: get_ULong_def get_word_def get_value_def buffer_read_def)
qed

text \<open>
  Two malformed messages escape \<open>read_string\<close>: a length that runs past the end of the message gives a
  null pointer while the good bit stays set, so that reading a bounded string dereferences it, and a length that
  is the last thing in the message, as in an empty wide string at the end, makes the reader dereference a null
  pointer.
\<close>

theorem string_read_flaws:
  fixes n :: ulong
  assumes "chain_ok chain" and "stream_of chain = wire_bytes (le \<noteq> swap) 4 n @ rest" and "rest \<noteq> []"
    and "length rest < unat n" and "0 < bound" and "mb_ok b" and "mb_length b = 4"
  shows "(\<exists>s'. read_string le (mk_Serializer chain swap a) = Some (None, s') \<and> se_good s' \<and> to_read s' = rest)
    \<and> get_bounded_string le bound (mk_Serializer chain swap a) = None
    \<and> read_string le (mk_Serializer [b] swap a) = None \<and> read_wstring le (mk_Serializer [b] swap a) = None"
proof (intro conjI)
  obtain r where r: "get_ULong le (mk_Serializer chain swap a) = Some (n, r)" "reading 4 r" "to_read r = rest"
    using get_ULong_wire [OF reading_mk [OF assms(1), of swap a], of "[]" le n rest] assms(2) by auto
  have "se_current r \<noteq> []" using to_read_current [of r] r(3) assms(3) by simp
  moreover have "\<not> unat n \<le> total_length (se_current r)" using total_to_read [OF r(2)] r(3) assms(4) by simp
  ultimately show read: "\<exists>s'. read_string le (mk_Serializer chain swap a) = Some (None, s') \<and> se_good s' \<and> to_read s' = rest"
    using r by (simp add: read_string_def reading_def)
  then show "get_bounded_string le bound (mk_Serializer chain swap a) = None"
    using assms(5) by (auto simp: get_bounded_string_def strlen_def)
  show "read_string le (mk_Serializer [b] swap a) = None" "read_wstring le (mk_Serializer [b] swap a) = None"
    using read_last_block [OF assms(6,7), of le swap a] by (auto simp: read_string_def read_wstring_def)
qed

text \<open>Blocks for the witnesses: an empty one of a given size, and a full one.\<close>

definition empty_block :: "nat \<Rightarrow> nat \<Rightarrow> mblock" where
  "empty_block base n = \<lparr>mb_base = base, mb_buf = replicate n 0, mb_rd = 0, mb_wr = 0\<rparr>"

definition full_block :: "nat \<Rightarrow> octet list \<Rightarrow> mblock" where
  "full_block base xs = \<lparr>mb_base = base, mb_buf = xs, mb_rd = 0, mb_wr = length xs\<rparr>"

lemma example_blocks [simp]:
  "mb_ok (empty_block base n)" "mb_content (empty_block base n) = []" "mb_space (empty_block base n) = n"
  "mb_ok (full_block base xs)" "mb_content (full_block base xs) = xs" "mb_length (full_block base xs) = length xs"
  by (simp_all add: empty_block_def full_block_def mb_ok_def mb_content_def mb_space_def mb_length_def)

theorem serializer_roundtrip_witness:
  "\<exists>s. put_all True [Cdr_octet 1, Cdr_long 7] (mk_Serializer [empty_block 3 2, empty_block 100 9] True ALIGN_CDR) = Some s
     \<and> length (stream_of (chain_of s)) = 8"
  using serializer_roundtrip [of "[empty_block 3 2, empty_block 100 9]" ALIGN_CDR "[Cdr_octet 1, Cdr_long 7]" False False True True]
  by (auto simp: pad_len_def padding_def)

theorem string_roundtrip_witness:
  "\<exists>s. put_string True (Some [104, 105]) (mk_Serializer [empty_block 3 2, empty_block 100 9] False ALIGN_NONE) = Some s \<and> se_good s"
  using string_roundtrip [of "[empty_block 3 2, empty_block 100 9]" "[104, 105]" True False True False ALIGN_NONE] by auto

theorem string_read_flaws_witness:
  "read_wstring True (mk_Serializer [full_block 3 [0, 0, 0, 0]] False ALIGN_NONE) = None"
  using string_read_flaws [of "[full_block 0 (wire_bytes True 4 (9 :: ulong) @ [65])]" True False "9 :: ulong" "[65]" 1
      "full_block 3 [0, 0, 0, 0]" ALIGN_NONE] by simp

end
