(* ===== verification/Header_Marshal.thy ===== *)
theory Header_Marshal
  imports Serializer_Ops Sample_Header
begin
unbundle bit_operations_syntax

text \<open>
  Marshaling of \<open>DataSampleHeader\<close> (\<open>src/dds/DCPS/DataSampleHeader.{inl,cpp}\<close>) and of \<open>SequenceNumber\<close>
  (\<open>src/dds/DCPS/Definitions.h\<close>). The operators for \<open>GUID_t\<close> and \<open>GUIDSeq\<close> are generated from the IDL; they
  are the record \<open>guid_ops\<close>, and what the CDR encoding of these types promises is the locale
  \<open>guid_marshal\<close>. The parameter \<open>le\<close> is \<open>ACE_CDR_BYTE_ORDER\<close>.
\<close>

section \<open>Generated operators\<close>

record guid_ops =
  go_put :: "GUID_t \<Rightarrow> Serializer \<Rightarrow> Serializer option"
  go_get :: "Serializer \<Rightarrow> (GUID_t \<times> Serializer) option"
  go_put_seq :: "bool \<Rightarrow> GUID_t list \<Rightarrow> Serializer \<Rightarrow> Serializer option"
  go_get_seq :: "bool \<Rightarrow> Serializer \<Rightarrow> (GUID_t list \<times> Serializer) option"

section \<open>Sequence numbers\<close>

definition put_SequenceNumber :: "bool \<Rightarrow> sequence_number \<Rightarrow> Serializer \<Rightarrow> Serializer option" where
  "put_SequenceNumber le x s = put_Long le (sn_high x) s \<bind> put_ULong le (sn_low x)"

definition get_SequenceNumber :: "bool \<Rightarrow> Serializer \<Rightarrow> (sequence_number \<times> Serializer) option" where
  "get_SequenceNumber le s =
     do {
       (high, s) \<leftarrow> get_Long le s;
       if \<not> se_good s then Some (default_sn, s)
       else do {
         (low, s) \<leftarrow> get_ULong le s;
         if \<not> se_good s then Some (default_sn, s) else Some (SequenceNumber high low, s)
       }
     }"

definition gen_find_size_sn :: "nat \<times> nat \<Rightarrow> nat \<times> nat" where
  "gen_find_size_sn p = (case find_size_ulong p of (sz, pad) \<Rightarrow> (sz + 4, pad))"

section \<open>Writing a header\<close>

definition BYTE_ORDER_FLAG :: nat where "BYTE_ORDER_FLAG = 0"
definition COHERENT_CHANGE_FLAG :: nat where "COHERENT_CHANGE_FLAG = 1"
definition HISTORIC_SAMPLE_FLAG :: nat where "HISTORIC_SAMPLE_FLAG = 2"
definition LIFESPAN_DURATION_FLAG :: nat where "LIFESPAN_DURATION_FLAG = 3"
definition GROUP_COHERENT_FLAG :: nat where "GROUP_COHERENT_FLAG = 4"
definition CONTENT_FILTER_FLAG :: nat where "CONTENT_FILTER_FLAG = 5"
definition SEQUENCE_REPAIR_FLAG :: nat where "SEQUENCE_REPAIR_FLAG = 6"
definition MORE_FRAGMENTS_FLAG :: nat where "MORE_FRAGMENTS_FLAG = 7"
definition CDR_ENCAP_FLAG :: nat where "CDR_ENCAP_FLAG = 0"
definition KEY_ONLY_FLAG :: nat where "KEY_ONLY_FLAG = 1"

lemmas flag_numbers = BYTE_ORDER_FLAG_def COHERENT_CHANGE_FLAG_def HISTORIC_SAMPLE_FLAG_def
  LIFESPAN_DURATION_FLAG_def GROUP_COHERENT_FLAG_def CONTENT_FILTER_FLAG_def SEQUENCE_REPAIR_FLAG_def
  MORE_FRAGMENTS_FLAG_def CDR_ENCAP_FLAG_def KEY_ONLY_FLAG_def

definition MESSAGE_ID_OFFSET :: nat where "MESSAGE_ID_OFFSET = 0"
definition SUBMESSAGE_ID_OFFSET :: nat where "SUBMESSAGE_ID_OFFSET = 1"
definition FLAGS_OFFSET :: nat where "FLAGS_OFFSET = 2"

definition mask_flag :: "nat \<Rightarrow> octet" where "mask_flag flag = push_bit flag 1"

definition max_marshaled_size :: nat where
  "max_marshaled_size = 1 + 1 + 2 + 4 + 8 + 4 + 4 + 4 + 4 + 16 + 16"

definition header_flags :: "DataSampleHeader \<Rightarrow> octet" where
  "header_flags h =
     push_bit BYTE_ORDER_FLAG (of_bool (h_byte_order h)) OR push_bit COHERENT_CHANGE_FLAG (of_bool (h_coherent_change h))
     OR push_bit HISTORIC_SAMPLE_FLAG (of_bool (h_historic_sample h))
     OR push_bit LIFESPAN_DURATION_FLAG (of_bool (h_lifespan_duration h))
     OR push_bit GROUP_COHERENT_FLAG (of_bool (h_group_coherent h))
     OR push_bit CONTENT_FILTER_FLAG (of_bool (h_content_filter h))
     OR push_bit SEQUENCE_REPAIR_FLAG (of_bool (h_sequence_repair h))
     OR push_bit MORE_FRAGMENTS_FLAG (of_bool (h_more_fragments h))"

definition header_flags2 :: "DataSampleHeader \<Rightarrow> octet" where
  "header_flags2 h =
     push_bit CDR_ENCAP_FLAG (of_bool (h_cdr_encapsulation h)) OR push_bit KEY_ONLY_FLAG (of_bool (h_key_fields_only h))"

definition put_header :: "guid_ops \<Rightarrow> bool \<Rightarrow> DataSampleHeader \<Rightarrow> mblock list \<Rightarrow> Serializer option" where
  "put_header go le h buffer =
     do {
       s \<leftarrow> put_Char (h_message_id h) (mk_Serializer buffer (h_byte_order h \<noteq> le) ALIGN_NONE);
       s \<leftarrow> put_Char (h_submessage_id h) s;
       s \<leftarrow> put_octet (header_flags h) s;
       s \<leftarrow> put_octet (header_flags2 h) s;
       s \<leftarrow> put_ULong le (h_message_length h) s;
       s \<leftarrow> put_SequenceNumber le (h_sequence h) s;
       s \<leftarrow> put_Long le (h_source_timestamp_sec h) s;
       s \<leftarrow> put_ULong le (h_source_timestamp_nanosec h) s;
       s \<leftarrow> (if h_lifespan_duration h
            then put_Long le (h_lifespan_duration_sec h) s \<bind> put_ULong le (h_lifespan_duration_nanosec h)
            else Some s);
       s \<leftarrow> go_put go (h_publication_id h) s;
       if h_group_coherent h then go_put go (h_publisher_id h) s else Some s
     }"

section \<open>Reading a header\<close>

text \<open>
  One field of \<open>init\<close>: it is extracted into the member and, when it could be read, counted; \<open>init\<close> returns at the
  first field that could not be read, so that a cleared good bit ends the reading. The octets of a value that
  the chain cuts off are zero, which is what the constructor has put into the member. The flags are extracted
  into a local octet, from which the members are assigned when it could be read.
\<close>

definition read_field ::
    "(Serializer \<Rightarrow> ('a \<times> Serializer) option) \<Rightarrow> ('a \<Rightarrow> DataSampleHeader \<Rightarrow> DataSampleHeader) \<Rightarrow> ('a \<Rightarrow> nat)
     \<Rightarrow> DataSampleHeader \<times> Serializer \<Rightarrow> (DataSampleHeader \<times> Serializer) option" where
  "read_field get assign sz hs =
     (case hs of (h, s) \<Rightarrow>
        if \<not> se_good s then Some (h, s)
        else do {
          (x, s) \<leftarrow> get s;
          let h = assign x h;
          Some (if se_good s then h\<lparr>h_marshaled_size := h_marshaled_size h + sz x\<rparr> else h, s)
        })"

definition read_flags ::
    "(octet \<Rightarrow> DataSampleHeader \<Rightarrow> DataSampleHeader) \<Rightarrow> DataSampleHeader \<times> Serializer \<Rightarrow> (DataSampleHeader \<times> Serializer) option" where
  "read_flags assign hs =
     (case hs of (h, s) \<Rightarrow>
        if \<not> se_good s then Some (h, s)
        else do {
          (byte, s) \<leftarrow> get_octet s;
          Some (if se_good s then assign byte (h\<lparr>h_marshaled_size := h_marshaled_size h + 1\<rparr>) else h, s)
        })"

definition assign_flags :: "octet \<Rightarrow> DataSampleHeader \<Rightarrow> DataSampleHeader" where
  "assign_flags byte h =
     h\<lparr>h_byte_order := (byte AND mask_flag BYTE_ORDER_FLAG \<noteq> 0),
       h_coherent_change := (byte AND mask_flag COHERENT_CHANGE_FLAG \<noteq> 0),
       h_historic_sample := (byte AND mask_flag HISTORIC_SAMPLE_FLAG \<noteq> 0),
       h_lifespan_duration := (byte AND mask_flag LIFESPAN_DURATION_FLAG \<noteq> 0),
       h_group_coherent := (byte AND mask_flag GROUP_COHERENT_FLAG \<noteq> 0),
       h_content_filter := (byte AND mask_flag CONTENT_FILTER_FLAG \<noteq> 0),
       h_sequence_repair := (byte AND mask_flag SEQUENCE_REPAIR_FLAG \<noteq> 0),
       h_more_fragments := (byte AND mask_flag MORE_FRAGMENTS_FLAG \<noteq> 0)\<rparr>"

definition assign_flags2 :: "octet \<Rightarrow> DataSampleHeader \<Rightarrow> DataSampleHeader" where
  "assign_flags2 byte h =
     h\<lparr>h_cdr_encapsulation := (byte AND mask_flag CDR_ENCAP_FLAG \<noteq> 0),
       h_key_fields_only := (byte AND mask_flag KEY_ONLY_FLAG \<noteq> 0)\<rparr>"

definition set_byte_order :: "bool \<Rightarrow> DataSampleHeader \<times> Serializer \<Rightarrow> DataSampleHeader \<times> Serializer" where
  "set_byte_order le hs =
     (case hs of (h, s) \<Rightarrow> (h, if se_good s then s\<lparr>se_swap := (h_byte_order h \<noteq> le)\<rparr> else s))"

definition header_init ::
    "guid_ops \<Rightarrow> bool \<Rightarrow> mblock list \<Rightarrow> DataSampleHeader \<Rightarrow> (DataSampleHeader \<times> Serializer) option" where
  "header_init go le buffer h =
     do {
       hs \<leftarrow> read_field get_Char (\<lambda>x h. h\<lparr>h_message_id := x\<rparr>) (\<lambda>_. 1)
              (h\<lparr>h_marshaled_size := 0\<rparr>, mk_Serializer buffer False ALIGN_NONE);
       hs \<leftarrow> read_field get_Char (\<lambda>x h. h\<lparr>h_submessage_id := x\<rparr>) (\<lambda>_. 1) hs;
       hs \<leftarrow> read_flags assign_flags hs;
       hs \<leftarrow> read_flags assign_flags2 (set_byte_order le hs);
       hs \<leftarrow> read_field (get_ULong le) (\<lambda>x h. h\<lparr>h_message_length := x\<rparr>) (\<lambda>_. 4) hs;
       hs \<leftarrow> read_field (get_SequenceNumber le) (\<lambda>x h. h\<lparr>h_sequence := x\<rparr>) (\<lambda>_. fst (gen_find_size_sn (0, 0))) hs;
       hs \<leftarrow> read_field (get_Long le) (\<lambda>x h. h\<lparr>h_source_timestamp_sec := x\<rparr>) (\<lambda>_. 4) hs;
       hs \<leftarrow> read_field (get_ULong le) (\<lambda>x h. h\<lparr>h_source_timestamp_nanosec := x\<rparr>) (\<lambda>_. 4) hs;
       hs \<leftarrow> (if h_lifespan_duration (fst hs)
             then read_field (get_Long le) (\<lambda>x h. h\<lparr>h_lifespan_duration_sec := x\<rparr>) (\<lambda>_. 4) hs
                  \<bind> read_field (get_ULong le) (\<lambda>x h. h\<lparr>h_lifespan_duration_nanosec := x\<rparr>) (\<lambda>_. 4)
             else Some hs);
       hs \<leftarrow> read_field (go_get go) (\<lambda>x h. h\<lparr>h_publication_id := x\<rparr>) (\<lambda>_. 16) hs;
       hs \<leftarrow> (if h_group_coherent (fst hs)
             then read_field (go_get go) (\<lambda>x h. h\<lparr>h_publisher_id := x\<rparr>) (\<lambda>_. 16) hs
             else Some hs);
       if h_content_filter (fst hs)
       then read_field (go_get_seq go le) (\<lambda>x h. h\<lparr>h_content_filter_entries := x\<rparr>) (\<lambda>x. 4 + 16 * length x) hs
       else Some hs
     }"

section \<open>Looking at a header in a chain\<close>

definition mb_copy :: "mblock \<Rightarrow> mblock list \<Rightarrow> nat \<Rightarrow> nat \<Rightarrow> bool \<Rightarrow> octet list option" where
  "mb_copy b bs offset sz swap =
     (let temp = b\<lparr>mb_rd := mb_rd b + offset\<rparr> # bs
      in if total_length temp < sz then None
         else Some (fst (buffer_read (replicate sz 0) sz swap (mk_Serializer temp swap ALIGN_NONE))))"

fun mb_peek :: "mblock list \<Rightarrow> nat \<Rightarrow> nat \<Rightarrow> bool \<Rightarrow> octet list option" where
  "mb_peek [] offset sz swap = None"
| "mb_peek (b # bs) offset sz swap =
     (if mb_length b > offset then mb_copy b bs offset sz swap else mb_peek bs (offset - mb_length b) sz swap)"

definition header_partial :: "bool \<Rightarrow> mblock list \<Rightarrow> bool" where
  "header_partial le mb =
     (let len = total_length mb in
      if len \<le> FLAGS_OFFSET then True
      else case mb_peek mb MESSAGE_ID_OFFSET 1 False of
        None \<Rightarrow> True
      | Some msg_id \<Rightarrow>
      if unat (hd msg_id) \<ge> MESSAGE_ID_MAX then True
      else case mb_peek mb SUBMESSAGE_ID_OFFSET 1 False of
        None \<Rightarrow> True
      | Some sub_id \<Rightarrow>
      if unat (hd sub_id) \<ge> SUBMESSAGE_ID_MAX then True
      else case mb_peek mb FLAGS_OFFSET 1 False of
        None \<Rightarrow> True
      | Some fs \<Rightarrow>
      let flags = hd fs;
          expected = max_marshaled_size;
          expected = (if flags AND mask_flag LIFESPAN_DURATION_FLAG = 0 then expected - 8 else expected);
          expected = (if flags AND mask_flag GROUP_COHERENT_FLAG = 0 then expected - 16 else expected)
      in if flags AND mask_flag CONTENT_FILTER_FLAG \<noteq> 0
         then case mb_peek mb expected 4 ((flags AND mask_flag BYTE_ORDER_FLAG \<noteq> 0) \<noteq> le) of
                None \<Rightarrow> True
              | Some n \<Rightarrow> len < expected + (4 + 16 * unat (host_word le n :: ulong))
         else len < expected)"

section \<open>Flags in the buffer\<close>

definition clear_flag :: "nat \<Rightarrow> mblock \<Rightarrow> mblock" where
  "clear_flag flag b =
     (if length (mb_buf b) < FLAGS_OFFSET + 1 then b
      else b\<lparr>mb_buf := (mb_buf b)[FLAGS_OFFSET := mb_buf b ! FLAGS_OFFSET AND NOT (mask_flag flag)]\<rparr>)"

definition set_flag :: "nat \<Rightarrow> mblock \<Rightarrow> mblock" where
  "set_flag flag b =
     (if length (mb_buf b) < FLAGS_OFFSET + 1 then b
      else b\<lparr>mb_buf := (mb_buf b)[FLAGS_OFFSET := mb_buf b ! FLAGS_OFFSET OR mask_flag flag]\<rparr>)"

definition test_flag :: "nat \<Rightarrow> mblock \<Rightarrow> bool" where
  "test_flag flag b =
     (if length (mb_buf b) < FLAGS_OFFSET + 1 then False else mb_buf b ! FLAGS_OFFSET AND mask_flag flag \<noteq> 0)"

text \<open>\<open>add_cfentries\<close>: a block of just the right size with the entries goes between the header and the data.\<close>

definition add_cfentries ::
    "guid_ops \<Rightarrow> bool \<Rightarrow> (nat \<Rightarrow> mblock) \<Rightarrow> GUID_t list option \<Rightarrow> mblock \<Rightarrow> mblock list \<Rightarrow> mblock list option" where
  "add_cfentries go le alloc guids mb cont =
     do {
       let sz = (case guids of Some gs \<Rightarrow> 4 + 16 * length gs | None \<Rightarrow> 4);
       let ser = mk_Serializer [alloc sz] (le \<noteq> test_flag BYTE_ORDER_FLAG mb) ALIGN_NONE;
       ser \<leftarrow> (case guids of Some gs \<Rightarrow> go_put_seq go le gs ser | None \<Rightarrow> put_ULong le 0 ser);
       Some (mb # chain_of ser @ cont)
     }"

section \<open>Encoders and decoders without alignment\<close>

definition wr_ready :: "Serializer \<Rightarrow> bool" where
  "wr_ready s \<longleftrightarrow> writing 0 s \<and> se_alignment s = ALIGN_NONE"

definition rd_ready :: "Serializer \<Rightarrow> bool" where
  "rd_ready s \<longleftrightarrow> reading 0 s \<and> se_alignment s = ALIGN_NONE"

text \<open>
  \<open>puts f enc\<close>: the operation appends the octets \<open>enc swap\<close> when there is room for them. \<open>gets f x enc\<close>:
  on a stream that starts with these octets the operation takes them off and returns \<open>x\<close>.
\<close>

definition puts :: "(Serializer \<Rightarrow> Serializer option) \<Rightarrow> (bool \<Rightarrow> octet list) \<Rightarrow> bool" where
  "puts f enc \<longleftrightarrow>
     (\<forall>s. wr_ready s \<and> length (enc (se_swap s)) \<le> room s \<longrightarrow>
        (\<exists>s'. f s = Some s' \<and> wr_ready s' \<and> se_swap s' = se_swap s \<and> room s' = room s - length (enc (se_swap s))
              \<and> written s' = written s @ enc (se_swap s)))"

definition gets :: "(Serializer \<Rightarrow> ('a \<times> Serializer) option) \<Rightarrow> 'a \<Rightarrow> (bool \<Rightarrow> octet list) \<Rightarrow> bool" where
  "gets f x enc \<longleftrightarrow>
     (\<forall>s rest. rd_ready s \<and> to_read s = enc (se_swap s) @ rest \<longrightarrow>
        (\<exists>s'. f s = Some (x, s') \<and> rd_ready s' \<and> se_swap s' = se_swap s \<and> to_read s' = rest))"

lemma aligned_none: "se_alignment s = ALIGN_NONE \<Longrightarrow> w_aligned pos s" "se_alignment s = ALIGN_NONE \<Longrightarrow> r_aligned pos s"
  by (simp_all add: w_aligned_def r_aligned_def)

lemma wr_ready_any: "wr_ready s \<longleftrightarrow> writing pos s \<and> se_alignment s = ALIGN_NONE"
  by (auto simp: wr_ready_def writing_def aligned_none)

lemma rd_ready_any: "rd_ready s \<longleftrightarrow> reading pos s \<and> se_alignment s = ALIGN_NONE"
  by (auto simp: rd_ready_def reading_def aligned_none)

lemma rd_ready_good [simp]: "rd_ready s \<Longrightarrow> se_good s"
  by (simp add: rd_ready_def reading_def)

lemma putsD:
  assumes "puts f enc" "wr_ready s" "length (enc (se_swap s)) \<le> room s"
  obtains s' where "f s = Some s'" "wr_ready s'" "se_swap s' = se_swap s" "room s' = room s - length (enc (se_swap s))"
    "written s' = written s @ enc (se_swap s)"
  using assms unfolding puts_def by blast

lemma getsD:
  assumes "gets f x enc" "rd_ready s" "to_read s = enc (se_swap s) @ rest"
  obtains s' where "f s = Some (x, s')" "rd_ready s'" "se_swap s' = se_swap s" "to_read s' = rest"
  using assms unfolding gets_def by blast

lemma puts_bind:
  assumes "puts f enc" "puts g enc'"
  shows "puts (\<lambda>s. f s \<bind> g) (\<lambda>sw. enc sw @ enc' sw)"
  unfolding puts_def
proof (intro allI impI)
  fix s
  assume a: "wr_ready s \<and> length (enc (se_swap s) @ enc' (se_swap s)) \<le> room s"
  then have "wr_ready s" "length (enc (se_swap s)) \<le> room s" by simp_all
  from putsD [OF assms(1) this] obtain t where t: "f s = Some t" "wr_ready t" "se_swap t = se_swap s"
      "room t = room s - length (enc (se_swap s))" "written t = written s @ enc (se_swap s)" .
  have "length (enc' (se_swap t)) \<le> room t" using a t(3,4) by auto
  from putsD [OF assms(2) t(2) this] obtain s' where "g t = Some s'" "wr_ready s'" "se_swap s' = se_swap t"
      "room s' = room t - length (enc' (se_swap t))" "written s' = written t @ enc' (se_swap t)" .
  then show "\<exists>s'. f s \<bind> g = Some s' \<and> wr_ready s' \<and> se_swap s' = se_swap s
      \<and> room s' = room s - length (enc (se_swap s) @ enc' (se_swap s))
      \<and> written s' = written s @ enc (se_swap s) @ enc' (se_swap s)"
    using t by simp
qed

lemma puts_skip: "puts Some (\<lambda>_. [])"
  by (simp add: puts_def)

lemma puts_if: "(b \<Longrightarrow> puts f enc) \<Longrightarrow> (\<not> b \<Longrightarrow> puts g enc') \<Longrightarrow> puts (\<lambda>s. if b then f s else g s) (\<lambda>sw. if b then enc sw else enc' sw)"
  by (cases b) simp_all

lemma puts_octet: "puts (put_octet x) (\<lambda>_. [x])"
  unfolding puts_def
proof (intro allI impI)
  fix s
  assume a: "wr_ready s \<and> length [x] \<le> room s"
  then have "writing 0 s" "1 \<le> room s" by (simp_all add: wr_ready_def)
  from put_octet_correct [OF this, of x] a
  show "\<exists>s'. put_octet x s = Some s' \<and> wr_ready s' \<and> se_swap s' = se_swap s \<and> room s' = room s - length [x]
      \<and> written s' = written s @ [x]"
    by (auto simp: wr_ready_any [of _ 1] same_mode_def)
qed

lemma puts_word: "n dvd 8 \<Longrightarrow> 0 < n \<Longrightarrow> puts (put_value n (host_bytes le n w)) (\<lambda>sw. wire_bytes (le \<noteq> sw) n w)"
  unfolding puts_def
proof (intro allI impI)
  fix s
  assume n: "n dvd 8" "0 < n" and a: "wr_ready s \<and> length (wire_bytes (le \<noteq> se_swap s) n w) \<le> room s"
  then have w: "writing 0 s" "pad_len (se_alignment s) n 0 + n \<le> room s" "se_alignment s = ALIGN_NONE"
    by (simp_all add: wr_ready_def pad_len_def)
  from put_value_wire [OF w(1) n w(2), of le w] w(3)
  show "\<exists>s'. put_value n (host_bytes le n w) s = Some s' \<and> wr_ready s' \<and> se_swap s' = se_swap s
      \<and> room s' = room s - length (wire_bytes (le \<noteq> se_swap s) n w)
      \<and> written s' = written s @ wire_bytes (le \<noteq> se_swap s) n w"
    by (auto simp: wr_ready_any [of _ n] same_mode_def pad_len_def)
qed

lemma gets_octet: "gets get_octet x (\<lambda>_. [x])"
  unfolding gets_def
proof (intro allI impI)
  fix s rest
  assume a: "rd_ready s \<and> to_read s = [x] @ rest"
  then have "reading 0 s" "to_read s = x # rest" by (simp_all add: rd_ready_def)
  from get_octet_correct [OF this] a
  show "\<exists>s'. get_octet s = Some (x, s') \<and> rd_ready s' \<and> se_swap s' = se_swap s \<and> to_read s' = rest"
    by (auto simp: rd_ready_any [of _ 1] same_mode_def)
qed

lemma gets_word:
  "n dvd 8 \<Longrightarrow> 0 < n \<Longrightarrow> LENGTH('a) = 8 * n \<Longrightarrow> gets (get_word le n) w (\<lambda>sw. wire_bytes (le \<noteq> sw) n w)"
  for w :: "'a::len word"
  unfolding gets_def
proof (intro allI impI)
  fix s rest
  assume n: "n dvd 8" "0 < n" "LENGTH('a) = 8 * n" and a: "rd_ready s \<and> to_read s = wire_bytes (le \<noteq> se_swap s) n w @ rest"
  then have r: "reading 0 s" "se_alignment s = ALIGN_NONE" "to_read s = [] @ wire_bytes (le \<noteq> se_swap s) n w @ rest"
      "length [] = pad_len (se_alignment s) n 0"
    by (simp_all add: rd_ready_def)
  from get_word_wire [OF r(1) n r(3,4)] r(2)
  show "\<exists>s'. get_word le n s = Some (w, s') \<and> rd_ready s' \<and> se_swap s' = se_swap s \<and> to_read s' = rest"
    by (auto simp: rd_ready_any [of _ n] same_mode_def)
qed

lemma puts_scalars:
  "puts (put_Long le w) (\<lambda>sw. wire_bytes (le \<noteq> sw) 4 w)" "puts (put_ULong le w) (\<lambda>sw. wire_bytes (le \<noteq> sw) 4 w)"
  unfolding put_Long_def put_ULong_def by (rule puts_word; simp)+

lemma gets_scalars:
  "gets (get_Long le) w (\<lambda>sw. wire_bytes (le \<noteq> sw) 4 w)" "gets (get_ULong le) w (\<lambda>sw. wire_bytes (le \<noteq> sw) 4 w)"
  unfolding get_Long_def get_ULong_def by (rule gets_word; simp)+

text \<open>A single octet is the same swapped or not, so \<open>char\<close> behaves like an octet.\<close>

lemma puts_char: "puts (put_Char x) (\<lambda>_. [x])"
  unfolding puts_def
proof (intro allI impI)
  fix s
  assume a: "wr_ready s \<and> length [x] \<le> room s"
  then have w: "writable s" "se_good s" "se_alignment s = ALIGN_NONE" by (simp_all add: wr_ready_def writing_def)
  have "length [x] = 1" by simp
  note b = buffer_write_correct [OF w(1) this, of "se_swap s", OF _ refl]
  show "\<exists>s'. put_Char x s = Some s' \<and> wr_ready s' \<and> se_swap s' = se_swap s \<and> room s' = room s - length [x]
      \<and> written s' = written s @ [x]"
    using b(1-5) w a by (simp add: put_Char_def wr_ready_def writing_def same_mode_def aligned_none ordered_def)
qed

lemma gets_char: "gets get_Char x (\<lambda>_. [x])"
  unfolding gets_def
proof (intro allI impI)
  fix s rest
  assume a: "rd_ready s \<and> to_read s = [x] @ rest"
  then have r: "chain_ok (se_current s)" "se_good s" "se_alignment s = ALIGN_NONE" by (simp_all add: rd_ready_def reading_def)
  obtain d s' where b: "buffer_read [0] 1 (se_swap s) s = (d, s')" by (metis surj_pair)
  have "length [0 :: octet] = 1" by simp
  note bb = buffer_read_correct [OF r(1) this _ b]
  show "\<exists>s'. get_Char s = Some (x, s') \<and> rd_ready s' \<and> se_swap s' = se_swap s \<and> to_read s' = rest"
    using bb(1-6) r a b by (simp add: get_Char_def rd_ready_def reading_def same_mode_def aligned_none ordered_def)
qed

lemma puts_SequenceNumber:
  "puts (put_SequenceNumber le x) (\<lambda>sw. wire_bytes (le \<noteq> sw) 4 (sn_high x) @ wire_bytes (le \<noteq> sw) 4 (sn_low x))"
  unfolding put_SequenceNumber_def by (intro puts_bind puts_scalars)

lemma gets_SequenceNumber:
  "gets (get_SequenceNumber le) x (\<lambda>sw. wire_bytes (le \<noteq> sw) 4 (sn_high x) @ wire_bytes (le \<noteq> sw) 4 (sn_low x))"
  unfolding gets_def
proof (intro allI impI)
  fix s rest
  assume a: "rd_ready s \<and> to_read s = (wire_bytes (le \<noteq> se_swap s) 4 (sn_high x) @ wire_bytes (le \<noteq> se_swap s) 4 (sn_low x)) @ rest"
  from a have r: "rd_ready s" "to_read s = wire_bytes (le \<noteq> se_swap s) 4 (sn_high x) @ wire_bytes (le \<noteq> se_swap s) 4 (sn_low x) @ rest"
    by simp_all
  from getsD [OF gets_scalars(1) r] obtain t where t: "get_Long le s = Some (sn_high x, t)" "rd_ready t" "se_swap t = se_swap s"
      "to_read t = wire_bytes (le \<noteq> se_swap s) 4 (sn_low x) @ rest" .
  from t(4) have t4: "to_read t = wire_bytes (le \<noteq> se_swap t) 4 (sn_low x) @ rest" by (simp only: t(3))
  from getsD [OF gets_scalars(2) t(2) t4] obtain s' where "get_ULong le t = Some (sn_low x, s')" "rd_ready s'"
      "se_swap s' = se_swap t" "to_read s' = rest" .
  then show "\<exists>s'. get_SequenceNumber le s = Some (x, s') \<and> rd_ready s' \<and> se_swap s' = se_swap s \<and> to_read s' = rest"
    using t by (simp add: get_SequenceNumber_def)
qed

section \<open>The encoding of a header\<close>

text \<open>What the generated operators promise: a \<open>GUID_t\<close> is 16 octets, a sequence its length and its elements.\<close>

locale guid_marshal =
  fixes go :: guid_ops and enc_guid :: "GUID_t \<Rightarrow> octet list"
  assumes puts_guid: "puts (go_put go g) (\<lambda>_. enc_guid g)"
    and gets_guid: "gets (go_get go) g (\<lambda>_. enc_guid g)"
    and length_enc_guid: "length (enc_guid g) = 16"
    and puts_seq: "length gs < 2 ^ 32 \<Longrightarrow>
      puts (go_put_seq go le gs) (\<lambda>sw. wire_bytes (le \<noteq> sw) 4 (of_nat (length gs) :: ulong) @ concat (map enc_guid gs))"
    and gets_seq: "length gs < 2 ^ 32 \<Longrightarrow>
      gets (go_get_seq go le) gs (\<lambda>sw. wire_bytes (le \<noteq> sw) 4 (of_nat (length gs) :: ulong) @ concat (map enc_guid gs))"

definition enc_seq :: "(GUID_t \<Rightarrow> octet list) \<Rightarrow> bool \<Rightarrow> GUID_t list \<Rightarrow> octet list" where
  "enc_seq enc_guid ord gs = wire_bytes ord 4 (of_nat (length gs) :: ulong) @ concat (map enc_guid gs)"

definition enc_header :: "(GUID_t \<Rightarrow> octet list) \<Rightarrow> bool \<Rightarrow> DataSampleHeader \<Rightarrow> octet list" where
  "enc_header enc_guid ord h =
     [h_message_id h] @ [h_submessage_id h] @ [header_flags h] @ [header_flags2 h] @ wire_bytes ord 4 (h_message_length h)
     @ (wire_bytes ord 4 (sn_high (h_sequence h)) @ wire_bytes ord 4 (sn_low (h_sequence h)))
     @ wire_bytes ord 4 (h_source_timestamp_sec h) @ wire_bytes ord 4 (h_source_timestamp_nanosec h)
     @ (if h_lifespan_duration h
        then wire_bytes ord 4 (h_lifespan_duration_sec h) @ wire_bytes ord 4 (h_lifespan_duration_nanosec h) else [])
     @ enc_guid (h_publication_id h) @ (if h_group_coherent h then enc_guid (h_publisher_id h) else [])"

text \<open>With the filter entries, which follow in a block of their own.\<close>

definition enc_full :: "(GUID_t \<Rightarrow> octet list) \<Rightarrow> DataSampleHeader \<Rightarrow> octet list" where
  "enc_full enc_guid h =
     enc_header enc_guid (h_byte_order h) h
     @ (if h_content_filter h then enc_seq enc_guid (h_byte_order h) (h_content_filter_entries h) else [])"

lemma of_bool_swap: "(le \<noteq> (b \<noteq> le)) = b"
  by auto

context guid_marshal
begin

lemma put_header_puts:
  "puts (\<lambda>s. do {
       s \<leftarrow> put_Char (h_message_id h) s;
       s \<leftarrow> put_Char (h_submessage_id h) s;
       s \<leftarrow> put_octet (header_flags h) s;
       s \<leftarrow> put_octet (header_flags2 h) s;
       s \<leftarrow> put_ULong le (h_message_length h) s;
       s \<leftarrow> put_SequenceNumber le (h_sequence h) s;
       s \<leftarrow> put_Long le (h_source_timestamp_sec h) s;
       s \<leftarrow> put_ULong le (h_source_timestamp_nanosec h) s;
       s \<leftarrow> (if h_lifespan_duration h
            then put_Long le (h_lifespan_duration_sec h) s \<bind> put_ULong le (h_lifespan_duration_nanosec h)
            else Some s);
       s \<leftarrow> go_put go (h_publication_id h) s;
       if h_group_coherent h then go_put go (h_publisher_id h) s else Some s
     }) (\<lambda>sw. enc_header enc_guid (le \<noteq> sw) h)"
  unfolding enc_header_def
  by (intro puts_bind puts_char puts_octet puts_scalars puts_SequenceNumber puts_if puts_guid puts_skip)

lemma length_enc_header:
  "length (enc_header enc_guid ord h)
    = max_marshaled_size - (if h_lifespan_duration h then 0 else 8) - (if h_group_coherent h then 0 else 16)"
  by (simp add: enc_header_def length_enc_guid max_marshaled_size_def)

lemma put_header_correct:
  assumes "chain_ok chain" "stream_of chain = []" "length (enc_header enc_guid (h_byte_order h) h) \<le> sum_list (map mb_space chain)"
  obtains s where "put_header go le h chain = Some s" "se_good s" "stream_of (chain_of s) = enc_header enc_guid (h_byte_order h) h"
proof -
  let ?s = "mk_Serializer chain (h_byte_order h \<noteq> le) ALIGN_NONE"
  have w: "wr_ready ?s" using writing_mk [OF assms(1,2)] by (simp add: wr_ready_def)
  have e: "enc_header enc_guid (le \<noteq> se_swap ?s) h = enc_header enc_guid (h_byte_order h) h"
    by (simp only: mk_Serializer_fields of_bool_swap)
  have r: "length (enc_header enc_guid (le \<noteq> se_swap ?s) h) \<le> room ?s" using assms(3) unfolding e by simp
  from putsD [OF put_header_puts w r] obtain s where s: "put_header go le h chain = Some s" "wr_ready s"
      "written s = written ?s @ enc_header enc_guid (le \<noteq> se_swap ?s) h"
    unfolding put_header_def by blast
  then show thesis
    using assms(2) unfolding e by (intro that [of s]) (simp_all add: wr_ready_def writing_def, simp add: written_def)
qed

end

section \<open>Decoding a header\<close>

lemma mask_flag_bit: "x AND mask_flag k \<noteq> 0 \<longleftrightarrow> bit x k"
  by (simp add: mask_flag_def and_exp_eq_0_iff_not_bit push_bit_of_1)

lemma assign_flags_inverse:
  "assign_flags (header_flags h0) h =
     h\<lparr>h_byte_order := h_byte_order h0, h_coherent_change := h_coherent_change h0,
       h_historic_sample := h_historic_sample h0, h_lifespan_duration := h_lifespan_duration h0,
       h_group_coherent := h_group_coherent h0, h_content_filter := h_content_filter h0,
       h_sequence_repair := h_sequence_repair h0, h_more_fragments := h_more_fragments h0\<rparr>"
  by (simp add: assign_flags_def mask_flag_bit header_flags_def flag_numbers bit_simps)

lemma assign_flags2_inverse:
  "assign_flags2 (header_flags2 h0) h =
     h\<lparr>h_cdr_encapsulation := h_cdr_encapsulation h0, h_key_fields_only := h_key_fields_only h0\<rparr>"
  by (simp add: assign_flags2_def mask_flag_bit header_flags2_def flag_numbers bit_simps)

text \<open>A step of \<open>init\<close> that takes octets off the stream and updates the header, given what holds of it.\<close>

definition reads ::
    "(DataSampleHeader \<Rightarrow> bool) \<Rightarrow> (DataSampleHeader \<times> Serializer \<Rightarrow> (DataSampleHeader \<times> Serializer) option)
     \<Rightarrow> (bool \<Rightarrow> octet list) \<Rightarrow> (DataSampleHeader \<Rightarrow> DataSampleHeader) \<Rightarrow> bool" where
  "reads P f enc upd \<longleftrightarrow>
     (\<forall>h s rest. P h \<and> rd_ready s \<and> to_read s = enc (se_swap s) @ rest \<longrightarrow>
        P (upd h) \<and> (\<exists>s'. f (h, s) = Some (upd h, s') \<and> rd_ready s' \<and> se_swap s' = se_swap s \<and> to_read s' = rest))"

definition count_size :: "nat \<Rightarrow> DataSampleHeader \<Rightarrow> DataSampleHeader" where
  "count_size n h = h\<lparr>h_marshaled_size := h_marshaled_size h + n\<rparr>"

lemma reads_field:
  assumes "gets get x enc" "\<forall>h. P h \<longrightarrow> P (count_size (sz x) (assign x h))"
  shows "reads P (read_field get assign sz) enc (\<lambda>h. count_size (sz x) (assign x h))"
  unfolding reads_def
proof (intro allI impI conjI)
  fix h s rest
  assume a: "P h \<and> rd_ready s \<and> to_read s = enc (se_swap s) @ rest"
  then have r: "rd_ready s" "to_read s = enc (se_swap s) @ rest" by simp_all
  from getsD [OF assms(1) r] obtain s' where "get s = Some (x, s')" "rd_ready s'" "se_swap s' = se_swap s" "to_read s' = rest" .
  then show "\<exists>s'. read_field get assign sz (h, s) = Some (count_size (sz x) (assign x h), s') \<and> rd_ready s'
      \<and> se_swap s' = se_swap s \<and> to_read s' = rest"
    using r(1) by (simp add: read_field_def count_size_def Let_def)
qed (use assms(2) in blast)

lemma reads_flags:
  assumes "\<forall>h. P h \<longrightarrow> P (assign x (count_size 1 h))"
  shows "reads P (read_flags assign) (\<lambda>_. [x]) (\<lambda>h. assign x (count_size 1 h))"
  unfolding reads_def
proof (intro allI impI conjI)
  fix h s rest
  assume a: "P h \<and> rd_ready s \<and> to_read s = [x] @ rest"
  then have r: "rd_ready s" "to_read s = [x] @ rest" by simp_all
  from getsD [OF gets_octet r] obtain s' where "get_octet s = Some (x, s')" "rd_ready s'" "se_swap s' = se_swap s" "to_read s' = rest" .
  then show "\<exists>s'. read_flags assign (h, s) = Some (assign x (count_size 1 h), s') \<and> rd_ready s'
      \<and> se_swap s' = se_swap s \<and> to_read s' = rest"
    using r(1) by (simp add: read_flags_def count_size_def)
qed (use assms in blast)

lemma readsD:
  "reads P f enc u \<Longrightarrow> P h \<Longrightarrow> rd_ready s \<Longrightarrow> to_read s = enc (se_swap s) @ rest
   \<Longrightarrow> \<exists>s'. f (h, s) = Some (u h, s') \<and> rd_ready s' \<and> to_read s' = rest"
  unfolding reads_def by blast

lemma reads_bind:
  assumes "reads P f enc u" "reads P g enc' u'"
  shows "reads P (\<lambda>hs. f hs \<bind> g) (\<lambda>sw. enc sw @ enc' sw) (\<lambda>h. u' (u h))"
  unfolding reads_def
proof (intro allI impI)
  fix h s rest
  assume a: "P h \<and> rd_ready s \<and> to_read s = (enc (se_swap s) @ enc' (se_swap s)) @ rest"
  then have "P h \<and> rd_ready s \<and> to_read s = enc (se_swap s) @ enc' (se_swap s) @ rest" by simp
  with assms(1) obtain t where t: "P (u h)" "f (h, s) = Some (u h, t)" "rd_ready t" "se_swap t = se_swap s"
      "to_read t = enc' (se_swap s) @ rest"
    unfolding reads_def by blast
  have "P (u h) \<and> rd_ready t \<and> to_read t = enc' (se_swap t) @ rest" using t by simp
  with assms(2) have "P (u' (u h)) \<and> (\<exists>s'. g (u h, t) = Some (u' (u h), s') \<and> rd_ready s' \<and> se_swap s' = se_swap t \<and> to_read s' = rest)"
    unfolding reads_def by blast
  then show "P (u' (u h)) \<and> (\<exists>s'. f (h, s) \<bind> g = Some (u' (u h), s') \<and> rd_ready s' \<and> se_swap s' = se_swap s \<and> to_read s' = rest)"
    using t(2,4) by simp
qed

lemma reads_if:
  assumes "\<forall>h. P h \<longrightarrow> c h = b" "reads P f enc u"
  shows "reads P (\<lambda>hs. if c (fst hs) then f hs else Some hs) (\<lambda>sw. if b then enc sw else []) (\<lambda>h. if b then u h else h)"
  using assms by (cases b) (auto simp: reads_def)

definition flags_as :: "DataSampleHeader \<Rightarrow> DataSampleHeader \<Rightarrow> bool" where
  "flags_as h0 h \<longleftrightarrow> h_lifespan_duration h = h_lifespan_duration h0 \<and> h_group_coherent h = h_group_coherent h0
     \<and> h_content_filter h = h_content_filter h0"

text \<open>What arrives of a header: the optional fields that are absent keep the values of the constructor.\<close>

definition received :: "nat \<Rightarrow> DataSampleHeader \<Rightarrow> DataSampleHeader" where
  "received n h =
     h\<lparr>h_lifespan_duration_sec := (if h_lifespan_duration h then h_lifespan_duration_sec h else 0),
       h_lifespan_duration_nanosec := (if h_lifespan_duration h then h_lifespan_duration_nanosec h else 0),
       h_publisher_id := (if h_group_coherent h then h_publisher_id h else GUID_UNKNOWN),
       h_content_filter_entries := (if h_content_filter h then h_content_filter_entries h else []),
       h_marshaled_size := n\<rparr>"

text \<open>The octets behind the flags, whose order the flags give.\<close>

definition enc_tail :: "(GUID_t \<Rightarrow> octet list) \<Rightarrow> bool \<Rightarrow> DataSampleHeader \<Rightarrow> octet list" where
  "enc_tail enc_guid ord h =
     [header_flags2 h] @ wire_bytes ord 4 (h_message_length h)
     @ (wire_bytes ord 4 (sn_high (h_sequence h)) @ wire_bytes ord 4 (sn_low (h_sequence h)))
     @ wire_bytes ord 4 (h_source_timestamp_sec h) @ wire_bytes ord 4 (h_source_timestamp_nanosec h)
     @ (if h_lifespan_duration h
        then wire_bytes ord 4 (h_lifespan_duration_sec h) @ wire_bytes ord 4 (h_lifespan_duration_nanosec h) else [])
     @ enc_guid (h_publication_id h) @ (if h_group_coherent h then enc_guid (h_publisher_id h) else [])
     @ (if h_content_filter h then enc_seq enc_guid ord (h_content_filter_entries h) else [])"

lemma enc_full_tail:
  "enc_full enc_guid h =
     [h_message_id h] @ [h_submessage_id h] @ [header_flags h] @ enc_tail enc_guid (h_byte_order h) h"
  by (simp add: enc_full_def enc_header_def enc_tail_def)

text \<open>The two halves of \<open>init\<close>: what is read before the byte order is known, and after.\<close>

definition init_head :: "DataSampleHeader \<times> Serializer \<Rightarrow> (DataSampleHeader \<times> Serializer) option" where
  "init_head hs =
     do {
       hs \<leftarrow> read_field get_Char (\<lambda>x h. h\<lparr>h_message_id := x\<rparr>) (\<lambda>_. 1) hs;
       hs \<leftarrow> read_field get_Char (\<lambda>x h. h\<lparr>h_submessage_id := x\<rparr>) (\<lambda>_. 1) hs;
       read_flags assign_flags hs
     }"

definition init_tail ::
    "guid_ops \<Rightarrow> bool \<Rightarrow> DataSampleHeader \<times> Serializer \<Rightarrow> (DataSampleHeader \<times> Serializer) option" where
  "init_tail go le hs =
     do {
       hs \<leftarrow> read_flags assign_flags2 hs;
       hs \<leftarrow> read_field (get_ULong le) (\<lambda>x h. h\<lparr>h_message_length := x\<rparr>) (\<lambda>_. 4) hs;
       hs \<leftarrow> read_field (get_SequenceNumber le) (\<lambda>x h. h\<lparr>h_sequence := x\<rparr>) (\<lambda>_. fst (gen_find_size_sn (0, 0))) hs;
       hs \<leftarrow> read_field (get_Long le) (\<lambda>x h. h\<lparr>h_source_timestamp_sec := x\<rparr>) (\<lambda>_. 4) hs;
       hs \<leftarrow> read_field (get_ULong le) (\<lambda>x h. h\<lparr>h_source_timestamp_nanosec := x\<rparr>) (\<lambda>_. 4) hs;
       hs \<leftarrow> (if h_lifespan_duration (fst hs)
             then read_field (get_Long le) (\<lambda>x h. h\<lparr>h_lifespan_duration_sec := x\<rparr>) (\<lambda>_. 4) hs
                  \<bind> read_field (get_ULong le) (\<lambda>x h. h\<lparr>h_lifespan_duration_nanosec := x\<rparr>) (\<lambda>_. 4)
             else Some hs);
       hs \<leftarrow> read_field (go_get go) (\<lambda>x h. h\<lparr>h_publication_id := x\<rparr>) (\<lambda>_. 16) hs;
       hs \<leftarrow> (if h_group_coherent (fst hs)
             then read_field (go_get go) (\<lambda>x h. h\<lparr>h_publisher_id := x\<rparr>) (\<lambda>_. 16) hs
             else Some hs);
       if h_content_filter (fst hs)
       then read_field (go_get_seq go le) (\<lambda>x h. h\<lparr>h_content_filter_entries := x\<rparr>) (\<lambda>x. 4 + 16 * length x) hs
       else Some hs
     }"

lemma header_init_halves:
  "header_init go le buffer h =
     init_head (h\<lparr>h_marshaled_size := 0\<rparr>, mk_Serializer buffer False ALIGN_NONE) \<bind> (\<lambda>hs. init_tail go le (set_byte_order le hs))"
  by (simp add: header_init_def init_head_def init_tail_def)

definition head_read :: "DataSampleHeader \<Rightarrow> DataSampleHeader \<Rightarrow> DataSampleHeader" where
  "head_read h0 h =
     assign_flags (header_flags h0) (h\<lparr>h_message_id := h_message_id h0, h_submessage_id := h_submessage_id h0,
       h_marshaled_size := h_marshaled_size h + 3\<rparr>)"

definition tail_read :: "DataSampleHeader \<Rightarrow> DataSampleHeader \<Rightarrow> DataSampleHeader" where
  "tail_read h0 h =
     h\<lparr>h_cdr_encapsulation := h_cdr_encapsulation h0, h_key_fields_only := h_key_fields_only h0,
       h_message_length := h_message_length h0, h_sequence := h_sequence h0,
       h_source_timestamp_sec := h_source_timestamp_sec h0, h_source_timestamp_nanosec := h_source_timestamp_nanosec h0,
       h_lifespan_duration_sec := (if h_lifespan_duration h0 then h_lifespan_duration_sec h0 else h_lifespan_duration_sec h),
       h_lifespan_duration_nanosec := (if h_lifespan_duration h0 then h_lifespan_duration_nanosec h0 else h_lifespan_duration_nanosec h),
       h_publication_id := h_publication_id h0,
       h_publisher_id := (if h_group_coherent h0 then h_publisher_id h0 else h_publisher_id h),
       h_content_filter_entries := (if h_content_filter h0 then h_content_filter_entries h0 else h_content_filter_entries h),
       h_marshaled_size := h_marshaled_size h + 37 + (if h_lifespan_duration h0 then 8 else 0)
         + (if h_group_coherent h0 then 16 else 0)
         + (if h_content_filter h0 then 4 + 16 * length (h_content_filter_entries h0) else 0)\<rparr>"

lemma flags_as_updates:
  "flags_as h0 (assign_flags2 (header_flags2 h0) (count_size 1 h)) = flags_as h0 h"
  "flags_as h0 (count_size k (h\<lparr>h_message_length := v\<rparr>)) = flags_as h0 h"
  "flags_as h0 (count_size k (h\<lparr>h_sequence := n\<rparr>)) = flags_as h0 h"
  "flags_as h0 (count_size k (h\<lparr>h_source_timestamp_sec := v\<rparr>)) = flags_as h0 h"
  "flags_as h0 (count_size k (h\<lparr>h_source_timestamp_nanosec := v\<rparr>)) = flags_as h0 h"
  "flags_as h0 (count_size k (h\<lparr>h_lifespan_duration_sec := v\<rparr>)) = flags_as h0 h"
  "flags_as h0 (count_size k (h\<lparr>h_lifespan_duration_nanosec := v\<rparr>)) = flags_as h0 h"
  "flags_as h0 (count_size k (h\<lparr>h_publication_id := g\<rparr>)) = flags_as h0 h"
  "flags_as h0 (count_size k (h\<lparr>h_publisher_id := g\<rparr>)) = flags_as h0 h"
  "flags_as h0 (count_size k (h\<lparr>h_content_filter_entries := gs\<rparr>)) = flags_as h0 h"
  by (simp_all add: flags_as_def count_size_def assign_flags2_def)

lemmas flags_as_kept = flags_as_updates [THEN iffD2, THEN impI, THEN allI]

lemma init_head_reads:
  assumes "rd_ready s" "to_read s = [h_message_id h0] @ [h_submessage_id h0] @ [header_flags h0] @ rest"
  obtains s' where "init_head (h, s) = Some (head_read h0 h, s')" "rd_ready s'" "to_read s' = rest"
proof -
  note r1 = reads_field [where P = "\<lambda>_. True" and assign = "\<lambda>x h. h\<lparr>h_message_id := x\<rparr>" and sz = "\<lambda>_. 1", OF gets_char [of "h_message_id h0"]]
    and r2 = reads_field [where P = "\<lambda>_. True" and assign = "\<lambda>x h. h\<lparr>h_submessage_id := x\<rparr>" and sz = "\<lambda>_. 1", OF gets_char [of "h_submessage_id h0"]]
    and r3 = reads_flags [where P = "\<lambda>_. True" and assign = assign_flags and x = "header_flags h0"]
  note head = reads_bind [OF r1 reads_bind [OF r2 r3]]
  from readsD [OF head, where h = h and s = s and rest = rest] assms that show thesis
    by (auto simp: init_head_def head_read_def count_size_def numeral_3_eq_3)
qed

context guid_marshal
begin

lemma init_tail_reads:
  assumes n: "length (h_content_filter_entries h0) < 2 ^ 32" and h: "flags_as h0 h" and s: "rd_ready s"
    and t: "to_read s = enc_tail enc_guid (le \<noteq> se_swap s) h0 @ rest"
  obtains s' where "init_tail go le (h, s) = Some (tail_read h0 h, s')" "rd_ready s'" "to_read s' = rest"
proof -
  let ?P = "flags_as h0"
  note f = reads_field [where P = ?P]
  have c: "\<forall>x. ?P x \<longrightarrow> h_lifespan_duration x = h_lifespan_duration h0" "\<forall>x. ?P x \<longrightarrow> h_group_coherent x = h_group_coherent h0"
      "\<forall>x. ?P x \<longrightarrow> h_content_filter x = h_content_filter h0"
    by (simp_all add: flags_as_def)
  note r1 = reads_flags [where P = ?P and assign = assign_flags2, OF flags_as_kept(1)]
    and r2 = f [where assign = "\<lambda>x h. h\<lparr>h_message_length := x\<rparr>" and sz = "\<lambda>_. 4", OF gets_scalars(2) [of le "h_message_length h0"], OF flags_as_kept(2)]
    and r3 = f [where assign = "\<lambda>x h. h\<lparr>h_sequence := x\<rparr>" and sz = "\<lambda>_. fst (gen_find_size_sn (0, 0))", OF gets_SequenceNumber [of le "h_sequence h0"], OF flags_as_kept(3)]
    and r4 = f [where assign = "\<lambda>x h. h\<lparr>h_source_timestamp_sec := x\<rparr>" and sz = "\<lambda>_. 4", OF gets_scalars(1) [of le "h_source_timestamp_sec h0"], OF flags_as_kept(4)]
    and r5 = f [where assign = "\<lambda>x h. h\<lparr>h_source_timestamp_nanosec := x\<rparr>" and sz = "\<lambda>_. 4", OF gets_scalars(2) [of le "h_source_timestamp_nanosec h0"], OF flags_as_kept(5)]
    and r6 = f [where assign = "\<lambda>x h. h\<lparr>h_lifespan_duration_sec := x\<rparr>" and sz = "\<lambda>_. 4", OF gets_scalars(1) [of le "h_lifespan_duration_sec h0"], OF flags_as_kept(6)]
    and r7 = f [where assign = "\<lambda>x h. h\<lparr>h_lifespan_duration_nanosec := x\<rparr>" and sz = "\<lambda>_. 4", OF gets_scalars(2) [of le "h_lifespan_duration_nanosec h0"], OF flags_as_kept(7)]
    and r8 = f [where assign = "\<lambda>x h. h\<lparr>h_publication_id := x\<rparr>" and sz = "\<lambda>_. 16", OF gets_guid [of "h_publication_id h0"], OF flags_as_kept(8)]
    and r9 = f [where assign = "\<lambda>x h. h\<lparr>h_publisher_id := x\<rparr>" and sz = "\<lambda>_. 16", OF gets_guid [of "h_publisher_id h0"], OF flags_as_kept(9)]
    and r10 = f [where assign = "\<lambda>x h. h\<lparr>h_content_filter_entries := x\<rparr>" and sz = "\<lambda>x. 4 + 16 * length x", OF gets_seq [OF n, of le], OF flags_as_kept(10)]
  note tail = reads_bind [OF r1 reads_bind [OF r2 reads_bind [OF r3 reads_bind [OF r4 reads_bind [OF r5
    reads_bind [OF reads_if [OF c(1) reads_bind [OF r6 r7]]
    reads_bind [OF r8 reads_bind [OF reads_if [OF c(2) r9] reads_if [OF c(3) r10]]]]]]]]]
  from readsD [OF tail h s, where rest = rest] t that show thesis
    by (cases "h_lifespan_duration h0"; cases "h_group_coherent h0"; cases "h_content_filter h0")
      (auto simp: init_tail_def tail_read_def enc_tail_def enc_seq_def assign_flags2_inverse count_size_def gen_find_size_sn_def
        find_size_ulong_def ac_simps)
qed

lemma length_enc_full:
  "length (enc_full enc_guid h) = length (enc_header enc_guid (h_byte_order h) h)
    + (if h_content_filter h then 4 + 16 * length (h_content_filter_entries h) else 0)"
proof -
  have "length (concat (map enc_guid gs)) = 16 * length gs" for gs
    by (induction gs) (simp_all add: length_enc_guid)
  then show ?thesis by (simp add: enc_full_def enc_seq_def)
qed

lemma all_read:
  "tail_read h0 (head_read h0 ((mk_DataSampleHeader native)\<lparr>h_marshaled_size := 0\<rparr>)) = received (length (enc_full enc_guid h0)) h0"
  by (rule DataSampleHeader.equality)
    (simp_all add: tail_read_def head_read_def assign_flags_inverse mk_DataSampleHeader_def received_def length_enc_full
      length_enc_header max_marshaled_size_def)

lemma header_init_correct:
  assumes "chain_ok chain" "stream_of chain = enc_full enc_guid h0 @ rest" "length (h_content_filter_entries h0) < 2 ^ 32"
  shows "\<exists>s'. header_init go le chain (mk_DataSampleHeader native)
      = Some (received (length (enc_full enc_guid h0)) h0, s') \<and> se_good s' \<and> to_read s' = rest"
proof -
  let ?s = "mk_Serializer chain False ALIGN_NONE" and ?h = "(mk_DataSampleHeader native)\<lparr>h_marshaled_size := 0\<rparr>"
  have s: "rd_ready ?s"
      "to_read ?s = [h_message_id h0] @ [h_submessage_id h0] @ [header_flags h0] @ enc_tail enc_guid (h_byte_order h0) h0 @ rest"
    using reading_mk [OF assms(1)] assms(2) by (simp_all add: rd_ready_def enc_full_tail)
  obtain s1 where s1: "init_head (?h, ?s) = Some (head_read h0 ?h, s1)" "rd_ready s1"
      "to_read s1 = enc_tail enc_guid (h_byte_order h0) h0 @ rest"
    by (rule init_head_reads [OF s])
  define t where "t = s1\<lparr>se_swap := (h_byte_order h0 \<noteq> le)\<rparr>"
  have t: "rd_ready t" "to_read t = enc_tail enc_guid (le \<noteq> se_swap t) h0 @ rest"
      "set_byte_order le (head_read h0 ?h, s1) = (head_read h0 ?h, t)"
    using s1(2,3) of_bool_swap
    by (auto simp: t_def rd_ready_def reading_def to_read_def r_aligned_def set_byte_order_def head_read_def assign_flags_inverse)
  have "flags_as h0 (head_read h0 ?h)" by (simp add: head_read_def assign_flags_inverse flags_as_def)
  from init_tail_reads [OF assms(3) this t(1,2)] obtain s2 where
    "init_tail go le (head_read h0 ?h, t) = Some (tail_read h0 (head_read h0 ?h), s2)" "rd_ready s2" "to_read s2 = rest" .
  then show ?thesis unfolding header_init_halves using s1(1) t(3) all_read by (simp add: rd_ready_def reading_def)
qed

end

end
