(* ===== verification/Header_Roundtrip.thy ===== *)
theory Header_Roundtrip
  imports Header_Marshal
begin
unbundle bit_operations_syntax

text \<open>
  A header travels unchanged, and \<open>DataSampleHeader::partial\<close> tells exactly whether all of it has arrived. The
  laws of the generated operators hold for the CDR encoding of the structures of \<open>src/dds/DdsDcpsGuid.idl\<close>,
  built on the serializer itself.
\<close>

section \<open>Streams of octets\<close>

lemma puts_octets: "puts (\<lambda>s. write_octet_array (length xs) xs s) (\<lambda>_. xs)"
  unfolding puts_def
proof (intro allI impI)
  fix s
  assume a: "wr_ready s \<and> length xs \<le> room s"
  then have w: "writable s" "se_good s" "se_alignment s = ALIGN_NONE" by (simp_all add: wr_ready_def writing_def)
  note b = buffer_write_correct [OF w(1) refl, of False xs, OF _ refl]
  show "\<exists>s'. write_octet_array (length xs) xs s = Some s' \<and> wr_ready s' \<and> se_swap s' = se_swap s
      \<and> room s' = room s - length xs \<and> written s' = written s @ xs"
    using b(1-5) w a
    by (simp add: write_octet_array_def write_typed_array_def write_array_def wr_ready_def writing_def same_mode_def
        aligned_none ordered_def)
qed

lemma gets_octets: "length xs = n \<Longrightarrow> gets (read_octet_array n) xs (\<lambda>_. xs)"
  unfolding gets_def
proof (intro allI impI)
  fix s rest
  assume n: "length xs = n" and a: "rd_ready s \<and> to_read s = xs @ rest"
  then have r: "chain_ok (se_current s)" "se_good s" "se_alignment s = ALIGN_NONE" by (simp_all add: rd_ready_def reading_def)
  obtain d s' where b: "buffer_read (replicate n 0) n False s = (d, s')" by (metis surj_pair)
  note bb = buffer_read_correct [OF r(1) length_replicate _ b]
  show "\<exists>s'. read_octet_array n s = Some (xs, s') \<and> rd_ready s' \<and> se_swap s' = se_swap s \<and> to_read s' = rest"
    using bb(1-6) r a b n
    by (simp add: read_octet_array_def read_typed_array_def read_array_def rd_ready_def reading_def same_mode_def
        aligned_none ordered_def)
qed

lemma gets_bind:
  assumes "gets f x enc" "gets (g x) y enc'"
  shows "gets (\<lambda>s. f s \<bind> (\<lambda>(x, s). g x s)) y (\<lambda>sw. enc sw @ enc' sw)"
  unfolding gets_def
proof (intro allI impI)
  fix s rest
  assume "rd_ready s \<and> to_read s = (enc (se_swap s) @ enc' (se_swap s)) @ rest"
  then have r: "rd_ready s" "to_read s = enc (se_swap s) @ enc' (se_swap s) @ rest" by simp_all
  from getsD [OF assms(1) r] obtain t where t: "f s = Some (x, t)" "rd_ready t" "se_swap t = se_swap s"
      "to_read t = enc' (se_swap s) @ rest" .
  from t(4) have "to_read t = enc' (se_swap t) @ rest" by (simp only: t(3))
  from getsD [OF assms(2) t(2) this] t show "\<exists>s'. f s \<bind> (\<lambda>(x, s). g x s) = Some (y, s') \<and> rd_ready s'
      \<and> se_swap s' = se_swap s \<and> to_read s' = rest" by fastforce
qed

lemma gets_done: "gets (\<lambda>s. Some (x, s)) x (\<lambda>_. [])"
  by (simp add: gets_def)

section \<open>The CDR encoding of a GUID\<close>

fun prefix_octets :: "GuidPrefix_t \<Rightarrow> octet list" where
  "prefix_octets (GuidPrefix_t a b c d e f g h i j k l) = [a, b, c, d, e, f, g, h, i, j, k, l]"

fun octets_prefix :: "octet list \<Rightarrow> GuidPrefix_t" where
  "octets_prefix [a, b, c, d, e, f, g, h, i, j, k, l] = GuidPrefix_t a b c d e f g h i j k l"
| "octets_prefix _ = GUIDPREFIX_UNKNOWN"

fun key_octets :: "EntityId_t \<Rightarrow> octet list" where
  "key_octets (EntityId_t a b c k) = [a, b, c]"

fun octets_entity :: "octet list \<Rightarrow> octet \<Rightarrow> EntityId_t" where
  "octets_entity [a, b, c] k = EntityId_t a b c k"
| "octets_entity _ k = ENTITYID_UNKNOWN"

definition cdr_guid :: "GUID_t \<Rightarrow> octet list" where
  "cdr_guid g = prefix_octets (guidPrefix g) @ key_octets (entityId g) @ [entityKind (entityId g)]"

definition cdr_put_guid :: "GUID_t \<Rightarrow> Serializer \<Rightarrow> Serializer option" where
  "cdr_put_guid g s =
     write_octet_array (length (prefix_octets (guidPrefix g))) (prefix_octets (guidPrefix g)) s
       \<bind> (\<lambda>s. write_octet_array (length (key_octets (entityId g))) (key_octets (entityId g)) s
       \<bind> put_octet (entityKind (entityId g)))"

definition cdr_get_guid :: "Serializer \<Rightarrow> (GUID_t \<times> Serializer) option" where
  "cdr_get_guid s =
     read_octet_array 12 s \<bind> (\<lambda>(p, s). (read_octet_array 3 s \<bind> (\<lambda>(e, s). (get_octet s \<bind>
       (\<lambda>(k, s). Some (GUID_t (octets_prefix p) (octets_entity e k), s))))))"

fun cdr_put_guids :: "GUID_t list \<Rightarrow> Serializer \<Rightarrow> Serializer option" where
  "cdr_put_guids [] s = Some s"
| "cdr_put_guids (g # gs) s = cdr_put_guid g s \<bind> cdr_put_guids gs"

fun cdr_get_guids :: "nat \<Rightarrow> Serializer \<Rightarrow> (GUID_t list \<times> Serializer) option" where
  "cdr_get_guids 0 s = Some ([], s)"
| "cdr_get_guids (Suc n) s =
     cdr_get_guid s \<bind> (\<lambda>(g, s). (cdr_get_guids n s \<bind> (\<lambda>(gs, s). Some (g # gs, s))))"

definition cdr_guid_ops :: guid_ops where
  "cdr_guid_ops = \<lparr>go_put = cdr_put_guid, go_get = cdr_get_guid,
     go_put_seq = (\<lambda>le gs s. put_ULong le (of_nat (length gs)) s \<bind> cdr_put_guids gs),
     go_get_seq = (\<lambda>le s. get_ULong le s \<bind> (\<lambda>(n, s). cdr_get_guids (unat n) s))\<rparr>"

lemma octets_inverse [simp]:
  "octets_prefix (prefix_octets p) = p" "octets_entity (key_octets e) (entityKind e) = e"
  "length (prefix_octets p) = 12" "length (key_octets e) = 3"
  by (cases p, simp, cases e, simp, cases p, simp, cases e, simp)

lemma puts_cdr_guid: "puts (cdr_put_guid g) (\<lambda>_. cdr_guid g)"
  unfolding cdr_put_guid_def cdr_guid_def by (intro puts_bind puts_octets puts_octet)

lemma gets_cdr_guid: "gets cdr_get_guid g (\<lambda>_. cdr_guid g)"
proof -
  have "gets cdr_get_guid g (\<lambda>_. prefix_octets (guidPrefix g) @ key_octets (entityId g) @ [entityKind (entityId g)] @ [])"
    unfolding cdr_get_guid_def
    by (intro gets_bind [of _ "prefix_octets (guidPrefix g)"] gets_bind [of _ "key_octets (entityId g)"]
        gets_bind [of _ "entityKind (entityId g)"] gets_octets gets_octet) (simp_all add: gets_done)
  then show ?thesis by (simp add: cdr_guid_def)
qed

lemma puts_cdr_guids: "puts (cdr_put_guids gs) (\<lambda>_. concat (map cdr_guid gs))"
proof (induction gs)
  case Nil
  then show ?case by (simp add: puts_def)
next
  case (Cons g gs)
  then show ?case using puts_bind [OF puts_cdr_guid [of g] Cons] by (simp add: puts_def)
qed

lemma gets_cdr_guids: "gets (cdr_get_guids (length gs)) gs (\<lambda>_. concat (map cdr_guid gs))"
proof (induction gs)
  case Nil
  then show ?case by (simp add: gets_def)
next
  case (Cons g gs)
  have "gets (\<lambda>s. cdr_get_guid s \<bind> (\<lambda>(g, s). (cdr_get_guids (length gs) s \<bind> (\<lambda>(gs, s). Some (g # gs, s)))))
      (g # gs) (\<lambda>_. cdr_guid g @ concat (map cdr_guid gs) @ [])"
    by (intro gets_bind [OF gets_cdr_guid] gets_bind [OF Cons] gets_done)
  then show ?case by (simp add: gets_def)
qed

interpretation cdr: guid_marshal cdr_guid_ops cdr_guid
proof unfold_locales
  fix gs :: "GUID_t list" and le
  assume n: "length gs < 2 ^ 32"
  then have u: "unat (of_nat (length gs) :: ulong) = length gs" by (simp add: unat_of_nat)
  show "puts (go_put_seq cdr_guid_ops le gs)
      (\<lambda>sw. wire_bytes (le \<noteq> sw) 4 (of_nat (length gs) :: ulong) @ concat (map cdr_guid gs))"
    unfolding cdr_guid_ops_def guid_ops.select_convs by (intro puts_bind puts_scalars puts_cdr_guids)
  show "gets (go_get_seq cdr_guid_ops le) gs
      (\<lambda>sw. wire_bytes (le \<noteq> sw) 4 (of_nat (length gs) :: ulong) @ concat (map cdr_guid gs))"
    using gets_bind [OF gets_scalars(2), of "\<lambda>n. cdr_get_guids (unat n)"] gets_cdr_guids [of gs]
    by (simp add: cdr_guid_ops_def u)
qed (simp_all add: cdr_guid_ops_def puts_cdr_guid gets_cdr_guid, simp add: cdr_guid_def)

section \<open>Round trip\<close>

text \<open>
  (C10) A header survives the wire: written into any chain of empty blocks with enough room, on a host of any
  byte order, and followed by its filter entries, it is read back field by field by \<open>init\<close>, on a host of any
  byte order and from a chain cut into blocks in any way; \<open>marshaled_size\<close> is the number of octets it took,
  and what follows is left in the buffer.
\<close>

theorem header_roundtrip:
  assumes "guid_marshal go enc_guid" and "chain_ok chain" and "stream_of chain = []"
    and "max_marshaled_size \<le> sum_list (map mb_space chain)" and "length (h_content_filter_entries h) < 2 ^ 32"
  shows "\<exists>s. put_header go le h chain = Some s \<and> se_good s
    \<and> (\<forall>chain' rest. chain_ok chain'
          \<and> stream_of chain' = stream_of (chain_of s)
              @ (if h_content_filter h then enc_seq enc_guid (h_byte_order h) (h_content_filter_entries h) else []) @ rest
        \<longrightarrow> (\<exists>s'. header_init go le' chain' (mk_DataSampleHeader native)
                   = Some (received (length (stream_of chain') - length rest) h, s') \<and> se_good s' \<and> to_read s' = rest))"
proof -
  note laws = guid_marshal.length_enc_header [OF assms(1)] guid_marshal.put_header_correct [OF assms(1)]
    guid_marshal.header_init_correct [OF assms(1)]
  have "length (enc_header enc_guid (h_byte_order h) h) \<le> sum_list (map mb_space chain)"
    using assms(4) unfolding laws(1) by simp
  from laws(2) [OF assms(2,3) this, of le] obtain s where s: "put_header go le h chain = Some s" "se_good s"
      "stream_of (chain_of s) = enc_header enc_guid (h_byte_order h) h" .
  have "\<exists>s'. header_init go le' chain' (mk_DataSampleHeader native)
        = Some (received (length (stream_of chain') - length rest) h, s') \<and> se_good s' \<and> to_read s' = rest"
    if a: "chain_ok chain' \<and> stream_of chain' = stream_of (chain_of s)
        @ (if h_content_filter h then enc_seq enc_guid (h_byte_order h) (h_content_filter_entries h) else []) @ rest"
    for chain' rest
  proof -
    from a have e: "stream_of chain' = enc_full enc_guid h @ rest" by (simp add: s(3) enc_full_def)
    then have "length (stream_of chain') - length rest = length (enc_full enc_guid h)" by simp
    with laws(3) [OF conjunct1 [OF a] e assms(5), of le' native] show ?thesis by simp
  qed
  with s(1,2) show ?thesis by blast
qed

section \<open>Partial headers\<close>

text \<open>Peeking finds the octets at an offset of the stream, or that the stream ends before them.\<close>

lemma mb_copy_correct:
  assumes "mb_ok b" "chain_ok bs" "offset < mb_length b" "swap \<Longrightarrow> sz \<le> 16"
  shows "mb_copy b bs offset sz swap =
    (if offset + sz \<le> length (stream_of (b # bs)) then Some (ordered swap (take sz (drop offset (stream_of (b # bs))))) else None)"
proof -
  define t where "t = b\<lparr>mb_rd := mb_rd b + offset\<rparr> # bs"
  define xs where "xs = stream_of (b # bs)"
  have t: "chain_ok t" "stream_of t = drop offset xs"
    using assms(1-3) length_mb_content [OF assms(1)]
    by (simp_all add: t_def xs_def mb_ok_def mb_length_def mb_content_def drop_take add.commute)
  obtain d s' where b: "buffer_read (replicate sz 0) sz swap (mk_Serializer t swap ALIGN_NONE) = (d, s')"
    by (metis surj_pair)
  have c: "chain_ok (se_current (mk_Serializer t swap ALIGN_NONE))" using t(1) by simp
  have "to_read (mk_Serializer t swap ALIGN_NONE) = drop offset xs" using t(2) by (simp add: to_read_def)
  with buffer_read_correct(6) [OF c length_replicate assms(4) b]
  have "sz \<le> length (drop offset xs) \<Longrightarrow> d = ordered swap (take sz (drop offset xs))" by simp
  moreover have "offset \<le> length xs" using assms(1,3) length_mb_content [of b] by (simp add: xs_def)
  moreover have "mb_copy b bs offset sz swap = (if length (drop offset xs) < sz then None else Some d)"
    using length_stream_of [OF t(1)] b t(2) by (simp add: mb_copy_def Let_def flip: t_def)
  ultimately show ?thesis unfolding xs_def [symmetric] by auto
qed

lemma mb_peek_correct:
  assumes "chain_ok mb" "0 < sz" "swap \<Longrightarrow> sz \<le> 16"
  shows "mb_peek mb offset sz swap =
    (if offset + sz \<le> length (stream_of mb) then Some (ordered swap (take sz (drop offset (stream_of mb)))) else None)"
  using assms
proof (induction mb arbitrary: offset)
  case (Cons b bs)
  then show ?case
    using mb_copy_correct [of b bs offset swap sz] length_mb_content [of b]
    by (cases "offset < mb_length b") auto
qed simp

lemma peek_octet: "chain_ok mb \<Longrightarrow> i < length (stream_of mb) \<Longrightarrow> mb_peek mb i 1 False = Some [stream_of mb ! i]"
  using mb_peek_correct [of mb 1 False i] Cons_nth_drop_Suc [of i "stream_of mb"] by (simp add: ordered_def take_Suc_conv_app_nth)

lemma header_flag_bits:
  "header_flags h AND mask_flag LIFESPAN_DURATION_FLAG = 0 \<longleftrightarrow> \<not> h_lifespan_duration h"
  "header_flags h AND mask_flag GROUP_COHERENT_FLAG = 0 \<longleftrightarrow> \<not> h_group_coherent h"
  "header_flags h AND mask_flag CONTENT_FILTER_FLAG = 0 \<longleftrightarrow> \<not> h_content_filter h"
  "header_flags h AND mask_flag BYTE_ORDER_FLAG = 0 \<longleftrightarrow> \<not> h_byte_order h"
  by (simp_all add: mask_flag_bit [THEN arg_cong [where f = Not], unfolded not_not] header_flags_def flag_numbers bit_simps)

lemma nth_prefix: "xs @ ys = zs @ ws \<Longrightarrow> i < length xs \<Longrightarrow> i < length zs \<Longrightarrow> xs ! i = zs ! i"
  by (metis nth_append)

text \<open>
  (C11) \<open>DataSampleHeader::partial\<close> is exact. Given the beginning of a message with a header of valid kinds, cut
  into blocks in any way, it answers whether some octet of the header, with its optional fields and filter
  entries, is still missing; when none is, \<open>init\<close> reads the whole header.
\<close>

theorem partial_exact:
  assumes "guid_marshal go enc_guid" and "chain_ok mb" and "stream_of mb @ missing = enc_full enc_guid h @ payload"
    and "unat (h_message_id h) < MESSAGE_ID_MAX" and "unat (h_submessage_id h) < SUBMESSAGE_ID_MAX"
    and "length (h_content_filter_entries h) < 2 ^ 32"
  shows "(header_partial le mb \<longleftrightarrow> length (stream_of mb) < length (enc_full enc_guid h))
    \<and> (header_partial le mb \<or>
        (\<exists>s. header_init go le mb (mk_DataSampleHeader native) = Some (received (length (enc_full enc_guid h)) h, s) \<and> se_good s))"
proof
  let ?xs = "stream_of mb" and ?full = "enc_full enc_guid h" and ?hd = "enc_header enc_guid (h_byte_order h) h"
  let ?n = "of_nat (length (h_content_filter_entries h)) :: ulong"
  define expected where "expected = length ?hd"
  have full: "length ?full = expected + (if h_content_filter h then 4 + 16 * length (h_content_filter_entries h) else 0)"
    unfolding expected_def by (rule guid_marshal.length_enc_full [OF assms(1)])
  have exp: "expected = max_marshaled_size - (if h_lifespan_duration h then 0 else 8) - (if h_group_coherent h then 0 else 16)"
    unfolding expected_def by (rule guid_marshal.length_enc_header [OF assms(1)])
  then have exp3: "3 \<le> expected" by (simp add: max_marshaled_size_def)
  have n: "unat ?n = length (h_content_filter_entries h)" using assms(6) by (simp add: unat_of_nat)
  note peek = mb_peek_correct [OF assms(2)]
  show "header_partial le mb \<longleftrightarrow> length ?xs < length ?full"
  proof (cases "2 < length ?xs")
    case False
    then show ?thesis using exp3 full length_stream_of [OF assms(2)] by (simp add: header_partial_def FLAGS_OFFSET_def)
  next
    case True
    have nth: "?xs ! i = ?full ! i" if "i < 3" for i
      using nth_prefix [OF assms(3)] True that full exp3 by simp
    have first: "mb_peek mb 0 1 False = Some [h_message_id h]" "mb_peek mb 1 1 False = Some [h_submessage_id h]"
        "mb_peek mb 2 1 False = Some [header_flags h]"
      using True nth [of 0] nth [of 1] nth [of 2] less_trans [OF _ True, of 0] peek_octet [OF assms(2), of 0] peek_octet [OF assms(2), of 1] peek_octet [OF assms(2), of 2]
      by (simp_all add: enc_full_def enc_header_def)
    have seq: "mb_peek mb expected 4 (h_byte_order h \<noteq> le)
        = (if expected + 4 \<le> length ?xs then Some (ordered (h_byte_order h \<noteq> le) (wire_bytes (h_byte_order h) 4 ?n)) else None)"
      if "h_content_filter h"
    proof -
      have "take 4 (drop expected ?xs) = wire_bytes (h_byte_order h) 4 ?n" if "expected + 4 \<le> length ?xs"
      proof -
        have "take 4 (drop expected ?xs) = take 4 (drop expected (?xs @ missing))" using that by simp
        then show ?thesis unfolding assms(3) using \<open>h_content_filter h\<close> by (simp add: enc_full_def expected_def enc_seq_def)
      qed
      then show ?thesis using peek [of 4 "h_byte_order h \<noteq> le" expected] by simp
    qed
    have "host_word le (ordered (h_byte_order h \<noteq> le) (wire_bytes (h_byte_order h) 4 ?n)) = ?n"
      using host_wire [of 4 le "h_byte_order h \<noteq> le" ?n] unfolding of_bool_swap by simp
    moreover have "header_partial le mb \<longleftrightarrow>
        (if h_content_filter h
         then case mb_peek mb expected 4 (h_byte_order h \<noteq> le) of None \<Rightarrow> True
              | Some n \<Rightarrow> length ?xs < expected + (4 + 16 * unat (host_word le n :: ulong))
         else length ?xs < expected)"
      using True first assms(4,5) length_stream_of [OF assms(2)] exp
      by (cases "h_lifespan_duration h"; cases "h_group_coherent h")
        (simp_all add: header_partial_def Let_def FLAGS_OFFSET_def MESSAGE_ID_OFFSET_def SUBMESSAGE_ID_OFFSET_def
          header_flag_bits cong: option.case_cong)
    ultimately show ?thesis using seq full n by (cases "h_content_filter h"; cases "expected + 4 \<le> length ?xs") simp_all
  qed
  have "\<exists>s. header_init go le mb (mk_DataSampleHeader native) = Some (received (length ?full) h, s) \<and> se_good s"
    if "length ?full \<le> length ?xs"
  proof -
    have "?xs = ?full @ drop (length ?full) ?xs"
      using that assms(3) by (metis append_eq_append_conv_if append_take_drop_id)
    from guid_marshal.header_init_correct [OF assms(1,2) this assms(6)] show ?thesis by blast
  qed
  then show "header_partial le mb \<or>
      (\<exists>s. header_init go le mb (mk_DataSampleHeader native) = Some (received (length ?full) h, s) \<and> se_good s)"
    using \<open>header_partial le mb \<longleftrightarrow> length ?xs < length ?full\<close> by (cases "length ?full \<le> length ?xs") auto
qed

section \<open>Witnesses\<close>

text \<open>A sample with every optional field and one filter entry, of the other byte order.\<close>

definition example_header :: DataSampleHeader where
  "example_header = (mk_DataSampleHeader True)\<lparr>h_message_id := 1, h_submessage_id := 1, h_byte_order := False,
     h_lifespan_duration := True, h_group_coherent := True, h_content_filter := True, h_sequence := SequenceNumber 0 9,
     h_content_filter_entries := [GUID_UNKNOWN]\<rparr>"

theorem header_roundtrip_witness:
  "\<exists>s. put_header cdr_guid_ops True example_header [empty_block 3 60, empty_block 100 8] = Some s \<and> se_good s"
proof -
  have "max_marshaled_size \<le> sum_list (map mb_space [empty_block 3 60, empty_block 100 8])"
      "length (h_content_filter_entries example_header) < 2 ^ 32"
    by (simp_all add: example_header_def max_marshaled_size_def)
  from header_roundtrip [OF cdr.guid_marshal_axioms _ _ this, of True True True] show ?thesis by auto
qed

theorem partial_exact_witness:
  "header_partial True [full_block 3 (take 60 (enc_full cdr_guid example_header)), full_block 99 (drop 60 (take 83 (enc_full cdr_guid example_header)))]
   \<and> \<not> header_partial True [full_block 3 (take 60 (enc_full cdr_guid example_header)), full_block 99 (drop 60 (enc_full cdr_guid example_header))]"
proof -
  have n: "length (enc_full cdr_guid example_header) = 84"
    unfolding cdr.length_enc_full cdr.length_enc_header
    by (simp add: example_header_def max_marshaled_size_def)
  have k: "unat (h_message_id example_header) < MESSAGE_ID_MAX" "unat (h_submessage_id example_header) < SUBMESSAGE_ID_MAX"
      "length (h_content_filter_entries example_header) < 2 ^ 32"
    by (simp_all add: example_header_def MESSAGE_ID_MAX_def SUBMESSAGE_ID_MAX_def)
  show ?thesis
    using partial_exact [OF cdr.guid_marshal_axioms _ _ k, of "[full_block 3 (take 60 (enc_full cdr_guid example_header)),
          full_block 99 (drop 60 (take 83 (enc_full cdr_guid example_header)))]"
        "drop 83 (enc_full cdr_guid example_header)" "[]" True True]
      partial_exact [OF cdr.guid_marshal_axioms _ _ k, of "[full_block 3 (take 60 (enc_full cdr_guid example_header)),
          full_block 99 (drop 60 (enc_full cdr_guid example_header))]" "[]" "[]" True True] n
      take_add [of 60 23 "enc_full cdr_guid example_header"] append_take_drop_id [of 83 "enc_full cdr_guid example_header"]
    by (simp add: drop_take)
qed

end
