(* ===== verification/Transport_Reassembly.thy ===== *)
theory Transport_Reassembly
  imports Serializer_Core Sample_Header Disjoint_Sequence Sequence_Bitmap Std_Map
begin

text \<open>
  Reassembly of fragmented samples: \<open>DataSampleHeader::join\<close> (\<open>src/dds/DCPS/DataSampleHeader.cpp\<close>) and
  \<open>TransportReassembly\<close> (\<open>src/dds/DCPS/transport/framework/TransportReassembly.{h,cpp}\<close>). A payload is the chain of
  message blocks a \<open>ReceivedDataSample\<close> owns, or a null pointer.
\<close>

section \<open>Joining headers\<close>

definition header_join :: "DataSampleHeader \<Rightarrow> DataSampleHeader \<Rightarrow> DataSampleHeader option" where
  "header_join first second =
     (if \<not> h_more_fragments first \<or> h_sequence first \<noteq> h_sequence second then None
      else
        let result = second\<lparr>h_message_length := h_message_length second + h_message_length first\<rparr>
        in Some (if h_content_filter first
                 then result\<lparr>h_content_filter := True,
                             h_content_filter_entries := h_content_filter_entries result @ rev (h_content_filter_entries first)\<rparr>
                 else result))"

section \<open>State\<close>

record ReceivedDataSample =
  rds_header :: DataSampleHeader
  rds_sample :: "mblock list option"

record FragRange =
  transport_seq :: sequence_range
  rec_ds :: ReceivedDataSample

definition mk_FragRange :: "sequence_range \<Rightarrow> ReceivedDataSample \<Rightarrow> FragRange" where
  "mk_FragRange seqRange data = \<lparr>transport_seq = seqRange, rec_ds = data\<rparr>"

datatype FragKey = FragKey (publication: GUID_t) (data_sample_seq: sequence_number)

definition frag_key_less :: "FragKey \<Rightarrow> FragKey \<Rightarrow> bool" where
  "frag_key_less a b =
     (if GUID_tKeyLessThan (publication a) (publication b) then True
      else if GUID_tKeyLessThan (publication b) (publication a) then False
      else data_sample_seq a < data_sample_seq b)"

instantiation FragKey :: linorder
begin

definition less_FragKey :: "FragKey \<Rightarrow> FragKey \<Rightarrow> bool" where
  "less_FragKey = frag_key_less"

definition less_eq_FragKey :: "FragKey \<Rightarrow> FragKey \<Rightarrow> bool" where
  "less_eq_FragKey a b \<longleftrightarrow> \<not> frag_key_less b a"

instance
proof
  fix x y z :: FragKey
  have less: "frag_key_less a b \<longleftrightarrow> publication a < publication b \<or> publication a = publication b \<and> data_sample_seq a < data_sample_seq b"
    for a b by (auto simp: frag_key_less_def less_GUID_t_def [symmetric])
  show "x < y \<longleftrightarrow> x \<le> y \<and> \<not> y \<le> x" "x \<le> x" "x \<le> y \<Longrightarrow> y \<le> z \<Longrightarrow> x \<le> z" "x \<le> y \<Longrightarrow> y \<le> x \<Longrightarrow> x = y" "x \<le> y \<or> y \<le> x"
    by (cases x; cases y; cases z; auto simp: less_FragKey_def less_eq_FragKey_def less)+
qed

end

record TransportReassembly =
  fragments :: "(FragKey \<times> FragRange list) list"
  have_first :: "FragKey set"

definition mk_TransportReassembly :: TransportReassembly where
  "mk_TransportReassembly = \<lparr>fragments = [], have_first = {}\<rparr>"

section \<open>Inserting a range\<close>

text \<open>Appending a payload; when one of the two is null, the other is released and the result is null.\<close>

definition join_samples :: "mblock list option \<Rightarrow> mblock list option \<Rightarrow> mblock list option" where
  "join_samples a b = (case (a, b) of (Some x, Some y) \<Rightarrow> Some (x @ y) | _ \<Rightarrow> None)"

definition join_header :: "DataSampleHeader \<Rightarrow> FragRange \<Rightarrow> FragRange" where
  "join_header h fr = fr\<lparr>rec_ds := (rec_ds fr)\<lparr>rds_header := h\<rparr>\<rparr>"

definition mark_more :: "FragRange \<Rightarrow> FragRange" where
  "mark_more fr = join_header ((rds_header (rec_ds fr))\<lparr>h_more_fragments := True\<rparr>) fr"

text \<open>An unavailable part is marked as having more fragments, so that it can be joined.\<close>

definition mark_unavailable :: "FragRange \<Rightarrow> FragRange" where
  "mark_unavailable fr = (if rds_sample (rec_ds fr) = None then mark_more fr else fr)"

definition set_sample :: "mblock list option \<Rightarrow> FragRange \<Rightarrow> FragRange" where
  "set_sample x fr = fr\<lparr>rec_ds := (rec_ds fr)\<lparr>rds_sample := x\<rparr>\<rparr>"

text \<open>The check of the next range after a combination on the right.\<close>

definition coalesce :: "int \<Rightarrow> FragRange \<Rightarrow> FragRange list \<Rightarrow> bool \<times> FragRange list" where
  "coalesce next fr frs =
     (case frs of
        [] \<Rightarrow> (True, [fr])
      | it # rest \<Rightarrow>
          if next \<noteq> getValue (fst (transport_seq it)) then (True, fr # it # rest)
          else
            let fr = mark_unavailable fr in
            case header_join (rds_header (rec_ds fr)) (rds_header (rec_ds it)) of
              None \<Rightarrow> (False, fr # it # rest)
            | Some joined \<Rightarrow>
                let fr = join_header joined fr;
                    widen = (\<lambda>fr. fr\<lparr>transport_seq := (fst (transport_seq fr), snd (transport_seq it))\<rparr>)
                in case rds_sample (rec_ds it) of
                     None \<Rightarrow> (True, widen (set_sample None fr) # rest)
                   | Some y \<Rightarrow>
                       (case rds_sample (rec_ds fr) of
                          None \<Rightarrow> (False, fr # it # rest)
                        | Some x \<Rightarrow> (True, widen (set_sample (Some (x @ y)) fr) # rest)))"

fun insert_frag :: "FragRange list \<Rightarrow> sequence_range \<Rightarrow> ReceivedDataSample \<Rightarrow> bool \<times> FragRange list \<times> ReceivedDataSample" where
  "insert_frag [] seqRange data = (True, [mk_FragRange seqRange data], data)"
| "insert_frag (fr # frs) seqRange data =
     (let prev = getValue (fst seqRange) - 1; next = getValue (snd seqRange) + 1 in
      if next < getValue (fst (transport_seq fr)) then (True, mk_FragRange seqRange data # fr # frs, data)
      else if next = getValue (fst (transport_seq fr)) then
        (case header_join (rds_header data) (rds_header (rec_ds fr)) of
           None \<Rightarrow> (False, fr # frs, data)
         | Some joined \<Rightarrow>
             (True,
              (set_sample (join_samples (rds_sample data) (rds_sample (rec_ds fr))) (join_header joined fr))
                \<lparr>transport_seq := (fst seqRange, snd (transport_seq fr))\<rparr> # frs,
              data\<lparr>rds_sample := None\<rparr>))
      else if prev = getValue (snd (transport_seq fr)) then
        let fr = mark_unavailable fr in
        (case header_join (rds_header (rec_ds fr)) (rds_header data) of
           None \<Rightarrow> (False, fr # frs, data)
         | Some joined \<Rightarrow>
             let fr = (set_sample (join_samples (rds_sample (rec_ds fr)) (rds_sample data)) (join_header joined fr))
                        \<lparr>transport_seq := (fst (transport_seq fr), snd seqRange)\<rparr>
             in case coalesce next fr frs of (ok, flist) \<Rightarrow> (ok, flist, data\<lparr>rds_sample := None\<rparr>))
      else case insert_frag frs seqRange data of (ok, flist, data) \<Rightarrow> (ok, fr # flist, data))"

section \<open>Reassembling\<close>

definition frag_key :: "ReceivedDataSample \<Rightarrow> FragKey" where
  "frag_key data = FragKey (h_publication_id (rds_header data)) (h_sequence (rds_header data))"

definition reassemble_i ::
    "sequence_range \<Rightarrow> bool \<Rightarrow> ReceivedDataSample \<Rightarrow> TransportReassembly \<Rightarrow> bool \<times> ReceivedDataSample \<times> TransportReassembly" where
  "reassemble_i seqRange firstFrag data st =
     (let key = frag_key data;
          st = (if firstFrag then st\<lparr>have_first := insert key (have_first st)\<rparr> else st)
      in case map_of (fragments st) key of
           None \<Rightarrow> (False, data, st\<lparr>fragments := map_insert key [mk_FragRange seqRange data] (fragments st)\<rparr>)
         | Some flist \<Rightarrow>
             (case insert_frag flist seqRange data of
                (ok, flist, data) \<Rightarrow>
                  let st = st\<lparr>fragments := map_update key flist (fragments st)\<rparr> in
                  if ok \<and> key \<in> have_first st \<and> length flist = 1 \<and> \<not> h_more_fragments (rds_header (rec_ds (hd flist)))
                  then (rds_sample (rec_ds (hd flist)) \<noteq> None, rec_ds (hd flist),
                        st\<lparr>fragments := map_erase key (fragments st), have_first := have_first st - {key}\<rparr>)
                  else (False, data, st)))"

definition reassemble_range ::
    "sequence_range \<Rightarrow> ReceivedDataSample \<Rightarrow> TransportReassembly \<Rightarrow> bool \<times> ReceivedDataSample \<times> TransportReassembly" where
  "reassemble_range seqRange data st = reassemble_i seqRange (fst seqRange = setValue 1) data st"

definition reassemble ::
    "sequence_number \<Rightarrow> bool \<Rightarrow> ReceivedDataSample \<Rightarrow> TransportReassembly \<Rightarrow> bool \<times> ReceivedDataSample \<times> TransportReassembly" where
  "reassemble transportSeq firstFrag data st = reassemble_i (transportSeq, transportSeq) firstFrag data st"

section \<open>Fragments that will not come\<close>

fun fits_gap :: "sequence_range \<Rightarrow> FragRange list \<Rightarrow> bool" where
  "fits_gap dropped (fr1 # fr2 # frs) =
     (snd (transport_seq fr1) < fst dropped \<and> snd dropped < fst (transport_seq fr2) \<or> fits_gap dropped (fr2 # frs))"
| "fits_gap dropped _ = False"

text \<open>The iteration for one message; the second result tells whether its key enters \<open>have_first_\<close>.\<close>

definition unavailable_in :: "bool \<Rightarrow> sequence_range \<Rightarrow> FragKey \<Rightarrow> bool \<Rightarrow> FragRange list \<Rightarrow> FragRange list \<times> bool" where
  "unavailable_in native dropped key known flist =
     (let dummy = \<lparr>rds_header = (mk_DataSampleHeader native)\<lparr>h_sequence := data_sample_seq key\<rparr>, rds_sample = None\<rparr>;
          more = dummy\<lparr>rds_header := (rds_header dummy)\<lparr>h_more_fragments := True\<rparr>\<rparr>;
          prev = getValue (fst (transport_seq (hd flist))) - 1
      in if getValue (snd dropped) = prev \<and> \<not> known
         then (case insert_frag flist dropped more of (_, flist, _) \<Rightarrow> (flist, True))
         else
           let (flist, dummy) =
                 (if fits_gap dropped flist
                  then (case insert_frag flist dropped more of (_, flist, d) \<Rightarrow> (flist, d))
                  else (flist, dummy));
               next = sn_incr (snd (transport_seq (last flist)))
           in if fst dropped = next
              then (case insert_frag (flist[length flist - 1 := mark_more (last flist)]) dropped dummy of
                      (_, flist, _) \<Rightarrow> (flist, False))
              else (flist, False))"

definition data_unavailable :: "bool \<Rightarrow> sequence_range \<Rightarrow> TransportReassembly \<Rightarrow> TransportReassembly" where
  "data_unavailable native dropped st =
     (let results = map (\<lambda>(k, flist). (k, unavailable_in native dropped k (k \<in> have_first st) flist)) (fragments st)
      in st\<lparr>fragments := map (\<lambda>(k, flist, _). (k, flist)) results,
           have_first := have_first st \<union> set (map fst (filter (\<lambda>(_, _, first). first) results))\<rparr>)"

definition data_unavailable_sample :: "sequence_number \<Rightarrow> GUID_t \<Rightarrow> TransportReassembly \<Rightarrow> TransportReassembly" where
  "data_unavailable_sample dataSampleSeq pub_id st =
     (let key = FragKey pub_id dataSampleSeq
      in st\<lparr>fragments := map_erase key (fragments st), have_first := have_first st - {key}\<rparr>)"

section \<open>What is missing\<close>

definition has_frags :: "sequence_number \<Rightarrow> GUID_t \<Rightarrow> TransportReassembly \<Rightarrow> bool" where
  "has_frags seq pub_id st \<longleftrightarrow> map_of (fragments st) (FragKey pub_id seq) \<noteq> None"

fun gaps_loop :: "ulong \<Rightarrow> FragRange list \<Rightarrow> ulong list \<Rightarrow> nat \<Rightarrow> nat \<Rightarrow> ulong list \<times> nat" where
  "gaps_loop base (it # it_next # frs) bitmap len num_bits =
     (let low = sn_low (snd (transport_seq it)) + 1 - base;
          high = sn_low (fst (transport_seq it_next)) - 1 - base
      in case fill_bitmap_range (unat low) (unat high) bitmap len num_bits of
           (_, bitmap, num_bits) \<Rightarrow> gaps_loop base (it_next # frs) bitmap len num_bits)"
| "gaps_loop base _ bitmap len num_bits = (bitmap, num_bits)"

definition get_gaps ::
    "sequence_number \<Rightarrow> GUID_t \<Rightarrow> ulong list \<Rightarrow> nat \<Rightarrow> nat \<Rightarrow> TransportReassembly \<Rightarrow> ulong \<times> ulong list \<times> nat" where
  "get_gaps seq pub_id bitmap len num_bits st =
     (case map_of (fragments st) (FragKey pub_id seq) of
        None \<Rightarrow> (0, bitmap, num_bits)
      | Some flist \<Rightarrow>
          if len = 0 then (0, bitmap, num_bits)
          else
            let first = fst (transport_seq (hd flist));
                base = (if first = setValue 1 then sn_low (snd (transport_seq (hd flist))) + 1 else 1)
            in if first \<noteq> setValue 1
               then (case fill_bitmap_range 0 (unat (sn_low first - 2)) bitmap len num_bits of
                       (_, bitmap, num_bits) \<Rightarrow> (base, gaps_loop base flist bitmap len num_bits))
               else if length flist = 1
               then (case fill_bitmap_range 0 0 bitmap len num_bits of (_, bitmap, num_bits) \<Rightarrow> (base, bitmap, num_bits))
               else (base, gaps_loop base flist bitmap len num_bits))"

end
