(* ===== verification/Reassembly_Order.thy ===== *)
theory Reassembly_Order
  imports Transport_Reassembly
begin

text \<open>
  Fragments of a message reassemble in any order: \<open>TransportReassembly\<close> refines the set of fragments received
  so far, kept as the list of its maximal runs.
\<close>

section \<open>The fragments of a message\<close>

text \<open>
  The fragments of one message carry consecutive ranges of transport sequence numbers; all but the last are
  marked as having more fragments behind them.
\<close>

definition message_fragments :: "FragKey \<Rightarrow> nat \<Rightarrow> (nat \<Rightarrow> sequence_range) \<Rightarrow> (nat \<Rightarrow> ReceivedDataSample) \<Rightarrow> bool" where
  "message_fragments key n rng item \<longleftrightarrow>
     (\<forall>i<n. getValue (fst (rng i)) \<le> getValue (snd (rng i))
        \<and> (Suc i < n \<longrightarrow> getValue (fst (rng (Suc i))) = getValue (snd (rng i)) + 1)
        \<and> frag_key (item i) = key \<and> rds_sample (item i) \<noteq> None
        \<and> (h_more_fragments (rds_header (item i)) \<longleftrightarrow> Suc i < n)
        \<and> (h_content_filter (rds_header (item i)) \<or> h_content_filter_entries (rds_header (item i)) = []))"

text \<open>What a run of fragments is joined to: the header of the last one with the sum of the lengths and all
  filter entries, and the payloads in their order.\<close>

definition run_header :: "(nat \<Rightarrow> ReceivedDataSample) \<Rightarrow> nat \<Rightarrow> nat \<Rightarrow> GUID_t list \<Rightarrow> DataSampleHeader" where
  "run_header item i j entries =
     (rds_header (item j))
       \<lparr>h_message_length := (\<Sum>k\<leftarrow>[i..<Suc j]. h_message_length (rds_header (item k))),
        h_content_filter := (\<exists>k\<in>{i..j}. h_content_filter (rds_header (item k))),
        h_content_filter_entries := entries\<rparr>"

definition run_data :: "(nat \<Rightarrow> ReceivedDataSample) \<Rightarrow> nat \<Rightarrow> nat \<Rightarrow> ReceivedDataSample \<Rightarrow> bool" where
  "run_data item i j d \<longleftrightarrow>
     rds_sample d = Some (concat (map (\<lambda>k. the (rds_sample (item k))) [i..<Suc j]))
     \<and> rds_header d = run_header item i j (h_content_filter_entries (rds_header d))
     \<and> mset (h_content_filter_entries (rds_header d))
         = (\<Sum>k\<leftarrow>[i..<Suc j]. mset (h_content_filter_entries (rds_header (item k))))"

lemma run_header_fields [simp]:
  "h_more_fragments (run_header item i j es) = h_more_fragments (rds_header (item j))"
  "h_sequence (run_header item i j es) = h_sequence (rds_header (item j))"
  "h_content_filter (run_header item i j es) \<longleftrightarrow> (\<exists>k\<in>{i..j}. h_content_filter (rds_header (item k)))"
  "h_content_filter_entries (run_header item i j es) = es"
  "h_message_length (run_header item i j es) = (\<Sum>k\<leftarrow>[i..<Suc j]. h_message_length (rds_header (item k)))"
  by (simp_all add: run_header_def)

lemma run_dataE:
  assumes "run_data item i j d"
  obtains es where "rds_sample d = Some (concat (map (\<lambda>k. the (rds_sample (item k))) [i..<Suc j]))"
    "rds_header d = run_header item i j es" "mset es = (\<Sum>k\<leftarrow>[i..<Suc j]. mset (h_content_filter_entries (rds_header (item k))))"
  using assms unfolding run_data_def by blast

lemma run_dataI:
  "rds_sample d = Some (concat (map (\<lambda>k. the (rds_sample (item k))) [i..<Suc j])) \<Longrightarrow> rds_header d = run_header item i j es
   \<Longrightarrow> mset es = (\<Sum>k\<leftarrow>[i..<Suc j]. mset (h_content_filter_entries (rds_header (item k)))) \<Longrightarrow> run_data item i j d"
  by (simp add: run_data_def)

lemma fragmentsD:
  assumes "message_fragments key n rng item" "i < n"
  shows "getValue (fst (rng i)) \<le> getValue (snd (rng i))"
    "Suc i < n \<Longrightarrow> getValue (fst (rng (Suc i))) = getValue (snd (rng i)) + 1"
    "frag_key (item i) = key" "\<exists>p. rds_sample (item i) = Some p" "h_more_fragments (rds_header (item i)) \<longleftrightarrow> Suc i < n"
    "\<not> h_content_filter (rds_header (item i)) \<Longrightarrow> h_content_filter_entries (rds_header (item i)) = []"
  using assms by (auto simp: message_fragments_def)

lemma ranges_less:
  assumes "message_fragments key n rng item" "i < j" "j < n"
  shows "getValue (snd (rng i)) < getValue (fst (rng j))"
  using assms(2,3)
proof (induction j)
  case (Suc j)
  then show ?case
  proof (cases "i = j")
    case False
    then have "getValue (snd (rng i)) < getValue (fst (rng j))" using Suc by simp
    then show ?thesis using fragmentsD(1,2) [OF assms(1), of j] Suc.prems by simp
  qed (use fragmentsD(2) [OF assms(1), of j] Suc.prems in simp)
qed simp

lemma ranges_adjacent:
  assumes "message_fragments key n rng item" "i < n" "j < n" "i \<noteq> j"
  shows "getValue (snd (rng i)) + 1 < getValue (fst (rng j)) \<longleftrightarrow> Suc i < j"
    "getValue (snd (rng i)) + 1 = getValue (fst (rng j)) \<longleftrightarrow> Suc i = j"
proof -
  consider "Suc i < j" | "Suc i = j" | "j < i" using assms(4) by linarith
  then have "(getValue (snd (rng i)) + 1 < getValue (fst (rng j)) \<longleftrightarrow> Suc i < j)
      \<and> (getValue (snd (rng i)) + 1 = getValue (fst (rng j)) \<longleftrightarrow> Suc i = j)"
  proof cases
    case 1
    then show ?thesis
      using ranges_less [OF assms(1) 1 assms(3)] fragmentsD(1,2) [OF assms(1), of i] fragmentsD(1) [OF assms(1), of "Suc i"] assms(3)
      by simp
  next
    case 2
    then show ?thesis using fragmentsD(2) [OF assms(1,2)] assms(3) by simp
  next
    case 3
    then show ?thesis
      using ranges_less [OF assms(1) 3 assms(2)] fragmentsD(1) [OF assms(1,2)] fragmentsD(1) [OF assms(1,3)] by simp
  qed
  then show "getValue (snd (rng i)) + 1 < getValue (fst (rng j)) \<longleftrightarrow> Suc i < j"
    "getValue (snd (rng i)) + 1 = getValue (fst (rng j)) \<longleftrightarrow> Suc i = j" by simp_all
qed

lemma run_single: "message_fragments key n rng item \<Longrightarrow> i < n \<Longrightarrow> run_data item i i (item i)"
  using fragmentsD(4) [of key n rng item i]
  by (auto simp: run_header_def intro!: run_dataI [where es = "h_content_filter_entries (rds_header (item i))"])

lemma run_more: "message_fragments key n rng item \<Longrightarrow> j < n \<Longrightarrow> run_data item i j d \<Longrightarrow> h_more_fragments (rds_header d) \<longleftrightarrow> Suc j < n"
  using fragmentsD(5) [of key n rng item j] by (auto elim!: run_dataE)

lemma upt_split: "i \<le> j \<Longrightarrow> j < k \<Longrightarrow> [i..<Suc k] = [i..<Suc j] @ [Suc j..<Suc k]"
  using upt_add_eq_append [of i "Suc j" "k - j"] by simp

lemma sum_list_empty: "\<forall>x\<in>set xs. f x = {#} \<Longrightarrow> (\<Sum>x\<leftarrow>xs. f x) = {#}"
  by (induction xs) auto

text \<open>Two neighbouring runs join.\<close>

lemma runs_join:
  assumes "message_fragments key n rng item" "i \<le> j" "j < k" "k < n" "run_data item i j d" "run_data item (Suc j) k e"
  shows "\<exists>h. header_join (rds_header d) (rds_header e) = Some h
    \<and> run_data item i k \<lparr>rds_header = h, rds_sample = Some (the (rds_sample d) @ the (rds_sample e))\<rparr>"
proof -
  have up: "[i..<Suc k] = [i..<Suc j] @ [Suc j..<Suc k]" by (rule upt_split [OF assms(2,3)])
  have all: "{i..k} = {i..j} \<union> {Suc j..k}" using assms(2,3) by auto
  obtain es where d: "rds_sample d = Some (concat (map (\<lambda>k. the (rds_sample (item k))) [i..<Suc j]))"
      "rds_header d = run_header item i j es" "mset es = (\<Sum>k\<leftarrow>[i..<Suc j]. mset (h_content_filter_entries (rds_header (item k))))"
    using assms(5) by (rule run_dataE)
  obtain fs where e: "rds_sample e = Some (concat (map (\<lambda>k. the (rds_sample (item k))) [Suc j..<Suc k]))"
      "rds_header e = run_header item (Suc j) k fs"
      "mset fs = (\<Sum>k\<leftarrow>[Suc j..<Suc k]. mset (h_content_filter_entries (rds_header (item k))))"
    using assms(6) by (rule run_dataE)
  have key: "h_sequence (rds_header (item j)) = h_sequence (rds_header (item k))"
    using fragmentsD(3) [OF assms(1), of j] fragmentsD(3) [OF assms(1,4)] assms(3,4) by (cases key) (simp add: frag_key_def)
  have more: "h_more_fragments (rds_header (item j))" using fragmentsD(5) [OF assms(1), of j] assms(3,4) by simp
  have none: "es = []" if "\<forall>l\<in>{i..j}. \<not> h_content_filter (rds_header (item l))"
  proof -
    have "h_content_filter_entries (rds_header (item l)) = []" if "l \<in> {i..j}" for l
      using fragmentsD(6) [OF assms(1), of l] that \<open>\<forall>l\<in>{i..j}. _ l\<close> assms(3,4) by simp
    then have "(\<Sum>k\<leftarrow>[i..<Suc j]. mset (h_content_filter_entries (rds_header (item k)))) = {#}"
      by (intro sum_list_empty) auto
    then show ?thesis using d(3) by simp
  qed
  define gs where "gs = (if \<exists>l\<in>{i..j}. h_content_filter (rds_header (item l)) then fs @ rev es else fs)"
  have "header_join (rds_header d) (rds_header e) = Some (run_header item i k gs)"
  proof -
    have len: "(\<Sum>l\<leftarrow>[Suc j..<Suc k]. h_message_length (rds_header (item l))) + (\<Sum>l\<leftarrow>[i..<Suc j]. h_message_length (rds_header (item l)))
        = (\<Sum>l\<leftarrow>[i..<Suc k]. h_message_length (rds_header (item l)))"
      unfolding up by (simp only: map_append sum_list_append add.commute)
    have cf: "(\<exists>l\<in>{i..k}. h_content_filter (rds_header (item l))) \<longleftrightarrow>
        (\<exists>l\<in>{i..j}. h_content_filter (rds_header (item l))) \<or> (\<exists>l\<in>{Suc j..k}. h_content_filter (rds_header (item l)))"
      unfolding all by blast
    show ?thesis
      unfolding header_join_def d(2) e(2) gs_def run_header_def [of item i k] Let_def run_header_fields len cf
      by (cases "\<exists>l\<in>{i..j}. h_content_filter (rds_header (item l))")
        (simp_all only: more key run_header_def [of item "Suc j" k] if_True if_False not_True_eq_False simp_thms
          option.inject, simp_all)
  qed
  moreover have "mset gs = (\<Sum>k\<leftarrow>[i..<Suc k]. mset (h_content_filter_entries (rds_header (item k))))"
    unfolding up map_append sum_list_append d(3) [symmetric] e(3) [symmetric] using none
    by (cases "\<exists>l\<in>{i..j}. h_content_filter (rds_header (item l))") (simp_all add: gs_def add.commute)
  moreover have "the (rds_sample d) @ the (rds_sample e) = concat (map (\<lambda>k. the (rds_sample (item k))) [i..<Suc k])"
    unfolding up d(1) e(1) by (simp only: option.sel map_append concat_append)
  ultimately show ?thesis by (intro exI [of _ "run_header item i k gs"] conjI run_dataI [where es = gs]) (simp_all del: upt_Suc)
qed

section \<open>Runs of fragments\<close>

text \<open>
  The abstract state of a message is the list of the maximal runs of the numbers of the fragments that have
  arrived. Inserting a number into it is what \<open>insert\<close> does to the ranges.
\<close>

type_synonym run = "nat \<times> nat"

definition runs_ok :: "nat \<Rightarrow> run list \<Rightarrow> bool" where
  "runs_ok n rs \<longleftrightarrow> (\<forall>(i, j)\<in>set rs. i \<le> j \<and> j < n) \<and> sorted_wrt (\<lambda>(i, j) (k, l). Suc j < k) rs"

definition run_set :: "run list \<Rightarrow> nat set" where
  "run_set rs = (\<Union>(i, j)\<in>set rs. {i..j})"

fun add_run :: "nat \<Rightarrow> run list \<Rightarrow> run list" where
  "add_run x [] = [(x, x)]"
| "add_run x ((i, j) # rs) =
     (if Suc x < i then (x, x) # (i, j) # rs
      else if Suc x = i then (x, j) # rs
      else if x = Suc j
      then (case rs of [] \<Rightarrow> [(i, x)] | (k, l) # rs' \<Rightarrow> if k = Suc x then (i, l) # rs' else (i, x) # rs)
      else (i, j) # add_run x rs)"

lemma runs_ok_simps [simp]:
  "runs_ok n []"
  "runs_ok n ((i, j) # rs) \<longleftrightarrow> i \<le> j \<and> j < n \<and> (\<forall>(k, l)\<in>set rs. Suc j < k) \<and> runs_ok n rs"
  by (auto simp: runs_ok_def)

lemma run_set_simps [simp]: "run_set [] = {}" "run_set ((i, j) # rs) = {i..j} \<union> run_set rs"
  by (simp_all add: run_set_def)

lemma run_set_above: "runs_ok n rs \<Longrightarrow> \<forall>(k, l)\<in>set rs. m < k \<Longrightarrow> x \<in> run_set rs \<Longrightarrow> m < x"
  by (force simp: run_set_def)

lemma add_run_set: "runs_ok n rs \<Longrightarrow> x \<notin> run_set rs \<Longrightarrow> run_set (add_run x rs) = insert x (run_set rs)"
proof (induction x rs rule: add_run.induct)
  case (2 x i j rs)
  then show ?case by (cases rs) (auto split: if_splits)
qed simp

lemma add_run_low: "\<forall>(k, l)\<in>set rs. m < k \<Longrightarrow> m < x \<Longrightarrow> \<forall>(k, l)\<in>set (add_run x rs). m < k"
proof (induction x rs rule: add_run.induct)
  case (2 x i j rs)
  then show ?case by (cases rs) (auto split: if_splits)
qed simp

lemma add_run_ok: "runs_ok n rs \<Longrightarrow> x \<notin> run_set rs \<Longrightarrow> x < n \<Longrightarrow> runs_ok n (add_run x rs)"
proof (induction x rs rule: add_run.induct)
  case (2 x i j rs)
  show ?case
  proof (cases "Suc x < i \<or> Suc x = i \<or> x = Suc j")
    case True
    then show ?thesis using "2.prems" by (cases rs) (fastforce split: if_splits)+
  next
    case False
    then have "Suc j < x" using "2.prems"(2) by auto
    then show ?thesis using False 2 add_run_low [of rs "Suc j" x] by auto
  qed
qed simp

text \<open>When all fragments are there, they are a single run.\<close>

lemma complete_run:
  assumes "runs_ok n rs" "run_set rs = {0..<n}" "0 < n"
  shows "rs = [(0, n - 1)]"
proof -
  obtain i j rs' where rs: "rs = (i, j) # rs'" using assms(2,3) by (cases rs) auto
  have "rs' = []"
  proof (rule ccontr)
    assume "rs' \<noteq> []"
    then obtain k l rs'' where r: "rs' = (k, l) # rs''" by (cases rs') auto
    have "Suc j < k" "k \<le> l" "l < n" using assms(1) by (simp_all add: rs r)
    then have "Suc j \<in> run_set rs" using assms(2) by auto
    moreover have "Suc j \<notin> run_set rs"
      using assms(1) run_set_above [of n rs' "Suc j" "Suc j"] by (auto simp: rs)
    ultimately show False by simp
  qed
  then have "{i..j} = {0..<n}" "i \<le> j" using assms(1,2) by (simp_all add: rs)
  then have "i \<in> {0..<n}" "j \<in> {0..<n}" "0 \<in> {i..j}" "n - 1 \<in> {i..j}" using assms(3) by auto
  then have "i = 0" "j = n - 1" by auto
  then show ?thesis using \<open>rs' = []\<close> by (simp add: rs)
qed

section \<open>Refinement\<close>

definition run_range :: "(nat \<Rightarrow> sequence_range) \<Rightarrow> (nat \<Rightarrow> ReceivedDataSample) \<Rightarrow> run \<Rightarrow> FragRange \<Rightarrow> bool" where
  "run_range rng item r fr \<longleftrightarrow>
     transport_seq fr = (fst (rng (fst r)), snd (rng (snd r))) \<and> run_data item (fst r) (snd r) (rec_ds fr)"

lemma run_range_available: "run_range rng item r fr \<Longrightarrow> mark_unavailable fr = fr"
  by (simp add: run_range_def run_data_def mark_unavailable_def)

lemma run_range_sample: "run_range rng item r fr \<Longrightarrow> \<exists>x. rds_sample (rec_ds fr) = Some x"
  by (simp add: run_range_def run_data_def)

lemma frag_update:
  "transport_seq (set_sample x fr) = transport_seq fr" "transport_seq (join_header h fr) = transport_seq fr"
  "rec_ds (set_sample x (join_header h fr)) = \<lparr>rds_header = h, rds_sample = x\<rparr>"
  "rds_sample (rec_ds (join_header h fr)) = rds_sample (rec_ds fr)"
  by (simp_all add: set_sample_def join_header_def)

text \<open>The range that a combination leaves, over two neighbouring runs.\<close>

lemma combined_range:
  assumes "message_fragments key n rng item" "i \<le> j" "j < k" "k < n" "run_data item i j d" "run_data item (Suc j) k e"
  obtains h where "header_join (rds_header d) (rds_header e) = Some h"
    "\<forall>fr. transport_seq fr = (fst (rng i), snd (rng k)) \<and>
       rec_ds fr = \<lparr>rds_header = h, rds_sample = join_samples (rds_sample d) (rds_sample e)\<rparr> \<longrightarrow> run_range rng item (i, k) fr"
proof -
  have "rds_sample d = Some (the (rds_sample d))" "rds_sample e = Some (the (rds_sample e))"
    using assms(5,6) by (simp_all add: run_data_def)
  then have "join_samples (rds_sample d) (rds_sample e) = Some (the (rds_sample d) @ the (rds_sample e))"
    by (metis join_samples_def case_prod_conv option.simps(5))
  with runs_join [OF assms] that show thesis by (auto simp: run_range_def)
qed

lemma coalesce_refines:
  assumes "message_fragments key n rng item" "i \<le> x" "x < n" "runs_ok n rs" "\<forall>(k, l)\<in>set rs. x < k"
    and "run_range rng item (i, x) fr" "list_all2 (run_range rng item) rs frs"
  shows "\<exists>fl. coalesce (getValue (snd (rng x)) + 1) fr frs = (True, fl)
    \<and> list_all2 (run_range rng item)
        (case rs of [] \<Rightarrow> [(i, x)] | (k, l) # rs' \<Rightarrow> if k = Suc x then (i, l) # rs' else (i, x) # rs) fl"
proof (cases rs)
  case Nil
  then show ?thesis using assms(6,7) by (simp add: coalesce_def)
next
  case (Cons r rs')
  obtain k l where r: "r = (k, l)" by (cases r)
  obtain it rest where frs: "frs = it # rest" "run_range rng item (k, l) it" "list_all2 (run_range rng item) rs' rest"
    using assms(7) by (auto simp: Cons r list_all2_Cons1)
  have kl: "x < k" "k \<le> l" "l < n" using assms(4,5) by (simp_all add: Cons r)
  then have adj: "getValue (snd (rng x)) + 1 = getValue (fst (transport_seq it)) \<longleftrightarrow> k = Suc x"
    using ranges_adjacent(2) [OF assms(1,3), of k] frs(2) by (auto simp: run_range_def)
  show ?thesis
  proof (cases "k = Suc x")
    case True
    have it: "run_data item (Suc x) l (rec_ds it)" and d: "run_data item i x (rec_ds fr)"
      using frs(2) assms(6) True by (simp_all add: run_range_def)
    obtain h where h: "header_join (rds_header (rec_ds fr)) (rds_header (rec_ds it)) = Some h"
      "\<forall>fr'. transport_seq fr' = (fst (rng i), snd (rng l)) \<and>
         rec_ds fr' = \<lparr>rds_header = h, rds_sample = join_samples (rds_sample (rec_ds fr)) (rds_sample (rec_ds it))\<rparr>
         \<longrightarrow> run_range rng item (i, l) fr'"
      using combined_range [OF assms(1,2) _ kl(3) d it] kl True by auto
    obtain a b where "rds_sample (rec_ds fr) = Some a" "rds_sample (rec_ds it) = Some b"
      using run_range_sample [OF assms(6)] run_range_sample [OF frs(2)] by blast
    moreover have "transport_seq fr = (fst (rng i), snd (rng x))" "transport_seq it = (fst (rng k), snd (rng l))"
      using assms(6) frs(2) by (simp_all add: run_range_def)
    ultimately show ?thesis
      using True adj h frs run_range_available [OF assms(6)]
      by (simp add: coalesce_def Cons r Let_def frag_update join_samples_def)
  next
    case False
    then show ?thesis using adj frs assms(6) by (simp add: coalesce_def Cons r)
  qed
qed

lemma insert_refines:
  assumes "message_fragments key n rng item" "runs_ok n rs" "x \<notin> run_set rs" "x < n" "list_all2 (run_range rng item) rs fl"
  shows "\<exists>fl' d. insert_frag fl (rng x) (item x) = (True, fl', d) \<and> list_all2 (run_range rng item) (add_run x rs) fl'"
  using assms(2-5)
proof (induction x rs arbitrary: fl rule: add_run.induct)
  case (1 x)
  then show ?case using run_single [OF assms(1)] by (simp add: run_range_def mk_FragRange_def)
next
  case (2 x i j rs)
  obtain fr frs where fl: "fl = fr # frs" "run_range rng item (i, j) fr" "list_all2 (run_range rng item) rs frs"
    using "2.prems"(4) by (auto simp: list_all2_Cons1)
  have ij: "i \<le> j" "j < n" "runs_ok n rs" "x < i \<or> j < x" "x \<notin> run_set rs" "\<forall>(k, l)\<in>set rs. Suc j < k"
    using "2.prems" by auto
  have seq: "fst (transport_seq fr) = fst (rng i)" "snd (transport_seq fr) = snd (rng j)" "run_data item i j (rec_ds fr)"
    using fl(2) by (simp_all add: run_range_def)
  have xi: "getValue (snd (rng x)) + 1 < getValue (fst (rng i)) \<longleftrightarrow> Suc x < i"
      "getValue (snd (rng x)) + 1 = getValue (fst (rng i)) \<longleftrightarrow> Suc x = i"
      "getValue (fst (rng x)) - 1 = getValue (snd (rng j)) \<longleftrightarrow> x = Suc j"
    using ranges_adjacent [OF assms(1) \<open>x < n\<close>, of i] ranges_adjacent(2) [OF assms(1) ij(2) \<open>x < n\<close>] ij(1,2,4) by auto
  have single: "run_data item x x (item x)" by (rule run_single [OF assms(1) \<open>x < n\<close>])
  consider "Suc x < i" | "Suc x = i" | "x = Suc j" | "Suc j < x" using ij(4) by linarith
  then show ?case
  proof cases
    case 1
    moreover have "run_range rng item (x, x) (mk_FragRange (rng x) (item x))"
      using single by (simp add: run_range_def mk_FragRange_def)
    ultimately show ?thesis using xi fl seq by simp
  next
    case 2
    then have d: "run_data item (Suc x) j (rec_ds fr)" "x < j" using seq(3) ij(1) by simp_all
    obtain h where h: "header_join (rds_header (item x)) (rds_header (rec_ds fr)) = Some h"
      "\<forall>fr'. transport_seq fr' = (fst (rng x), snd (rng j)) \<and>
         rec_ds fr' = \<lparr>rds_header = h, rds_sample = join_samples (rds_sample (item x)) (rds_sample (rec_ds fr))\<rparr>
         \<longrightarrow> run_range rng item (x, j) fr'"
      using combined_range [OF assms(1) order_refl d(2) ij(2) single d(1)] by blast
    then show ?thesis using 2 xi fl seq by (simp add: frag_update)
  next
    case 3
    then have d: "run_data item (Suc j) x (item x)" "j < x" using single by simp_all
    obtain h where h: "header_join (rds_header (rec_ds fr)) (rds_header (item x)) = Some h"
      "\<forall>fr'. transport_seq fr' = (fst (rng i), snd (rng x)) \<and>
         rec_ds fr' = \<lparr>rds_header = h, rds_sample = join_samples (rds_sample (rec_ds fr)) (rds_sample (item x))\<rparr>
         \<longrightarrow> run_range rng item (i, x) fr'"
      using combined_range [OF assms(1) ij(1) d(2) \<open>x < n\<close> seq(3) d(1)] by blast
    define fr' where "fr' = (set_sample (join_samples (rds_sample (rec_ds fr)) (rds_sample (item x))) (join_header h fr))
        \<lparr>transport_seq := (fst (rng i), snd (rng x))\<rparr>"
    have "run_range rng item (i, x) fr'" using h(2) seq(1) by (simp add: fr'_def frag_update)
    moreover have "\<forall>(k, l)\<in>set rs. x < k" using ij(6) 3 by auto
    ultimately obtain fl' where co: "coalesce (getValue (snd (rng x)) + 1) fr' frs = (True, fl')"
        "list_all2 (run_range rng item)
          (case rs of [] \<Rightarrow> [(i, x)] | (k, l) # rs' \<Rightarrow> if k = Suc x then (i, l) # rs' else (i, x) # rs) fl'"
      using coalesce_refines [OF assms(1) _ \<open>x < n\<close> ij(3) _ _ fl(3), of i fr'] ij(1) 3 by auto
    have "insert_frag fl (rng x) (item x) = (True, fl', (item x)\<lparr>rds_sample := None\<rparr>)"
      using 3 xi fl seq h(1) ij(1) run_range_available [OF fl(2)] co(1) by (simp add: fr'_def frag_update)
    moreover have "add_run x ((i, j) # rs)
        = (case rs of [] \<Rightarrow> [(i, x)] | (k, l) # rs' \<Rightarrow> if k = Suc x then (i, l) # rs' else (i, x) # rs)"
      using 3 ij(1) by (cases rs) auto
    ultimately show ?thesis using co(2) by metis
  next
    case 4
    then have "\<not> Suc x < i" "Suc x \<noteq> i" "x \<noteq> Suc j" using ij(1) by auto
    with "2.IH" [OF this ij(3,5) \<open>x < n\<close> fl(3)] show ?thesis using xi fl(1,2) seq by auto
  qed
qed

section \<open>Receiving\<close>

text \<open>A fragment as it arrives, and the samples delivered for a sequence of arrivals.\<close>

type_synonym arrival = "sequence_range \<times> bool \<times> ReceivedDataSample"

definition arrival_key :: "arrival \<Rightarrow> FragKey" where
  "arrival_key a = frag_key (snd (snd a))"

fun receive_all :: "TransportReassembly \<Rightarrow> arrival list \<Rightarrow> ReceivedDataSample option list \<times> TransportReassembly" where
  "receive_all st [] = ([], st)"
| "receive_all st ((seqRange, first, data) # as) =
     (case reassemble_i seqRange first data st of
        (delivered, data, st) \<Rightarrow>
          (case receive_all st as of (outs, st) \<Rightarrow> ((if delivered then Some data else None) # outs, st)))"

definition deliveries :: "FragKey \<Rightarrow> TransportReassembly \<Rightarrow> arrival list \<Rightarrow> ReceivedDataSample option list" where
  "deliveries key st as = map snd (filter (\<lambda>(a, _). arrival_key a = key) (zip as (fst (receive_all st as))))"

text \<open>What is known of a message while some of its fragments, the set \<open>got\<close>, have arrived.\<close>

definition keeps_runs :: "nat \<Rightarrow> (nat \<Rightarrow> sequence_range) \<Rightarrow> (nat \<Rightarrow> ReceivedDataSample) \<Rightarrow> nat set \<Rightarrow> FragRange list \<Rightarrow> bool" where
  "keeps_runs n rng item got fl \<longleftrightarrow> (\<exists>rs. runs_ok n rs \<and> run_set rs = got \<and> list_all2 (run_range rng item) rs fl)"

definition holds_fragments ::
    "FragKey \<Rightarrow> nat \<Rightarrow> (nat \<Rightarrow> sequence_range) \<Rightarrow> (nat \<Rightarrow> ReceivedDataSample) \<Rightarrow> nat set \<Rightarrow> TransportReassembly \<Rightarrow> bool" where
  "holds_fragments key n rng item got st \<longleftrightarrow>
     (key \<in> have_first st \<longleftrightarrow> 0 \<in> got)
     \<and> (case map_of (fragments st) key of None \<Rightarrow> got = {} | Some fl \<Rightarrow> got \<noteq> {} \<and> keeps_runs n rng item got fl)"

lemma keeps_single:
  assumes "message_fragments key n rng item" "x < n"
  shows "keeps_runs n rng item {x} [mk_FragRange (rng x) (item x)]"
  unfolding keeps_runs_def using run_single [OF assms] assms(2)
  by (intro exI [of _ "[(x, x)]"]) (simp add: run_range_def mk_FragRange_def)

lemma keeps_insert:
  assumes "message_fragments key n rng item" "keeps_runs n rng item got fl" "x \<notin> got" "x < n"
  obtains fl' d where "insert_frag fl (rng x) (item x) = (True, fl', d)" "keeps_runs n rng item (insert x got) fl'"
proof -
  obtain rs where rs: "runs_ok n rs" "run_set rs = got" "list_all2 (run_range rng item) rs fl"
    using assms(2) by (auto simp: keeps_runs_def)
  have "x \<notin> run_set rs" using assms(3) rs(2) by simp
  from insert_refines [OF assms(1) rs(1) this assms(4) rs(3)] add_run_ok [OF rs(1) this assms(4)] add_run_set [OF rs(1) this]
  show thesis using that rs(2) by (auto simp: keeps_runs_def)
qed

lemma keeps_one:
  assumes "message_fragments key n rng item" "keeps_runs n rng item got [fr]" "0 \<in> got"
  obtains j where "j < n" "got = {0..j}" "run_data item 0 j (rec_ds fr)" "h_more_fragments (rds_header (rec_ds fr)) \<longleftrightarrow> Suc j < n"
proof -
  obtain i j where r: "runs_ok n [(i, j)]" "run_set [(i, j)] = got" "run_range rng item (i, j) fr"
    using assms(2) by (auto simp: keeps_runs_def list_all2_Cons2)
  moreover from r(2) assms(3) have "i = 0" by auto
  ultimately show thesis
    using that [of j] run_more [OF assms(1), of j i "rec_ds fr"] by (auto simp: run_range_def)
qed

lemma keeps_all:
  assumes "keeps_runs n rng item {0..<n} fl" "0 < n"
  shows "length fl = 1"
proof -
  obtain rs where rs: "runs_ok n rs" "run_set rs = {0..<n}" "list_all2 (run_range rng item) rs fl"
    using assms(1) by (auto simp: keeps_runs_def)
  have "rs = [(0, n - 1)]" by (rule complete_run [OF rs(1,2) assms(2)])
  then show ?thesis using list_all2_lengthD [OF rs(3)] by simp
qed

lemma reassemble_frame:
  assumes "frag_key data \<noteq> key" "reassemble_i seqRange first data st = (b, d, st')"
  shows "map_of (fragments st') key = map_of (fragments st) key \<and> (key \<in> have_first st' \<longleftrightarrow> key \<in> have_first st)"
proof (cases "map_of (fragments st) (frag_key data)")
  case None
  then show ?thesis using assms by (cases first) (auto simp: reassemble_i_def Let_def map_of_std)
next
  case (Some fl)
  obtain ok fl' d' where "insert_frag fl seqRange data = (ok, fl', d')" by (metis prod.collapse)
  then show ?thesis using Some assms
    by (cases first) (auto simp: reassemble_i_def Let_def map_of_std split: if_split_asm)
qed

lemma reassemble_other:
  "frag_key data \<noteq> key \<Longrightarrow> reassemble_i seqRange first data st = (b, d, st') \<Longrightarrow>
    holds_fragments key n rng item got st' \<longleftrightarrow> holds_fragments key n rng item got st"
  using reassemble_frame [of data key seqRange first st b d st'] by (simp add: holds_fragments_def)

lemma reassemble_step:
  assumes "message_fragments key n rng item" "holds_fragments key n rng item got st" "x \<notin> got" "x < n"
    and "insert x got \<noteq> {0..<n}"
  shows "\<exists>d st'. reassemble_i (rng x) (x = 0) (item x) st = (False, d, st') \<and> holds_fragments key n rng item (insert x got) st'"
proof (cases "map_of (fragments st) key")
  case None
  then have "got = {}" using assms(2) by (simp add: holds_fragments_def)
  then show ?thesis
    using None keeps_single [OF assms(1,4)] fragmentsD(3) [OF assms(1,4)] assms(2)
    by (auto simp: reassemble_i_def Let_def holds_fragments_def map_of_std)
next
  case (Some fl)
  then have "keeps_runs n rng item got fl" using assms(2) by (simp add: holds_fragments_def)
  from keeps_insert [OF assms(1) this assms(3,4)] obtain fl' d
    where ins: "insert_frag fl (rng x) (item x) = (True, fl', d)" "keeps_runs n rng item (insert x got) fl'" .
  have "h_more_fragments (rds_header (rec_ds (hd fl')))" if one: "0 \<in> insert x got" "length fl' = 1"
  proof -
    obtain fr where fr: "fl' = [fr]" using one(2) by (cases fl') auto
    from keeps_one [OF assms(1) ins(2) [unfolded fr] one(1)] obtain j
      where j: "j < n" "insert x got = {0..j}" "h_more_fragments (rds_header (rec_ds fr)) \<longleftrightarrow> Suc j < n" .
    have "{0..j} = {0..<n}" if "\<not> Suc j < n" using that j(1) by auto
    then show ?thesis using j assms(5) fr by auto
  qed
  then show ?thesis
    using Some ins fragmentsD(3) [OF assms(1,4)] assms(2)
    by (auto simp: reassemble_i_def Let_def holds_fragments_def map_of_std)
qed

text \<open>The fragment that completes the message.\<close>

lemma reassemble_last:
  assumes "message_fragments key n rng item" "holds_fragments key n rng item got st" "got \<noteq> {}" "x \<notin> got" "x < n"
    and "insert x got = {0..<n}"
  shows "\<exists>d st'. reassemble_i (rng x) (x = 0) (item x) st = (True, d, st') \<and> run_data item 0 (n - 1) d
    \<and> holds_fragments key n rng item {} st'"
proof -
  obtain fl where fl: "map_of (fragments st) key = Some fl" "keeps_runs n rng item got fl"
    using assms(2,3) by (auto simp: holds_fragments_def split: option.splits)
  from keeps_insert [OF assms(1) fl(2) assms(4,5)] obtain fl' d
    where ins: "insert_frag fl (rng x) (item x) = (True, fl', d)" "keeps_runs n rng item (insert x got) fl'" .
  have n: "0 < n" "0 \<in> insert x got" using assms(5,6) by simp_all
  obtain fr where fr: "fl' = [fr]" using keeps_all [OF ins(2) [unfolded assms(6)] n(1)] by (cases fl') auto
  from keeps_one [OF assms(1) ins(2) [unfolded fr] n(2)] obtain j
    where j: "j < n" "insert x got = {0..j}" "run_data item 0 j (rec_ds fr)" "h_more_fragments (rds_header (rec_ds fr)) \<longleftrightarrow> Suc j < n" .
  have "n - 1 \<in> {0..j}" using j(2) assms(6) n(1) by (metis atLeastLessThan_iff diff_less le0 zero_less_one)
  then have "j = n - 1" using j(1) by simp
  moreover have "rds_sample (rec_ds fr) \<noteq> None" using j(3) by (simp add: run_data_def)
  ultimately show ?thesis
    using fl(1) ins(1) fr j n assms(2) fragmentsD(3) [OF assms(1,5)]
    by (auto simp: reassemble_i_def Let_def holds_fragments_def map_of_std)
qed

section \<open>Any order, any interleaving\<close>

text \<open>
  The arrivals that belong to the message are its fragments numbered \<open>xs\<close>; others come in between.
\<close>

definition arrivals_of ::
    "FragKey \<Rightarrow> (nat \<Rightarrow> sequence_range) \<Rightarrow> (nat \<Rightarrow> ReceivedDataSample) \<Rightarrow> nat list \<Rightarrow> arrival list \<Rightarrow> bool" where
  "arrivals_of key rng item xs as \<longleftrightarrow>
     filter (\<lambda>a. arrival_key a = key) as = map (\<lambda>x. (rng x, x = 0, item x)) xs"

lemma deliveries_Cons:
  assumes "reassemble_i r f d st = (b, d', st')"
  shows "deliveries key st ((r, f, d) # as) = (if frag_key d = key then (if b then Some d' else None) # deliveries key st' as
      else deliveries key st' as)"
    "snd (receive_all st ((r, f, d) # as)) = snd (receive_all st' as)"
  using assms by (auto simp: deliveries_def arrival_key_def split: prod.splits)

lemma arrivals_Cons:
  assumes "arrivals_of key rng item xs ((r, f, d) # as)" "message_fragments key n rng item" "set xs \<subseteq> {0..<n}"
  shows "frag_key d \<noteq> key \<Longrightarrow> arrivals_of key rng item xs as"
    "frag_key d = key \<Longrightarrow> \<exists>x xs'. xs = x # xs' \<and> r = rng x \<and> f = (x = 0) \<and> d = item x \<and> arrivals_of key rng item xs' as"
  using assms by (auto simp: arrivals_of_def arrival_key_def Cons_eq_map_conv split: if_splits)

lemma nothing_more:
  "arrivals_of key rng item [] as \<Longrightarrow> holds_fragments key n rng item {} st \<Longrightarrow>
    deliveries key st as = [] \<and> holds_fragments key n rng item {} (snd (receive_all st as))"
proof (induction as arbitrary: st)
  case (Cons a as)
  obtain r f d where a: "a = (r, f, d)" by (cases a)
  obtain b d' st' where s: "reassemble_i r f d st = (b, d', st')" by (metis prod.collapse)
  have "frag_key d \<noteq> key" "arrivals_of key rng item [] as"
    using Cons.prems(1) by (auto simp: arrivals_of_def a arrival_key_def split: if_splits)
  then show ?case
    using Cons.IH [of st'] Cons.prems(2) reassemble_other [OF _ s, of key n rng item "{}"] deliveries_Cons [OF s]
    by (simp add: a)
qed (simp add: deliveries_def)

lemma remaining_fragments:
  assumes "message_fragments key n rng item" "2 \<le> n"
  shows "arrivals_of key rng item xs as \<Longrightarrow> holds_fragments key n rng item got st \<Longrightarrow> distinct xs
    \<Longrightarrow> set xs \<inter> got = {} \<Longrightarrow> set xs \<union> got = {0..<n} \<Longrightarrow> xs \<noteq> [] \<Longrightarrow>
    \<exists>d. deliveries key st as = replicate (length xs - 1) None @ [Some d] \<and> run_data item 0 (n - 1) d
      \<and> holds_fragments key n rng item {} (snd (receive_all st as))"
proof (induction as arbitrary: xs got st)
  case Nil
  then show ?case by (simp add: arrivals_of_def)
next
  case (Cons a as)
  obtain r f d where a: "a = (r, f, d)" by (cases a)
  obtain b d' st' where s: "reassemble_i r f d st = (b, d', st')" by (metis prod.collapse)
  have sub: "set xs \<subseteq> {0..<n}" using Cons.prems(5) by auto
  note step = arrivals_Cons [OF Cons.prems(1) [unfolded a] assms(1) sub]
  show ?case
  proof (cases "frag_key d = key")
    case False
    then show ?thesis
      using Cons.IH [OF step(1) _ Cons.prems(3-6), of st'] reassemble_other [OF _ s, of key n rng item got] Cons.prems(2)
        deliveries_Cons [OF s] by (simp add: a)
  next
    case True
    then obtain x xs' where x: "xs = x # xs'" "r = rng x" "f = (x = 0)" "d = item x" "arrivals_of key rng item xs' as"
      using step(2) by blast
    have new: "x \<notin> got" "x < n" using Cons.prems(4,5) sub by (auto simp: x(1))
    show ?thesis
    proof (cases "xs' = []")
      case True
      then have all: "insert x got = {0..<n}" using Cons.prems(5) by (auto simp: x(1))
      have "got \<noteq> {}"
      proof
        assume "got = {}"
        with arg_cong [OF all, of card] assms(2) show False by simp
      qed
      from reassemble_last [OF assms(1) Cons.prems(2) this new all] s
      have "b" "run_data item 0 (n - 1) d'" "holds_fragments key n rng item {} st'" by (auto simp: x)
      then show ?thesis
        using nothing_more [OF x(5) [unfolded True]] deliveries_Cons [OF s] \<open>frag_key d = key\<close> True by (simp add: a x(1))
    next
      case False
      have "hd xs' \<in> {0..<n}" "hd xs' \<notin> insert x got" using False Cons.prems(3,4) sub by (cases xs'; auto simp: x(1))+
      then have "insert x got \<noteq> {0..<n}" by blast
      from reassemble_step [OF assms(1) Cons.prems(2) new this] s
      have "\<not> b" "holds_fragments key n rng item (insert x got) st'" by (auto simp: x)
      moreover have "distinct xs'" "set xs' \<inter> insert x got = {}" "set xs' \<union> insert x got = {0..<n}"
        using Cons.prems(3-5) by (auto simp: x(1))
      ultimately obtain e where e: "deliveries key st' as = replicate (length xs' - 1) None @ [Some e]" "run_data item 0 (n - 1) e"
          "holds_fragments key n rng item {} (snd (receive_all st' as))"
        using Cons.IH [OF x(5) _ _ _ _ False, of "insert x got" st'] by blast
      have "deliveries key st (a # as) = None # deliveries key st' as"
        using deliveries_Cons(1) [OF s, of key as] \<open>frag_key d = key\<close> \<open>\<not> b\<close> by (simp add: a)
      also have "\<dots> = replicate (length xs - 1) None @ [Some e]" using e(1) False by (cases xs') (simp_all add: x(1))
      finally show ?thesis using e(2,3) deliveries_Cons(2) [OF s] by (simp add: a)
    qed
  qed
qed

text \<open>
  (C8) Reassembly is independent of the order of arrival. When the fragments of a message of at least two
  fragments arrive once each, in any order and interleaved in any way with fragments of other messages, nothing
  is delivered for the message before the last of them is there; then one sample is, whose payload is the
  concatenation of the payloads in the order of the fragments, whose header is that of the last fragment
  with the sum of the lengths and all filter entries; and no trace of the message is kept.
\<close>

theorem reassembly_any_order:
  assumes "message_fragments key n rng item" and "2 \<le> n" and "distinct xs" and "set xs = {0..<n}"
    and "arrivals_of key rng item xs as" and "map_of (fragments st) key = None" and "key \<notin> have_first st"
  shows "\<exists>d. deliveries key st as = replicate (n - 1) None @ [Some d]
    \<and> rds_sample d = Some (concat (map (\<lambda>k. the (rds_sample (item k))) [0..<n]))
    \<and> rds_header d = run_header item 0 (n - 1) (h_content_filter_entries (rds_header d))
    \<and> mset (h_content_filter_entries (rds_header d)) = (\<Sum>k\<leftarrow>[0..<n]. mset (h_content_filter_entries (rds_header (item k))))
    \<and> map_of (fragments (snd (receive_all st as))) key = None \<and> key \<notin> have_first (snd (receive_all st as))"
proof -
  have n: "Suc (n - 1) = n" "xs \<noteq> []" using assms(2,4) by auto
  have len: "length xs = n" using distinct_card [OF assms(3)] assms(4) by simp
  have "holds_fragments key n rng item {} st" using assms(6,7) by (simp add: holds_fragments_def)
  from remaining_fragments [OF assms(1,2,5) this assms(3) _ _ n(2)] assms(4) obtain d
    where "deliveries key st as = replicate (length xs - 1) None @ [Some d]" "run_data item 0 (n - 1) d"
      "holds_fragments key n rng item {} (snd (receive_all st as))"
    by auto
  then show ?thesis
    unfolding run_data_def len n(1) by (auto simp: holds_fragments_def split: option.splits)
qed

text \<open>Fragments of one octet each, for the witnesses.\<close>

definition example_range :: "nat \<Rightarrow> sequence_range" where
  "example_range i = (setValue (int i + 1), setValue (int i + 1))"

definition example_fragment :: "nat \<Rightarrow> nat \<Rightarrow> ReceivedDataSample" where
  "example_fragment n i =
     \<lparr>rds_header = (mk_DataSampleHeader True)\<lparr>h_message_length := 1, h_more_fragments := (Suc i < n)\<rparr>,
      rds_sample = Some [\<lparr>mb_base = 0, mb_buf = [of_nat i], mb_rd = 0, mb_wr = 1\<rparr>]\<rparr>"

lemma example_message: "n \<le> 1000 \<Longrightarrow> message_fragments (FragKey GUID_UNKNOWN default_sn) n example_range (example_fragment n)"
  by (auto simp: message_fragments_def example_range_def example_fragment_def mk_DataSampleHeader_def frag_key_def
      getValue_setValue MAX_VALUE_def)

theorem reassembly_any_order_witness:
  "\<exists>d. deliveries (FragKey GUID_UNKNOWN default_sn) mk_TransportReassembly
        [(example_range 2, False, example_fragment 3 2), (example_range 0, True, example_fragment 3 0),
         (example_range 1, False, example_fragment 3 1)] = [None, None, Some d]"
proof -
  let ?key = "FragKey GUID_UNKNOWN default_sn"
  let ?as = "map (\<lambda>x. (example_range x, x = 0, example_fragment 3 x)) [2, 0, 1]"
  have xs: "distinct [2 :: nat, 0, 1]" "set [2 :: nat, 0, 1] = {0..<3}" by auto
  have as: "arrivals_of ?key example_range (example_fragment 3) [2, 0, 1] ?as"
    by (simp add: arrivals_of_def arrival_key_def frag_key_def example_fragment_def mk_DataSampleHeader_def)
  have st: "map_of (fragments mk_TransportReassembly) ?key = None" "?key \<notin> have_first mk_TransportReassembly"
    by (simp_all add: mk_TransportReassembly_def)
  have n: "3 \<le> (1000 :: nat)" "2 \<le> (3 :: nat)" by simp_all
  have "\<exists>d. deliveries ?key mk_TransportReassembly ?as = replicate (3 - 1) None @ [Some d]"
    using reassembly_any_order [OF example_message [OF n(1)] n(2) xs as st] by blast
  then show ?thesis by (simp add: numeral_2_eq_2)
qed

end
