(* ===== verification/Reassembly_Flaws.thy ===== *)
theory Reassembly_Flaws
  imports Reassembly_Order
begin

text \<open>
  Two histories after which a message is never finished: a fragment that arrives twice, and a fragment that is
  reported unavailable between two that have arrived.
\<close>

lemma frag_range_fields [simp]: "transport_seq (mk_FragRange r d) = r" "rec_ds (mk_FragRange r d) = d"
  by (simp_all add: mk_FragRange_def)

lemma join_samples_none: "join_samples x None = None"
  by (cases x) (simp_all add: join_samples_def)

lemma fragment_numbers:
  assumes "message_fragments key n rng item" "i < n" "j < n"
  shows "getValue (snd (rng i)) < getValue (fst (rng j)) \<longleftrightarrow> i < j"
    "getValue (fst (rng i)) \<le> getValue (snd (rng j)) \<longleftrightarrow> i \<le> j"
    "getValue (fst (rng i)) - 1 = getValue (snd (rng j)) \<longleftrightarrow> i = Suc j"
proof -
  have a: "i < j \<Longrightarrow> getValue (snd (rng i)) < getValue (fst (rng j))" "j < i \<Longrightarrow> getValue (snd (rng j)) < getValue (fst (rng i))"
    using ranges_less [OF assms(1)] assms(2,3) by simp_all
  have b: "getValue (fst (rng i)) \<le> getValue (snd (rng i))" "getValue (fst (rng j)) \<le> getValue (snd (rng j))"
    using fragmentsD(1) [OF assms(1)] assms(2,3) by simp_all
  show "getValue (snd (rng i)) < getValue (fst (rng j)) \<longleftrightarrow> i < j"
    "getValue (fst (rng i)) \<le> getValue (snd (rng j)) \<longleftrightarrow> i \<le> j"
    using a b by (cases i j rule: linorder_cases; simp)+
  show "getValue (fst (rng i)) - 1 = getValue (snd (rng j)) \<longleftrightarrow> i = Suc j"
    using ranges_adjacent(2) [OF assms(1,3,2)] b by (cases "i = j") auto
qed

text \<open>One step of \<open>reassemble\<close> for a message that is known and is not finished by it.\<close>

lemma reassemble_known:
  assumes "frag_key d = key" "map_of (fragments st) key = Some fl" "insert_frag fl r d = (True, fl', d')" "length fl' \<noteq> 1"
  shows "\<exists>st'. reassemble_i r f d st = (False, d', st') \<and> map_of (fragments st') key = Some fl'"
  using assms by (auto simp: reassemble_i_def Let_def map_of_std)


lemma unavailable_between:
  assumes "message_fragments key 4 rng item"
  shows "\<exists>G. unavailable_in native (rng 1) key True [mk_FragRange (rng 0) (item 0), mk_FragRange (rng 2) (item 2)]
      = ([G, mk_FragRange (rng 2) (item 2)], False) \<and> transport_seq G = (fst (rng 0), snd (rng 1))"
proof -
  let ?F0 = "mk_FragRange (rng 0) (item 0)" and ?F2 = "mk_FragRange (rng 2) (item 2)"
  let ?more = "\<lparr>rds_header = (mk_DataSampleHeader native)\<lparr>h_sequence := data_sample_seq key, h_more_fragments := True\<rparr>, rds_sample = None\<rparr>"
  have l: "0 < (4 :: nat)" "1 < (4 :: nat)" "2 < (4 :: nat)" "3 < (4 :: nat)" by simp_all
  note num = fragment_numbers [OF assms(1)]
  have seq: "h_sequence (rds_header (item 0)) = data_sample_seq key" "h_sequence (rds_header (item 2)) = data_sample_seq key"
    using fragmentsD(3) [OF assms(1), of 0] fragmentsD(3) [OF assms(1), of 2] by (auto simp: frag_key_def)
  have avail: "mark_unavailable ?F0 = ?F0"
    using fragmentsD(4) [OF assms(1), of 0] by (auto simp: mark_unavailable_def mk_FragRange_def)
  obtain h where h: "header_join (rds_header (item 0)) (rds_header ?more) = Some h" "h_sequence h = data_sample_seq key"
    using fragmentsD(5) [OF assms(1), of 0] seq by (auto simp: header_join_def Let_def)
  define fr where "fr = (set_sample None (join_header h ?F0))\<lparr>transport_seq := (fst (rng 0), snd (rng 1))\<rparr>"
  obtain h2 where h2: "header_join (rds_header (rec_ds (mark_unavailable fr))) (rds_header (item 2)) = Some h2"
    using h(2) seq(2) by (auto simp: fr_def header_join_def mark_unavailable_def mark_more_def join_header_def set_sample_def Let_def)
  have none: "rds_sample (rec_ds (join_header h2 (mark_unavailable fr))) = None" "transport_seq (join_header h2 (mark_unavailable fr)) = transport_seq fr"
    by (simp_all add: fr_def mark_unavailable_def mark_more_def join_header_def set_sample_def)
  have next1: "getValue (snd (rng 1)) + 1 = getValue (fst (rng 2))" using fragmentsD(2) [OF assms(1), of 1] by (simp add: numeral_2_eq_2)
  obtain y where y: "rds_sample (item 2) = Some y" using fragmentsD(4) [OF assms(1), of 2] by auto
  have "coalesce (getValue (snd (rng 1)) + 1) fr [?F2] = (False, [join_header h2 (mark_unavailable fr), ?F2])"
    using next1 h2 none y by (simp add: coalesce_def Let_def)
  then have ins: "insert_frag [?F0, ?F2] (rng 1) ?more = (False, [join_header h2 (mark_unavailable fr), ?F2], ?more)"
    using h(1) num(2) [OF l(1,2)] num(3) [OF l(2,1)] avail unfolding fr_def
    by (simp add: join_samples_none)
  have "fits_gap (rng 1) [?F0, ?F2]"
    using num(1) [OF l(1,2)] num(1) [OF l(2,3)] by (simp add: sn_less_iff)
  moreover have "fst (rng 1) \<noteq> sn_incr (snd (rng 2))"
    using num(2) [OF l(2,3)] fragmentsD(2) [OF assms(1), of 2] getValue_bounds(2) [of "fst (rng 3)"]
    by (auto simp: sn_simps numeral_3_eq_3 numeral_2_eq_2)
  ultimately show ?thesis using ins none(2) by (simp add: unavailable_in_def Let_def fr_def del: insert_frag.simps)
qed




end
