(* ===== verification/Reassembly_Gaps.thy ===== *)
theory Reassembly_Gaps
  imports Transport_Reassembly
begin

text \<open>\<open>TransportReassembly::get_gaps\<close> marks exactly the missing fragments of a message in its bitmap.\<close>

lemma low_half: "0 \<le> getValue s \<Longrightarrow> getValue s < 4294967296 \<Longrightarrow> uint (sn_low s) = getValue s"
proof -
  assume "0 \<le> getValue s" "getValue s < 4294967296"
  then have "sint (sn_high s) = 0"
    using uint32_bounds [of "sn_low s"] unfolding getValue_def LOW_BASE_def by linarith
  then show ?thesis by (simp add: getValue_def)
qed

lemma uint32_range: "(2 :: int) ^ LENGTH(32) = 4294967296"
  by simp

lemma ulong_delta:
  fixes base :: ulong
  assumes "0 \<le> getValue s" "getValue s < 4294967296" "uint base \<le> getValue s + d" "getValue s + d < 4294967296" "w = word_of_int d"
  shows "unat (sn_low s + w - base) = nat (getValue s + d - uint base)"
proof -
  have "sn_low s + w - base = word_of_int (getValue s + d - uint base)"
    using low_half [OF assms(1,2)] assms(5) by (metis word_of_int_uint wi_hom_add wi_hom_sub)
  moreover have "uint (word_of_int (getValue s + d - uint base) :: ulong) = getValue s + d - uint base"
    using assms(3,4) uint32_bounds(1) [of base]
    unfolding uint_word_of_int uint32_range by (intro mod_pos_pos_trivial; linarith)
  ultimately show ?thesis by (simp add: unat_eq_nat_uint)
qed

text \<open>Filling one gap sets its bits, as far as they fit, and no others.\<close>

lemma fill_gap:
  assumes "len \<le> length bm" "32 * len < ULONG_RANGE" "bm_clean bm len n" "n \<le> low" "low \<le> high"
  obtains ok bm' n' where "fill_bitmap_range low high bm len n = (ok, bm', n')" "length bm' = length bm"
    "bm_clean bm' len n'" "n' \<le> high + 1" "\<forall>p < 32 * len. bm_bit bm' p \<longleftrightarrow> bm_bit bm p \<or> low \<le> p \<and> p \<le> high"
proof (cases "low div 32 < len")
  case True
  from fill_bitmap_range_bits [OF assms True] obtain bm' where bm':
      "fill_bitmap_range low high bm len n = (high < 32 * len, bm', min high (32 * len - 1) + 1)" "length bm' = length bm"
      and bits: "\<forall>p < 32 * len. bm_bit bm' p \<longleftrightarrow> bm_bit bm p \<or> low \<le> p \<and> p \<le> min high (32 * len - 1)"
    by blast
  have bits': "\<forall>p < 32 * len. bm_bit bm' p \<longleftrightarrow> bm_bit bm p \<or> low \<le> p \<and> p \<le> high" using bits by auto
  moreover have "bm_clean bm' len (min high (32 * len - 1) + 1)"
    using bits' assms(3-5) by (auto simp: bm_clean_def)
  ultimately show thesis using that bm' by force
next
  case False
  then have "32 * len \<le> low" by auto
  moreover from False have "fill_bitmap_range low high bm len n = (False, bm, n)" by (simp add: fill_bitmap_range_full)
  ultimately show thesis using that [of False bm n] assms(3-5) by auto
qed

lemma gaps_loop_bits:
  assumes "ds_inv (map transport_seq (fr # frs))" "uint base \<le> hi (transport_seq fr) + 1"
    and "hi (transport_seq (last (fr # frs))) < 4294967296" "int n \<le> hi (transport_seq fr) + 1 - uint base"
    and "bm_clean bm len n" "len \<le> length bm" "32 * len < ULONG_RANGE"
  shows "\<exists>bm' n'. gaps_loop base (fr # frs) bm len n = (bm', n')
    \<and> (\<forall>p < 32 * len. bm_bit bm' p \<longleftrightarrow> bm_bit bm p
          \<or> uint base + int p \<in> ds_ints (missing_loop (map transport_seq (fr # frs))))"
  using assms
proof (induction frs arbitrary: fr bm n)
  case Nil
  then show ?case by simp
next
  case (Cons it frs)
  let ?r = "transport_seq fr" and ?s = "transport_seq it"
  have ap: "hi ?r + 1 < lo ?s" "lo ?s \<le> hi ?s" "0 \<le> lo ?r" "lo ?r \<le> hi ?r" "ds_inv (map transport_seq (it # frs))"
    using Cons.prems(1) by (auto simp: apart_def)
  have l: "last (map transport_seq (it # frs)) = transport_seq (last (fr # it # frs))" by (simp add: last_map)
  have "?s \<in> set (map transport_seq (it # frs))" by simp
  from ds_inv_hd_last(2) [OF ap(5) this] Cons.prems(3) have up: "hi ?s < 4294967296" unfolding l by linarith
  have low: "unat (sn_low (snd ?r) + 1 - base) = nat (hi ?r + 1 - uint base)"
    using ap up Cons.prems(2) by (intro ulong_delta) simp_all
  have high: "unat (sn_low (fst ?s) - 1 - base) = nat (lo ?s - 1 - uint base)"
    using ulong_delta [of "fst ?s" base "- 1" "- 1"] ap up Cons.prems(2) by simp
  have nl: "n \<le> nat (hi ?r + 1 - uint base)" "nat (hi ?r + 1 - uint base) \<le> nat (lo ?s - 1 - uint base)"
    using ap(1) Cons.prems(4) by linarith+
  obtain ok bm1 n1 where fill: "fill_bitmap_range (nat (hi ?r + 1 - uint base)) (nat (lo ?s - 1 - uint base)) bm len n = (ok, bm1, n1)"
      "length bm1 = length bm" "bm_clean bm1 len n1" "n1 \<le> nat (lo ?s - 1 - uint base) + 1"
      "\<forall>p < 32 * len. bm_bit bm1 p \<longleftrightarrow> bm_bit bm p \<or> nat (hi ?r + 1 - uint base) \<le> p \<and> p \<le> nat (lo ?s - 1 - uint base)"
    by (rule fill_gap [OF Cons.prems(6,7,5) nl])
  have "int n1 \<le> hi ?s + 1 - uint base" using fill(4) ap(1,2) Cons.prems(2) by linarith
  then obtain bm' n' where IH: "gaps_loop base (it # frs) bm1 len n1 = (bm', n')"
      "\<forall>p < 32 * len. bm_bit bm' p \<longleftrightarrow> bm_bit bm1 p \<or> uint base + int p \<in> ds_ints (missing_loop (map transport_seq (it # frs)))"
    using Cons.IH [OF ap(5) _ _ _ fill(3)] Cons.prems(2,3,6,7) ap(1,2) fill(2) by auto
  have "ds_ints (missing_loop (map transport_seq (fr # it # frs)))
      = {hi ?r + 1 .. lo ?s - 1} \<union> ds_ints (missing_loop (map transport_seq (it # frs)))"
    using bitmap_target_step [of ?r ?s "map transport_seq frs" True] Cons.prems(1) by (simp add: bitmap_target_def)
  moreover have "nat (hi ?r + 1 - uint base) \<le> p \<and> p \<le> nat (lo ?s - 1 - uint base) \<longleftrightarrow> uint base + int p \<in> {hi ?r + 1 .. lo ?s - 1}" for p
    using ap(1) Cons.prems(2) by auto
  ultimately show ?case using IH fill(1,5) low high by (auto simp: Let_def)
qed

section \<open>The missing fragments\<close>

text \<open>The fragments received, the last of them, and those that are missing: the next one when none is missing before it.\<close>

definition known_frags :: "FragRange list \<Rightarrow> int set" where
  "known_frags flist = ds_ints (map transport_seq flist)"

definition highest_frag :: "FragRange list \<Rightarrow> int" where
  "highest_frag flist = hi (transport_seq (last flist))"

definition missing_frags :: "FragRange list \<Rightarrow> int set" where
  "missing_frags flist =
     (if known_frags flist = {1 .. highest_frag flist} then {highest_frag flist + 1} else {1 .. highest_frag flist} - known_frags flist)"

text \<open>The ranges of a message and the size of the bitmap the theorem is about.\<close>

definition gaps_input :: "FragRange list \<Rightarrow> nat \<Rightarrow> bool" where
  "gaps_input flist len \<longleftrightarrow> ds_inv (map transport_seq flist) \<and> 1 \<le> lo (transport_seq (hd flist))
     \<and> highest_frag flist < 4294967295 \<and> 0 < len \<and> 32 * len < ULONG_RANGE"

lemma gaps_inputD:
  assumes "gaps_input (fr # frs) len"
  shows "1 \<le> lo (transport_seq fr)" "lo (transport_seq fr) \<le> hi (transport_seq fr)" "ds_inv (map transport_seq (fr # frs))"
    "hi (transport_seq fr) \<le> highest_frag (fr # frs)" "highest_frag (fr # frs) < 4294967295" "0 < len" "32 * len < ULONG_RANGE"
    "hi (transport_seq (last (fr # frs))) < 4294967296"
proof -
  have r: "1 \<le> lo (transport_seq fr)" "ds_inv (map transport_seq (fr # frs))" "highest_frag (fr # frs) < 4294967295"
    using assms by (simp_all add: gaps_input_def)
  have "transport_seq fr \<in> set (map transport_seq (fr # frs))" by simp
  from ds_inv_hd_last(2) [OF r(2) this] show "hi (transport_seq fr) \<le> highest_frag (fr # frs)"
    unfolding highest_frag_def by (simp add: last_map split: if_splits)
  show "1 \<le> lo (transport_seq fr)" "lo (transport_seq fr) \<le> hi (transport_seq fr)" "ds_inv (map transport_seq (fr # frs))"
    "highest_frag (fr # frs) < 4294967295" "0 < len" "32 * len < ULONG_RANGE" "hi (transport_seq (last (fr # frs))) < 4294967296"
    using assms r by (simp_all add: gaps_input_def highest_frag_def)
qed

lemma known_frags_first:
  assumes "ds_inv (map transport_seq (fr # frs))"
  shows "frs = [] \<Longrightarrow> known_frags (fr # frs) = {lo (transport_seq fr) .. hi (transport_seq fr)}"
    "x \<in> known_frags (fr # frs) \<Longrightarrow> lo (transport_seq fr) \<le> x"
    "{lo (transport_seq fr) .. hi (transport_seq fr)} \<subseteq> known_frags (fr # frs)"
proof -
  have "lo (transport_seq fr) \<le> lo (transport_seq x)" if "x \<in> set frs" for x
    using ds_inv_hd_last(1) [OF assms, of "transport_seq x"] that by simp
  then show "frs = [] \<Longrightarrow> known_frags (fr # frs) = {lo (transport_seq fr) .. hi (transport_seq fr)}"
    "x \<in> known_frags (fr # frs) \<Longrightarrow> lo (transport_seq fr) \<le> x"
    "{lo (transport_seq fr) .. hi (transport_seq fr)} \<subseteq> known_frags (fr # frs)"
    by (force simp: known_frags_def ds_ints_def range_ints_def)+
qed

lemma gaps_of_ranges:
  assumes "ds_inv (map transport_seq (fr # frs))"
  shows "ds_ints (missing_loop (map transport_seq (fr # frs))) = {lo (transport_seq fr) .. highest_frag (fr # frs)} - known_frags (fr # frs)"
  using missing_loop_correct [OF assms [unfolded list.map] getValue_bounds(2)]
  by (simp add: last_map known_frags_def highest_frag_def)

lemma gap_after_first:
  assumes "gaps_input (fr # frs) len" "frs \<noteq> []"
  shows "hi (transport_seq fr) + 1 \<in> {1 .. highest_frag (fr # frs)} - known_frags (fr # frs)"
proof -
  note d = gaps_inputD [OF assms(1)]
  have "hi (transport_seq fr) + 1 < lo (transport_seq (last frs))" "lo (transport_seq (last frs)) \<le> hi (transport_seq (last frs))"
    using d(3) last_in_set [OF assms(2)] by (auto simp: apart_def ds_inv_def)
  moreover have "hi (transport_seq fr) + 1 \<notin> known_frags (fr # frs)"
    using d(3) by (auto simp: known_frags_def ds_ints_def range_ints_def apart_def)
  ultimately show ?thesis using d(1,2) assms(2) by (simp add: highest_frag_def)
qed

lemma first_is_one: "fst (transport_seq fr) = setValue 1 \<longleftrightarrow> lo (transport_seq fr) = 1"
  using getValue_eq_iff [of "fst (transport_seq fr)" "setValue 1"] by (simp add: getValue_setValue MAX_VALUE_def)

lemma base_after_first:
  assumes "gaps_input (fr # frs) len"
  shows "uint (sn_low (snd (transport_seq fr)) + 1) = hi (transport_seq fr) + 1"
proof -
  have low: "uint (sn_low (snd (transport_seq fr))) = hi (transport_seq fr)"
    using gaps_inputD [OF assms] by (intro low_half) simp_all
  have "uint (- 1 :: ulong) = 4294967295" by (subst uint_word_ariths) simp
  then have "sn_low (snd (transport_seq fr)) \<noteq> - 1" using low gaps_inputD(4,5) [OF assms] by fastforce
  then show ?thesis using low by (simp add: uint_inc)
qed

lemma empty_bitmap:
  "bm_clean (replicate len 0) len 0" "len \<le> length (replicate len (0 :: ulong))" "p < 32 * len \<Longrightarrow> \<not> bm_bit (replicate len 0) p"
  by (simp_all add: bm_clean_def bm_bit_def less_mult_imp_div_less)

section \<open>The three cases\<close>

text \<open>What \<open>get_gaps\<close> should return for the ranges of a message.\<close>

definition gaps_reported :: "FragRange list \<Rightarrow> nat \<Rightarrow> ulong \<times> ulong list \<times> nat \<Rightarrow> bool" where
  "gaps_reported flist len = (\<lambda>(base, bm, n). uint base = Min (missing_frags flist)
     \<and> (\<forall>p < 32 * len. bm_bit bm p \<longleftrightarrow> uint base + int p \<in> missing_frags flist))"

lemma gaps_before:
  assumes inp: "gaps_input (fr # frs) len" and key: "map_of (fragments st) (FragKey pub_id seq) = Some (fr # frs)"
    and before: "lo (transport_seq fr) \<noteq> 1"
  shows "gaps_reported (fr # frs) len (get_gaps seq pub_id (replicate len 0) len 0 st)"
proof -
  let ?r = "transport_seq fr" and ?top = "highest_frag (fr # frs)" and ?known = "known_frags (fr # frs)"
  note d = gaps_inputD [OF inp] and known = known_frags_first [OF gaps_inputD(3) [OF inp]]
  have start: "unat (sn_low (fst ?r) - 2) = nat (lo ?r - 2)"
    using ulong_delta [of "fst ?r" 0 "- 2" "- 2"] d before by simp
  obtain ok bm1 n1 where f: "fill_bitmap_range 0 (nat (lo ?r - 2)) (replicate len 0) len 0 = (ok, bm1, n1)"
      "length bm1 = len" "bm_clean bm1 len n1" "n1 \<le> nat (lo ?r - 2) + 1"
      "\<forall>p < 32 * len. bm_bit bm1 p \<longleftrightarrow> p \<le> nat (lo ?r - 2)"
    using fill_gap [OF empty_bitmap(2) d(7) empty_bitmap(1), of 0 "nat (lo ?r - 2)"] empty_bitmap(3) [of _ len] by auto
  have "uint (1 :: ulong) \<le> hi ?r + 1" "int n1 \<le> hi ?r + 1 - uint (1 :: ulong)" "len \<le> length bm1"
    using d(1,2) f(2,4) before by simp_all
  from gaps_loop_bits [OF d(3) this(1) d(8) this(2) f(3) this(3) d(7), unfolded gaps_of_ranges [OF d(3)]] obtain bm2 n2
    where loop: "gaps_loop 1 (fr # frs) bm1 len n1 = (bm2, n2)"
      "\<forall>p < 32 * len. bm_bit bm2 p \<longleftrightarrow> bm_bit bm1 p \<or> 1 + int p \<in> {lo ?r .. ?top} - ?known"
    by auto
  have "1 \<notin> ?known" using known(2) before d(1) by force
  then have one: "1 \<in> {1 .. ?top} - ?known" using d(1,2,4) by simp
  then have m: "missing_frags (fr # frs) = {1 .. ?top} - ?known" by (auto simp: missing_frags_def)
  have "1 + int p \<in> {1 .. ?top} - ?known \<longleftrightarrow> p \<le> nat (lo ?r - 2) \<or> 1 + int p \<in> {lo ?r .. ?top} - ?known" for p
    using before d(1,2,4) known(2) [of "1 + int p"] by (cases "1 + int p < lo ?r") auto
  moreover have "Min (missing_frags (fr # frs)) = 1" unfolding m using one by (intro Min_eqI) auto
  ultimately show ?thesis
    using before first_is_one [of fr] key d(6) start f(1,5) loop m by (simp add: get_gaps_def gaps_reported_def Let_def)
qed

lemma gaps_single:
  assumes inp: "gaps_input [fr] len" and key: "map_of (fragments st) (FragKey pub_id seq) = Some [fr]"
    and single: "lo (transport_seq fr) = 1"
  shows "gaps_reported [fr] len (get_gaps seq pub_id (replicate len 0) len 0 st)"
proof -
  note d = gaps_inputD [OF inp]
  have zero: "0 \<le> (0 :: nat)" by simp
  obtain ok bm1 n1
    where "fill_bitmap_range 0 0 (replicate len 0) len 0 = (ok, bm1, n1)"
      "\<forall>p < 32 * len. bm_bit bm1 p \<longleftrightarrow> bm_bit (replicate len 0) p \<or> 0 \<le> p \<and> p \<le> 0"
    by (rule fill_gap [OF empty_bitmap(2) d(7) empty_bitmap(1) zero zero])
  moreover have "missing_frags [fr] = {hi (transport_seq fr) + 1}"
    using single known_frags_first(1) [OF d(3)] by (simp add: missing_frags_def highest_frag_def)
  ultimately show ?thesis
    using single first_is_one [of fr] key base_after_first [OF inp] d(6) empty_bitmap(3) [of _ len]
    by (simp add: get_gaps_def gaps_reported_def Let_def)
qed

lemma gaps_between:
  assumes inp: "gaps_input (fr # frs) len" and key: "map_of (fragments st) (FragKey pub_id seq) = Some (fr # frs)"
    and between: "lo (transport_seq fr) = 1" "frs \<noteq> []"
  shows "gaps_reported (fr # frs) len (get_gaps seq pub_id (replicate len 0) len 0 st)"
proof -
  let ?r = "transport_seq fr" and ?top = "highest_frag (fr # frs)" and ?known = "known_frags (fr # frs)"
  note d = gaps_inputD [OF inp] and after = gap_after_first [OF inp between(2)] and base = base_after_first [OF inp]
  have "uint (sn_low (snd ?r) + 1) \<le> hi ?r + 1" "int 0 \<le> hi ?r + 1 - uint (sn_low (snd ?r) + 1)" by (simp_all add: base)
  from gaps_loop_bits [OF d(3) this(1) d(8) this(2) empty_bitmap(1,2) d(7), unfolded gaps_of_ranges [OF d(3)] base] obtain bm2 n2
    where "gaps_loop (sn_low (snd ?r) + 1) (fr # frs) (replicate len 0) len 0 = (bm2, n2)"
      "\<forall>p < 32 * len. bm_bit bm2 p \<longleftrightarrow> hi ?r + 1 + int p \<in> {lo ?r .. ?top} - ?known"
    using empty_bitmap(3) [of _ len] by auto
  moreover have m: "missing_frags (fr # frs) = {1 .. ?top} - ?known" using after by (auto simp: missing_frags_def)
  moreover have "Min (missing_frags (fr # frs)) = hi ?r + 1"
    unfolding m using after known_frags_first(3) [OF d(3)] between(1) by (intro Min_eqI) (auto simp: subset_iff not_less)
  ultimately show ?thesis
    using between first_is_one [of fr] key base d(6) by (cases frs) (simp_all add: get_gaps_def gaps_reported_def Let_def)
qed

text \<open>
  (C20) \<open>get_gaps\<close> reports the missing fragments. For a message whose ranges are ordered, disjoint and not
  adjacent, with fragment numbers from 1 that fit 32 bits, bit \<open>p\<close> of the bitmap stands for the fragment \<open>base + p\<close>,
  where the base is the first missing number; within the bitmap exactly the fragments missing before the last known one are set,
  or the next one when none is missing before it.
\<close>

theorem get_gaps_correct:
  assumes "map_of (fragments st) (FragKey pub_id seq) = Some flist" and "flist \<noteq> []" and "ds_inv (map transport_seq flist)"
    and "1 \<le> lo (transport_seq (hd flist))" and "hi (transport_seq (last flist)) < 4294967295"
    and "0 < len" and "32 * len < ULONG_RANGE"
  defines "known \<equiv> ds_ints (map transport_seq flist)" and "highest \<equiv> hi (transport_seq (last flist))"
  defines "missing \<equiv> (if known = {1 .. highest} then {highest + 1} else {1 .. highest} - known)"
  shows "\<exists>base bm n. get_gaps seq pub_id (replicate len 0) len 0 st = (base, bm, n) \<and> uint base = Min missing
    \<and> (\<forall>p < 32 * len. bm_bit bm p \<longleftrightarrow> uint base + int p \<in> missing)"
proof -
  obtain fr frs where fl: "flist = fr # frs" using assms(2) by (cases flist) auto
  have inp: "gaps_input (fr # frs) len" using assms(3-7) by (simp add: fl gaps_input_def highest_frag_def)
  have key: "map_of (fragments st) (FragKey pub_id seq) = Some (fr # frs)" using assms(1) fl by simp
  consider (before) "lo (transport_seq fr) \<noteq> 1" | (single) "lo (transport_seq fr) = 1" "frs = []"
    | (between) "lo (transport_seq fr) = 1" "frs \<noteq> []" by blast
  then have "gaps_reported flist len (get_gaps seq pub_id (replicate len 0) len 0 st)"
    using gaps_before [OF inp key] gaps_single [of fr len st pub_id seq] gaps_between [OF inp key] inp key fl by cases simp_all
  moreover have "missing = missing_frags flist"
    by (simp add: missing_def missing_frags_def known_def known_frags_def highest_def highest_frag_def)
  ultimately show ?thesis by (cases "get_gaps seq pub_id (replicate len 0) len 0 st") (simp add: gaps_reported_def)
qed

definition example_gaps :: "FragRange list" where
  "example_gaps = [\<lparr>transport_seq = (SN 1, SN 2), rec_ds = \<lparr>rds_header = mk_DataSampleHeader True, rds_sample = None\<rparr>\<rparr>,
     \<lparr>transport_seq = (SN 5, SN 5), rec_ds = \<lparr>rds_header = mk_DataSampleHeader True, rds_sample = None\<rparr>\<rparr>]"

text \<open>Of five fragments the third and the fourth are missing.\<close>

theorem get_gaps_correct_witness:
  "\<exists>base bm n. get_gaps (SN 7) GUID_UNKNOWN (replicate 2 0) 2 0
      \<lparr>fragments = [(FragKey GUID_UNKNOWN (SN 7), example_gaps)], have_first = {}\<rparr> = (base, bm, n)
     \<and> uint base = 3 \<and> {p. p < 64 \<and> bm_bit bm p} = {0, 1}"
proof -
  let ?st = "\<lparr>fragments = [(FragKey GUID_UNKNOWN (SN 7), example_gaps)], have_first = {}\<rparr>"
  have k: "ds_ints (map transport_seq example_gaps) = {1, 2, 5}" "hi (transport_seq (last example_gaps)) = 5"
    by (auto simp: example_gaps_def ds_ints_def range_ints_def getValue_setValue MAX_VALUE_def)
  have m: "{1 .. (5 :: int)} - {1, 2, 5} = {3, 4}" by auto
  have ne: "{1, 2, 5} \<noteq> {1 .. (5 :: int)}"
  proof
    assume "{1, 2, 5} = {1 .. (5 :: int)}"
    then have "3 \<in> {1, 2, 5 :: int}" by simp
    then show False by simp
  qed
  have "map_of (fragments ?st) (FragKey GUID_UNKNOWN (SN 7)) = Some example_gaps" "example_gaps \<noteq> []"
      "ds_inv (map transport_seq example_gaps)" "1 \<le> lo (transport_seq (hd example_gaps))"
      "hi (transport_seq (last example_gaps)) < 4294967295" "0 < (2 :: nat)" "32 * (2 :: nat) < ULONG_RANGE"
    by (simp_all add: example_gaps_def getValue_setValue MAX_VALUE_def apart_def)
  from get_gaps_correct [OF this] obtain base bm n where
      "get_gaps (SN 7) GUID_UNKNOWN (replicate 2 0) 2 0 ?st = (base, bm, n)" "uint base = 3"
      "\<forall>p < 64. bm_bit bm p \<longleftrightarrow> 3 + int p \<in> {3, 4}"
    unfolding k if_not_P [OF ne] m by auto
  then show ?thesis by (intro exI [of _ base] exI [of _ bm] exI [of _ n]) auto
qed

end
