(* ===== verification/Sample_Element.thy ===== *)
theory Sample_Element
  imports Sample_Header "HOL-Library.Monad_Syntax"
begin

text \<open>
  \<open>DataSampleElement\<close> (\<open>src/dds/DCPS/DataSampleElement.{h,inl}\<close>): a written sample with the links of the
  three intrusive lists it can be in. Elements live in a heap, a map from addresses to elements; a pointer is
  an address or null, and the access to an element that is null or not allocated is \<^term>\<open>None\<close>, like every
  other undefined behaviour of the sources. A \<open>DataSample*\<close> is the address of a message block: a duplicate of
  a block shares its data and is the same address here. The listener and the two allocators of the transport
  that an element carries are never used by the writer and are left out.
\<close>

type_synonym ptr = "nat option"

definition MAX_READERS_PER_ELEM :: nat where "MAX_READERS_PER_ELEM = 5"

record DataSampleElement =
  el_header :: DataSampleHeader
  el_sample :: ptr
  el_publication_id :: GUID_t
  el_num_subs :: ulong
  el_subscription_ids :: "GUID_t list"
  el_space_available :: bool
  el_handle :: ptr
  el_filter_out :: "GUID_t list option"
  el_filter_per_link :: "(ulong \<times> GUID_t list) list"
  previous_writer_sample :: ptr
  next_writer_sample :: ptr
  next_instance_sample :: ptr
  next_send_sample :: ptr
  previous_send_sample :: ptr

type_synonym element_heap = "nat \<rightharpoonup> DataSampleElement"

text \<open>The constructor; \<open>native\<close> is the byte order of the host.\<close>

definition mk_DataSampleElement :: "bool \<Rightarrow> GUID_t \<Rightarrow> ptr \<Rightarrow> DataSampleElement" where
  "mk_DataSampleElement native pub handle =
     \<lparr>el_header = mk_DataSampleHeader native, el_sample = None, el_publication_id = pub, el_num_subs = 0,
      el_subscription_ids = replicate MAX_READERS_PER_ELEM GUID_UNKNOWN, el_space_available = False,
      el_handle = handle, el_filter_out = None, el_filter_per_link = [], previous_writer_sample = None,
      next_writer_sample = None, next_instance_sample = None, next_send_sample = None,
      previous_send_sample = None\<rparr>"

text \<open>
  The copy constructor. It duplicates the sample, so it needs one, and it copies only the identifiers that
  are in use; \<open>mem\<close> is what the rest of the array held. All five links are copied as they are.
\<close>

definition copy_DataSampleElement :: "GUID_t list \<Rightarrow> DataSampleElement \<Rightarrow> DataSampleElement option" where
  "copy_DataSampleElement mem e =
     (if el_sample e = None \<or> MAX_READERS_PER_ELEM < unat (el_num_subs e) then None
      else Some (e\<lparr>el_subscription_ids :=
             take (unat (el_num_subs e)) (el_subscription_ids e) @ drop (unat (el_num_subs e)) mem\<rparr>))"

text \<open>Copy assignment keeps the rest of the array of the element assigned to.\<close>

definition assign_DataSampleElement :: "DataSampleElement \<Rightarrow> DataSampleElement \<Rightarrow> DataSampleElement option" where
  "assign_DataSampleElement e rhs = copy_DataSampleElement (el_subscription_ids e) rhs"

definition get_header :: "nat \<Rightarrow> element_heap \<Rightarrow> DataSampleHeader option" where
  "get_header a h = map_option el_header (h a)"

definition get_sample :: "nat \<Rightarrow> element_heap \<Rightarrow> ptr option" where
  "get_sample a h = map_option el_sample (h a)"

definition get_handle :: "nat \<Rightarrow> element_heap \<Rightarrow> ptr option" where
  "get_handle a h = map_option el_handle (h a)"

definition get_num_subs :: "nat \<Rightarrow> element_heap \<Rightarrow> ulong option" where
  "get_num_subs a h = map_option el_num_subs (h a)"

definition get_sub_id :: "nat \<Rightarrow> int \<Rightarrow> element_heap \<Rightarrow> GUID_t option" where
  "get_sub_id a i h =
     do {
       e \<leftarrow> h a;
       if 0 \<le> i \<and> i < int MAX_READERS_PER_ELEM then Some (el_subscription_ids e ! nat i) else None
     }"

definition space_available :: "nat \<Rightarrow> element_heap \<Rightarrow> bool option" where
  "space_available a h = map_option el_space_available (h a)"

text \<open>An assignment through a pointer to an element.\<close>

definition update_element :: "nat \<Rightarrow> (DataSampleElement \<Rightarrow> DataSampleElement) \<Rightarrow> element_heap \<Rightarrow> element_heap option" where
  "update_element a f h = map_option (\<lambda>e. h(a \<mapsto> f e)) (h a)"

definition el_set_sample :: "ptr \<Rightarrow> DataSampleElement \<Rightarrow> DataSampleElement" where
  "el_set_sample s e = e\<lparr>el_sample := s\<rparr>"

definition set_num_subs :: "int \<Rightarrow> DataSampleElement \<Rightarrow> DataSampleElement" where
  "set_num_subs n e = e\<lparr>el_num_subs := word_of_int n\<rparr>"

definition set_sub_id :: "int \<Rightarrow> GUID_t \<Rightarrow> DataSampleElement \<Rightarrow> DataSampleElement option" where
  "set_sub_id i g e =
     (if 0 \<le> i \<and> i < int MAX_READERS_PER_ELEM
      then Some (e\<lparr>el_subscription_ids := (el_subscription_ids e)[nat i := g]\<rparr>) else None)"

definition set_space_available :: "bool \<Rightarrow> DataSampleElement \<Rightarrow> DataSampleElement" where
  "set_space_available b e = e\<lparr>el_space_available := b\<rparr>"

definition set_filter_out :: "GUID_t list option \<Rightarrow> DataSampleElement \<Rightarrow> DataSampleElement" where
  "set_filter_out f e = e\<lparr>el_filter_out := f\<rparr>"

definition get_next_send_sample :: "nat \<Rightarrow> element_heap \<Rightarrow> ptr option" where
  "get_next_send_sample a h = map_option next_send_sample (h a)"

definition set_next_send_sample :: "ptr \<Rightarrow> DataSampleElement \<Rightarrow> DataSampleElement" where
  "set_next_send_sample p e = e\<lparr>next_send_sample := p\<rparr>"

section \<open>What an operation may change\<close>

text \<open>
  The heap as each of the three lists sees it, and everything that is not a link. Two heaps with the same
  four views are equal.
\<close>

definition send_view :: "element_heap \<Rightarrow> nat \<rightharpoonup> ptr \<times> ptr" where
  "send_view h a = map_option (\<lambda>e. (next_send_sample e, previous_send_sample e)) (h a)"

definition writer_view :: "element_heap \<Rightarrow> nat \<rightharpoonup> ptr \<times> ptr" where
  "writer_view h a = map_option (\<lambda>e. (next_writer_sample e, previous_writer_sample e)) (h a)"

definition instance_view :: "element_heap \<Rightarrow> nat \<rightharpoonup> ptr" where
  "instance_view h a = map_option next_instance_sample (h a)"

definition unlinked :: "DataSampleElement \<Rightarrow> DataSampleElement" where
  "unlinked e = e\<lparr>previous_writer_sample := None, next_writer_sample := None, next_instance_sample := None,
     next_send_sample := None, previous_send_sample := None\<rparr>"

definition data_view :: "element_heap \<Rightarrow> nat \<rightharpoonup> DataSampleElement" where
  "data_view h a = map_option unlinked (h a)"

lemma views_of_update:
  assumes "h a = Some e"
  shows "send_view (h(a \<mapsto> e')) = (send_view h)(a \<mapsto> (next_send_sample e', previous_send_sample e'))"
    and "writer_view (h(a \<mapsto> e')) = (writer_view h)(a \<mapsto> (next_writer_sample e', previous_writer_sample e'))"
    and "instance_view (h(a \<mapsto> e')) = (instance_view h)(a \<mapsto> next_instance_sample e')"
    and "data_view (h(a \<mapsto> e')) = (data_view h)(a \<mapsto> unlinked e')"
  by (auto simp: fun_eq_iff send_view_def writer_view_def instance_view_def data_view_def)

lemma view_eq_None [simp]:
  "send_view h a = None \<longleftrightarrow> h a = None" "writer_view h a = None \<longleftrightarrow> h a = None"
  "instance_view h a = None \<longleftrightarrow> h a = None" "data_view h a = None \<longleftrightarrow> h a = None"
  by (simp_all add: send_view_def writer_view_def instance_view_def data_view_def)

lemma unlinked_inject:
  assumes "unlinked e' = unlinked e" "next_send_sample e' = next_send_sample e"
    "previous_send_sample e' = previous_send_sample e" "next_writer_sample e' = next_writer_sample e"
    "previous_writer_sample e' = previous_writer_sample e" "next_instance_sample e' = next_instance_sample e"
  shows "e' = e"
  using assms by (cases e; cases e') (simp add: unlinked_def)

lemma heap_eqI:
  assumes "send_view h' = send_view h" "writer_view h' = writer_view h"
    "instance_view h' = instance_view h" "data_view h' = data_view h"
  shows "h' = h"
proof
  fix a
  show "h' a = h a"
    using assms [THEN fun_cong, of a]
    by (cases "h a"; cases "h' a")
      (auto simp: send_view_def writer_view_def instance_view_def data_view_def intro: unlinked_inject)
qed

end
