(* ===== verification/Sample_Lists.thy ===== *)
theory Sample_Lists
  imports Sample_Element
begin

text \<open>
  The three intrusive lists of written samples (\<open>src/dds/DCPS/SendStateDataSampleList.{h,inl,cpp}\<close>,
  \<open>WriterDataSampleList.{h,inl,cpp}\<close> and \<open>InstanceDataSampleList.{h,inl,cpp}\<close>), on the heap of
  \<^theory_text>\<open>Sample_Element\<close>. They have the same members, so one record stands for the three. The locale
  \<^theory_text>\<open>intrusive_list\<close> states what they promise; each of them is an interpretation, and what a client may
  rely on is proved once.
\<close>

record sample_list =
  sl_head :: ptr
  sl_tail :: ptr
  sl_size :: int

definition sample_list_reset :: sample_list where
  "sample_list_reset = \<lparr>sl_head = None, sl_tail = None, sl_size = 0\<rparr>"

section \<open>SendStateDataSampleList\<close>

definition send_enqueue_tail :: "nat \<Rightarrow> element_heap \<times> sample_list \<Rightarrow> (element_heap \<times> sample_list) option" where
  "send_enqueue_tail s = (\<lambda>(h, l).
     let l = l\<lparr>sl_size := sl_size l + 1\<rparr> in
     if sl_head l = None then Some (h, l\<lparr>sl_head := Some s, sl_tail := Some s\<rparr>)
     else do {
       h \<leftarrow> update_element s (\<lambda>e. e\<lparr>previous_send_sample := sl_tail l\<rparr>) h;
       t \<leftarrow> sl_tail l;
       h \<leftarrow> update_element t (\<lambda>e. e\<lparr>next_send_sample := Some s\<rparr>) h;
       Some (h, l\<lparr>sl_tail := Some s\<rparr>)
     })"

definition send_append :: "sample_list \<Rightarrow> element_heap \<times> sample_list \<Rightarrow> (element_heap \<times> sample_list) option" where
  "send_append list = (\<lambda>(h, l).
     if sl_head l = None
     then Some (h, l\<lparr>sl_head := sl_head list, sl_tail := sl_tail list, sl_size := sl_size list\<rparr>)
     else do {
       t \<leftarrow> sl_tail l;
       h \<leftarrow> update_element t (\<lambda>e. e\<lparr>next_send_sample := sl_head list\<rparr>) h;
       a \<leftarrow> sl_head list;
       h \<leftarrow> update_element a (\<lambda>e. e\<lparr>previous_send_sample := sl_tail l\<rparr>) h;
       Some (h, l\<lparr>sl_tail := sl_tail list, sl_size := sl_size l + sl_size list\<rparr>)
     })"

definition send_dequeue_head :: "element_heap \<times> sample_list \<Rightarrow> (bool \<times> ptr \<times> element_heap \<times> sample_list) option" where
  "send_dequeue_head = (\<lambda>(h, l).
     case sl_head l of
       None \<Rightarrow> Some (False, None, h, l)
     | Some s \<Rightarrow> do {
         e \<leftarrow> h s;
         let l = l\<lparr>sl_size := sl_size l - 1, sl_head := next_send_sample e\<rparr>;
         (h, l) \<leftarrow> (case sl_head l of
             None \<Rightarrow> Some (h, l\<lparr>sl_tail := None\<rparr>)
           | Some n \<Rightarrow> do {
               h \<leftarrow> update_element n (\<lambda>e. e\<lparr>previous_send_sample := None\<rparr>) h;
               Some (h, l)
             });
         h \<leftarrow> update_element s (\<lambda>e. e\<lparr>next_send_sample := None, previous_send_sample := None\<rparr>) h;
         Some (True, Some s, h, l)
       })"

text \<open>The search of \<open>dequeue\<close>; it reads the link of the element it finds before it stops.\<close>

partial_function (option) send_find :: "element_heap \<Rightarrow> nat \<Rightarrow> ptr \<Rightarrow> bool option" where
  "send_find h stale item =
     (case item of
        None \<Rightarrow> Some False
      | Some i \<Rightarrow> (case h i of
          None \<Rightarrow> None
        | Some e \<Rightarrow> if i = stale then Some True else send_find h stale (next_send_sample e)))"

definition send_unlink :: "nat \<Rightarrow> element_heap \<times> sample_list \<Rightarrow> (element_heap \<times> sample_list) option" where
  "send_unlink r = (\<lambda>(h, l). do {
     let l = l\<lparr>sl_size := sl_size l - 1\<rparr>;
     e \<leftarrow> h r;
     p \<leftarrow> previous_send_sample e;
     h \<leftarrow> update_element p (\<lambda>e'. e'\<lparr>next_send_sample := next_send_sample e\<rparr>) h;
     (h, l) \<leftarrow> (case next_send_sample e of
         Some n \<Rightarrow> do {
           h \<leftarrow> update_element n (\<lambda>e'. e'\<lparr>previous_send_sample := Some p\<rparr>) h;
           Some (h, l)
         }
       | None \<Rightarrow> do {
           h \<leftarrow> update_element p (\<lambda>e'. e'\<lparr>next_send_sample := None\<rparr>) h;
           Some (h, l\<lparr>sl_tail := Some p\<rparr>)
         });
     h \<leftarrow> update_element r (\<lambda>e. e\<lparr>next_send_sample := None, previous_send_sample := None\<rparr>) h;
     Some (h, l)
   })"

definition send_dequeue :: "nat \<Rightarrow> element_heap \<times> sample_list \<Rightarrow> (bool \<times> element_heap \<times> sample_list) option" where
  "send_dequeue stale = (\<lambda>(h, l).
     case sl_head l of
       None \<Rightarrow> Some (False, h, l)
     | Some first \<Rightarrow>
         if stale = first then do {
           (b, _, h, l) \<leftarrow> send_dequeue_head (h, l);
           Some (b, h, l)
         }
         else do {
           e \<leftarrow> h first;
           found \<leftarrow> send_find h stale (next_send_sample e);
           if found then do {
             (h, l) \<leftarrow> send_unlink stale (h, l);
             Some (True, h, l)
           }
           else Some (False, h, l)
         })"

text \<open>The walk to the head of the list an element is in, and the list with that head.\<close>

partial_function (option) send_head_of :: "element_heap \<Rightarrow> nat \<Rightarrow> nat option" where
  "send_head_of h a =
     (case h a of
        None \<Rightarrow> None
      | Some e \<Rightarrow> (case previous_send_sample e of None \<Rightarrow> Some a | Some p \<Rightarrow> send_head_of h p))"

fun first_with_head :: "nat \<Rightarrow> ('k \<times> sample_list) list \<Rightarrow> 'k option" where
  "first_with_head a [] = None"
| "first_with_head a ((k, l) # ls) = (if sl_head l = Some a then Some k else first_with_head a ls)"

definition send_list_containing_element :: "element_heap \<Rightarrow> ptr \<Rightarrow> ('k \<times> sample_list) list \<Rightarrow> 'k option option" where
  "send_list_containing_element h element send_lists =
     do {
       a \<leftarrow> element;
       head \<leftarrow> send_head_of h a;
       Some (first_with_head head send_lists)
     }"

text \<open>The iterators: past the end, decrementing goes to the tail the iterator was made with.\<close>

record send_iterator =
  it_head :: ptr
  it_tail :: ptr
  it_current :: ptr

definition send_begin :: "sample_list \<Rightarrow> send_iterator" where
  "send_begin l = \<lparr>it_head = sl_head l, it_tail = sl_tail l, it_current = sl_head l\<rparr>"

definition send_end :: "sample_list \<Rightarrow> send_iterator" where
  "send_end l = \<lparr>it_head = sl_head l, it_tail = sl_tail l, it_current = None\<rparr>"

definition iter_incr :: "element_heap \<Rightarrow> send_iterator \<Rightarrow> send_iterator option" where
  "iter_incr h it =
     (case it_current it of
        None \<Rightarrow> Some it
      | Some a \<Rightarrow> map_option (\<lambda>e. it\<lparr>it_current := next_send_sample e\<rparr>) (h a))"

definition iter_decr :: "element_heap \<Rightarrow> send_iterator \<Rightarrow> send_iterator option" where
  "iter_decr h it =
     (case it_current it of
        None \<Rightarrow> Some (it\<lparr>it_current := it_tail it\<rparr>)
      | Some a \<Rightarrow> map_option (\<lambda>e. it\<lparr>it_current := previous_send_sample e\<rparr>) (h a))"

definition iter_deref :: "element_heap \<Rightarrow> send_iterator \<Rightarrow> DataSampleElement option" where
  "iter_deref h it = Option.bind (it_current it) h"

text \<open>The elements an iteration from \<open>begin()\<close> to \<open>end()\<close> visits.\<close>

partial_function (option) iter_elements :: "element_heap \<Rightarrow> ptr \<Rightarrow> nat list option" where
  "iter_elements h cur =
     (case cur of
        None \<Rightarrow> Some []
      | Some a \<Rightarrow> (case h a of
          None \<Rightarrow> None
        | Some e \<Rightarrow> do { as \<leftarrow> iter_elements h (next_send_sample e); Some (a # as) }))"

section \<open>WriterDataSampleList\<close>

definition writer_enqueue_tail :: "nat \<Rightarrow> element_heap \<times> sample_list \<Rightarrow> (element_heap \<times> sample_list) option" where
  "writer_enqueue_tail s = (\<lambda>(h, l).
     let l = l\<lparr>sl_size := sl_size l + 1\<rparr> in
     if sl_head l = None then Some (h, l\<lparr>sl_head := Some s, sl_tail := Some s\<rparr>)
     else do {
       t \<leftarrow> sl_tail l;
       h \<leftarrow> update_element t (\<lambda>e. e\<lparr>next_writer_sample := Some s\<rparr>) h;
       h \<leftarrow> update_element s (\<lambda>e. e\<lparr>previous_writer_sample := Some t\<rparr>) h;
       Some (h, l\<lparr>sl_tail := Some s\<rparr>)
     })"

definition writer_dequeue_head :: "element_heap \<times> sample_list \<Rightarrow> (bool \<times> ptr \<times> element_heap \<times> sample_list) option" where
  "writer_dequeue_head = (\<lambda>(h, l).
     case sl_head l of
       None \<Rightarrow> Some (False, None, h, l)
     | Some s \<Rightarrow> do {
         e \<leftarrow> h s;
         let l = l\<lparr>sl_size := sl_size l - 1, sl_head := next_writer_sample e\<rparr>;
         (h, l) \<leftarrow> (case sl_head l of
             None \<Rightarrow> Some (h, l\<lparr>sl_tail := None\<rparr>)
           | Some n \<Rightarrow> do {
               h \<leftarrow> update_element n (\<lambda>e. e\<lparr>previous_writer_sample := None\<rparr>) h;
               Some (h, l)
             });
         h \<leftarrow> update_element s (\<lambda>e. e\<lparr>next_writer_sample := None, previous_writer_sample := None\<rparr>) h;
         Some (True, Some s, h, l)
       })"

partial_function (option) writer_find :: "element_heap \<Rightarrow> nat \<Rightarrow> ptr \<Rightarrow> bool option" where
  "writer_find h stale item =
     (case item of
        None \<Rightarrow> Some False
      | Some i \<Rightarrow> if i = stale then Some True
          else (case h i of None \<Rightarrow> None | Some e \<Rightarrow> writer_find h stale (next_writer_sample e)))"

definition writer_unlink :: "nat \<Rightarrow> element_heap \<times> sample_list \<Rightarrow> (element_heap \<times> sample_list) option" where
  "writer_unlink r = (\<lambda>(h, l). do {
     let l = l\<lparr>sl_size := sl_size l - 1\<rparr>;
     e \<leftarrow> h r;
     (h, l) \<leftarrow> (case previous_writer_sample e of
         Some p \<Rightarrow> do {
           h \<leftarrow> update_element p (\<lambda>e'. e'\<lparr>next_writer_sample := next_writer_sample e\<rparr>) h;
           Some (h, l)
         }
       | None \<Rightarrow> (case next_writer_sample e of
           None \<Rightarrow> Some (h, l\<lparr>sl_head := None\<rparr>)
         | Some n \<Rightarrow> do {
             h \<leftarrow> update_element n (\<lambda>e'. e'\<lparr>previous_writer_sample := None\<rparr>) h;
             Some (h, l\<lparr>sl_head := Some n\<rparr>)
           }));
     (h, l) \<leftarrow> (case next_writer_sample e of
         Some n \<Rightarrow> do {
           h \<leftarrow> update_element n (\<lambda>e'. e'\<lparr>previous_writer_sample := previous_writer_sample e\<rparr>) h;
           Some (h, l)
         }
       | None \<Rightarrow> Some (h, l\<lparr>sl_tail := previous_writer_sample e\<rparr>));
     h \<leftarrow> update_element r (\<lambda>e. e\<lparr>next_writer_sample := None, previous_writer_sample := None\<rparr>) h;
     Some (h, l)
   })"

definition writer_dequeue :: "nat \<Rightarrow> element_heap \<times> sample_list \<Rightarrow> (bool \<times> element_heap \<times> sample_list) option" where
  "writer_dequeue stale = (\<lambda>(h, l).
     case sl_head l of
       None \<Rightarrow> Some (False, h, l)
     | Some first \<Rightarrow>
         if stale = first then do {
           (b, _, h, l) \<leftarrow> writer_dequeue_head (h, l);
           Some (b, h, l)
         }
         else do {
           e \<leftarrow> h first;
           found \<leftarrow> writer_find h stale (next_writer_sample e);
           if found then do {
             (h, l) \<leftarrow> writer_unlink stale (h, l);
             Some (True, h, l)
           }
           else Some (False, h, l)
         })"

section \<open>InstanceDataSampleList\<close>

definition instance_enqueue_tail :: "nat \<Rightarrow> element_heap \<times> sample_list \<Rightarrow> (element_heap \<times> sample_list) option" where
  "instance_enqueue_tail s = (\<lambda>(h, l). do {
     h \<leftarrow> update_element s (\<lambda>e. e\<lparr>next_instance_sample := None\<rparr>) h;
     let l = l\<lparr>sl_size := sl_size l + 1\<rparr>;
     if sl_head l = None then Some (h, l\<lparr>sl_head := Some s, sl_tail := Some s\<rparr>)
     else do {
       t \<leftarrow> sl_tail l;
       h \<leftarrow> update_element t (\<lambda>e. e\<lparr>next_instance_sample := Some s\<rparr>) h;
       Some (h, l\<lparr>sl_tail := Some s\<rparr>)
     }
   })"

definition instance_dequeue_head :: "element_heap \<times> sample_list \<Rightarrow> (bool \<times> ptr \<times> element_heap \<times> sample_list) option" where
  "instance_dequeue_head = (\<lambda>(h, l).
     case sl_head l of
       None \<Rightarrow> Some (False, None, h, l)
     | Some s \<Rightarrow> do {
         e \<leftarrow> h s;
         let l = l\<lparr>sl_size := sl_size l - 1, sl_head := next_instance_sample e\<rparr>;
         let l = (if sl_head l = None then l\<lparr>sl_tail := None\<rparr> else l);
         h \<leftarrow> update_element s (\<lambda>e. e\<lparr>next_instance_sample := None\<rparr>) h;
         Some (True, Some s, h, l)
       })"

text \<open>The loop of \<open>dequeue\<close>: the element before the one that is looked for, if it is found.\<close>

partial_function (option) instance_find :: "element_heap \<Rightarrow> nat \<Rightarrow> nat \<Rightarrow> ptr \<Rightarrow> ptr option" where
  "instance_find h stale prev item =
     (if item = None then Some None
      else if item = Some stale then Some (Some prev)
      else do {
        e \<leftarrow> h (the item);
        instance_find h stale (the item) (next_instance_sample e)
      })"

definition instance_dequeue :: "nat \<Rightarrow> element_heap \<times> sample_list \<Rightarrow> (bool \<times> element_heap \<times> sample_list) option" where
  "instance_dequeue stale = (\<lambda>(h, l).
     case sl_head l of
       None \<Rightarrow> Some (False, h, l)
     | Some first \<Rightarrow>
         if stale = first then do {
           (b, _, h, l) \<leftarrow> instance_dequeue_head (h, l);
           Some (b, h, l)
         }
         else do {
           e \<leftarrow> h first;
           prev \<leftarrow> instance_find h stale first (next_instance_sample e);
           case prev of
             None \<Rightarrow> Some (False, h, l)
           | Some p \<Rightarrow> do {
               e \<leftarrow> h stale;
               h \<leftarrow> update_element p (\<lambda>e'. e'\<lparr>next_instance_sample := next_instance_sample e\<rparr>) h;
               let l = (if next_instance_sample e = None then l\<lparr>sl_tail := Some p\<rparr> else l);
               let l = l\<lparr>sl_size := sl_size l - 1\<rparr>;
               h \<leftarrow> update_element stale (\<lambda>e. e\<lparr>next_instance_sample := None\<rparr>) h;
               Some (True, h, l)
             }
         })"

text \<open>The searches along the links are executable by their equations.\<close>

declare send_find.simps [code] send_head_of.simps [code] iter_elements.simps [code] writer_find.simps [code]
  instance_find.simps [code]

end
