(* ===== verification/Intrusive_Lists.thy ===== *)
theory Intrusive_Lists
  imports Sample_Lists
begin

text \<open>
  What the three intrusive lists promise, as a locale, and that each of them keeps the promise: the list
  represents a sequence of elements, the operations are those of a queue from which any element can be taken,
  and they touch no link of another list and nothing but the links of the elements they represent. What the
  clients use of it, moving elements between lists and runs of operations, is proved in the locale.
\<close>

definition hd_or :: "ptr \<Rightarrow> nat list \<Rightarrow> ptr" where
  "hd_or n xs = (case xs of [] \<Rightarrow> n | x # _ \<Rightarrow> Some x)"

definition last_or :: "ptr \<Rightarrow> nat list \<Rightarrow> ptr" where
  "last_or p xs = (if xs = [] then p else Some (last xs))"

lemma hd_or_simps [simp]:
  "hd_or n [] = n" "hd_or n (x # xs) = Some x" "hd_or n (xs @ ys) = hd_or (hd_or n ys) xs"
  by (auto simp: hd_or_def split: list.split)

lemma last_or_simps [simp]:
  "last_or p [] = p" "last_or p (x # xs) = last_or (Some x) xs" "last_or p (xs @ ys) = last_or (last_or p xs) ys"
  by (auto simp: last_or_def)

lemma hd_or_None [simp]: "hd_or None xs = None \<longleftrightarrow> xs = []"
  by (cases xs) simp_all

lemma hd_or_Some [simp]: "\<exists>y. hd_or (Some t) xs = Some y"
  by (cases xs) simp_all

lemma last_or_None [simp]: "last_or None xs = None \<longleftrightarrow> xs = []"
  by (simp add: last_or_def)

text \<open>Linked segments: from the predecessor \<open>p\<close> to the successor \<open>n\<close>.\<close>

fun dseg :: "(nat \<rightharpoonup> ptr \<times> ptr) \<Rightarrow> ptr \<Rightarrow> nat list \<Rightarrow> ptr \<Rightarrow> bool" where
  "dseg v p [] n \<longleftrightarrow> True"
| "dseg v p (a # xs) n \<longleftrightarrow> v a = Some (hd_or n xs, p) \<and> dseg v (Some a) xs n"

fun sseg :: "(nat \<rightharpoonup> ptr) \<Rightarrow> nat list \<Rightarrow> ptr \<Rightarrow> bool" where
  "sseg v [] n \<longleftrightarrow> True"
| "sseg v (a # xs) n \<longleftrightarrow> v a = Some (hd_or n xs) \<and> sseg v xs n"

lemma dseg_append [simp]:
  "dseg v p (xs @ ys) n \<longleftrightarrow> dseg v p xs (hd_or n ys) \<and> dseg v (last_or p xs) ys n"
  by (induction xs arbitrary: p) simp_all

lemma sseg_append [simp]: "sseg v (xs @ ys) n \<longleftrightarrow> sseg v xs (hd_or n ys) \<and> sseg v ys n"
  by (induction xs) simp_all

lemma dseg_cong: "dseg v p xs n \<Longrightarrow> (\<And>a. a \<in> set xs \<Longrightarrow> v' a = v a) \<Longrightarrow> dseg v' p xs n"
  by (induction xs arbitrary: p) simp_all

lemma sseg_cong: "sseg v xs n \<Longrightarrow> (\<And>a. a \<in> set xs \<Longrightarrow> v' a = v a) \<Longrightarrow> sseg v' xs n"
  by (induction xs) simp_all

lemma dseg_upd [simp]: "a \<notin> set xs \<Longrightarrow> dseg (v(a := x)) p xs n = dseg v p xs n"
  by (induction xs arbitrary: p) auto

lemma sseg_upd [simp]: "a \<notin> set xs \<Longrightarrow> sseg (v(a := x)) xs n = sseg v xs n"
  by (induction xs) auto

lemma dseg_in_heap: "dseg v p xs n \<Longrightarrow> a \<in> set xs \<Longrightarrow> v a \<noteq> None"
  by (induction xs arbitrary: p) auto

lemma sseg_in_heap: "sseg v xs n \<Longrightarrow> a \<in> set xs \<Longrightarrow> v a \<noteq> None"
  by (induction xs) auto

definition list_rep :: "sample_list \<Rightarrow> nat list \<Rightarrow> bool" where
  "list_rep l xs \<longleftrightarrow>
     distinct xs \<and> sl_head l = hd_or None xs \<and> sl_tail l = last_or None xs \<and> sl_size l = int (length xs)"

definition dlist_rep :: "(element_heap \<Rightarrow> nat \<rightharpoonup> ptr \<times> ptr) \<Rightarrow> element_heap \<Rightarrow> sample_list \<Rightarrow> nat list \<Rightarrow> bool" where
  "dlist_rep view h l xs \<longleftrightarrow> list_rep l xs \<and> dseg (view h) None xs None"

definition dlist_loose :: "(element_heap \<Rightarrow> nat \<rightharpoonup> ptr \<times> ptr) \<Rightarrow> element_heap \<Rightarrow> nat \<Rightarrow> bool" where
  "dlist_loose view h a \<longleftrightarrow> view h a = Some (None, None)"

abbreviation "send_rep \<equiv> dlist_rep send_view"
abbreviation "writer_rep \<equiv> dlist_rep writer_view"

definition instance_loose :: "element_heap \<Rightarrow> nat \<Rightarrow> bool" where
  "instance_loose h a \<longleftrightarrow> h a \<noteq> None"

definition instance_rep :: "element_heap \<Rightarrow> sample_list \<Rightarrow> nat list \<Rightarrow> bool" where
  "instance_rep h l xs \<longleftrightarrow> list_rep l xs \<and> sseg (instance_view h) xs None"

text \<open>The elements outside \<open>A\<close> keep what the list sees of them, and nothing else changes at all.\<close>

definition keeps :: "(element_heap \<Rightarrow> nat \<rightharpoonup> 'v) \<Rightarrow> (element_heap \<Rightarrow> 'r) \<Rightarrow> nat set \<Rightarrow> element_heap \<Rightarrow> element_heap \<Rightarrow> bool" where
  "keeps view rest A h h' \<longleftrightarrow> rest h' = rest h \<and> (\<forall>a. a \<notin> A \<longrightarrow> view h' a = view h a)"

lemma keeps_trans: "keeps view rest A h h' \<Longrightarrow> keeps view rest B h' h'' \<Longrightarrow> keeps view rest (A \<union> B) h h''"
  by (simp add: keeps_def)

lemma keeps_mono: "keeps view rest A h h' \<Longrightarrow> A \<subseteq> B \<Longrightarrow> keeps view rest B h h'"
  by (auto simp: keeps_def)

lemma keeps_refl [simp]: "keeps view rest A h h"
  by (simp add: keeps_def)

lemma split_behind_head:
  assumes "a \<in> set xs" "a \<noteq> x"
  obtains ys p zs where "x # xs = ys @ [p, a] @ zs"
proof -
  from assms(1) obtain us zs where "xs = us @ a # zs" by (auto dest: split_list)
  then have "x # xs = butlast (x # us) @ [last (x # us), a] @ zs" using append_butlast_last_id [of "x # us"] by simp
  then show thesis by (rule that)
qed

section \<open>The interface\<close>

datatype list_op = Enqueue_tail nat | Dequeue_head | Dequeue nat
datatype list_result = Enqueued | Dequeued_head ptr | Dequeued bool

fun list_step ::
    "(nat \<Rightarrow> element_heap \<times> sample_list \<Rightarrow> (element_heap \<times> sample_list) option) \<Rightarrow>
     (element_heap \<times> sample_list \<Rightarrow> (bool \<times> ptr \<times> element_heap \<times> sample_list) option) \<Rightarrow>
     (nat \<Rightarrow> element_heap \<times> sample_list \<Rightarrow> (bool \<times> element_heap \<times> sample_list) option) \<Rightarrow>
     list_op \<Rightarrow> element_heap \<times> sample_list \<Rightarrow> (list_result \<times> element_heap \<times> sample_list) option" where
  "list_step enq deqh deq (Enqueue_tail a) s = do { s \<leftarrow> enq a s; Some (Enqueued, s) }"
| "list_step enq deqh deq Dequeue_head s = do { (_, a, s) \<leftarrow> deqh s; Some (Dequeued_head a, s) }"
| "list_step enq deqh deq (Dequeue a) s = do { (b, s) \<leftarrow> deq a s; Some (Dequeued b, s) }"

text \<open>The reference: a sequence; an element that is in it is not enqueued again.\<close>

fun queue_step :: "list_op \<Rightarrow> nat list \<Rightarrow> (list_result \<times> nat list) option" where
  "queue_step (Enqueue_tail a) xs = (if a \<in> set xs then None else Some (Enqueued, xs @ [a]))"
| "queue_step Dequeue_head xs = Some (Dequeued_head (hd_or None xs), tl xs)"
| "queue_step (Dequeue a) xs = Some (Dequeued (a \<in> set xs), remove1 a xs)"

fun run_steps :: "('c \<Rightarrow> 's \<Rightarrow> ('r \<times> 's) option) \<Rightarrow> 'c list \<Rightarrow> 's \<Rightarrow> ('r list \<times> 's) option" where
  "run_steps step [] s = Some ([], s)"
| "run_steps step (c # cs) s =
     do { (r, s) \<leftarrow> step c s; (rs, s) \<leftarrow> run_steps step cs s; Some (r # rs, s) }"

text \<open>The elements a run enqueues.\<close>

fun enqueued :: "list_op list \<Rightarrow> nat set" where
  "enqueued [] = {}"
| "enqueued (Enqueue_tail a # ops) = insert a (enqueued ops)"
| "enqueued (_ # ops) = enqueued ops"

locale intrusive_list =
  fixes rep :: "element_heap \<Rightarrow> sample_list \<Rightarrow> nat list \<Rightarrow> bool"
    and loose :: "element_heap \<Rightarrow> nat \<Rightarrow> bool"
    and view :: "element_heap \<Rightarrow> nat \<rightharpoonup> 'v"
    and rest :: "element_heap \<Rightarrow> 'r"
    and enqueue_tail :: "nat \<Rightarrow> element_heap \<times> sample_list \<Rightarrow> (element_heap \<times> sample_list) option"
    and dequeue_head :: "element_heap \<times> sample_list \<Rightarrow> (bool \<times> ptr \<times> element_heap \<times> sample_list) option"
    and dequeue :: "nat \<Rightarrow> element_heap \<times> sample_list \<Rightarrow> (bool \<times> element_heap \<times> sample_list) option"
  assumes rep_cong: "rep h l xs \<Longrightarrow> (\<And>a. a \<in> set xs \<Longrightarrow> view h' a = view h a) \<Longrightarrow> rep h' l xs"
    and loose_cong: "loose h a \<Longrightarrow> view h' a = view h a \<Longrightarrow> loose h' a"
    and rep_list: "rep h l xs \<Longrightarrow> list_rep l xs"
    and rep_reset: "rep h sample_list_reset []"
    and enqueue_tail_rep:
      "rep h l xs \<Longrightarrow> loose h a \<Longrightarrow> a \<notin> set xs \<Longrightarrow>
       \<exists>h' l'. enqueue_tail a (h, l) = Some (h', l') \<and> rep h' l' (xs @ [a])
         \<and> keeps view rest (insert a (set xs)) h h'"
    and dequeue_head_empty: "rep h l [] \<Longrightarrow> dequeue_head (h, l) = Some (False, None, h, l)"
    and dequeue_head_rep:
      "rep h l (a # xs) \<Longrightarrow>
       \<exists>h' l'. dequeue_head (h, l) = Some (True, Some a, h', l') \<and> rep h' l' xs \<and> loose h' a
         \<and> keeps view rest (insert a (set xs)) h h'"
    and dequeue_rep:
      "rep h l xs \<Longrightarrow>
       \<exists>h' l'. dequeue a (h, l) = Some (a \<in> set xs, h', l') \<and> rep h' l' (remove1 a xs)
         \<and> (a \<in> set xs \<longrightarrow> loose h' a) \<and> (a \<notin> set xs \<longrightarrow> h' = h \<and> l' = l) \<and> keeps view rest (set xs) h h'"
begin

lemma rep_distinct: "rep h l xs \<Longrightarrow> distinct xs"
  using rep_list by (auto simp: list_rep_def)

lemma rep_keeps: "rep h l xs \<Longrightarrow> keeps view rest A h h' \<Longrightarrow> A \<inter> set xs = {} \<Longrightarrow> rep h' l xs"
  by (erule rep_cong) (auto simp: keeps_def)

lemma loose_keeps: "loose h a \<Longrightarrow> keeps view rest A h h' \<Longrightarrow> a \<notin> A \<Longrightarrow> loose h' a"
  by (erule loose_cong) (simp add: keeps_def)

text \<open>Moving an element from one list to the end of another.\<close>

lemma move_rep:
  assumes from_list: "rep h l xs" and to_list: "rep h l2 ys" and a: "a \<in> set xs" and dis: "set xs \<inter> set ys = {}"
  obtains h1 l1 h2 l2' where "dequeue a (h, l) = Some (True, h1, l1)" "enqueue_tail a (h1, l2) = Some (h2, l2')"
    "rep h2 l1 (remove1 a xs)" "rep h2 l2' (ys @ [a])" "keeps view rest (set xs \<union> set ys) h h2"
proof -
  obtain h1 l1 where deq: "dequeue a (h, l) = Some (True, h1, l1)" "rep h1 l1 (remove1 a xs)" "loose h1 a"
      "keeps view rest (set xs) h h1"
    using dequeue_rep [OF from_list, of a] a by auto
  have "rep h1 l2 ys" using to_list deq(4) dis by (rule rep_keeps)
  moreover have "a \<notin> set ys" using a dis by auto
  ultimately obtain h2 l2' where enq: "enqueue_tail a (h1, l2) = Some (h2, l2')" "rep h2 l2' (ys @ [a])"
      "keeps view rest (insert a (set ys)) h1 h2"
    using enqueue_tail_rep deq(3) by blast
  have "a \<notin> set (remove1 a xs)" using rep_distinct [OF from_list] by simp
  then have "insert a (set ys) \<inter> set (remove1 a xs) = {}" using dis set_remove1_subset [of a xs] by auto
  then have "rep h2 l1 (remove1 a xs)" using rep_keeps [OF deq(2) enq(3)] by simp
  moreover have "keeps view rest (set xs \<union> set ys) h h2"
    using keeps_trans [OF deq(4) enq(3)] a by (auto intro: keeps_mono)
  ultimately show thesis using deq(1) enq(1,2) by (intro that)
qed

text \<open>Every operation, and so any run of them, behaves as it does on a sequence.\<close>

lemma step_refines:
  assumes rep: "rep h l xs" and A: "\<forall>a\<in>A. a \<in> set xs \<or> loose h a" "enqueued [c] \<subseteq> A"
    and step: "queue_step c xs = Some (r, ys)"
  shows "\<exists>h' l'. list_step enqueue_tail dequeue_head dequeue c (h, l) = Some (r, h', l') \<and> rep h' l' ys
    \<and> (\<forall>a\<in>A. a \<in> set ys \<or> loose h' a)"
proof (cases c)
  case (Enqueue_tail a)
  with step A have a: "a \<notin> set xs" "a \<in> A" "r = Enqueued" "ys = xs @ [a]" by (auto split: if_splits)
  then obtain h1 l1 where s: "enqueue_tail a (h, l) = Some (h1, l1)" "rep h1 l1 (xs @ [a])"
      "keeps view rest (insert a (set xs)) h h1"
    using enqueue_tail_rep rep A(1) by blast
  have "\<forall>x\<in>A. x \<in> set (xs @ [a]) \<or> loose h1 x" using A(1) loose_keeps [OF _ s(3)] by auto
  then show ?thesis using Enqueue_tail s a by simp
next
  case Dequeue_head
  show ?thesis
  proof (cases xs)
    case Nil
    then show ?thesis using rep A step Dequeue_head dequeue_head_empty by auto
  next
    case (Cons a zs)
    then obtain h1 l1 where s: "dequeue_head (h, l) = Some (True, Some a, h1, l1)" "rep h1 l1 zs" "loose h1 a"
        "keeps view rest (insert a (set zs)) h h1"
      using dequeue_head_rep rep by blast
    have "\<forall>x\<in>A. x \<in> set zs \<or> loose h1 x"
      using A(1) loose_keeps [OF _ s(4)] s(3) Cons by (metis insertE list.set(2))
    then show ?thesis using Dequeue_head s Cons step by simp
  qed
next
  case (Dequeue a)
  obtain h1 l1 where s: "dequeue a (h, l) = Some (a \<in> set xs, h1, l1)" "rep h1 l1 (remove1 a xs)"
      "a \<in> set xs \<longrightarrow> loose h1 a" "keeps view rest (set xs) h h1"
    using dequeue_rep [OF rep, of a] by auto
  have "x \<in> set (remove1 a xs) \<or> loose h1 x" if "x \<in> A" for x
    using that A(1) loose_keeps [OF _ s(4)] s(3) in_set_remove1 [of x a xs] by (cases "x = a") auto
  then show ?thesis using Dequeue s step by simp
qed

lemma run_refines:
  assumes "rep h l xs" "\<forall>a\<in>A. a \<in> set xs \<or> loose h a" "enqueued ops \<subseteq> A" "run_steps queue_step ops xs = Some (rs, ys)"
  shows "\<exists>h' l'. run_steps (list_step enqueue_tail dequeue_head dequeue) ops (h, l) = Some (rs, h', l') \<and> rep h' l' ys"
  using assms
proof (induction ops arbitrary: h l xs rs)
  case (Cons c ops)
  from Cons.prems(4) obtain r zs rs' where q: "queue_step c xs = Some (r, zs)"
      "run_steps queue_step ops zs = Some (rs', ys)" "rs = r # rs'"
    by (auto split: Option.bind_splits)
  have A: "enqueued [c] \<subseteq> A" "enqueued ops \<subseteq> A" using Cons.prems(3) by (cases c; auto)+
  obtain h1 l1 where s: "list_step enqueue_tail dequeue_head dequeue c (h, l) = Some (r, h1, l1)" "rep h1 l1 zs"
      "\<forall>a\<in>A. a \<in> set zs \<or> loose h1 a"
    using step_refines [OF Cons.prems(1,2) A(1) q(1)] by blast
  show ?case using Cons.IH [OF s(2,3) A(2) q(2)] s(1) q(3) by auto
qed simp

end

section \<open>Links in the heap\<close>

definition send_rest :: "element_heap \<Rightarrow> (nat \<rightharpoonup> ptr \<times> ptr) \<times> (nat \<rightharpoonup> ptr) \<times> (nat \<rightharpoonup> DataSampleElement)" where
  "send_rest h = (writer_view h, instance_view h, data_view h)"

definition writer_rest :: "element_heap \<Rightarrow> (nat \<rightharpoonup> ptr \<times> ptr) \<times> (nat \<rightharpoonup> ptr) \<times> (nat \<rightharpoonup> DataSampleElement)" where
  "writer_rest h = (send_view h, instance_view h, data_view h)"

definition instance_rest ::
    "element_heap \<Rightarrow> (nat \<rightharpoonup> ptr \<times> ptr) \<times> (nat \<rightharpoonup> ptr \<times> ptr) \<times> (nat \<rightharpoonup> DataSampleElement)" where
  "instance_rest h = (send_view h, writer_view h, data_view h)"

lemmas rest_defs = send_rest_def writer_rest_def instance_rest_def

text \<open>An assignment to the links of one list changes the view of that list only.\<close>

lemma view_upd_eq:
  "h a = Some e \<Longrightarrow> next_send_sample e' = next_send_sample e \<Longrightarrow> previous_send_sample e' = previous_send_sample e \<Longrightarrow>
   send_view (h(a \<mapsto> e')) = send_view h"
  "h a = Some e \<Longrightarrow> next_writer_sample e' = next_writer_sample e \<Longrightarrow> previous_writer_sample e' = previous_writer_sample e \<Longrightarrow>
   writer_view (h(a \<mapsto> e')) = writer_view h"
  "h a = Some e \<Longrightarrow> next_instance_sample e' = next_instance_sample e \<Longrightarrow> instance_view (h(a \<mapsto> e')) = instance_view h"
  "h a = Some e \<Longrightarrow> unlinked e' = unlinked e \<Longrightarrow> data_view (h(a \<mapsto> e')) = data_view h"
  by (auto simp: fun_eq_iff send_view_def writer_view_def instance_view_def data_view_def)

lemma unlinked_links [simp]:
  "unlinked (e\<lparr>next_send_sample := p\<rparr>) = unlinked e" "unlinked (e\<lparr>previous_send_sample := p\<rparr>) = unlinked e"
  "unlinked (e\<lparr>next_writer_sample := p\<rparr>) = unlinked e" "unlinked (e\<lparr>previous_writer_sample := p\<rparr>) = unlinked e"
  "unlinked (e\<lparr>next_instance_sample := p\<rparr>) = unlinked e"
  by (simp_all add: unlinked_def)

text \<open>A pair of links with their assignments; the two doubly linked lists are instances.\<close>

locale double_links =
  fixes view :: "element_heap \<Rightarrow> nat \<rightharpoonup> ptr \<times> ptr"
    and rest :: "element_heap \<Rightarrow> 'r"
    and get_next get_prev :: "DataSampleElement \<Rightarrow> ptr"
    and set_next set_prev :: "ptr \<Rightarrow> DataSampleElement \<Rightarrow> DataSampleElement"
  assumes view_eq: "view h a = map_option (\<lambda>e. (get_next e, get_prev e)) (h a)"
    and set_next: "h a = Some e \<Longrightarrow> view (h(a \<mapsto> set_next q e)) = (view h)(a \<mapsto> (q, get_prev e)) \<and>
      rest (h(a \<mapsto> set_next q e)) = rest h"
    and set_prev: "h a = Some e \<Longrightarrow> view (h(a \<mapsto> set_prev q e)) = (view h)(a \<mapsto> (get_next e, q)) \<and>
      rest (h(a \<mapsto> set_prev q e)) = rest h"
    and set_set: "set_next q (set_next r e) = set_next q e"
begin

lemma element_of_view: "view h a = Some (n, p) \<longleftrightarrow> (\<exists>e. h a = Some e \<and> get_next e = n \<and> get_prev e = p)"
  by (auto simp: view_eq)

lemma update_next:
  assumes "view h a = Some (n, p)"
  obtains h' where "update_element a (set_next q) h = Some h'" "view h' = (view h)(a \<mapsto> (q, p))" "rest h' = rest h"
  using assms set_next that unfolding element_of_view update_element_def by fastforce

lemma update_prev:
  assumes "view h a = Some (n, p)"
  obtains h' where "update_element a (set_prev q) h = Some h'" "view h' = (view h)(a \<mapsto> (n, q))" "rest h' = rest h"
  using assms set_prev that unfolding element_of_view update_element_def by fastforce

lemma update_both:
  assumes "view h a = Some (n, p)"
  obtains h' where "update_element a (\<lambda>e. set_prev q (set_next r e)) h = Some h'"
    "view h' = (view h)(a \<mapsto> (r, q))" "rest h' = rest h"
proof -
  obtain e where e: "h a = Some e" using assms element_of_view by auto
  have "view (h(a \<mapsto> set_next r e)) = (view h)(a \<mapsto> (r, get_prev e))" using e set_next by simp
  then have n: "get_next (set_next r e) = r" by (simp add: view_eq fun_eq_iff split: if_splits)
  have "h(a \<mapsto> set_prev q (set_next r e)) = (h(a \<mapsto> set_next r e))(a \<mapsto> set_prev q (set_next r e))" by simp
  then show thesis
    using e set_next [where h = h and a = a and e = e and q = r] set_prev [of "h(a \<mapsto> set_next r e)" a "set_next r e" q] n
    by (intro that [of "h(a \<mapsto> set_prev q (set_next r e))"]) (simp_all add: update_element_def)
qed

text \<open>Linking an element behind the tail, in either order of the two assignments.\<close>

lemma link_tail:
  assumes seg: "dseg (view h) None (zs @ [t]) None" and a: "view h a = Some (None, None)" "a \<notin> set (zs @ [t])"
    and dis: "distinct (zs @ [t])"
  obtains h1 h2 h3 where "update_element a (set_prev (Some t)) h = Some h1"
    "update_element t (set_next (Some a)) h1 = Some h3" "update_element t (set_next (Some a)) h = Some h2"
    "update_element a (set_prev (Some t)) h2 = Some h3"
    "dseg (view h3) None (zs @ [t, a]) None" "keeps view rest {a, t} h h3"
proof -
  have t: "view h t = Some (None, last_or None zs)" using seg by simp
  obtain h1 where h1: "update_element a (set_prev (Some t)) h = Some h1" "view h1 = (view h)(a \<mapsto> (None, Some t))"
      "rest h1 = rest h"
    using update_prev [OF a(1)] by metis
  obtain h2 where h2: "update_element t (set_next (Some a)) h = Some h2"
    using update_next [OF t] by metis
  have "view h1 t = Some (None, last_or None zs)" using h1(2) t a(2) by simp
  then obtain h3 where h3: "update_element t (set_next (Some a)) h1 = Some h3"
      "view h3 = (view h1)(t \<mapsto> (Some a, last_or None zs))" "rest h3 = rest h1"
    using update_next by metis
  have "update_element a (set_prev (Some t)) h2 = Some h3"
    using h1(1) h2(1) h3(1) a(2) by (auto simp: update_element_def fun_upd_twist)
  moreover have "dseg (view h3) None (zs @ [t, a]) None" using seg a dis h1(2) h3(2) by simp
  moreover have "keeps view rest {a, t} h h3" using h1(2,3) h3(2,3) by (simp add: keeps_def)
  ultimately show thesis using h1(1) h2 h3(1) by (intro that)
qed

text \<open>Taking the head of a list with a second element.\<close>

lemma unlink_head:
  assumes seg: "dseg (view h) None (a # n # zs) None" and dis: "distinct (a # n # zs)"
  obtains h1 h2 where "update_element n (set_prev None) h = Some h1"
    "update_element a (\<lambda>e. set_prev None (set_next None e)) h1 = Some h2"
    "dseg (view h2) None (n # zs) None" "view h2 a = Some (None, None)" "keeps view rest {a, n} h h2"
proof -
  obtain h1 where h1: "update_element n (set_prev None) h = Some h1" "view h1 = (view h)(n \<mapsto> (hd_or None zs, None))"
      "rest h1 = rest h"
    using update_prev [of h n "hd_or None zs" "Some a"] seg by auto
  then obtain h2 where "update_element a (\<lambda>e. set_prev None (set_next None e)) h1 = Some h2"
      "view h2 = (view h1)(a \<mapsto> (None, None))" "rest h2 = rest h1"
    using update_both [of h1 a "Some n" None None None] seg dis by auto
  then show thesis using h1 seg dis by (intro that) (auto simp: keeps_def)
qed

text \<open>Taking an element behind the head: the links of its neighbours, then its own.\<close>

lemma unlink_last:
  assumes seg: "dseg (view h) None (ys @ [p, a]) None" and dis: "distinct (ys @ [p, a])"
  obtains h1 h2 where "update_element p (set_next None) h = Some h1" "update_element p (set_next None) h1 = Some h1"
    "update_element a (\<lambda>e. set_prev None (set_next None e)) h1 = Some h2"
    "dseg (view h2) None (ys @ [p]) None" "view h2 a = Some (None, None)" "keeps view rest {p, a} h h2"
proof -
  obtain h1 where h1: "update_element p (set_next None) h = Some h1" "view h1 = (view h)(p \<mapsto> (None, last_or None ys))"
      "rest h1 = rest h"
    using update_next [of h p "Some a" "last_or None ys"] seg by auto
  have h1': "update_element p (set_next None) h1 = Some h1" using h1(1) by (auto simp: update_element_def set_set)
  obtain h2 where "update_element a (\<lambda>e. set_prev None (set_next None e)) h1 = Some h2"
      "view h2 = (view h1)(a \<mapsto> (None, None))" "rest h2 = rest h1"
    using update_both [of h1 a None "Some p" None None] h1(2) seg dis by auto
  then show thesis using h1 h1' seg dis by (intro that) (auto simp: keeps_def)
qed

lemma unlink_inner:
  assumes seg: "dseg (view h) None (ys @ [p, a, n] @ zs) None" and dis: "distinct (ys @ [p, a, n] @ zs)"
  obtains h1 h2 h3 where "update_element p (set_next (Some n)) h = Some h1"
    "update_element n (set_prev (Some p)) h1 = Some h2"
    "update_element a (\<lambda>e. set_prev None (set_next None e)) h2 = Some h3"
    "dseg (view h3) None (ys @ [p, n] @ zs) None" "view h3 a = Some (None, None)" "keeps view rest {p, a, n} h h3"
proof -
  obtain h1 where h1: "update_element p (set_next (Some n)) h = Some h1"
      "view h1 = (view h)(p \<mapsto> (Some n, last_or None ys))" "rest h1 = rest h"
    using update_next [of h p "Some a" "last_or None ys"] seg by auto
  obtain h2 where h2: "update_element n (set_prev (Some p)) h1 = Some h2"
      "view h2 = (view h1)(n \<mapsto> (hd_or None zs, Some p))" "rest h2 = rest h1"
    using update_prev [of h1 n "hd_or None zs" "Some a"] h1(2) seg dis by auto
  obtain h3 where h3: "update_element a (\<lambda>e. set_prev None (set_next None e)) h2 = Some h3"
      "view h3 = (view h2)(a \<mapsto> (None, None))" "rest h3 = rest h2"
    using update_both [of h2 a "Some n" "Some p" None None] h1(2) h2(2) seg dis by auto
  show thesis using h1 h2 h3 seg dis by (intro that) (auto simp: keeps_def)
qed

end

text \<open>The operations of a doubly linked list, given by what they assign.\<close>

locale double_list = double_links +
  fixes enqueue_tail :: "nat \<Rightarrow> element_heap \<times> sample_list \<Rightarrow> (element_heap \<times> sample_list) option"
    and dequeue_head :: "element_heap \<times> sample_list \<Rightarrow> (bool \<times> ptr \<times> element_heap \<times> sample_list) option"
    and dequeue :: "nat \<Rightarrow> element_heap \<times> sample_list \<Rightarrow> (bool \<times> element_heap \<times> sample_list) option"
    and find :: "element_heap \<Rightarrow> nat \<Rightarrow> ptr \<Rightarrow> bool option"
    and unlink :: "nat \<Rightarrow> element_heap \<times> sample_list \<Rightarrow> (element_heap \<times> sample_list) option"
  assumes enqueue_first: "sl_head l = None \<Longrightarrow>
      enqueue_tail a (h, l) = Some (h, l\<lparr>sl_head := Some a, sl_tail := Some a, sl_size := sl_size l + 1\<rparr>)"
    and enqueue_next: "\<lbrakk>sl_head l \<noteq> None; sl_tail l = Some t; update_element a (set_prev (Some t)) h = Some h1;
      update_element t (set_next (Some a)) h1 = Some h3; update_element t (set_next (Some a)) h = Some h2;
      update_element a (set_prev (Some t)) h2 = Some h3\<rbrakk> \<Longrightarrow>
      enqueue_tail a (h, l) = Some (h3, l\<lparr>sl_tail := Some a, sl_size := sl_size l + 1\<rparr>)"
    and head_none: "sl_head l = None \<Longrightarrow> dequeue_head (h, l) = Some (False, None, h, l)"
    and head_last: "\<lbrakk>sl_head l = Some a; h a = Some e; get_next e = None;
      update_element a (\<lambda>e. set_prev None (set_next None e)) h = Some h'\<rbrakk> \<Longrightarrow>
      dequeue_head (h, l) = Some (True, Some a, h', l\<lparr>sl_head := None, sl_tail := None, sl_size := sl_size l - 1\<rparr>)"
    and head_more: "\<lbrakk>sl_head l = Some a; h a = Some e; get_next e = Some n;
      update_element n (set_prev None) h = Some h1;
      update_element a (\<lambda>e. set_prev None (set_next None e)) h1 = Some h2\<rbrakk> \<Longrightarrow>
      dequeue_head (h, l) = Some (True, Some a, h2, l\<lparr>sl_head := Some n, sl_size := sl_size l - 1\<rparr>)"
    and find_none: "find h a None = Some False"
    and find_some: "h i = Some e \<Longrightarrow> find h a (Some i) = (if i = a then Some True else find h a (get_next e))"
    and unlink_last_eq: "\<lbrakk>h a = Some e; get_prev e = Some p; get_next e = None;
      update_element p (set_next None) h = Some h1; update_element p (set_next None) h1 = Some h1;
      update_element a (\<lambda>e. set_prev None (set_next None e)) h1 = Some h2\<rbrakk> \<Longrightarrow>
      unlink a (h, l) = Some (h2, l\<lparr>sl_tail := Some p, sl_size := sl_size l - 1\<rparr>)"
    and unlink_inner_eq: "\<lbrakk>h a = Some e; get_prev e = Some p; get_next e = Some n;
      update_element p (set_next (Some n)) h = Some h1; update_element n (set_prev (Some p)) h1 = Some h2;
      update_element a (\<lambda>e. set_prev None (set_next None e)) h2 = Some h3\<rbrakk> \<Longrightarrow>
      unlink a (h, l) = Some (h3, l\<lparr>sl_size := sl_size l - 1\<rparr>)"
    and dequeue_none: "sl_head l = None \<Longrightarrow> dequeue a (h, l) = Some (False, h, l)"
    and dequeue_first: "sl_head l = Some x \<Longrightarrow> dequeue x (h, l) = map_option (\<lambda>(b, _, s). (b, s)) (dequeue_head (h, l))"
    and dequeue_behind: "\<lbrakk>sl_head l = Some x; a \<noteq> x; h x = Some e; find h a (get_next e) = Some f\<rbrakk> \<Longrightarrow>
      dequeue a (h, l) = (if f then map_option (Pair True) (unlink a (h, l)) else Some (False, h, l))"
begin

lemma find_rep: "dseg (view h) p xs None \<Longrightarrow> find h a (hd_or None xs) = Some (a \<in> set xs)"
proof (induction xs arbitrary: p)
  case Nil
  then show ?case by (simp add: find_none)
next
  case (Cons x xs)
  then obtain e where "h x = Some e" "get_next e = hd_or None xs" by (auto simp: element_of_view)
  moreover have "find h a (hd_or None xs) = Some (a \<in> set xs)" using Cons.IH [of "Some x"] Cons.prems by simp
  ultimately show ?case by (auto simp: find_some)
qed

lemma dl_enqueue_tail_rep:
  assumes "dlist_rep view h l xs" "dlist_loose view h a" "a \<notin> set xs"
  shows "\<exists>h' l'. enqueue_tail a (h, l) = Some (h', l') \<and> dlist_rep view h' l' (xs @ [a])
    \<and> keeps view rest (insert a (set xs)) h h'"
proof (cases xs rule: rev_cases)
  case Nil
  then show ?thesis using assms by (simp add: enqueue_first dlist_rep_def list_rep_def dlist_loose_def)
next
  case (snoc zs t)
  then have "dseg (view h) None (zs @ [t]) None" "view h a = Some (None, None)" "a \<notin> set (zs @ [t])" "distinct (zs @ [t])"
    using assms by (auto simp: dlist_rep_def list_rep_def dlist_loose_def)
  from link_tail [OF this]
  obtain h1 h2 h3 where u: "update_element a (set_prev (Some t)) h = Some h1"
      "update_element t (set_next (Some a)) h1 = Some h3" "update_element t (set_next (Some a)) h = Some h2"
      "update_element a (set_prev (Some t)) h2 = Some h3"
      "dseg (view h3) None (zs @ [t, a]) None" "keeps view rest {a, t} h h3" .
  have "sl_head l \<noteq> None" "sl_tail l = Some t" using assms snoc by (auto simp: dlist_rep_def list_rep_def)
  then have "enqueue_tail a (h, l) = Some (h3, l\<lparr>sl_tail := Some a, sl_size := sl_size l + 1\<rparr>)"
    using u by (intro enqueue_next)
  moreover have "keeps view rest (insert a (set xs)) h h3" using u(6) by (rule keeps_mono) (auto simp: snoc)
  ultimately show ?thesis using assms snoc u(5) by (auto simp: dlist_rep_def list_rep_def)
qed

lemma dl_dequeue_head_rep:
  assumes "dlist_rep view h l (a # xs)"
  shows "\<exists>h' l'. dequeue_head (h, l) = Some (True, Some a, h', l') \<and> dlist_rep view h' l' xs \<and> dlist_loose view h' a
    \<and> keeps view rest (insert a (set xs)) h h'"
proof -
  have v: "view h a = Some (hd_or None xs, None)" using assms by (simp add: dlist_rep_def)
  then obtain e where e: "h a = Some e" "get_next e = hd_or None xs" by (auto simp: element_of_view)
  have l: "sl_head l = Some a" using assms by (simp add: dlist_rep_def list_rep_def)
  show ?thesis
  proof (cases xs)
    case Nil
    obtain h2 where u: "update_element a (\<lambda>e. set_prev None (set_next None e)) h = Some h2"
        "view h2 = (view h)(a \<mapsto> (None, None))" "rest h2 = rest h"
      using update_both [OF v] .
    then show ?thesis
      using assms e Nil head_last [OF l e(1) _ u(1)]
      by (auto simp: dlist_rep_def list_rep_def dlist_loose_def keeps_def)
  next
    case (Cons n zs)
    then have "dseg (view h) None (a # n # zs) None" "distinct (a # n # zs)"
      using assms by (simp_all add: dlist_rep_def list_rep_def)
    from unlink_head [OF this]
    obtain h1 h2 where u: "update_element n (set_prev None) h = Some h1"
        "update_element a (\<lambda>e. set_prev None (set_next None e)) h1 = Some h2"
        "dseg (view h2) None (n # zs) None" "view h2 a = Some (None, None)" "keeps view rest {a, n} h h2" .
    have "keeps view rest (insert a (set xs)) h h2" using u(5) by (rule keeps_mono) (auto simp: Cons)
    then show ?thesis
      using assms e Cons head_more [OF l e(1) _ u(1,2)] u(3,4)
      by (auto simp: dlist_rep_def list_rep_def dlist_loose_def)
  qed
qed

lemma unlink_rep:
  assumes "dlist_rep view h l (ys @ [p, a] @ zs)"
  shows "\<exists>h' l'. unlink a (h, l) = Some (h', l') \<and> dlist_rep view h' l' (ys @ [p] @ zs) \<and> dlist_loose view h' a
    \<and> keeps view rest (set (ys @ [p, a] @ zs)) h h'"
proof -
  obtain e where e: "h a = Some e" "get_prev e = Some p" "get_next e = hd_or None zs"
    using assms by (auto simp: dlist_rep_def element_of_view)
  show ?thesis
  proof (cases zs)
    case Nil
    then have "dseg (view h) None (ys @ [p, a]) None" "distinct (ys @ [p, a])"
      using assms by (simp_all add: dlist_rep_def list_rep_def)
    from unlink_last [OF this]
    obtain h1 h2 where u: "update_element p (set_next None) h = Some h1" "update_element p (set_next None) h1 = Some h1"
        "update_element a (\<lambda>e. set_prev None (set_next None e)) h1 = Some h2"
        "dseg (view h2) None (ys @ [p]) None" "view h2 a = Some (None, None)" "keeps view rest {p, a} h h2" .
    have "keeps view rest (set (ys @ [p, a] @ zs)) h h2" using u(6) by (rule keeps_mono) auto
    then show ?thesis
      using assms e Nil unlink_last_eq [OF e(1,2) _ u(1,2,3)] u(4,5)
      by (auto simp: dlist_rep_def list_rep_def dlist_loose_def)
  next
    case (Cons n ns)
    then have "dseg (view h) None (ys @ [p, a, n] @ ns) None" "distinct (ys @ [p, a, n] @ ns)"
      using assms by (simp_all add: dlist_rep_def list_rep_def)
    from unlink_inner [OF this]
    obtain h1 h2 h3 where u: "update_element p (set_next (Some n)) h = Some h1"
        "update_element n (set_prev (Some p)) h1 = Some h2"
        "update_element a (\<lambda>e. set_prev None (set_next None e)) h2 = Some h3"
        "dseg (view h3) None (ys @ [p, n] @ ns) None" "view h3 a = Some (None, None)" "keeps view rest {p, a, n} h h3" .
    have "keeps view rest (set (ys @ [p, a] @ zs)) h h3" using u(6) by (rule keeps_mono) (auto simp: Cons)
    then show ?thesis
      using assms e Cons unlink_inner_eq [OF e(1,2) _ u(1,2,3)] u(4,5)
      by (auto simp: dlist_rep_def list_rep_def dlist_loose_def)
  qed
qed

lemma dl_dequeue_rep:
  assumes rep: "dlist_rep view h l xs"
  shows "\<exists>h' l'. dequeue a (h, l) = Some (a \<in> set xs, h', l') \<and> dlist_rep view h' l' (remove1 a xs)
    \<and> (a \<in> set xs \<longrightarrow> dlist_loose view h' a) \<and> (a \<notin> set xs \<longrightarrow> h' = h \<and> l' = l) \<and> keeps view rest (set xs) h h'"
proof (cases xs)
  case Nil
  then show ?thesis using rep by (simp add: dequeue_none dlist_rep_def list_rep_def)
next
  case (Cons x zs)
  have hd: "sl_head l = Some x" using rep Cons by (simp add: dlist_rep_def list_rep_def)
  obtain e where e: "h x = Some e" "get_next e = hd_or None zs"
    using rep Cons by (auto simp: dlist_rep_def element_of_view)
  have find: "find h a (get_next e) = Some (a \<in> set zs)"
    using find_rep rep Cons e(2) by (auto simp: dlist_rep_def)
  consider "a = x" | "a \<noteq> x" "a \<in> set zs" | "a \<notin> set xs" using Cons by auto
  then show ?thesis
  proof cases
    case 1
    then show ?thesis using dl_dequeue_head_rep [of h l x zs] rep hd Cons by (auto simp: dequeue_first)
  next
    case 2
    obtain ys p us where split: "xs = ys @ [p, a] @ us" using split_behind_head [OF 2(2,1)] Cons by metis
    moreover have "distinct xs" using rep by (simp add: dlist_rep_def list_rep_def)
    ultimately have "remove1 a xs = ys @ [p] @ us" by (simp add: remove1_append)
    then show ?thesis
      using unlink_rep [of h l ys p a us] rep split 2(2) dequeue_behind [OF hd 2(1) e(1) find] by auto
  next
    case 3
    then show ?thesis using dequeue_behind [OF hd _ e(1) find] Cons rep by (simp add: remove1_idem)
  qed
qed

lemma dlist_laws:
  "dlist_rep view h l xs \<Longrightarrow> (\<And>a. a \<in> set xs \<Longrightarrow> view h' a = view h a) \<Longrightarrow> dlist_rep view h' l xs"
  "dlist_loose view h a \<Longrightarrow> view h' a = view h a \<Longrightarrow> dlist_loose view h' a"
  "dlist_rep view h l xs \<Longrightarrow> list_rep l xs"
  "dlist_rep view h sample_list_reset []"
  "dlist_rep view h l [] \<Longrightarrow> dequeue_head (h, l) = Some (False, None, h, l)"
  by (auto simp: dlist_rep_def dlist_loose_def list_rep_def sample_list_reset_def head_none elim: dseg_cong)

end

sublocale double_list \<subseteq> intrusive_list "dlist_rep view" "dlist_loose view" view rest enqueue_tail dequeue_head dequeue
  by (rule intrusive_list.intro; fact dlist_laws dl_enqueue_tail_rep dl_dequeue_head_rep dl_dequeue_rep)

section \<open>The three lists\<close>

lemma bind_as_map:
  "Option.bind m (\<lambda>(h, l). Some (b, h, l)) = map_option (Pair b) m"
  "Option.bind m' (\<lambda>(b, c, h, l). Some (b, h, l)) = map_option (\<lambda>(b, c, s). (b, s)) m'"
  by (cases m; auto) (cases m'; auto)

lemma send_dequeue_eqs:
  "sl_head l = None \<Longrightarrow> send_dequeue a (h, l) = Some (False, h, l)"
  "sl_head l = Some x \<Longrightarrow> send_dequeue x (h, l) = map_option (\<lambda>(b, _, s). (b, s)) (send_dequeue_head (h, l))"
  "\<lbrakk>sl_head l = Some x; a \<noteq> x; h x = Some e; send_find h a (next_send_sample e) = Some f\<rbrakk> \<Longrightarrow>
   send_dequeue a (h, l) = (if f then map_option (Pair True) (send_unlink a (h, l)) else Some (False, h, l))"
  by (simp_all add: send_dequeue_def bind_as_map)

interpretation send: double_list send_view send_rest next_send_sample previous_send_sample
  "\<lambda>q e. e\<lparr>next_send_sample := q\<rparr>" "\<lambda>q e. e\<lparr>previous_send_sample := q\<rparr>"
  send_enqueue_tail send_dequeue_head send_dequeue send_find send_unlink
  by unfold_locales
    (auto simp: send_view_def views_of_update(1) send_rest_def view_upd_eq send_enqueue_tail_def
      send_dequeue_head_def send_dequeue_eqs send_unlink_def send_find.simps)

lemma writer_dequeue_eqs:
  "sl_head l = None \<Longrightarrow> writer_dequeue a (h, l) = Some (False, h, l)"
  "sl_head l = Some x \<Longrightarrow> writer_dequeue x (h, l) = map_option (\<lambda>(b, _, s). (b, s)) (writer_dequeue_head (h, l))"
  "\<lbrakk>sl_head l = Some x; a \<noteq> x; h x = Some e; writer_find h a (next_writer_sample e) = Some f\<rbrakk> \<Longrightarrow>
   writer_dequeue a (h, l) = (if f then map_option (Pair True) (writer_unlink a (h, l)) else Some (False, h, l))"
  by (simp_all add: writer_dequeue_def bind_as_map)

interpretation writer: double_list writer_view writer_rest next_writer_sample previous_writer_sample
  "\<lambda>q e. e\<lparr>next_writer_sample := q\<rparr>" "\<lambda>q e. e\<lparr>previous_writer_sample := q\<rparr>"
  writer_enqueue_tail writer_dequeue_head writer_dequeue writer_find writer_unlink
  by unfold_locales
    (auto simp: writer_view_def views_of_update(2) writer_rest_def view_upd_eq writer_enqueue_tail_def
      writer_dequeue_head_def writer_dequeue_eqs writer_unlink_def writer_find.simps)

text \<open>The singly linked list of an instance; any allocated element can be enqueued.\<close>

lemma update_instance:
  assumes "instance_view h a = Some n"
  obtains h' where "update_element a (\<lambda>e. e\<lparr>next_instance_sample := q\<rparr>) h = Some h'"
    "instance_view h' = (instance_view h)(a \<mapsto> q)" "instance_rest h' = instance_rest h"
proof -
  obtain e where "h a = Some e" using assms by (auto simp: instance_view_def)
  then show thesis
    by (intro that [of "h(a \<mapsto> e\<lparr>next_instance_sample := q\<rparr>)"]) (simp_all add: update_element_def views_of_update(3) view_upd_eq instance_rest_def)
qed

lemma instance_find_rep:
  assumes "sseg (instance_view h) (x # xs) None"
  shows "instance_find h a x (hd_or None xs) =
    Some (if a \<in> set xs then Some (last (x # takeWhile (\<lambda>y. y \<noteq> a) xs)) else None)"
  using assms
proof (induction xs arbitrary: x)
  case Nil
  then show ?case by (simp add: instance_find.simps)
next
  case (Cons y ys)
  then obtain e where "h y = Some e" "next_instance_sample e = hd_or None ys" by (auto simp: instance_view_def)
  then show ?case using Cons by (auto simp: instance_find.simps [of h a x "Some y"])
qed

lemma instance_enqueue_tail_rep:
  assumes "instance_rep h l xs" "instance_loose h a" "a \<notin> set xs"
  shows "\<exists>h' l'. instance_enqueue_tail a (h, l) = Some (h', l') \<and> instance_rep h' l' (xs @ [a])
    \<and> keeps instance_view instance_rest (insert a (set xs)) h h'"
proof -
  obtain n where "instance_view h a = Some n" using assms(2) by (auto simp: instance_loose_def instance_view_def)
  then obtain h1 where h1: "update_element a (\<lambda>e. e\<lparr>next_instance_sample := None\<rparr>) h = Some h1"
      "instance_view h1 = (instance_view h)(a \<mapsto> None)" "instance_rest h1 = instance_rest h"
    using update_instance by metis
  show ?thesis
  proof (cases xs rule: rev_cases)
    case Nil
    then show ?thesis
      using assms h1 by (simp add: instance_enqueue_tail_def instance_rep_def list_rep_def keeps_def)
  next
    case (snoc zs t)
    then have "instance_view h1 t = Some None" using assms h1(2) by (auto simp: instance_rep_def)
    then obtain h2 where "update_element t (\<lambda>e. e\<lparr>next_instance_sample := Some a\<rparr>) h1 = Some h2"
        "instance_view h2 = (instance_view h1)(t \<mapsto> Some a)" "instance_rest h2 = instance_rest h1"
      using update_instance by metis
    then show ?thesis
      using assms h1 snoc by (auto simp: instance_enqueue_tail_def instance_rep_def list_rep_def keeps_def Let_def)
  qed
qed

lemma instance_dequeue_head_rep:
  assumes "instance_rep h l (a # xs)"
  shows "\<exists>h' l'. instance_dequeue_head (h, l) = Some (True, Some a, h', l') \<and> instance_rep h' l' xs
    \<and> instance_loose h' a \<and> keeps instance_view instance_rest (insert a (set xs)) h h'"
proof -
  have v: "instance_view h a = Some (hd_or None xs)" using assms by (simp add: instance_rep_def)
  then obtain e where e: "h a = Some e" "next_instance_sample e = hd_or None xs" by (auto simp: instance_view_def)
  obtain h1 where "update_element a (\<lambda>e. e\<lparr>next_instance_sample := None\<rparr>) h = Some h1"
      "instance_view h1 = (instance_view h)(a \<mapsto> None)" "instance_rest h1 = instance_rest h"
    using update_instance [OF v] .
  then show ?thesis
    using assms e
    by (cases xs)
      (auto simp: instance_dequeue_head_def instance_rep_def list_rep_def keeps_def instance_loose_def update_element_def)
qed

lemma instance_dequeue_behind:
  assumes rep: "instance_rep h l (x # xs)" and a: "a \<in> set xs" "a \<noteq> x" and eq: "x # xs = ys @ [p, a] @ zs"
  shows "\<exists>h' l'. instance_dequeue a (h, l) = Some (True, h', l') \<and> instance_rep h' l' (ys @ [p] @ zs)
    \<and> instance_loose h' a \<and> keeps instance_view instance_rest (set (x # xs)) h h'"
proof -
  have dis: "distinct (x # xs)" and l: "sl_head l = Some x" using rep by (auto simp: instance_rep_def list_rep_def)
  obtain ex where ex: "h x = Some ex" "next_instance_sample ex = hd_or None xs"
    using rep by (auto simp: instance_rep_def instance_view_def)
  have "a \<notin> set (ys @ [p])" using dis unfolding eq by auto
  then have "takeWhile (\<lambda>y. y \<noteq> a) (x # xs) = ys @ [p]" unfolding eq by (subst takeWhile_append2) auto
  then have "last (x # takeWhile (\<lambda>y. y \<noteq> a) xs) = p" using a(2) by simp
  then have find: "instance_find h a x (hd_or None xs) = Some (Some p)"
    using instance_find_rep [of h x xs a] rep a(1) by (auto simp: instance_rep_def)
  have seg: "sseg (instance_view h) (ys @ [p, a] @ zs) None" using rep by (simp only: instance_rep_def eq)
  then have "instance_view h p = Some (Some a)" by simp
  then obtain h1 where h1: "update_element p (\<lambda>e. e\<lparr>next_instance_sample := hd_or None zs\<rparr>) h = Some h1"
      "instance_view h1 = (instance_view h)(p \<mapsto> hd_or None zs)" "instance_rest h1 = instance_rest h"
    using update_instance by metis
  obtain e where e: "h a = Some e" "next_instance_sample e = hd_or None zs" using seg by (auto simp: instance_view_def)
  have "instance_view h1 a = Some (hd_or None zs)" using h1(2) seg dis unfolding eq by auto
  then obtain h2 where h2: "update_element a (\<lambda>e. e\<lparr>next_instance_sample := None\<rparr>) h1 = Some h2"
      "instance_view h2 = (instance_view h1)(a \<mapsto> None)" "instance_rest h2 = instance_rest h1"
    using update_instance by metis
  define l' where "l' = (if zs = [] then l\<lparr>sl_tail := Some p\<rparr> else l)\<lparr>sl_size := sl_size l - 1\<rparr>"
  have "instance_dequeue a (h, l) = Some (True, h2, l')"
    using l ex find e h1(1) h2(1) a by (simp add: instance_dequeue_def l'_def)
  moreover have "sseg (instance_view h2) (ys @ [p] @ zs) None" using seg dis h1(2) h2(2) unfolding eq by auto
  moreover have "list_rep l' (ys @ [p] @ zs)"
    using rep unfolding eq l'_def by (cases zs) (auto simp: instance_rep_def list_rep_def)
  moreover have "instance_view h2 a \<noteq> None" using h2(2) by simp
  moreover have "keeps instance_view instance_rest (set (x # xs)) h h2"
    using h1(2,3) h2(2,3) unfolding eq by (simp add: keeps_def)
  ultimately show ?thesis by (auto simp: instance_rep_def instance_loose_def)
qed

lemma instance_dequeue_rep:
  assumes rep: "instance_rep h l xs"
  shows "\<exists>h' l'. instance_dequeue a (h, l) = Some (a \<in> set xs, h', l') \<and> instance_rep h' l' (remove1 a xs)
    \<and> (a \<in> set xs \<longrightarrow> instance_loose h' a) \<and> (a \<notin> set xs \<longrightarrow> h' = h \<and> l' = l)
    \<and> keeps instance_view instance_rest (set xs) h h'"
proof (cases xs)
  case Nil
  then show ?thesis using rep by (simp add: instance_dequeue_def instance_rep_def list_rep_def)
next
  case (Cons x zs)
  have hd: "sl_head l = Some x" using rep Cons by (simp add: instance_rep_def list_rep_def)
  consider "a = x" | "a \<noteq> x" "a \<in> set zs" | "a \<notin> set xs" using Cons by auto
  then show ?thesis
  proof cases
    case 1
    then show ?thesis
      using instance_dequeue_head_rep [of h l x zs] rep hd Cons by (auto simp: instance_dequeue_def bind_as_map)
  next
    case 2
    obtain ys p us where eq: "x # zs = ys @ [p, a] @ us" using split_behind_head [OF 2(2,1)] by metis
    moreover have "distinct (x # zs)" using rep Cons by (simp add: instance_rep_def list_rep_def)
    ultimately have "remove1 a (x # zs) = ys @ [p] @ us" by (simp add: remove1_append)
    then show ?thesis using instance_dequeue_behind [OF _ 2(2,1) eq, of h l] rep 2 Cons by auto
  next
    case 3
    obtain e where "h x = Some e" "next_instance_sample e = hd_or None zs"
      using rep Cons by (auto simp: instance_rep_def instance_view_def)
    moreover have "instance_find h a x (hd_or None zs) = Some None"
      using instance_find_rep [of h x zs a] rep 3 Cons by (auto simp: instance_rep_def)
    ultimately show ?thesis using 3 hd Cons rep by (simp add: instance_dequeue_def remove1_idem)
  qed
qed

lemma instance_rep_laws:
  "instance_rep h l xs \<Longrightarrow> (\<And>a. a \<in> set xs \<Longrightarrow> instance_view h' a = instance_view h a) \<Longrightarrow> instance_rep h' l xs"
  "instance_loose h a \<Longrightarrow> instance_view h' a = instance_view h a \<Longrightarrow> instance_loose h' a"
  "instance_rep h l xs \<Longrightarrow> list_rep l xs"
  "instance_rep h sample_list_reset []"
  "instance_rep h l [] \<Longrightarrow> instance_dequeue_head (h, l) = Some (False, None, h, l)"
  by (auto simp: instance_rep_def instance_loose_def list_rep_def sample_list_reset_def instance_dequeue_head_def
      simp flip: view_eq_None(3) elim: sseg_cong)

interpretation inst: intrusive_list instance_rep instance_loose instance_view instance_rest
  instance_enqueue_tail instance_dequeue_head instance_dequeue
  by (rule intrusive_list.intro;
      fact instance_rep_laws instance_enqueue_tail_rep instance_dequeue_head_rep instance_dequeue_rep)

section \<open>Appending, searching and iterating\<close>

lemma send_append_rep:
  assumes rep: "send_rep h l xs" "send_rep h l2 ys" and dis: "set xs \<inter> set ys = {}" and ne: "xs = [] \<or> ys \<noteq> []"
  shows "\<exists>h' l'. send_append l2 (h, l) = Some (h', l') \<and> send_rep h' l' (xs @ ys)
    \<and> keeps send_view send_rest (set xs \<union> set ys) h h'"
proof (cases xs rule: rev_cases)
  case Nil
  then show ?thesis using rep by (auto simp: send_append_def dlist_rep_def list_rep_def)
next
  case (snoc zs t)
  then obtain b bs where ys: "ys = b # bs" using ne by (cases ys) auto
  have "send_view h t = Some (None, last_or None zs)" using rep snoc by (simp add: dlist_rep_def)
  then obtain h1 where h1: "update_element t (\<lambda>e. e\<lparr>next_send_sample := Some b\<rparr>) h = Some h1"
      "send_view h1 = (send_view h)(t \<mapsto> (Some b, last_or None zs))" "send_rest h1 = send_rest h"
    by (rule send.update_next)
  have "send_view h1 b = Some (hd_or None bs, None)" using rep dis snoc ys h1(2) by (auto simp: dlist_rep_def)
  then obtain h2 where h2: "update_element b (\<lambda>e. e\<lparr>previous_send_sample := Some t\<rparr>) h1 = Some h2"
      "send_view h2 = (send_view h1)(b \<mapsto> (hd_or None bs, Some t))" "send_rest h2 = send_rest h1"
    by (rule send.update_prev)
  have "dseg (send_view h2) None (xs @ ys) None"
    using rep dis h1(2) h2(2) unfolding snoc ys by (auto simp: dlist_rep_def list_rep_def)
  then show ?thesis
    using rep dis h1 h2 snoc ys by (auto simp: send_append_def dlist_rep_def list_rep_def keeps_def)
qed

lemma send_head_of_rep:
  assumes "dseg (send_view h) None (xs @ a # ys) None"
  shows "send_head_of h a = Some (hd (xs @ [a]))"
  using assms
proof (induction xs arbitrary: a ys rule: rev_induct)
  case Nil
  then show ?case by (auto simp: send_head_of.simps [of h a] send.element_of_view)
next
  case (snoc x xs)
  then obtain e where "h a = Some e" "previous_send_sample e = Some x" by (auto simp: send.element_of_view)
  moreover have "send_head_of h x = Some (hd (xs @ [x]))" using snoc.IH [of x "a # ys"] snoc.prems by simp
  ultimately show ?case by (cases xs) (simp_all add: send_head_of.simps [of h a])
qed

lemma iter_elements_rep: "dseg (send_view h) p xs None \<Longrightarrow> iter_elements h (hd_or None xs) = Some xs"
proof (induction xs arbitrary: p)
  case Nil
  then show ?case by (simp add: iter_elements.simps)
next
  case (Cons x xs)
  then show ?case by (auto simp: iter_elements.simps [of h "Some x"] send.element_of_view)
qed


section \<open>The lists are queues\<close>



end
