(* ===== verification/Offered_Deadline.thy ===== *)
theory Offered_Deadline
  imports Sample_Lists Time_Value Sequence_Number
begin

text \<open>
  \<open>PublicationInstance\<close> (\<open>src/dds/DCPS/PublicationInstance.h\<close>) and the watchdog of a writer's deadline
  (\<open>OfferedDeadlineWatchdog.cpp\<close>, \<open>Watchdog.cpp\<close>). The reactor that runs the timers is outside of the sources:
  \<open>od_timer_ids\<close> are the identifiers it will give to the timers still to be scheduled, and the calls made to
  it, to the listener and to the writer are recorded in order. The status counts are unbounded here. Locks are
  left out.
\<close>

record PublicationInstance =
  pi_sequence :: sequence_number
  pi_group_id :: ulong
  pi_registered_sample :: ptr
  pi_samples :: sample_list
  pi_waiting_list :: sample_list
  pi_unregistered :: bool
  pi_instance_handle :: int
  pi_last_sample_tv :: ace_time
  pi_cur_sample_tv :: ace_time
  pi_deadline_timer_id :: int

definition mk_PublicationInstance :: "ptr \<Rightarrow> PublicationInstance" where
  "mk_PublicationInstance registered_sample =
     \<lparr>pi_sequence = setValue MIN_VALUE, pi_group_id = 0, pi_registered_sample = registered_sample,
      pi_samples = sample_list_reset, pi_waiting_list = sample_list_reset, pi_unregistered = False,
      pi_instance_handle = 0, pi_last_sample_tv = 0, pi_cur_sample_tv = 0, pi_deadline_timer_id = -1\<rparr>"

record OfferedDeadlineMissedStatus =
  od_total_count :: int
  od_total_count_change :: int
  od_last_instance_handle :: int

datatype watchdog_call =
  Schedule_timer ace_time | Cancel_timer int | Reset_timer_interval int ace_time
| Set_status_changed_flag | Offered_deadline_missed OfferedDeadlineMissedStatus | Notify_status_condition | Reschedule_deadline

record OfferedDeadlineWatchdog =
  od_interval :: ace_time
  od_status :: OfferedDeadlineMissedStatus
  od_last_total_count :: int
  od_timer_ids :: "int list"
  od_calls :: "watchdog_call list"

definition od_log :: "watchdog_call \<Rightarrow> OfferedDeadlineWatchdog \<Rightarrow> OfferedDeadlineWatchdog" where
  "od_log c w = w\<lparr>od_calls := od_calls w @ [c]\<rparr>"

text \<open>\<open>Watchdog::schedule_timer\<close>: the identifier the reactor gives, \<open>-1\<close> when it has none left.\<close>

definition watchdog_schedule :: "OfferedDeadlineWatchdog \<Rightarrow> int \<times> OfferedDeadlineWatchdog" where
  "watchdog_schedule w =
     (let w = od_log (Schedule_timer (od_interval w)) w in
      case od_timer_ids w of
        [] \<Rightarrow> (-1, w)
      | i # is \<Rightarrow> (i, w\<lparr>od_timer_ids := is\<rparr>))"

definition od_schedule_timer ::
    "PublicationInstance \<times> OfferedDeadlineWatchdog \<Rightarrow> PublicationInstance \<times> OfferedDeadlineWatchdog" where
  "od_schedule_timer = (\<lambda>(p, w).
     if pi_deadline_timer_id p = -1 then
       let (i, w) = watchdog_schedule w in (p\<lparr>pi_deadline_timer_id := i\<rparr>, w)
     else (p, w))"

definition od_cancel_timer ::
    "PublicationInstance \<times> OfferedDeadlineWatchdog \<Rightarrow> PublicationInstance \<times> OfferedDeadlineWatchdog" where
  "od_cancel_timer = (\<lambda>(p, w).
     if pi_deadline_timer_id p \<noteq> -1 then
       (p\<lparr>pi_deadline_timer_id := -1\<rparr>, od_log (Cancel_timer (pi_deadline_timer_id p)) w)
     else (p, w))"

text \<open>Whether the deadline was missed: the timer compares with the last sample, a write with the one before.\<close>

definition deadline_missed :: "ace_time \<Rightarrow> bool \<Rightarrow> PublicationInstance \<Rightarrow> ace_time \<Rightarrow> bool" where
  "deadline_missed interval timer_called p now =
     (if pi_cur_sample_tv p = 0 then True
      else if timer_called then now - pi_cur_sample_tv p \<ge> interval
      else if pi_last_sample_tv p \<noteq> 0 then pi_cur_sample_tv p - pi_last_sample_tv p > interval
      else False)"

text \<open>\<open>listener\<close> tells whether the writer has a listener for the status.\<close>

definition od_execute ::
    "bool \<Rightarrow> bool \<Rightarrow> ace_time \<Rightarrow> PublicationInstance \<times> OfferedDeadlineWatchdog \<Rightarrow>
     PublicationInstance \<times> OfferedDeadlineWatchdog" where
  "od_execute listener timer_called now = (\<lambda>(p, w).
     if pi_deadline_timer_id p \<noteq> -1 then
       let w = (if deadline_missed (od_interval w) timer_called p now \<and> timer_called then
                  let s = od_status w;
                      s = s\<lparr>od_total_count := od_total_count s + 1\<rparr>;
                      s = s\<lparr>od_total_count_change := od_total_count s - od_last_total_count w,
                            od_last_instance_handle := pi_instance_handle p\<rparr>;
                      w = od_log Set_status_changed_flag (w\<lparr>od_status := s\<rparr>);
                      w = (if listener then od_log (Offered_deadline_missed s) w else w)
                  in od_log Notify_status_condition w
                else w)
       in if timer_called then (p, w) else od_schedule_timer (od_cancel_timer (p, w))
     else (p, w))"

definition watchdog_reset_interval :: "ace_time \<Rightarrow> OfferedDeadlineWatchdog \<Rightarrow> OfferedDeadlineWatchdog" where
  "watchdog_reset_interval interval w =
     (if od_interval w \<noteq> interval then od_log Reschedule_deadline (w\<lparr>od_interval := interval\<rparr>) else w)"

definition watchdog_reset_timer_interval :: "int \<Rightarrow> OfferedDeadlineWatchdog \<Rightarrow> OfferedDeadlineWatchdog" where
  "watchdog_reset_timer_interval i w = od_log (Reset_timer_interval i (od_interval w)) w"

section \<open>What the watchdog keeps\<close>

text \<open>The watchdog changes nothing of an instance but the identifier of its timer.\<close>

lemma od_keeps:
  "\<exists>i. fst (od_schedule_timer (p, w)) = p\<lparr>pi_deadline_timer_id := i\<rparr>"
  "\<exists>i. fst (od_cancel_timer (p, w)) = p\<lparr>pi_deadline_timer_id := i\<rparr>"
  "\<exists>i. fst (od_execute ls tc now (p, w)) = p\<lparr>pi_deadline_timer_id := i\<rparr>"
proof -
  have id: "\<exists>i. p = p\<lparr>pi_deadline_timer_id := i\<rparr>" by (rule exI [of _ "pi_deadline_timer_id p"]) simp
  show "\<exists>i. fst (od_schedule_timer (p, w)) = p\<lparr>pi_deadline_timer_id := i\<rparr>" for w
    using id by (auto simp: od_schedule_timer_def split: prod.split)
  show "\<exists>i. fst (od_cancel_timer (p, w)) = p\<lparr>pi_deadline_timer_id := i\<rparr>" for w
    using id by (auto simp: od_cancel_timer_def)
  show "\<exists>i. fst (od_execute ls tc now (p, w)) = p\<lparr>pi_deadline_timer_id := i\<rparr>"
    using id by (auto simp: od_execute_def od_schedule_timer_def od_cancel_timer_def Let_def split: prod.split)
qed

end
