(* ===== verification/Write_Container.thy ===== *)
theory Write_Container
  imports Sample_Lists Offered_Deadline Std_Map Time_Value Header_Marshal
begin

text \<open>
  \<open>WriteDataContainer\<close> (\<open>src/dds/DCPS/WriteDataContainer.{h,cpp}\<close>): the samples a writer has written, in
  the lists of unsent, sending, sent, released and resent samples, in the list of their instance, and in the
  list of all samples.

  The container's record holds the heap of elements, the publication instances by address and the message
  blocks by address, next to the members of the class. What the code reads from outside is an argument: the
  address an allocator returns (null when it is out of memory), the time, the next instance handle. Calls that
  leave the container are recorded in \<open>wc_calls\<close> in order; the two calls of the transport that can come back
  into the container before they return, \<open>remove_sample\<close> and \<open>remove_all_msgs\<close>, are functions. Locks and
  tracing are left out. A wait on a condition variable is one element of a script: the time, how the wait
  ended, and the operations other threads completed meanwhile.
\<close>

datatype ReturnCode_t =
  RETCODE_OK | RETCODE_ERROR | RETCODE_UNSUPPORTED | RETCODE_BAD_PARAMETER | RETCODE_PRECONDITION_NOT_MET
| RETCODE_OUT_OF_RESOURCES | RETCODE_NOT_ENABLED | RETCODE_IMMUTABLE_POLICY | RETCODE_INCONSISTENT_POLICY
| RETCODE_ALREADY_DELETED | RETCODE_TIMEOUT | RETCODE_NO_DATA | RETCODE_ILLEGAL_OPERATION

datatype container_call = Call_unregistered int | Condition_broadcast | Empty_condition_broadcast

record WriteDataContainer =
  wc_heap :: element_heap
  wc_pool :: "nat \<rightharpoonup> PublicationInstance"
  wc_blocks :: "nat \<rightharpoonup> mblock"
  unsent_data :: sample_list
  sending_data :: sample_list
  sent_data :: sample_list
  released_data :: sample_list
  data_holder :: sample_list
  resend_data :: sample_list
  wc_instances :: "(int \<times> nat) list"
  wc_publication_id :: GUID_t
  wc_depth :: int
  wc_max_num_instances :: int
  wc_max_num_samples :: int
  wc_should_block :: bool
  wc_max_blocking_time :: Duration_t
  wc_waiting_on_release :: bool
  wc_shutdown :: bool
  wc_watchdog :: "OfferedDeadlineWatchdog option"
  wc_calls :: "container_call list"

text \<open>The constructor; the stores of elements, instances and blocks are what the process has at that time.\<close>

definition mk_WriteDataContainer ::
    "element_heap \<Rightarrow> (nat \<rightharpoonup> PublicationInstance) \<Rightarrow> (nat \<rightharpoonup> mblock) \<Rightarrow> GUID_t \<Rightarrow> int \<Rightarrow> bool \<Rightarrow> Duration_t \<Rightarrow>
     OfferedDeadlineWatchdog option \<Rightarrow> int \<Rightarrow> int \<Rightarrow> WriteDataContainer" where
  "mk_WriteDataContainer h pool blocks pub depth should_block max_blocking_time watchdog max_instances max_total_samples =
     \<lparr>wc_heap = h, wc_pool = pool, wc_blocks = blocks, unsent_data = sample_list_reset, sending_data = sample_list_reset,
      sent_data = sample_list_reset, released_data = sample_list_reset, data_holder = sample_list_reset,
      resend_data = sample_list_reset, wc_instances = [], wc_publication_id = pub, wc_depth = depth,
      wc_max_num_instances = max_instances, wc_max_num_samples = max_total_samples, wc_should_block = should_block,
      wc_max_blocking_time = max_blocking_time, wc_waiting_on_release = False, wc_shutdown = False,
      wc_watchdog = watchdog, wc_calls = []\<rparr>"

section \<open>The lists of the container\<close>

datatype send_state = Unsent | Sending | Sent | Released | Resend

primrec get_list :: "send_state \<Rightarrow> WriteDataContainer \<Rightarrow> sample_list" where
  "get_list Unsent c = unsent_data c"
| "get_list Sending c = sending_data c"
| "get_list Sent c = sent_data c"
| "get_list Released c = released_data c"
| "get_list Resend c = resend_data c"

primrec put_list :: "send_state \<Rightarrow> sample_list \<Rightarrow> WriteDataContainer \<Rightarrow> WriteDataContainer" where
  "put_list Unsent l c = c\<lparr>unsent_data := l\<rparr>"
| "put_list Sending l c = c\<lparr>sending_data := l\<rparr>"
| "put_list Sent l c = c\<lparr>sent_data := l\<rparr>"
| "put_list Released l c = c\<lparr>released_data := l\<rparr>"
| "put_list Resend l c = c\<lparr>resend_data := l\<rparr>"

definition enqueue_send :: "send_state \<Rightarrow> nat \<Rightarrow> WriteDataContainer \<Rightarrow> WriteDataContainer option" where
  "enqueue_send k a c =
     do {
       (h, l) \<leftarrow> send_enqueue_tail a (wc_heap c, get_list k c);
       Some (put_list k l (c\<lparr>wc_heap := h\<rparr>))
     }"

definition append_send :: "send_state \<Rightarrow> sample_list \<Rightarrow> WriteDataContainer \<Rightarrow> WriteDataContainer option" where
  "append_send k list c =
     do {
       (h, l) \<leftarrow> send_append list (wc_heap c, get_list k c);
       Some (put_list k l (c\<lparr>wc_heap := h\<rparr>))
     }"

definition dequeue_send :: "send_state \<Rightarrow> nat \<Rightarrow> WriteDataContainer \<Rightarrow> (bool \<times> WriteDataContainer) option" where
  "dequeue_send k a c =
     do {
       (b, h, l) \<leftarrow> send_dequeue a (wc_heap c, get_list k c);
       Some (b, put_list k l (c\<lparr>wc_heap := h\<rparr>))
     }"

definition put_instance :: "nat \<Rightarrow> PublicationInstance \<Rightarrow> WriteDataContainer \<Rightarrow> WriteDataContainer" where
  "put_instance i p c = c\<lparr>wc_pool := (wc_pool c)(i \<mapsto> p)\<rparr>"

text \<open>The two lists of an instance.\<close>

datatype instance_list = Samples | Waiting

primrec get_queue :: "instance_list \<Rightarrow> PublicationInstance \<Rightarrow> sample_list" where
  "get_queue Samples p = pi_samples p"
| "get_queue Waiting p = pi_waiting_list p"

primrec put_queue :: "instance_list \<Rightarrow> sample_list \<Rightarrow> PublicationInstance \<Rightarrow> PublicationInstance" where
  "put_queue Samples l p = p\<lparr>pi_samples := l\<rparr>"
| "put_queue Waiting l p = p\<lparr>pi_waiting_list := l\<rparr>"

definition enqueue_instance :: "instance_list \<Rightarrow> nat \<Rightarrow> nat \<Rightarrow> WriteDataContainer \<Rightarrow> WriteDataContainer option" where
  "enqueue_instance q i a c =
     do {
       p \<leftarrow> wc_pool c i;
       (h, l) \<leftarrow> instance_enqueue_tail a (wc_heap c, get_queue q p);
       Some (put_instance i (put_queue q l p) (c\<lparr>wc_heap := h\<rparr>))
     }"

definition dequeue_instance :: "instance_list \<Rightarrow> nat \<Rightarrow> nat \<Rightarrow> WriteDataContainer \<Rightarrow> (bool \<times> WriteDataContainer) option" where
  "dequeue_instance q i a c =
     do {
       p \<leftarrow> wc_pool c i;
       (b, h, l) \<leftarrow> instance_dequeue a (wc_heap c, get_queue q p);
       Some (b, put_instance i (put_queue q l p) (c\<lparr>wc_heap := h\<rparr>))
     }"

definition dequeue_instance_head :: "instance_list \<Rightarrow> nat \<Rightarrow> WriteDataContainer \<Rightarrow> (bool \<times> ptr \<times> WriteDataContainer) option" where
  "dequeue_instance_head q i c =
     do {
       p \<leftarrow> wc_pool c i;
       (b, a, h, l) \<leftarrow> instance_dequeue_head (wc_heap c, get_queue q p);
       Some (b, a, put_instance i (put_queue q l p) (c\<lparr>wc_heap := h\<rparr>))
     }"

definition wc_log :: "container_call \<Rightarrow> WriteDataContainer \<Rightarrow> WriteDataContainer" where
  "wc_log x c = c\<lparr>wc_calls := wc_calls c @ [x]\<rparr>"

text \<open>A call to the watchdog, when there is one.\<close>

definition on_watchdog ::
    "(PublicationInstance \<times> OfferedDeadlineWatchdog \<Rightarrow> PublicationInstance \<times> OfferedDeadlineWatchdog) \<Rightarrow>
     nat \<Rightarrow> WriteDataContainer \<Rightarrow> WriteDataContainer option" where
  "on_watchdog f i c =
     (case wc_watchdog c of
        None \<Rightarrow> Some c
      | Some w \<Rightarrow> do {
          p \<leftarrow> wc_pool c i;
          let (p', w') = f (p, w);
          Some (put_instance i p' (c\<lparr>wc_watchdog := Some w'\<rparr>))
        })"

definition pending_data :: "WriteDataContainer \<Rightarrow> bool" where
  "pending_data c \<longleftrightarrow>
     sl_size (sending_data c) \<noteq> 0 \<or> sl_size (unsent_data c) \<noteq> 0 \<or> sl_size (released_data c) \<noteq> 0"

definition signal_empty :: "WriteDataContainer \<Rightarrow> WriteDataContainer" where
  "signal_empty c = (if pending_data c then c else wc_log Empty_condition_broadcast c)"

definition get_handle_instance :: "int \<Rightarrow> WriteDataContainer \<Rightarrow> ptr" where
  "get_handle_instance handle c = map_of (wc_instances c) handle"

section \<open>Writing and sending\<close>

text \<open>\<open>now\<close> is read when there is a watchdog.\<close>

definition wc_enqueue :: "nat \<Rightarrow> int \<Rightarrow> bool \<Rightarrow> ace_time \<Rightarrow> WriteDataContainer \<Rightarrow> (ReturnCode_t \<times> WriteDataContainer) option" where
  "wc_enqueue sample instance_handle listener now c =
     do {
       i \<leftarrow> get_handle_instance instance_handle c;
       p \<leftarrow> wc_pool c i;
       c \<leftarrow> (if wc_watchdog c = None then Some c
             else on_watchdog (od_execute listener False now) i
               (put_instance i (p\<lparr>pi_last_sample_tv := pi_cur_sample_tv p, pi_cur_sample_tv := now\<rparr>) c));
       c \<leftarrow> enqueue_send Unsent sample c;
       c \<leftarrow> enqueue_instance Samples i sample c;
       Some (RETCODE_OK, c)
     }"

definition get_unsent_data :: "WriteDataContainer \<Rightarrow> (sample_list \<times> WriteDataContainer) option" where
  "get_unsent_data c =
     do {
       let list = unsent_data c;
       c \<leftarrow> append_send Sending list c;
       let c = c\<lparr>unsent_data := sample_list_reset\<rparr>;
       Some (list, signal_empty c)
     }"

definition get_resend_data :: "WriteDataContainer \<Rightarrow> (sample_list \<times> WriteDataContainer) option" where
  "get_resend_data c =
     do {
       let list = resend_data c;
       c \<leftarrow> (if sl_size list \<noteq> 0 then append_send Released list c else Some c);
       Some (list, c\<lparr>resend_data := sample_list_reset\<rparr>)
     }"

text \<open>Freeing an element that is not allocated is undefined.\<close>

definition release_buffer :: "nat \<Rightarrow> WriteDataContainer \<Rightarrow> WriteDataContainer option" where
  "release_buffer a c =
     do {
       (_, h, l) \<leftarrow> writer_dequeue a (wc_heap c, data_holder c);
       _ \<leftarrow> h a;
       Some (c\<lparr>wc_heap := h(a := None), data_holder := l\<rparr>)
     }"

definition wakeup_blocking_writers :: "ptr \<Rightarrow> ptr \<Rightarrow> WriteDataContainer \<Rightarrow> WriteDataContainer option" where
  "wakeup_blocking_writers stale inst c =
     (if stale = None then Some c
      else do {
        i \<leftarrow> inst;
        p \<leftarrow> wc_pool c i;
        case sl_head (pi_waiting_list p) of
          None \<Rightarrow> Some c
        | Some first \<Rightarrow> do {
            h \<leftarrow> update_element first (set_space_available True) (wc_heap c);
            (ok, _, c) \<leftarrow> dequeue_instance_head Waiting i (c\<lparr>wc_heap := h\<rparr>);
            Some (if ok \<and> wc_waiting_on_release c
                  then wc_log Condition_broadcast (c\<lparr>wc_waiting_on_release := False\<rparr>) else c)
          }
      })"

text \<open>Setting the flag in the marshaled header of the sample.\<close>

definition mark_historic :: "nat \<Rightarrow> WriteDataContainer \<Rightarrow> WriteDataContainer option" where
  "mark_historic a c =
     do {
       s \<leftarrow> get_sample a (wc_heap c);
       d \<leftarrow> s;
       b \<leftarrow> wc_blocks c d;
       Some (c\<lparr>wc_blocks := (wc_blocks c)(d \<mapsto> set_flag HISTORIC_SAMPLE_FLAG b)\<rparr>)
     }"

definition data_delivered :: "nat \<Rightarrow> WriteDataContainer \<Rightarrow> WriteDataContainer option" where
  "data_delivered sample c =
     do {
       inst \<leftarrow> get_handle sample (wc_heap c);
       (dequeued, c) \<leftarrow> dequeue_send Released sample c;
       if dequeued then do {
         c \<leftarrow> release_buffer sample c;
         c \<leftarrow> wakeup_blocking_writers None inst c;
         Some (signal_empty c)
       }
       else do {
         (sending, c) \<leftarrow> dequeue_send Sending sample c;
         if \<not> sending then Some c
         else do {
           i \<leftarrow> inst;
           p \<leftarrow> wc_pool c i;
           if sl_head (pi_waiting_list p) \<noteq> None then do {
             (ok, c) \<leftarrow> dequeue_instance Samples i sample c;
             if \<not> ok then Some c
             else do {
               c \<leftarrow> release_buffer sample c;
               c \<leftarrow> wakeup_blocking_writers None inst c;
               Some (signal_empty c)
             }
           }
           else do {
             c \<leftarrow> mark_historic sample c;
             c \<leftarrow> enqueue_send Sent sample c;
             c \<leftarrow> wakeup_blocking_writers (Some sample) inst c;
             Some (signal_empty c)
           }
         }
       }
     }"

definition data_dropped :: "nat \<Rightarrow> bool \<Rightarrow> WriteDataContainer \<Rightarrow> WriteDataContainer option" where
  "data_dropped sample dropped_by_transport c =
     (if dropped_by_transport then data_delivered sample c
      else do {
        (sending, c) \<leftarrow> dequeue_send Sending sample c;
        if sending then do {
          c \<leftarrow> enqueue_send Unsent sample c;
          inst \<leftarrow> get_handle sample (wc_heap c);
          c \<leftarrow> wakeup_blocking_writers None inst c;
          Some (signal_empty c)
        }
        else do {
          (released, c) \<leftarrow> dequeue_send Released sample c;
          if released then do {
            inst \<leftarrow> get_handle sample (wc_heap c);
            c \<leftarrow> release_buffer sample c;
            c \<leftarrow> wakeup_blocking_writers None inst c;
            Some (signal_empty c)
          }
          else do {
            c \<leftarrow> wakeup_blocking_writers None None c;
            Some (signal_empty c)
          }
        }
      })"

section \<open>Removing samples\<close>

text \<open>\<open>released\<close> is an in-out parameter: it is not assigned on the paths that fail.\<close>

definition remove_oldest_sample ::
    "nat \<Rightarrow> bool \<Rightarrow> WriteDataContainer \<Rightarrow> (ReturnCode_t \<times> bool \<times> WriteDataContainer) option" where
  "remove_oldest_sample i released c =
     do {
       (ok, stale, c) \<leftarrow> dequeue_instance_head Samples i c;
       if \<not> ok then Some (RETCODE_ERROR, released, c)
       else do {
         containing \<leftarrow> send_list_containing_element (wc_heap c) stale
           [(Sending, sending_data c), (Sent, sent_data c), (Unsent, unsent_data c)];
         a \<leftarrow> stale;
         case containing of
           None \<Rightarrow> Some (RETCODE_ERROR, released, c)
         | Some k \<Rightarrow> do {
             (result, c) \<leftarrow> dequeue_send k a c;
             c \<leftarrow> (if k = Sending then enqueue_send Released a c else release_buffer a c);
             let c = signal_empty c;
             Some (if result then RETCODE_OK else RETCODE_ERROR, k \<noteq> Sending, c)
           }
       }
     }"

partial_function (option) dispose_samples :: "nat \<Rightarrow> WriteDataContainer \<Rightarrow> (ReturnCode_t \<times> WriteDataContainer) option" where
  "dispose_samples i c =
     (case wc_pool c i of
        None \<Rightarrow> None
      | Some p \<Rightarrow>
          if sl_size (pi_samples p) > 0 then do {
            (ret, _, c') \<leftarrow> remove_oldest_sample i False c;
            if ret \<noteq> RETCODE_OK then Some (ret, c') else dispose_samples i c'
          }
          else Some (RETCODE_OK, c))"

text \<open>The registered sample is handed out when \<open>dup\<close>; duplicating a null pointer is undefined.\<close>

definition duplicate_registered :: "bool \<Rightarrow> nat \<Rightarrow> WriteDataContainer \<Rightarrow> ptr option" where
  "duplicate_registered dup i c =
     do {
       p \<leftarrow> wc_pool c i;
       if dup then (case pi_registered_sample p of None \<Rightarrow> None | Some s \<Rightarrow> Some (Some s)) else Some None
     }"

definition wc_dispose :: "int \<Rightarrow> bool \<Rightarrow> WriteDataContainer \<Rightarrow> (ReturnCode_t \<times> ptr \<times> WriteDataContainer) option" where
  "wc_dispose handle dup c =
     (case get_handle_instance handle c of
        None \<Rightarrow> Some (RETCODE_PRECONDITION_NOT_MET, None, c)
      | Some i \<Rightarrow> do {
          sample \<leftarrow> duplicate_registered dup i c;
          (ret, c) \<leftarrow> dispose_samples i c;
          if ret \<noteq> RETCODE_OK then Some (ret, sample, c)
          else do {
            c \<leftarrow> on_watchdog od_cancel_timer i c;
            Some (RETCODE_OK, sample, c)
          }
        })"

definition wc_unregister :: "int \<Rightarrow> bool \<Rightarrow> WriteDataContainer \<Rightarrow> (ReturnCode_t \<times> ptr \<times> WriteDataContainer) option" where
  "wc_unregister handle dup c =
     (case get_handle_instance handle c of
        None \<Rightarrow> Some (RETCODE_PRECONDITION_NOT_MET, None, c)
      | Some i \<Rightarrow> do {
          p \<leftarrow> wc_pool c i;
          let c = put_instance i (p\<lparr>pi_unregistered := True\<rparr>) c;
          sample \<leftarrow> duplicate_registered dup i c;
          let c = wc_log (Call_unregistered handle) c;
          c \<leftarrow> on_watchdog od_cancel_timer i c;
          Some (RETCODE_OK, sample, c)
        })"

text \<open>
  \<open>fresh\<close> is the address a new instance gets and \<open>next_handle\<close> what the writer's \<open>get_next_handle\<close> returns.
  The result is the return code, the handle and the sample to send.
\<close>

definition wc_register_instance ::
    "int \<Rightarrow> ptr \<Rightarrow> ptr \<Rightarrow> int \<Rightarrow> WriteDataContainer \<Rightarrow> (ReturnCode_t \<times> int \<times> ptr \<times> WriteDataContainer) option" where
  "wc_register_instance handle registered_sample fresh next_handle c =
     (if handle = 0 then
        if wc_max_num_instances c > 0 \<and> wc_max_num_instances c \<le> int (length (wc_instances c))
        then Some (RETCODE_OUT_OF_RESOURCES, handle, registered_sample, c)
        else (case fresh of
          None \<Rightarrow> Some (RETCODE_ERROR, handle, registered_sample, c)
        | Some i \<Rightarrow>
            if map_of (wc_instances c) next_handle \<noteq> None
            then (if registered_sample = None then None else Some (RETCODE_ERROR, next_handle, registered_sample, c))
            else do {
              s \<leftarrow> registered_sample;
              let c = c\<lparr>wc_instances := map_insert next_handle i (wc_instances c)\<rparr>;
              let c = put_instance i ((mk_PublicationInstance (Some s))\<lparr>pi_instance_handle := next_handle\<rparr>) c;
              c \<leftarrow> on_watchdog od_schedule_timer i c;
              Some (RETCODE_OK, next_handle, Some s, c)
            })
      else (case map_of (wc_instances c) handle of
        None \<Rightarrow> Some (RETCODE_ERROR, handle, registered_sample, c)
      | Some i \<Rightarrow> do {
          _ \<leftarrow> registered_sample;
          p \<leftarrow> wc_pool c i;
          let c = put_instance i (p\<lparr>pi_unregistered := False\<rparr>) c;
          s \<leftarrow> pi_registered_sample p;
          c \<leftarrow> on_watchdog od_schedule_timer i c;
          Some (RETCODE_OK, handle, Some s, c)
        }))"

definition delete_instance :: "nat \<Rightarrow> WriteDataContainer \<Rightarrow> WriteDataContainer option" where
  "delete_instance i c =
     do {
       p \<leftarrow> wc_pool c i;
       _ \<leftarrow> pi_registered_sample p;
       Some (c\<lparr>wc_pool := (wc_pool c)(i := None)\<rparr>)
     }"

fun unregister_each :: "(int \<times> nat) list \<Rightarrow> WriteDataContainer \<Rightarrow> WriteDataContainer option" where
  "unregister_each [] c = Some c"
| "unregister_each ((handle, i) # is) c =
     do {
       (_, _, c) \<leftarrow> wc_dispose handle False c;
       (_, _, c) \<leftarrow> wc_unregister handle False c;
       c \<leftarrow> delete_instance i c;
       unregister_each is (c\<lparr>wc_instances := map_erase handle (wc_instances c)\<rparr>)
     }"

definition unregister_all ::
    "(WriteDataContainer \<Rightarrow> WriteDataContainer option) \<Rightarrow> WriteDataContainer \<Rightarrow> WriteDataContainer option" where
  "unregister_all remove_all_msgs c =
     do {
       let c = c\<lparr>wc_shutdown := True\<rparr>;
       c \<leftarrow> remove_all_msgs c;
       let c = (if wc_waiting_on_release c then wc_log Condition_broadcast c else c);
       unregister_each (wc_instances c) c
     }"

section \<open>Counting\<close>

definition wc_num_samples :: "int \<Rightarrow> WriteDataContainer \<Rightarrow> (ReturnCode_t \<times> int option) option" where
  "wc_num_samples handle c =
     (case get_handle_instance handle c of
        None \<Rightarrow> Some (RETCODE_ERROR, None)
      | Some i \<Rightarrow> do {
          p \<leftarrow> wc_pool c i;
          Some (RETCODE_OK, Some (sl_size (pi_samples p)))
        })"

fun sum_samples :: "(nat \<rightharpoonup> PublicationInstance) \<Rightarrow> (int \<times> nat) list \<Rightarrow> int option" where
  "sum_samples pool [] = Some 0"
| "sum_samples pool ((_, i) # is) =
     do {
       p \<leftarrow> pool i;
       n \<leftarrow> sum_samples pool is;
       Some (sl_size (pi_samples p) + n)
     }"

definition num_all_samples :: "WriteDataContainer \<Rightarrow> int option" where
  "num_all_samples c = sum_samples (wc_pool c) (wc_instances c)"

definition get_instance_handles :: "WriteDataContainer \<Rightarrow> int list option" where
  "get_instance_handles c = those (map (\<lambda>(_, i). map_option pi_instance_handle (wc_pool c i)) (wc_instances c))"

text \<open>\<open>CORBA::Long\<close>: the conversion from a wider integer, and the product, which wraps around.\<close>

definition to_Long :: "int \<Rightarrow> int" where
  "to_Long n = sint (word_of_int n :: ulong)"

definition Long_mult :: "int \<Rightarrow> int \<Rightarrow> int" where
  "Long_mult a b = to_Long (a * b)"

section \<open>Resending\<close>

definition resend_data_expired :: "DataSampleElement \<Rightarrow> Duration_t \<Rightarrow> ace_time \<Rightarrow> bool" where
  "resend_data_expired e lifespan now =
     (if sec lifespan \<noteq> DURATION_INFINITE_SEC \<or> nanosec lifespan \<noteq> DURATION_INFINITE_NSEC then
        let tmp = \<lparr>time_sec = to_Long (sint (h_source_timestamp_sec (el_header e)) + sec lifespan),
                   time_nanosec = h_source_timestamp_nanosec (el_header e) + nanosec lifespan\<rparr>
        in now \<ge> time_to_time_value tmp
      else False)"

text \<open>
  \<open>omit\<close> is the test of the loop: the sample has expired or the filter of the reader, when there is one,
  rejects it. Each copy takes the next address of the allocator, with what the memory there held.
\<close>

definition skip_resend ::
    "Duration_t \<Rightarrow> ace_time \<Rightarrow> (DataSampleElement \<Rightarrow> bool) option \<Rightarrow> DataSampleElement \<Rightarrow> bool" where
  "skip_resend lifespan now filter_out e \<longleftrightarrow>
     resend_data_expired e lifespan now \<or> (case filter_out of None \<Rightarrow> False | Some f \<Rightarrow> f e)"

definition copy_for_reader :: "GUID_t \<Rightarrow> GUID_t list \<Rightarrow> DataSampleElement \<Rightarrow> DataSampleElement option" where
  "copy_for_reader reader mem e =
     do {
       e \<leftarrow> copy_DataSampleElement mem e;
       set_sub_id 0 reader (set_num_subs 1 e)
     }"

partial_function (option) copy_and_append ::
    "(DataSampleElement \<Rightarrow> bool) \<Rightarrow> GUID_t \<Rightarrow> ptr \<Rightarrow> (ptr \<times> GUID_t list) list \<Rightarrow> WriteDataContainer \<Rightarrow>
     ((ptr \<times> GUID_t list) list \<times> WriteDataContainer) option" where
  "copy_and_append omit reader cur mallocs c =
     (if cur = None then Some (mallocs, c)
      else do {
        e \<leftarrow> wc_heap c (the cur);
        if omit e then copy_and_append omit reader (next_send_sample e) mallocs c
        else if mallocs = [] then None
        else do {
          a \<leftarrow> fst (hd mallocs);
          e \<leftarrow> copy_for_reader reader (snd (hd mallocs)) e;
          c' \<leftarrow> enqueue_send Resend a (c\<lparr>wc_heap := (wc_heap c)(a \<mapsto> e)\<rparr>);
          e' \<leftarrow> wc_heap c' (the cur);
          copy_and_append omit reader (next_send_sample e') (tl mallocs) c'
        }
      })"

definition reenqueue_all ::
    "GUID_t \<Rightarrow> Duration_t \<Rightarrow> ace_time \<Rightarrow> (DataSampleElement \<Rightarrow> bool) option \<Rightarrow> (ptr \<times> GUID_t list) list \<Rightarrow>
     WriteDataContainer \<Rightarrow> (ReturnCode_t \<times> WriteDataContainer) option" where
  "reenqueue_all reader lifespan now filter_out mallocs c =
     do {
       let omit = skip_resend lifespan now filter_out;
       (mallocs, c) \<leftarrow> (if sl_size (sending_data c) > 0
                       then copy_and_append omit reader (sl_head (sending_data c)) mallocs c else Some (mallocs, c));
       (mallocs, c) \<leftarrow> (if sl_size (sent_data c) > 0
                       then copy_and_append omit reader (sl_head (sent_data c)) mallocs c else Some (mallocs, c));
       Some (RETCODE_OK, c)
     }"

section \<open>Waiting\<close>

text \<open>The operations another thread can complete while a writer waits.\<close>

datatype other_op =
  Other_delivered nat | Other_dropped nat bool | Other_get_unsent | Other_get_resend
| Other_release nat | Other_enqueue nat int ace_time | Other_dispose int | Other_unregister int | Other_unregister_all

primrec run_other :: "other_op \<Rightarrow> WriteDataContainer \<Rightarrow> WriteDataContainer option" where
  "run_other (Other_delivered a) c = data_delivered a c"
| "run_other (Other_dropped a b) c = data_dropped a b c"
| "run_other Other_get_unsent c = map_option snd (get_unsent_data c)"
| "run_other Other_get_resend c = map_option snd (get_resend_data c)"
| "run_other (Other_release a) c = release_buffer a c"
| "run_other (Other_enqueue a handle now) c = map_option snd (wc_enqueue a handle False now c)"
| "run_other (Other_dispose handle) c = map_option (\<lambda>(_, _, c). c) (wc_dispose handle False c)"
| "run_other (Other_unregister handle) c = map_option (\<lambda>(_, _, c). c) (wc_unregister handle False c)"
| "run_other Other_unregister_all c = unregister_all Some c"

fun run_others :: "other_op list \<Rightarrow> WriteDataContainer \<Rightarrow> WriteDataContainer option" where
  "run_others [] c = Some c"
| "run_others (x # xs) c = do { c \<leftarrow> run_other x c; run_others xs c }"

datatype wait_result = Signaled | Timed_out | Wait_failed

record wake =
  wk_now :: ace_time
  wk_ops :: "other_op list"
  wk_result :: wait_result

text \<open>
  The two loops of \<open>obtain_buffer\<close> that wait on \<open>condition_\<close>. \<open>ready\<close> is what they wait for; the second loop
  tests it once more after a wait that failed. \<open>wk_now\<close> is the time the loop condition reads. The script may
  end while the writer still waits: then there is no result.
\<close>

fun wait_loop ::
    "(WriteDataContainer \<Rightarrow> bool option) \<Rightarrow> bool \<Rightarrow> ace_time \<Rightarrow> ReturnCode_t \<Rightarrow> bool \<Rightarrow> wake list \<Rightarrow> WriteDataContainer \<Rightarrow>
     (ReturnCode_t \<times> wake list \<times> WriteDataContainer) option" where
  "wait_loop ready recheck abs_timeout ret waited [] c = None"
| "wait_loop ready recheck abs_timeout ret waited (w # ws) c =
     (if wc_shutdown c \<or> \<not> wk_now w < abs_timeout
      then Some (if waited then ret else RETCODE_TIMEOUT, ws, c)
      else do {
        c \<leftarrow> run_others (wk_ops w) (c\<lparr>wc_waiting_on_release := True\<rparr>);
        case wk_result w of
          Signaled \<Rightarrow> do {
            b \<leftarrow> ready c;
            if b then Some (ret, ws, c) else wait_loop ready recheck abs_timeout ret True ws c
          }
        | Timed_out \<Rightarrow> Some (RETCODE_TIMEOUT, ws, c)
        | Wait_failed \<Rightarrow> do {
            b \<leftarrow> (if recheck then ready c else Some False);
            Some (if b then ret else RETCODE_ERROR, ws, c)
          }
      })"

text \<open>\<open>wait_pending\<close>: it returns when nothing is pending, or when a wait fails while something is.\<close>

fun wait_pending :: "wake list \<Rightarrow> WriteDataContainer \<Rightarrow> (wake list \<times> WriteDataContainer) option" where
  "wait_pending ws c =
     (if \<not> pending_data c then Some (ws, c)
      else (case ws of
        [] \<Rightarrow> None
      | w # ws' \<Rightarrow> do {
          c \<leftarrow> run_others (wk_ops w) c;
          if wk_result w \<noteq> Signaled \<and> pending_data c then Some (ws', c) else wait_pending ws' c
        }))"

section \<open>Obtaining an element to write\<close>

text \<open>The loops over the other instances: remove from those with exactly \<open>depth_\<close> samples, or with more than one.\<close>

fun remove_from_others ::
    "(int \<Rightarrow> bool) \<Rightarrow> (int \<times> nat) list \<Rightarrow> ReturnCode_t \<Rightarrow> bool \<Rightarrow> WriteDataContainer \<Rightarrow>
     (ReturnCode_t \<times> bool \<times> WriteDataContainer) option" where
  "remove_from_others eligible [] ret released c = Some (ret, released, c)"
| "remove_from_others eligible ((_, i) # is) ret released c =
     (if released then Some (ret, released, c)
      else do {
        p \<leftarrow> wc_pool c i;
        (ret, released, c) \<leftarrow> (if eligible (sl_size (pi_samples p)) then remove_oldest_sample i released c
                              else Some (ret, released, c));
        remove_from_others eligible is ret released c
      })"

definition too_many_samples :: "WriteDataContainer \<Rightarrow> bool option" where
  "too_many_samples c = map_option (\<lambda>n. to_Long n \<ge> wc_max_num_samples c) (num_all_samples c)"

definition limits_share :: "WriteDataContainer \<Rightarrow> bool" where
  "limits_share c \<longleftrightarrow> wc_max_num_samples c < Long_mult (wc_max_num_instances c) (wc_depth c)"

text \<open>The part of \<open>obtain_buffer\<close> for the limit on all samples; the second result tells whether it waited.\<close>

definition limit_samples ::
    "ace_time \<Rightarrow> wake list \<Rightarrow> ReturnCode_t \<Rightarrow> WriteDataContainer \<Rightarrow>
     (ReturnCode_t \<times> bool \<times> wake list \<times> WriteDataContainer) option" where
  "limit_samples abs_timeout wakes ret c =
     do {
       many \<leftarrow> (if wc_max_num_samples c > 0 then too_many_samples c else Some False);
       if \<not> many then Some (ret, False, wakes, c)
       else do {
         (ret, c) \<leftarrow> (if wc_max_num_instances c > 0 \<and> limits_share c then do {
             (ret, released, c) \<leftarrow> remove_from_others (\<lambda>n. n = wc_depth c) (wc_instances c) ret False c;
             (ret, released, c) \<leftarrow> (if released then Some (ret, released, c)
                                   else remove_from_others (\<lambda>n. n > 1) (wc_instances c) ret False c);
             Some (ret, c)
           } else Some (ret, c));
         still \<leftarrow> too_many_samples c;
         if still \<and> (wc_max_num_instances c = 0 \<or> limits_share c) then do {
           (ret, wakes, c) \<leftarrow> wait_loop (\<lambda>c. map_option (\<lambda>n. to_Long n < wc_max_num_samples c) (num_all_samples c))
             False abs_timeout ret False wakes c;
           Some (ret, True, wakes, c)
         }
         else Some (ret, False, wakes, c)
       }
     }"

text \<open>The part for the depth of the instance: a blocking writer waits in the waiting list of the instance.\<close>

definition await_space ::
    "ace_time \<Rightarrow> wake list \<Rightarrow> nat \<Rightarrow> nat \<Rightarrow> WriteDataContainer \<Rightarrow> (ReturnCode_t \<times> bool \<times> WriteDataContainer) option" where
  "await_space abs_timeout wakes i a c =
     do {
       c \<leftarrow> enqueue_instance Waiting i a c;
       (ret, wakes, c) \<leftarrow> wait_loop (\<lambda>c. space_available a (wc_heap c)) True abs_timeout RETCODE_OK False wakes c;
       if ret = RETCODE_OK then Some (ret, True, c)
       else do {
         (ok, c) \<leftarrow> dequeue_instance Waiting i a c;
         Some (if ok then ret else RETCODE_ERROR, ok, c)
       }
     }"

text \<open>
  \<open>obtain_buffer\<close>: the return code, the element and the container. \<open>now\<close> is the time at which the timeout is
  computed, \<open>max_time\<close> the largest time value and \<open>remove_sample\<close> the call to the transport.
\<close>

definition finish_obtain :: "ReturnCode_t \<Rightarrow> nat \<Rightarrow> WriteDataContainer \<Rightarrow> (ReturnCode_t \<times> ptr \<times> WriteDataContainer) option" where
  "finish_obtain ret a c =
     (if ret \<noteq> RETCODE_OK then map_option (\<lambda>c. (ret, Some a, c)) (release_buffer a c)
      else do {
        (h, l) \<leftarrow> writer_enqueue_tail a (wc_heap c, data_holder c);
        Some (ret, Some a, c\<lparr>wc_heap := h, data_holder := l\<rparr>)
      })"

definition obtain_buffer ::
    "(nat \<Rightarrow> WriteDataContainer \<Rightarrow> WriteDataContainer option) \<Rightarrow> bool \<Rightarrow> ace_time \<Rightarrow> ace_time \<Rightarrow> wake list \<Rightarrow> ptr \<Rightarrow> int \<Rightarrow>
     WriteDataContainer \<Rightarrow> (ReturnCode_t \<times> ptr \<times> WriteDataContainer) option" where
  "obtain_buffer remove_sample native max_time now wakes fresh handle c =
     (let inst = get_handle_instance handle c;
          abs_timeout = duration_to_absolute_time_value max_time (wc_max_blocking_time c) now in
      case fresh of
        None \<Rightarrow> Some (RETCODE_ERROR, None, c)
      | Some a \<Rightarrow> do {
          let c = c\<lparr>wc_heap := (wc_heap c)(a \<mapsto> mk_DataSampleElement native (wc_publication_id c) inst)\<rparr>;
          i \<leftarrow> inst;
          p \<leftarrow> wc_pool c i;
          let stale = sl_head (pi_samples p);
          (ret, oldest_released, c) \<leftarrow>
            (if sl_size (pi_samples p) > wc_depth c then Some (RETCODE_ERROR, True, c)
             else if sl_size (pi_samples p) = wc_depth c then remove_oldest_sample i True c
             else Some (RETCODE_OK, True, c));
          if ret \<noteq> RETCODE_OK then finish_obtain ret a c
          else do {
            (ret, resource_limit_waited, wakes, c) \<leftarrow> limit_samples abs_timeout wakes ret c;
            if ret \<noteq> RETCODE_OK then finish_obtain ret a c
            else if wc_should_block c then do {
              p \<leftarrow> wc_pool c i;
              if sl_head (pi_waiting_list p) \<noteq> None \<or> \<not> oldest_released then do {
                (ret, ok, c) \<leftarrow> await_space abs_timeout wakes i a c;
                if \<not> ok then Some (RETCODE_ERROR, Some a, c) else finish_obtain ret a c
              }
              else finish_obtain ret a c
            }
            else if \<not> oldest_released then do {
              s \<leftarrow> stale;
              c \<leftarrow> remove_sample s c;
              finish_obtain ret a c
            }
            else finish_obtain ret a c
          }
        })"

section \<open>Durability and deadlines\<close>

text \<open>\<open>durability_insert\<close> is the durability cache's, when there is one; it is given the list of sent samples.\<close>

definition persist_data :: "(nat list \<Rightarrow> bool) option \<Rightarrow> WriteDataContainer \<Rightarrow> bool option" where
  "persist_data durability_insert c =
     (case durability_insert of
        None \<Rightarrow> Some True
      | Some f \<Rightarrow> map_option f (iter_elements (wc_heap c) (sl_head (sent_data c))))"

fun reset_timers :: "(int \<times> nat) list \<Rightarrow> WriteDataContainer \<Rightarrow> WriteDataContainer option" where
  "reset_timers [] c = Some c"
| "reset_timers ((_, i) # is) c =
     do {
       p \<leftarrow> wc_pool c i;
       if pi_deadline_timer_id p \<noteq> -1 then do {
         w \<leftarrow> wc_watchdog c;
         reset_timers is (c\<lparr>wc_watchdog := Some (watchdog_reset_timer_interval (pi_deadline_timer_id p) w)\<rparr>)
       }
       else reset_timers is c
     }"

definition wc_reschedule_deadline :: "WriteDataContainer \<Rightarrow> WriteDataContainer option" where
  "wc_reschedule_deadline c = reset_timers (wc_instances c) c"

declare dispose_samples.simps [code] copy_and_append.simps [code]

end
