(* ===== verification/Container_Spec.thy ===== *)
theory Container_Spec
  imports Intrusive_Lists Write_Container
begin

text \<open>
  An abstract container, in which the lists are sequences, and the relation that says that a container
  represents it. The lemmas on the primitive moves are what the refinement of the container's operations
  rests on.
\<close>

record acontainer =
  ac_list :: "send_state \<Rightarrow> nat list"
  ac_holder :: "nat list"
  ac_queue :: "nat \<times> instance_list \<Rightarrow> nat list"

abbreviation ac_samples :: "acontainer \<Rightarrow> nat \<Rightarrow> nat list" where
  "ac_samples A i \<equiv> ac_queue A (i, Samples)"

abbreviation ac_waiting :: "acontainer \<Rightarrow> nat \<Rightarrow> nat list" where
  "ac_waiting A i \<equiv> ac_queue A (i, Waiting)"

definition ac_empty :: acontainer where
  "ac_empty = \<lparr>ac_list = (\<lambda>_. []), ac_holder = [], ac_queue = (\<lambda>_. [])\<rparr>"

definition unlisted :: "acontainer \<Rightarrow> nat \<Rightarrow> bool" where
  "unlisted A a \<longleftrightarrow> (\<forall>k. a \<notin> set (ac_list A k))"

definition disjoint_lists :: "('k \<Rightarrow> nat list) \<Rightarrow> bool" where
  "disjoint_lists L \<longleftrightarrow> (\<forall>k k'. k \<noteq> k' \<longrightarrow> set (L k) \<inter> set (L k') = {})"

lemma disjoint_listsD: "disjoint_lists L \<Longrightarrow> k \<noteq> k' \<Longrightarrow> set (L k) \<inter> set (L k') = {}"
  by (auto simp: disjoint_lists_def)

lemma disjoint_lists_upd:
  fixes L :: "'k \<Rightarrow> nat list"
  assumes "disjoint_lists L" "\<And>k'. k' \<noteq> k \<Longrightarrow> set xs \<inter> set (L k') = {}"
  shows "disjoint_lists (L(k := xs))"
  unfolding disjoint_lists_def
proof (intro allI impI)
  fix k1 k2 :: 'k assume "k1 \<noteq> k2"
  then show "set ((L(k := xs)) k1) \<inter> set ((L(k := xs)) k2) = {}"
    using assms(2) disjoint_listsD [OF assms(1)] by (cases "k1 = k"; cases "k2 = k") (auto simp: Int_commute)
qed

lemma disjoint_lists_shrink:
  "disjoint_lists L \<Longrightarrow> set xs \<subseteq> set (L k) \<Longrightarrow> disjoint_lists (L(k := xs))"
  by (rule disjoint_lists_upd) (auto dest: disjoint_listsD)

text \<open>The lists of send states represent their sequences, and an element in none of them has no such link.\<close>

definition send_part :: "WriteDataContainer \<Rightarrow> acontainer \<Rightarrow> bool" where
  "send_part c A \<longleftrightarrow>
     (\<forall>k. send_rep (wc_heap c) (get_list k c) (ac_list A k))
     \<and> disjoint_lists (ac_list A)
     \<and> (\<forall>a. wc_heap c a \<noteq> None \<longrightarrow> unlisted A a \<longrightarrow> dlist_loose send_view (wc_heap c) a)"

text \<open>
  The list of all samples; an element that is in it neither now nor as a copy for a late reader has no such
  link. The elements in \<open>X\<close> are exempt: an element is between two lists while it is being released.
\<close>

definition writer_part :: "nat set \<Rightarrow> WriteDataContainer \<Rightarrow> acontainer \<Rightarrow> bool" where
  "writer_part X c A \<longleftrightarrow>
     writer_rep (wc_heap c) (data_holder c) (ac_holder A)
     \<and> (\<forall>a. wc_heap c a \<noteq> None \<longrightarrow> a \<notin> set (ac_holder A) \<longrightarrow> a \<notin> set (ac_list A Released) \<longrightarrow>
          a \<notin> set (ac_list A Resend) \<longrightarrow> a \<notin> X \<longrightarrow> dlist_loose writer_view (wc_heap c) a)"

definition instance_part :: "WriteDataContainer \<Rightarrow> acontainer \<Rightarrow> bool" where
  "instance_part c A \<longleftrightarrow>
     (\<forall>i p q. wc_pool c i = Some p \<longrightarrow> instance_rep (wc_heap c) (get_queue q p) (ac_queue A (i, q)))
     \<and> (\<forall>i q. wc_pool c i = None \<longrightarrow> ac_queue A (i, q) = [])
     \<and> disjoint_lists (ac_queue A)"

text \<open>A written element knows its instance and has a sample.\<close>

definition data_part :: "WriteDataContainer \<Rightarrow> acontainer \<Rightarrow> bool" where
  "data_part c A \<longleftrightarrow>
     (\<forall>i. \<forall>a\<in>set (ac_samples A i). \<exists>e d. wc_heap c a = Some e \<and> el_handle e = Some i \<and> el_sample e = Some d
        \<and> wc_blocks c d \<noteq> None)"

definition represents_upto :: "nat set \<Rightarrow> WriteDataContainer \<Rightarrow> acontainer \<Rightarrow> bool" where
  "represents_upto X c A \<longleftrightarrow> send_part c A \<and> writer_part X c A \<and> instance_part c A \<and> data_part c A"

abbreviation represents :: "WriteDataContainer \<Rightarrow> acontainer \<Rightarrow> bool" where
  "represents \<equiv> represents_upto {}"

text \<open>
  The samples of the instances are the unsent, sending and sent ones, all of them are held, copies for a late
  reader are not, and an element of a writer that waits is in no other list.
\<close>

definition live :: "acontainer \<Rightarrow> nat \<Rightarrow> bool" where
  "live A a \<longleftrightarrow> a \<in> set (ac_list A Unsent) \<or> a \<in> set (ac_list A Sending) \<or> a \<in> set (ac_list A Sent)"

definition ac_ok :: "acontainer \<Rightarrow> bool" where
  "ac_ok A \<longleftrightarrow>
     (\<forall>a. (\<exists>i. a \<in> set (ac_samples A i)) \<longleftrightarrow> live A a)
     \<and> (\<forall>a. live A a \<longrightarrow> a \<in> set (ac_holder A))
     \<and> (\<forall>a. a \<in> set (ac_list A Resend) \<longrightarrow> a \<notin> set (ac_holder A))
     \<and> (\<forall>i a. a \<in> set (ac_waiting A i) \<longrightarrow> unlisted A a \<and> a \<notin> set (ac_holder A))"

definition container_ok :: "WriteDataContainer \<Rightarrow> acontainer \<Rightarrow> bool" where
  "container_ok c A \<longleftrightarrow> represents c A \<and> ac_ok A"

section \<open>What the parts depend on\<close>

lemma get_put_list [simp]:
  "get_list k (put_list k' l c) = (if k = k' then l else get_list k c)"
  by (cases k; cases k') simp_all

lemma put_list_simps [simp]:
  "wc_heap (put_list k l c) = wc_heap c" "wc_pool (put_list k l c) = wc_pool c" "wc_blocks (put_list k l c) = wc_blocks c"
  "data_holder (put_list k l c) = data_holder c" "wc_instances (put_list k l c) = wc_instances c"
  "wc_depth (put_list k l c) = wc_depth c" "wc_watchdog (put_list k l c) = wc_watchdog c"
  "wc_calls (put_list k l c) = wc_calls c" "wc_shutdown (put_list k l c) = wc_shutdown c"
  "wc_waiting_on_release (put_list k l c) = wc_waiting_on_release c"
  by (cases k; simp)+

lemma get_list_heap [simp]:
  "get_list k (c\<lparr>wc_heap := h\<rparr>) = get_list k c" "get_list k (c\<lparr>wc_pool := pl\<rparr>) = get_list k c"
  "get_list k (c\<lparr>wc_blocks := bl\<rparr>) = get_list k c" "get_list k (c\<lparr>data_holder := l\<rparr>) = get_list k c"
  "get_list k (c\<lparr>wc_calls := cs\<rparr>) = get_list k c"
  by (cases k; simp)+

lemma send_part_cong:
  assumes "send_part c A" "send_view (wc_heap c') = send_view (wc_heap c)" "\<And>k. get_list k c' = get_list k c"
    "ac_list A' = ac_list A"
  shows "send_part c' A'"
proof -
  have "wc_heap c' a = None \<longleftrightarrow> wc_heap c a = None" for a using assms(2) by (metis view_eq_None(1))
  then show ?thesis
    using assms by (simp add: send_part_def dlist_rep_def dlist_loose_def unlisted_def)
qed

lemma writer_part_cong:
  assumes "writer_part X c A" "writer_view (wc_heap c') = writer_view (wc_heap c)" "data_holder c' = data_holder c"
    "ac_holder A' = ac_holder A"
    "set (ac_list A Released) \<union> set (ac_list A Resend) \<union> X \<subseteq> set (ac_list A' Released) \<union> set (ac_list A' Resend) \<union> X'"
  shows "writer_part X' c' A'"
proof -
  have "wc_heap c' a = None \<longleftrightarrow> wc_heap c a = None" for a using assms(2) by (metis view_eq_None(2))
  then show ?thesis
    using assms by (auto simp: writer_part_def dlist_rep_def dlist_loose_def)
qed

lemma instance_part_cong:
  assumes "instance_part c A" "instance_view (wc_heap c') = instance_view (wc_heap c)" "wc_pool c' = wc_pool c"
    "ac_queue A' = ac_queue A"
  shows "instance_part c' A'"
  using assms by (simp add: instance_part_def instance_rep_def)

lemma unlinked_fields:
  "unlinked e' = unlinked e \<Longrightarrow> el_handle e' = el_handle e \<and> el_sample e' = el_sample e \<and>
     el_space_available e' = el_space_available e \<and> el_header e' = el_header e"
  by (cases e; cases e') (simp add: unlinked_def)

lemma data_viewE:
  assumes "data_view h' a = data_view h a" "h a = Some e"
  obtains e' where "h' a = Some e'" "unlinked e' = unlinked e" "el_handle e' = el_handle e" "el_sample e' = el_sample e"
    "el_space_available e' = el_space_available e"
proof -
  obtain e' where "h' a = Some e'" "unlinked e' = unlinked e" using assms by (auto simp: data_view_def)
  then show thesis using unlinked_fields [of e' e] by (intro that [of e']) simp_all
qed

lemma data_part_cong:
  assumes "data_part c A" "data_view (wc_heap c') = data_view (wc_heap c)" "wc_blocks c' = wc_blocks c"
    "\<And>i. set (ac_samples A' i) \<subseteq> set (ac_samples A i)"
  shows "data_part c' A'"
  unfolding data_part_def
proof safe
  fix i a assume "a \<in> set (ac_samples A' i)"
  then obtain e d where e: "wc_heap c a = Some e" "el_handle e = Some i" "el_sample e = Some d" "wc_blocks c d \<noteq> None"
    using assms(1,4) unfolding data_part_def by blast
  have "data_view (wc_heap c') a = data_view (wc_heap c) a" using assms(2) by simp
  then obtain e' where "wc_heap c' a = Some e'" "el_handle e' = el_handle e" "el_sample e' = el_sample e"
    using e(1) by (rule data_viewE)
  then show "\<exists>e d. wc_heap c' a = Some e \<and> el_handle e = Some i \<and> el_sample e = Some d \<and> wc_blocks c' d \<noteq> None"
    using e assms(3) by auto
qed

section \<open>Primitive moves\<close>

text \<open>Everything a move between send lists, or in the list of an instance, leaves alone.\<close>

definition wc_other :: "WriteDataContainer \<Rightarrow> (int \<times> nat) list \<times> GUID_t \<times> (int \<times> int \<times> int) \<times> bool \<times> Duration_t \<times> bool
    \<times> bool \<times> OfferedDeadlineWatchdog option \<times> container_call list" where
  "wc_other c = (wc_instances c, wc_publication_id c, (wc_depth c, wc_max_num_instances c, wc_max_num_samples c),
     wc_should_block c, wc_max_blocking_time c, wc_waiting_on_release c, wc_shutdown c, wc_watchdog c, wc_calls c)"

definition send_frame :: "WriteDataContainer \<Rightarrow> _" where
  "send_frame c = (send_rest (wc_heap c), wc_pool c, wc_blocks c, data_holder c, wc_other c)"

definition pool_rest :: "WriteDataContainer \<Rightarrow> nat \<rightharpoonup> PublicationInstance" where
  "pool_rest c i = map_option (\<lambda>p. p\<lparr>pi_samples := sample_list_reset, pi_waiting_list := sample_list_reset\<rparr>) (wc_pool c i)"

definition instance_frame :: "WriteDataContainer \<Rightarrow> _" where
  "instance_frame c = (instance_rest (wc_heap c), (\<lambda>k. get_list k c), wc_blocks c, data_holder c, pool_rest c, wc_other c)"

lemma wc_other_simps [simp]:
  "wc_other (put_list k l c) = wc_other c" "wc_other (c\<lparr>wc_heap := h\<rparr>) = wc_other c"
  "wc_other (c\<lparr>wc_pool := pl\<rparr>) = wc_other c" "wc_other (c\<lparr>wc_blocks := bl\<rparr>) = wc_other c"
  "wc_other (c\<lparr>data_holder := l\<rparr>) = wc_other c" "wc_other (put_instance i p c) = wc_other c"
  by (cases k; simp add: wc_other_def put_instance_def)+

lemma put_get_list [simp]: "put_list k (get_list k c) c = c" "put_list k (get_list k c) (c\<lparr>wc_heap := wc_heap c\<rparr>) = c"
  by (cases k; simp)+

lemma put_instance_simps [simp]:
  "wc_heap (put_instance i p c) = wc_heap c" "wc_pool (put_instance i p c) = (wc_pool c)(i \<mapsto> p)"
  "wc_blocks (put_instance i p c) = wc_blocks c" "data_holder (put_instance i p c) = data_holder c"
  "get_list k (put_instance i p c) = get_list k c"
  by (cases k; simp add: put_instance_def)+

lemma send_rest_heap: "send_rest h' = send_rest h \<Longrightarrow> h' a = None \<longleftrightarrow> h a = None"
  unfolding send_rest_def by (metis prod.inject view_eq_None(2))

lemma instance_rest_heap: "instance_rest h' = instance_rest h \<Longrightarrow> h' a = None \<longleftrightarrow> h a = None"
  unfolding instance_rest_def by (metis prod.inject view_eq_None(1))

lemma unlisted_upd:
  "unlisted (A\<lparr>ac_list := (ac_list A)(k := xs)\<rparr>) b \<longleftrightarrow> b \<notin> set xs \<and> (\<forall>k'. k' \<noteq> k \<longrightarrow> b \<notin> set (ac_list A k'))"
  by (auto simp: unlisted_def)

lemma unlisted_iff: "unlisted A b \<longleftrightarrow> b \<notin> set (ac_list A k) \<and> (\<forall>k'. k' \<noteq> k \<longrightarrow> b \<notin> set (ac_list A k'))"
  by (auto simp: unlisted_def)

lemma send_partD:
  assumes "send_part c A"
  shows "send_rep (wc_heap c) (get_list k c) (ac_list A k)" "disjoint_lists (ac_list A)"
    "wc_heap c a \<noteq> None \<Longrightarrow> unlisted A a \<Longrightarrow> dlist_loose send_view (wc_heap c) a"
  using assms by (auto simp: send_part_def)

lemma send_partI:
  assumes "\<And>k. send_rep (wc_heap c) (get_list k c) (ac_list A k)" "disjoint_lists (ac_list A)"
    "\<And>a. wc_heap c a \<noteq> None \<Longrightarrow> unlisted A a \<Longrightarrow> dlist_loose send_view (wc_heap c) a"
  shows "send_part c A"
  using assms by (auto simp: send_part_def)

lemma enqueue_send_move:
  assumes part: "send_part c A" and a: "wc_heap c a \<noteq> None" "unlisted A a"
  obtains c' where "enqueue_send k a c = Some c'" "send_frame c' = send_frame c"
    "send_part c' (A\<lparr>ac_list := (ac_list A)(k := ac_list A k @ [a])\<rparr>)"
proof -
  note part = send_partD [OF part]
  have new: "a \<notin> set (ac_list A k)" for k using a(2) by (simp add: unlisted_def)
  obtain h' l' where m: "send_enqueue_tail a (wc_heap c, get_list k c) = Some (h', l')" "send_rep h' l' (ac_list A k @ [a])"
      "keeps send_view send_rest (insert a (set (ac_list A k))) (wc_heap c) h'"
    using send.enqueue_tail_rep [OF part(1) [of k] part(3) [OF a] new] by blast
  let ?A = "A\<lparr>ac_list := (ac_list A)(k := ac_list A k @ [a])\<rparr>" and ?c = "put_list k l' (c\<lparr>wc_heap := h'\<rparr>)"
  have dom: "h' b = None \<longleftrightarrow> wc_heap c b = None" for b
    using m(3) by (intro send_rest_heap) (simp add: keeps_def)
  have dis: "insert a (set (ac_list A k)) \<inter> set (ac_list A k') = {}" if "k' \<noteq> k" for k'
    using disjoint_listsD [OF part(2), of k k'] new [of k'] that by auto
  have "send_part ?c ?A"
  proof (rule send_partI)
    show "send_rep (wc_heap ?c) (get_list k' ?c) (ac_list ?A k')" for k'
      using send.rep_keeps [OF part(1) [of k'] m(3) dis] m(2) by simp
    show "disjoint_lists (ac_list ?A)" using disjoint_lists_upd [OF part(2), of k] dis by auto
    fix b assume "wc_heap ?c b \<noteq> None" and b: "unlisted ?A b"
    moreover have "unlisted A b" using b unfolding unlisted_upd unlisted_iff [of A b k] by simp
    ultimately have "dlist_loose send_view (wc_heap c) b" using dom part(3) by simp
    then show "dlist_loose send_view (wc_heap ?c) b" using send.loose_keeps [OF _ m(3)] b by (simp add: unlisted_upd)
  qed
  moreover have "send_frame ?c = send_frame c" using m(3) by (simp add: send_frame_def keeps_def)
  ultimately show thesis using m(1) by (intro that [of ?c]) (simp_all add: enqueue_send_def)
qed

lemma dequeue_send_move:
  assumes part: "send_part c A"
  obtains c' where "dequeue_send k a c = Some (a \<in> set (ac_list A k), c')" "send_frame c' = send_frame c"
    "send_part c' (A\<lparr>ac_list := (ac_list A)(k := remove1 a (ac_list A k))\<rparr>)" "a \<notin> set (ac_list A k) \<Longrightarrow> c' = c"
proof -
  note part = send_partD [OF part]
  obtain h' l' where m: "send_dequeue a (wc_heap c, get_list k c) = Some (a \<in> set (ac_list A k), h', l')"
      "send_rep h' l' (remove1 a (ac_list A k))" "a \<in> set (ac_list A k) \<longrightarrow> dlist_loose send_view h' a"
      "a \<notin> set (ac_list A k) \<longrightarrow> h' = wc_heap c \<and> l' = get_list k c"
      "keeps send_view send_rest (set (ac_list A k)) (wc_heap c) h'"
    using send.dequeue_rep [OF part(1) [of k], of a] by blast
  let ?A = "A\<lparr>ac_list := (ac_list A)(k := remove1 a (ac_list A k))\<rparr>" and ?c = "put_list k l' (c\<lparr>wc_heap := h'\<rparr>)"
  have dom: "h' b = None \<longleftrightarrow> wc_heap c b = None" for b
    using m(5) by (intro send_rest_heap) (simp add: keeps_def)
  have "send_part ?c ?A"
  proof (rule send_partI)
    show "send_rep (wc_heap ?c) (get_list k' ?c) (ac_list ?A k')" for k'
      using send.rep_keeps [OF part(1) [of k'] m(5)] disjoint_listsD [OF part(2), of k k'] m(2) by simp
    show "disjoint_lists (ac_list ?A)" using disjoint_lists_shrink [OF part(2) set_remove1_subset] by simp
    fix b assume alloc: "wc_heap ?c b \<noteq> None" and b: "unlisted ?A b"
    show "dlist_loose send_view (wc_heap ?c) b"
    proof (cases "b \<in> set (ac_list A k)")
      case True
      then have "b = a" using b in_set_remove1 [of b a "ac_list A k"] unfolding unlisted_upd by blast
      then show ?thesis using True m(3) by simp
    next
      case False
      then have "unlisted A b" using b unfolding unlisted_upd unlisted_iff [of A b k] by blast
      then show ?thesis using send.loose_keeps [OF _ m(5) False] part(3) alloc dom by simp
    qed
  qed
  moreover have "send_frame ?c = send_frame c" using m(5) by (simp add: send_frame_def keeps_def)
  ultimately show thesis using m(1,4) by (intro that [of ?c]) (auto simp: dequeue_send_def)
qed

lemma append_send_move:
  assumes part: "send_part c A" and ne: "ac_list A k = [] \<or> ac_list A k2 \<noteq> []" and k: "k2 \<noteq> k"
  obtains c' where "append_send k (get_list k2 c) c = Some c'" "send_frame c' = send_frame c"
    "send_part (put_list k2 sample_list_reset c')
       (A\<lparr>ac_list := (ac_list A)(k := ac_list A k @ ac_list A k2, k2 := [])\<rparr>)"
proof -
  note part = send_partD [OF part]
  note dis = disjoint_listsD [OF part(2)]
  obtain h' l' where m: "send_append (get_list k2 c) (wc_heap c, get_list k c) = Some (h', l')"
      "send_rep h' l' (ac_list A k @ ac_list A k2)"
      "keeps send_view send_rest (set (ac_list A k) \<union> set (ac_list A k2)) (wc_heap c) h'"
    using send_append_rep [OF part(1) [of k] part(1) [of k2] dis [OF k [symmetric]] ne] by blast
  let ?A = "A\<lparr>ac_list := (ac_list A)(k := ac_list A k @ ac_list A k2, k2 := [])\<rparr>"
    and ?c = "put_list k l' (c\<lparr>wc_heap := h'\<rparr>)"
  let ?r = "put_list k2 sample_list_reset ?c"
  have dom: "h' b = None \<longleftrightarrow> wc_heap c b = None" for b
    using m(3) by (intro send_rest_heap) (simp add: keeps_def)
  have "send_part ?r ?A"
  proof (rule send_partI)
    show "send_rep (wc_heap ?r) (get_list k' ?r) (ac_list ?A k')" for k'
    proof (cases "k' = k \<or> k' = k2")
      case True
      then show ?thesis using m(2) k send.rep_reset by auto
    next
      case False
      then have "(set (ac_list A k) \<union> set (ac_list A k2)) \<inter> set (ac_list A k') = {}"
        using dis [of k k'] dis [of k2 k'] by blast
      then show ?thesis using send.rep_keeps [OF part(1) [of k'] m(3)] False by simp
    qed
    show "disjoint_lists (ac_list ?A)"
      unfolding disjoint_lists_def
    proof (intro allI impI)
      fix k1 k3 :: send_state assume "k1 \<noteq> k3"
      then show "set (ac_list ?A k1) \<inter> set (ac_list ?A k3) = {}"
        using dis [of k1 k3] dis [of k k1] dis [of k k3] dis [of k2 k1] dis [of k2 k3] by auto
    qed
    fix b assume alloc: "wc_heap ?r b \<noteq> None" and b: "unlisted ?A b"
    have "b \<notin> set (ac_list A k')" for k'
      using b k spec [OF b [unfolded unlisted_def], of k] spec [OF b [unfolded unlisted_def], of k']
      by (auto split: if_splits)
    then show "dlist_loose send_view (wc_heap ?r) b"
      using send.loose_keeps [OF _ m(3)] part(3) alloc dom by (simp add: unlisted_def)
  qed
  moreover have "send_frame ?c = send_frame c" using m(3) by (simp add: send_frame_def keeps_def)
  ultimately show thesis using m(1) by (intro that [of ?c]) (auto simp: append_send_def)
qed

lemma get_put_queue [simp]: "get_queue q (put_queue q' l p) = (if q = q' then l else get_queue q p)"
  by (cases q; cases q') simp_all

lemma put_get_queue [simp]: "put_queue q (get_queue q p) p = p"
  by (cases q) simp_all

lemma erase_put_queue [simp]:
  "(put_queue q l p)\<lparr>pi_samples := x, pi_waiting_list := y\<rparr> = p\<lparr>pi_samples := x, pi_waiting_list := y\<rparr>"
  by (cases q) simp_all

lemma pool_rest_put [simp]:
  "wc_pool c i = Some p \<Longrightarrow> pool_rest (put_instance i (put_queue q l p) (c\<lparr>wc_heap := h\<rparr>)) = pool_rest c"
  by (auto simp: pool_rest_def fun_eq_iff)

lemma instance_partD:
  assumes "instance_part c A"
  shows "wc_pool c i = Some p \<Longrightarrow> instance_rep (wc_heap c) (get_queue q p) (ac_queue A (i, q))"
    "wc_pool c i = None \<Longrightarrow> ac_queue A (i, q) = []" "disjoint_lists (ac_queue A)"
  using assms by (auto simp: instance_part_def)

text \<open>The effect of an operation on one queue of an instance, given what it does to the heap and the list.\<close>

lemma instance_queue_move:
  assumes part: "instance_part c A" and p: "wc_pool c i = Some p"
    and new: "instance_rep h' l' xs" "keeps instance_view instance_rest S (wc_heap c) h'"
    and dis: "\<And>j q'. (j, q') \<noteq> (i, q) \<Longrightarrow> (S \<union> set xs) \<inter> set (ac_queue A (j, q')) = {}"
  shows "instance_part (put_instance i (put_queue q l' p) (c\<lparr>wc_heap := h'\<rparr>)) (A\<lparr>ac_queue := (ac_queue A)((i, q) := xs)\<rparr>)"
    "instance_frame (put_instance i (put_queue q l' p) (c\<lparr>wc_heap := h'\<rparr>)) = instance_frame c"
proof -
  note part = instance_partD [OF part]
  have other: "instance_rep h' (get_queue q' p') (ac_queue A (j, q'))" if "wc_pool c j = Some p'" "(j, q') \<noteq> (i, q)" for j p' q'
    using inst.rep_keeps [OF part(1) [OF that(1)] new(2)] dis [OF that(2)] by blast
  have "disjoint_lists ((ac_queue A)((i, q) := xs))"
    using part(3) by (rule disjoint_lists_upd) (use dis in \<open>auto simp: split_paired_all\<close>)
  then show "instance_part (put_instance i (put_queue q l' p) (c\<lparr>wc_heap := h'\<rparr>)) (A\<lparr>ac_queue := (ac_queue A)((i, q) := xs)\<rparr>)"
    using p new(1) other part(2) unfolding instance_part_def by (auto split: if_splits)
  show "instance_frame (put_instance i (put_queue q l' p) (c\<lparr>wc_heap := h'\<rparr>)) = instance_frame c"
    using p new(2) by (simp add: instance_frame_def keeps_def)
qed

definition unqueued :: "acontainer \<Rightarrow> nat \<Rightarrow> bool" where
  "unqueued A a \<longleftrightarrow> (\<forall>iq. a \<notin> set (ac_queue A iq))"

lemma enqueue_instance_move:
  assumes part: "instance_part c A" and p: "wc_pool c i \<noteq> None" and a: "wc_heap c a \<noteq> None" "unqueued A a"
  obtains c' where "enqueue_instance q i a c = Some c'" "instance_frame c' = instance_frame c"
    "instance_part c' (A\<lparr>ac_queue := (ac_queue A)((i, q) := ac_queue A (i, q) @ [a])\<rparr>)"
proof -
  obtain p where p: "wc_pool c i = Some p" using p by auto
  obtain h' l' where m: "instance_enqueue_tail a (wc_heap c, get_queue q p) = Some (h', l')"
      "instance_rep h' l' (ac_queue A (i, q) @ [a])"
      "keeps instance_view instance_rest (insert a (set (ac_queue A (i, q)))) (wc_heap c) h'"
    using inst.enqueue_tail_rep [OF instance_partD(1) [OF part p], of a q] a
    by (auto simp: instance_loose_def unqueued_def)
  have dis: "(insert a (set (ac_queue A (i, q))) \<union> set (ac_queue A (i, q) @ [a])) \<inter> set (ac_queue A (j, q')) = {}"
    if "(j, q') \<noteq> (i, q)" for j q'
    using disjoint_listsD [OF instance_partD(3) [OF part] that] a(2) by (auto simp: unqueued_def)
  note move = instance_queue_move [OF part p m(2,3), of q, OF dis]
  show thesis by (rule that [OF _ move(2,1)]) (use m(1) p in \<open>simp add: enqueue_instance_def\<close>)
qed

lemma dequeue_instance_move:
  assumes part: "instance_part c A" and p: "wc_pool c i \<noteq> None"
  obtains c' where "dequeue_instance q i a c = Some (a \<in> set (ac_queue A (i, q)), c')" "instance_frame c' = instance_frame c"
    "instance_part c' (A\<lparr>ac_queue := (ac_queue A)((i, q) := remove1 a (ac_queue A (i, q)))\<rparr>)"
proof -
  obtain p where p: "wc_pool c i = Some p" using p by auto
  obtain h' l' where m: "instance_dequeue a (wc_heap c, get_queue q p) = Some (a \<in> set (ac_queue A (i, q)), h', l')"
      "instance_rep h' l' (remove1 a (ac_queue A (i, q)))"
      "keeps instance_view instance_rest (set (ac_queue A (i, q))) (wc_heap c) h'"
    using inst.dequeue_rep [OF instance_partD(1) [OF part p, of q], of a] by blast
  have dis: "(set (ac_queue A (i, q)) \<union> set (remove1 a (ac_queue A (i, q)))) \<inter> set (ac_queue A (j, q')) = {}"
    if "(j, q') \<noteq> (i, q)" for j q'
    using disjoint_listsD [OF instance_partD(3) [OF part] that] set_remove1_subset [of a "ac_queue A (i, q)"] by blast
  note move = instance_queue_move [OF part p m(2,3), of q, OF dis]
  show thesis by (rule that [OF _ move(2,1)]) (use m(1) p in \<open>simp add: dequeue_instance_def\<close>)
qed

lemma dequeue_instance_head_move:
  assumes part: "instance_part c A" and p: "wc_pool c i \<noteq> None" and xs: "ac_queue A (i, q) = a # xs"
  obtains c' where "dequeue_instance_head q i c = Some (True, Some a, c')" "instance_frame c' = instance_frame c"
    "instance_part c' (A\<lparr>ac_queue := (ac_queue A)((i, q) := xs)\<rparr>)"
proof -
  obtain p where p: "wc_pool c i = Some p" using p by auto
  obtain h' l' where m: "instance_dequeue_head (wc_heap c, get_queue q p) = Some (True, Some a, h', l')"
      "instance_rep h' l' xs" "keeps instance_view instance_rest (insert a (set xs)) (wc_heap c) h'"
    using inst.dequeue_head_rep [of "wc_heap c" "get_queue q p" a xs] instance_partD(1) [OF part p, of q] xs by auto
  have dis: "(insert a (set xs) \<union> set xs) \<inter> set (ac_queue A (j, q')) = {}" if "(j, q') \<noteq> (i, q)" for j q'
    using disjoint_listsD [OF instance_partD(3) [OF part] that] xs by auto
  note move = instance_queue_move [OF part p m(2,3), of q, OF dis]
  show thesis by (rule that [OF _ move(2,1)]) (use m(1) p in \<open>simp add: dequeue_instance_head_def\<close>)
qed

section \<open>Moves of a represented container\<close>

lemma representsD:
  assumes "represents_upto X c A"
  shows "send_part c A" "writer_part X c A" "instance_part c A" "data_part c A"
  using assms by (simp_all add: represents_upto_def)

lemma send_frameD:
  assumes "send_frame c' = send_frame c"
  shows "writer_view (wc_heap c') = writer_view (wc_heap c)" "instance_view (wc_heap c') = instance_view (wc_heap c)"
    "data_view (wc_heap c') = data_view (wc_heap c)" "wc_pool c' = wc_pool c" "wc_blocks c' = wc_blocks c"
    "data_holder c' = data_holder c" "wc_other c' = wc_other c"
  using assms by (auto simp: send_frame_def send_rest_def)

lemma instance_frameD:
  assumes "instance_frame c' = instance_frame c"
  shows "writer_view (wc_heap c') = writer_view (wc_heap c)" "send_view (wc_heap c') = send_view (wc_heap c)"
    "data_view (wc_heap c') = data_view (wc_heap c)" "get_list k c' = get_list k c" "wc_blocks c' = wc_blocks c"
    "data_holder c' = data_holder c" "pool_rest c' = pool_rest c" "wc_other c' = wc_other c"
  using assms unfolding instance_frame_def instance_rest_def by (simp_all add: fun_eq_iff)

lemma frame_alloc:
  "data_view h' = data_view h \<Longrightarrow> h' a = None \<longleftrightarrow> h a = None"
  by (metis view_eq_None(4))

text \<open>A change of the send lists only.\<close>

lemma represents_send:
  assumes rep: "represents_upto X c A" and part: "send_part c' A'" and frame: "send_frame c' = send_frame c"
    and A: "ac_holder A' = ac_holder A" "ac_queue A' = ac_queue A"
      "set (ac_list A Released) \<union> set (ac_list A Resend) \<union> X \<subseteq> set (ac_list A' Released) \<union> set (ac_list A' Resend) \<union> X'"
  shows "represents_upto X' c' A'"
  unfolding represents_upto_def
proof (intro conjI)
  note f = send_frameD [OF frame] and r = representsD [OF rep]
  show "send_part c' A'" by (rule part)
  show "writer_part X' c' A'" using r(2) f(1,6) A(1,3) by (rule writer_part_cong)
  show "instance_part c' A'" using r(3) f(2,4) A(2) by (rule instance_part_cong)
  show "data_part c' A'" using r(4) f(3,5) by (rule data_part_cong) (simp add: A(2))
qed

lemma represents_enqueue_send:
  assumes rep: "represents_upto X c A" and a: "wc_heap c a \<noteq> None" "unlisted A a"
  obtains c' where "enqueue_send k a c = Some c'" "send_frame c' = send_frame c"
    "represents_upto X c' (A\<lparr>ac_list := (ac_list A)(k := ac_list A k @ [a])\<rparr>)"
proof -
  obtain c' where c: "enqueue_send k a c = Some c'" "send_frame c' = send_frame c"
      "send_part c' (A\<lparr>ac_list := (ac_list A)(k := ac_list A k @ [a])\<rparr>)"
    using enqueue_send_move [OF representsD(1) [OF rep] a] .
  have "represents_upto X c' (A\<lparr>ac_list := (ac_list A)(k := ac_list A k @ [a])\<rparr>)"
    using rep c(3,2) by (rule represents_send) auto
  then show thesis using c(1,2) by (intro that)
qed

lemma represents_dequeue_send:
  assumes rep: "represents_upto X c A"
  obtains c' where "dequeue_send k a c = Some (a \<in> set (ac_list A k), c')" "send_frame c' = send_frame c"
    "represents_upto (if k = Released \<or> k = Resend then insert a X else X) c'
       (A\<lparr>ac_list := (ac_list A)(k := remove1 a (ac_list A k))\<rparr>)"
    "a \<notin> set (ac_list A k) \<Longrightarrow> c' = c"
proof -
  let ?A = "A\<lparr>ac_list := (ac_list A)(k := remove1 a (ac_list A k))\<rparr>"
    and ?X = "if k = Released \<or> k = Resend then insert a X else X"
  obtain c' where c: "dequeue_send k a c = Some (a \<in> set (ac_list A k), c')" "send_frame c' = send_frame c"
      "send_part c' ?A" "a \<notin> set (ac_list A k) \<Longrightarrow> c' = c"
    using dequeue_send_move [OF representsD(1) [OF rep]] by blast
  have "x \<in> set (remove1 a xs) \<or> x = a" if "x \<in> set xs" for x xs using that by (cases "x = a") auto
  then have "set (ac_list A Released) \<union> set (ac_list A Resend) \<union> X \<subseteq> set (ac_list ?A Released) \<union> set (ac_list ?A Resend) \<union> ?X"
    by (cases k) auto
  then have "represents_upto ?X c' ?A" using represents_send [OF rep c(3,2)] by simp
  then show thesis using c(1,2,4) by (intro that)
qed

text \<open>A change of the queues of the instances only.\<close>

lemma represents_instance:
  assumes rep: "represents_upto X c A" and part: "instance_part c' A'" and frame: "instance_frame c' = instance_frame c"
    and A: "ac_holder A' = ac_holder A" "ac_list A' = ac_list A" and data: "data_part c' A'"
  shows "represents_upto X c' A'"
  unfolding represents_upto_def
proof (intro conjI)
  note f = instance_frameD [OF frame] and r = representsD [OF rep]
  show "send_part c' A'" using r(1) f(2,4) A(2) by (rule send_part_cong)
  show "writer_part X c' A'" using r(2) f(1,6) A(1) by (rule writer_part_cong) (simp add: A(2))
qed (fact part data)+

lemma data_part_shrink:
  assumes "data_part c A" "instance_frame c' = instance_frame c" "set xs \<subseteq> set (ac_queue A iq)"
  shows "data_part c' (A\<lparr>ac_queue := (ac_queue A)(iq := xs)\<rparr>)"
  using assms(1) instance_frameD(3,5) [OF assms(2)] by (rule data_part_cong) (use assms(3) in auto)

lemma represents_dequeue_instance:
  assumes rep: "represents_upto X c A" and p: "wc_pool c i \<noteq> None"
  obtains c' where "dequeue_instance q i a c = Some (a \<in> set (ac_queue A (i, q)), c')" "instance_frame c' = instance_frame c"
    "represents_upto X c' (A\<lparr>ac_queue := (ac_queue A)((i, q) := remove1 a (ac_queue A (i, q)))\<rparr>)"
proof -
  obtain c' where c: "dequeue_instance q i a c = Some (a \<in> set (ac_queue A (i, q)), c')" "instance_frame c' = instance_frame c"
      "instance_part c' (A\<lparr>ac_queue := (ac_queue A)((i, q) := remove1 a (ac_queue A (i, q)))\<rparr>)"
    using dequeue_instance_move [OF representsD(3) [OF rep] p] by blast
  have "represents_upto X c' (A\<lparr>ac_queue := (ac_queue A)((i, q) := remove1 a (ac_queue A (i, q)))\<rparr>)"
    using represents_instance [OF rep c(3,2)] data_part_shrink [OF representsD(4) [OF rep] c(2) set_remove1_subset] by simp
  then show thesis using c(1,2) by (intro that)
qed

lemma represents_dequeue_instance_head:
  assumes rep: "represents_upto X c A" and p: "wc_pool c i \<noteq> None" and xs: "ac_queue A (i, q) = a # xs"
  obtains c' where "dequeue_instance_head q i c = Some (True, Some a, c')" "instance_frame c' = instance_frame c"
    "represents_upto X c' (A\<lparr>ac_queue := (ac_queue A)((i, q) := xs)\<rparr>)"
proof -
  obtain c' where c: "dequeue_instance_head q i c = Some (True, Some a, c')" "instance_frame c' = instance_frame c"
      "instance_part c' (A\<lparr>ac_queue := (ac_queue A)((i, q) := xs)\<rparr>)"
    using dequeue_instance_head_move [OF representsD(3) [OF rep] p xs] by blast
  have "set xs \<subseteq> set (ac_queue A (i, q))" using xs by auto
  then have "represents_upto X c' (A\<lparr>ac_queue := (ac_queue A)((i, q) := xs)\<rparr>)"
    using represents_instance [OF rep c(3,2)] data_part_shrink [OF representsD(4) [OF rep] c(2)] by simp
  then show thesis using c(1,2) by (intro that)
qed

lemma represents_enqueue_instance:
  assumes rep: "represents_upto X c A" and p: "wc_pool c i \<noteq> None" and a: "wc_heap c a = Some e" "unqueued A a"
    and data: "q = Samples \<Longrightarrow> el_handle e = Some i \<and> (\<exists>d. el_sample e = Some d \<and> wc_blocks c d \<noteq> None)"
  obtains c' where "enqueue_instance q i a c = Some c'" "instance_frame c' = instance_frame c"
    "represents_upto X c' (A\<lparr>ac_queue := (ac_queue A)((i, q) := ac_queue A (i, q) @ [a])\<rparr>)"
proof -
  let ?A = "A\<lparr>ac_queue := (ac_queue A)((i, q) := ac_queue A (i, q) @ [a])\<rparr>"
  obtain c' where c: "enqueue_instance q i a c = Some c'" "instance_frame c' = instance_frame c" "instance_part c' ?A"
    using enqueue_instance_move [OF representsD(3) [OF rep] p _ a(2), of q] a(1) by blast
  have "data_part c ?A" using representsD(4) [OF rep] a(1) data unfolding data_part_def by auto
  then have "data_part c' ?A"
    using instance_frameD(3,5) [OF c(2)] by (rule data_part_cong) simp
  then have "represents_upto X c' ?A" using represents_instance [OF rep c(3,2)] by simp
  then show thesis using c(1,2) by (intro that)
qed

text \<open>Freeing an element that is in no list.\<close>

lemma view_free [simp]:
  "send_view (h(a := None)) = (send_view h)(a := None)" "writer_view (h(a := None)) = (writer_view h)(a := None)"
  "instance_view (h(a := None)) = (instance_view h)(a := None)" "data_view (h(a := None)) = (data_view h)(a := None)"
  by (auto simp: fun_eq_iff send_view_def writer_view_def instance_view_def data_view_def)

definition free_frame :: "WriteDataContainer \<Rightarrow> _" where
  "free_frame c = ((\<lambda>k. get_list k c), wc_pool c, wc_blocks c, wc_other c)"

lemma represents_release:
  assumes rep: "represents_upto {a} c A" and a: "wc_heap c a \<noteq> None" "unlisted A a" "unqueued A a"
  obtains c' where "release_buffer a c = Some c'" "free_frame c' = free_frame c" "wc_heap c' a = None"
    "\<And>b. b \<noteq> a \<Longrightarrow> data_view (wc_heap c') b = data_view (wc_heap c) b"
    "represents c' (A\<lparr>ac_holder := remove1 a (ac_holder A)\<rparr>)"
proof -
  note r = representsD [OF rep]
  have w: "writer_rep (wc_heap c) (data_holder c) (ac_holder A)" using r(2) by (simp add: writer_part_def)
  obtain h l where m: "writer_dequeue a (wc_heap c, data_holder c) = Some (a \<in> set (ac_holder A), h, l)"
      "writer_rep h l (remove1 a (ac_holder A))" "keeps writer_view writer_rest (set (ac_holder A)) (wc_heap c) h"
    using writer.dequeue_rep [OF w, of a] by blast
  have views: "send_view h = send_view (wc_heap c)" "instance_view h = instance_view (wc_heap c)"
      "data_view h = data_view (wc_heap c)"
    using m(3) by (simp_all add: keeps_def writer_rest_def)
  have alloc: "h b = None \<longleftrightarrow> wc_heap c b = None" for b using views(3) by (rule frame_alloc)
  let ?c = "c\<lparr>wc_heap := h(a := None), data_holder := l\<rparr>" and ?A = "A\<lparr>ac_holder := remove1 a (ac_holder A)\<rparr>"
  have dis: "distinct (ac_holder A)" using w by (rule writer.rep_distinct)
  have list: "get_list k ?c = get_list k c" for k by (cases k) simp_all
  have "send_part ?c ?A"
  proof (rule send_partI)
    show "send_rep (wc_heap ?c) (get_list k ?c) (ac_list ?A k)" for k
    proof -
      have "send_rep (h(a := None)) (get_list k c) (ac_list A k)"
        using send_partD(1) [OF r(1)] by (rule send.rep_cong) (use a(2) views(1) in \<open>auto simp: unlisted_def\<close>)
      then show ?thesis using list by simp
    qed
    show "disjoint_lists (ac_list ?A)" using send_partD(2) [OF r(1)] by simp
    show "dlist_loose send_view (wc_heap ?c) b" if "wc_heap ?c b \<noteq> None" "unlisted ?A b" for b
      using that send_partD(3) [OF r(1), of b] alloc [of b] views(1)
      by (auto simp: dlist_loose_def unlisted_def split: if_splits)
  qed
  moreover have "writer_part {} ?c ?A"
  proof -
    have "writer_rep (h(a := None)) l (remove1 a (ac_holder A))"
      using m(2) dis by (elim writer.rep_cong) auto
    moreover have "dlist_loose writer_view (h(a := None)) b"
      if "(h(a := None)) b \<noteq> None" "b \<notin> set (remove1 a (ac_holder A))" "b \<notin> set (ac_list A Released)" "b \<notin> set (ac_list A Resend)" for b
    proof -
      have b: "b \<noteq> a" "b \<notin> set (ac_holder A)" using that(1,2) dis by (auto split: if_splits)
      then have "dlist_loose writer_view (wc_heap c) b" using that r(2) alloc by (auto simp: writer_part_def)
      then have "dlist_loose writer_view h b" using writer.loose_keeps [OF _ m(3)] b by blast
      then show ?thesis using b by (simp add: dlist_loose_def)
    qed
    ultimately show ?thesis by (simp add: writer_part_def)
  qed
  moreover have "instance_part ?c ?A"
  proof -
    have "instance_rep (h(a := None)) l xs" if "instance_rep (wc_heap c) l xs" "a \<notin> set xs" for l xs
      using that(1) by (rule inst.rep_cong) (use that(2) views(2) in auto)
    then show ?thesis using r(3) a(3) by (auto simp: instance_part_def unqueued_def)
  qed
  moreover have "data_part ?c ?A"
  proof -
    have "data_part (c\<lparr>wc_heap := h\<rparr>) A" using r(4) by (rule data_part_cong) (simp_all add: views(3))
    then show ?thesis using a(3) by (auto simp: data_part_def unqueued_def)
  qed
  ultimately have "represents ?c ?A" by (simp add: represents_upto_def)
  then show thesis
    using m(1) a(1) alloc [of a] list views(3) by (intro that [of ?c]) (auto simp: release_buffer_def free_frame_def)
qed

end
