(* ===== verification/Container_Refinement.thy ===== *)
theory Container_Refinement
  imports Container_Spec
begin

text \<open>
  The operations of the container refine operations on sequences: what happens to a sample when it is written,
  handed to the transport, delivered, dropped and removed, and that the lists of the container are never
  corrupted on the way.
\<close>

section \<open>The abstract operations\<close>

text \<open>Written into the instance \<open>i\<close>.\<close>

definition a_enqueue :: "nat \<Rightarrow> nat \<Rightarrow> acontainer \<Rightarrow> acontainer" where
  "a_enqueue i a A = A\<lparr>ac_list := (ac_list A)(Unsent := ac_list A Unsent @ [a]),
     ac_queue := (ac_queue A)((i, Samples) := ac_samples A i @ [a])\<rparr>"

definition a_get_unsent :: "acontainer \<Rightarrow> acontainer" where
  "a_get_unsent A = A\<lparr>ac_list := (ac_list A)(Sending := ac_list A Sending @ ac_list A Unsent, Unsent := [])\<rparr>"

definition a_get_resend :: "acontainer \<Rightarrow> acontainer" where
  "a_get_resend A = A\<lparr>ac_list := (ac_list A)(Released := ac_list A Released @ ac_list A Resend, Resend := [])\<rparr>"

definition a_take :: "send_state \<Rightarrow> nat \<Rightarrow> acontainer \<Rightarrow> acontainer" where
  "a_take k a A = A\<lparr>ac_list := (ac_list A)(k := remove1 a (ac_list A k))\<rparr>"

definition a_put :: "send_state \<Rightarrow> nat \<Rightarrow> acontainer \<Rightarrow> acontainer" where
  "a_put k a A = A\<lparr>ac_list := (ac_list A)(k := ac_list A k @ [a])\<rparr>"

definition a_forget :: "nat \<Rightarrow> nat \<Rightarrow> acontainer \<Rightarrow> acontainer" where
  "a_forget i a A = A\<lparr>ac_queue := (ac_queue A)((i, Samples) := remove1 a (ac_samples A i))\<rparr>"

definition a_free :: "nat \<Rightarrow> acontainer \<Rightarrow> acontainer" where
  "a_free a A = A\<lparr>ac_holder := remove1 a (ac_holder A)\<rparr>"

text \<open>
  Delivered: a released sample is freed; a sample being sent is kept as sent, or freed when a writer of its
  instance waits for space.
\<close>

definition a_delivered :: "nat \<Rightarrow> nat \<Rightarrow> acontainer \<Rightarrow> acontainer" where
  "a_delivered i a A =
     (if a \<in> set (ac_list A Released) then a_free a (a_take Released a A)
      else if a \<in> set (ac_list A Sending) then
        if ac_waiting A i \<noteq> [] then a_free a (a_forget i a (a_take Sending a A))
        else a_put Sent a (a_take Sending a A)
      else A)"

text \<open>Dropped on request of the writer: a sample being sent is to be sent again, a released one is freed.\<close>

definition a_dropped :: "nat \<Rightarrow> acontainer \<Rightarrow> acontainer" where
  "a_dropped a A =
     (if a \<in> set (ac_list A Sending) then a_put Unsent a (a_take Sending a A)
      else if a \<in> set (ac_list A Released) then a_free a (a_take Released a A)
      else A)"

text \<open>The oldest sample of an instance: the transport keeps what it is sending.\<close>

definition a_state :: "nat \<Rightarrow> acontainer \<Rightarrow> send_state" where
  "a_state a A =
     (if a \<in> set (ac_list A Sending) then Sending else if a \<in> set (ac_list A Sent) then Sent else Unsent)"

definition a_remove :: "nat \<Rightarrow> nat \<Rightarrow> acontainer \<Rightarrow> acontainer" where
  "a_remove i a A =
     (let B = a_take (a_state a A) a (a_forget i a A)
      in if a_state a A = Sending then a_put Released a B else a_free a B)"

definition a_dispose :: "nat \<Rightarrow> acontainer \<Rightarrow> acontainer" where
  "a_dispose i A = fold (a_remove i) (ac_samples A i) A"

lemmas a_simps = a_take_def a_put_def a_forget_def a_free_def

section \<open>Well-formed abstract containers\<close>

lemma ac_okD:
  assumes "ac_ok A"
  shows "a \<in> set (ac_samples A i) \<Longrightarrow> live A a" "live A a \<Longrightarrow> \<exists>i. a \<in> set (ac_samples A i)"
    "live A a \<Longrightarrow> a \<in> set (ac_holder A)" "a \<in> set (ac_list A Resend) \<Longrightarrow> a \<notin> set (ac_holder A)"
    "a \<in> set (ac_waiting A i) \<Longrightarrow> unlisted A a \<and> a \<notin> set (ac_holder A)"
  using assms unfolding ac_ok_def by blast+

text \<open>An element is in one list at most, and once.\<close>

lemma container_okD:
  assumes "container_ok c A"
  shows "represents c A" "ac_ok A" "distinct (ac_list A k)" "distinct (ac_queue A iq)" "distinct (ac_holder A)"
    "disjoint_lists (ac_list A)" "disjoint_lists (ac_queue A)"
proof -
  show rep: "represents c A" and "ac_ok A" using assms by (simp_all add: container_ok_def)
  note r = representsD [OF rep]
  show "distinct (ac_list A k)" using send_partD(1) [OF r(1)] by (rule send.rep_distinct)
  show "distinct (ac_holder A)" using r(2) writer.rep_distinct by (auto simp: writer_part_def)
  show "disjoint_lists (ac_list A)" using send_partD(2) [OF r(1)] .
  show "disjoint_lists (ac_queue A)" using instance_partD(3) [OF r(3)] .
  obtain i q where iq: "iq = (i, q)" by (cases iq)
  show "distinct (ac_queue A iq)"
    using instance_partD(1) [OF r(3), of i _ q] instance_partD(2) [OF r(3), of i q] inst.rep_distinct iq by (cases "wc_pool c i") auto
qed

lemma in_one_list:
  "disjoint_lists L \<Longrightarrow> a \<in> set (L k) \<Longrightarrow> a \<in> set (L k') \<longleftrightarrow> k' = k"
  using disjoint_listsD [of L k k'] by auto

lemma unlisted_state: "unlisted A a \<longleftrightarrow> \<not> live A a \<and> a \<notin> set (ac_list A Released) \<and> a \<notin> set (ac_list A Resend)"
  unfolding unlisted_def live_def by (metis (full_types) send_state.exhaust)

lemma ok_move:
  assumes ok: "ac_ok A" and "distinct (ac_list A k)" "a \<in> set (ac_list A k)"
    and k: "k \<in> {Unsent, Sending, Sent}" "k' \<in> {Unsent, Sending, Sent}" "k' \<noteq> k"
  shows "ac_ok (a_put k' a (a_take k a A))"
proof -
  let ?A = "a_put k' a (a_take k a A)"
  have live: "live ?A b \<longleftrightarrow> live A b" for b
    using assms(2,3) k unfolding live_def a_simps by (cases k; cases k') auto
  have unl: "unlisted ?A b \<longleftrightarrow> unlisted A b" for b
    unfolding unlisted_state live using k by (auto simp: a_simps)
  show ?thesis using ok live unl k unfolding ac_ok_def by (auto simp: a_simps)
qed

lemma remove1_mem: "distinct xs \<Longrightarrow> b \<in> set (remove1 a xs) \<longleftrightarrow> b \<in> set xs \<and> b \<noteq> a"
  by auto

lemma a_fields [simp]:
  "ac_queue (a_put k a A) = ac_queue A" "ac_queue (a_take k a A) = ac_queue A" "ac_queue (a_free a A) = ac_queue A"
  "ac_list (a_forget i a A) = ac_list A" "ac_list (a_free a A) = ac_list A" "ac_holder (a_put k a A) = ac_holder A"
  "ac_holder (a_take k a A) = ac_holder A" "ac_holder (a_forget i a A) = ac_holder A"
  "ac_waiting (a_forget i a A) j = ac_waiting A j" "ac_holder (a_free a A) = remove1 a (ac_holder A)"
  by (simp_all add: a_simps)

lemma forget_samples:
  assumes "distinct (ac_samples A i)" "disjoint_lists (ac_queue A)" "a \<in> set (ac_samples A i)"
  shows "b \<in> set (ac_samples (a_forget i a A) j) \<longleftrightarrow> b \<in> set (ac_samples A j) \<and> b \<noteq> a"
  using assms remove1_mem [OF assms(1)] in_one_list [OF assms(2,3), of "(j, Samples)"] by (auto simp: a_forget_def)

lemma enqueue_samples: "b \<in> set (ac_samples (a_enqueue i a A) j) \<longleftrightarrow> b \<in> set (ac_samples A j) \<or> (j = i \<and> b = a)"
  by (auto simp: a_enqueue_def)

lemma ok_free_released:
  assumes wf: "container_ok c A" and a: "a \<in> set (ac_list A Released)"
  shows "ac_ok (a_free a (a_take Released a A))"
proof -
  let ?A = "a_free a (a_take Released a A)"
  note w = container_okD [OF wf]
  have nl: "\<not> live A a" using in_one_list [OF w(6) a] by (auto simp: live_def)
  have live: "live ?A b \<longleftrightarrow> live A b" for b by (simp add: live_def a_simps)
  have unl: "unlisted A b \<Longrightarrow> unlisted ?A b" for b
    unfolding unlisted_state live using remove1_mem [OF w(3)] by (auto simp: a_simps)
  show ?thesis
    using w(2) nl live unl remove1_mem [OF w(5)] unfolding ac_ok_def by (auto simp: a_simps)
qed

lemma ok_free_live:
  assumes wf: "container_ok c A" and a: "a \<in> set (ac_list A k)" "a \<in> set (ac_samples A i)"
  shows "ac_ok (a_free a (a_take k a (a_forget i a A)))"
proof -
  let ?A = "a_free a (a_take k a (a_forget i a A))"
  note w = container_okD [OF wf]
  have al: "live A a" using ac_okD(1) [OF w(2) a(2)] .
  have k: "k \<in> {Unsent, Sending, Sent}" using al in_one_list [OF w(6) a(1)] by (auto simp: live_def)
  have live: "live ?A b \<longleftrightarrow> live A b \<and> b \<noteq> a" for b
    using k in_one_list [OF w(6) a(1)] remove1_mem [OF w(3)] by (auto simp: live_def a_simps)
  have samples: "(\<exists>j. b \<in> set (ac_samples ?A j)) \<longleftrightarrow> (\<exists>j. b \<in> set (ac_samples A j)) \<and> b \<noteq> a" for b
    using forget_samples [OF w(4,7) a(2), of b] by auto
  have unl: "unlisted A b \<Longrightarrow> unlisted ?A b" for b
    unfolding unlisted_state live using k by (auto simp: a_simps)
  have "\<forall>b. (\<exists>i. b \<in> set (ac_samples ?A i)) \<longleftrightarrow> live ?A b" using w(2) live samples unfolding ac_ok_def by simp
  moreover have "ac_waiting ?A j = ac_waiting A j" "ac_list ?A Resend = ac_list A Resend" for j
    using k by (auto simp: a_simps)
  ultimately show ?thesis
    using w(2) live unl remove1_mem [OF w(5)] unfolding ac_ok_def by (auto simp: a_free_def a_take_def a_forget_def)
qed

lemma ok_release_sending:
  assumes wf: "container_ok c A" and a: "a \<in> set (ac_list A Sending)" "a \<in> set (ac_samples A i)"
  shows "ac_ok (a_put Released a (a_take Sending a (a_forget i a A)))"
proof -
  let ?A = "a_put Released a (a_take Sending a (a_forget i a A))"
  note w = container_okD [OF wf]
  have live: "live ?A b \<longleftrightarrow> live A b \<and> b \<noteq> a" for b
    using in_one_list [OF w(6) a(1)] remove1_mem [OF w(3)] by (auto simp: live_def a_simps)
  have samples: "(\<exists>j. b \<in> set (ac_samples ?A j)) \<longleftrightarrow> (\<exists>j. b \<in> set (ac_samples A j)) \<and> b \<noteq> a" for b
    using forget_samples [OF w(4,7) a(2), of b] by auto
  have unl: "unlisted A b \<Longrightarrow> unlisted ?A b" for b
    unfolding unlisted_state live using a(1) by (auto simp: a_simps live_def)
  have "\<forall>b. (\<exists>i. b \<in> set (ac_samples ?A i)) \<longleftrightarrow> live ?A b" using w(2) live samples unfolding ac_ok_def by simp
  moreover have "ac_waiting ?A j = ac_waiting A j" "ac_list ?A Resend = ac_list A Resend" for j
    by (auto simp: a_simps)
  ultimately show ?thesis
    using w(2) live unl unfolding ac_ok_def by (auto simp: a_put_def a_take_def a_forget_def)
qed

lemma ok_enqueue:
  assumes ok: "ac_ok A" and a: "a \<in> set (ac_holder A)" "unlisted A a"
  shows "ac_ok (a_enqueue i a A)"
proof -
  let ?A = "a_enqueue i a A"
  have live: "live ?A b \<longleftrightarrow> live A b \<or> b = a" for b by (auto simp: live_def a_enqueue_def)
  have unl: "unlisted ?A b \<longleftrightarrow> unlisted A b \<and> b \<noteq> a" for b
    unfolding unlisted_state live using a(2) by (auto simp: a_enqueue_def unlisted_state)
  have "ac_waiting ?A j = ac_waiting A j" "ac_list ?A Resend = ac_list A Resend" "ac_holder ?A = ac_holder A" for j
    by (auto simp: a_enqueue_def)
  moreover have "\<forall>b. (\<exists>j. b \<in> set (ac_samples ?A j)) \<longleftrightarrow> live ?A b"
    using ok live unfolding ac_ok_def enqueue_samples by auto
  ultimately show ?thesis using ok live unl a unfolding ac_ok_def by auto
qed

lemma ok_get_unsent: "ac_ok A \<Longrightarrow> ac_ok (a_get_unsent A)"
proof -
  assume ok: "ac_ok A"
  have live: "live (a_get_unsent A) b \<longleftrightarrow> live A b" for b by (auto simp: live_def a_get_unsent_def)
  have unl: "unlisted (a_get_unsent A) b \<longleftrightarrow> unlisted A b" for b
    unfolding unlisted_state live by (simp add: a_get_unsent_def)
  show ?thesis using ok live unl unfolding ac_ok_def by (simp add: a_get_unsent_def)
qed

lemma ok_get_resend: "ac_ok A \<Longrightarrow> ac_ok (a_get_resend A)"
proof -
  assume ok: "ac_ok A"
  have live: "live (a_get_resend A) b \<longleftrightarrow> live A b" for b by (auto simp: live_def a_get_resend_def)
  have unl: "unlisted (a_get_resend A) b \<longleftrightarrow> unlisted A b" for b
    unfolding unlisted_state live by (auto simp: a_get_resend_def)
  show ?thesis using ok live unl unfolding ac_ok_def by (simp add: a_get_resend_def)
qed

section \<open>Delivery\<close>

text \<open>What no operation on samples changes: the instances apart from their lists, and the configuration.\<close>

definition wc_stable :: "WriteDataContainer \<Rightarrow> _" where
  "wc_stable c = (pool_rest c, wc_instances c, wc_publication_id c, wc_depth c, wc_max_num_instances c, wc_max_num_samples c,
     wc_should_block c, wc_max_blocking_time c, wc_waiting_on_release c, wc_shutdown c, wc_watchdog c)"

lemma stable_frame:
  "send_frame c' = send_frame c \<Longrightarrow> wc_stable c' = wc_stable c" "instance_frame c' = instance_frame c \<Longrightarrow> wc_stable c' = wc_stable c"
  "free_frame c' = free_frame c \<Longrightarrow> wc_stable c' = wc_stable c" "wc_stable (signal_empty c) = wc_stable c"
  by (auto simp: wc_stable_def send_frame_def instance_frame_def free_frame_def wc_other_def pool_rest_def fun_eq_iff
      signal_empty_def wc_log_def)

text \<open>The elements other than \<open>a\<close> keep everything but their links.\<close>

definition others_kept :: "nat \<Rightarrow> WriteDataContainer \<Rightarrow> WriteDataContainer \<Rightarrow> bool" where
  "others_kept a c c' \<longleftrightarrow> (\<forall>b. b \<noteq> a \<longrightarrow> data_view (wc_heap c') b = data_view (wc_heap c) b)"

lemma others_kept_simps [simp]:
  "others_kept a c c" "others_kept a c (signal_empty c') \<longleftrightarrow> others_kept a c c'"
  by (simp_all add: others_kept_def signal_empty_def wc_log_def)

lemma others_kept_trans: "others_kept a c c' \<Longrightarrow> others_kept a c' c'' \<Longrightarrow> others_kept a c c''"
  by (simp add: others_kept_def)

lemma others_kept_frame:
  "send_frame c' = send_frame c \<Longrightarrow> others_kept a c c'" "instance_frame c' = instance_frame c \<Longrightarrow> others_kept a c c'"
  unfolding others_kept_def by (auto dest: send_frameD(3) instance_frameD(3))

lemma stable_pool: "wc_stable c' = wc_stable c \<Longrightarrow> wc_pool c' i = None \<longleftrightarrow> wc_pool c i = None"
  by (auto simp: wc_stable_def pool_rest_def fun_eq_iff dest!: spec [of _ i])


lemmas part_defs = represents_upto_def send_part_def writer_part_def instance_part_def data_part_def

lemma represents_log [simp]:
  "represents_upto X (wc_log x c) A \<longleftrightarrow> represents_upto X c A" "represents_upto X (signal_empty c) A \<longleftrightarrow> represents_upto X c A"
  by (simp_all add: signal_empty_def wc_log_def part_defs)

lemma container_ok_log [simp]:
  "container_ok (wc_log x c) A \<longleftrightarrow> container_ok c A" "container_ok (signal_empty c) A \<longleftrightarrow> container_ok c A"
  by (simp_all add: container_ok_def)

lemma represents_alloc:
  assumes rep: "represents_upto X c A"
  shows "a \<in> set (ac_list A k) \<Longrightarrow> wc_heap c a \<noteq> None" "a \<in> set (ac_samples A i) \<Longrightarrow> wc_pool c i \<noteq> None"
proof -
  show "wc_heap c a \<noteq> None" if "a \<in> set (ac_list A k)"
    using send_partD(1) [OF representsD(1) [OF rep], of k] that dseg_in_heap [of "send_view (wc_heap c)"]
    unfolding dlist_rep_def view_eq_None(1) [symmetric] by blast
  show "wc_pool c i \<noteq> None" if "a \<in> set (ac_samples A i)"
    using instance_partD(2) [OF representsD(3) [OF rep], of i Samples] that by force
qed

lemma represents_mark_historic:
  assumes "represents_upto X c A" "wc_heap c a = Some e" "el_sample e = Some d" "wc_blocks c d \<noteq> None"
  obtains c' where "mark_historic a c = Some c'" "represents_upto X c' A" "wc_heap c' = wc_heap c"
    "wc_pool c' = wc_pool c" "wc_stable c' = wc_stable c"
proof -
  obtain b where b: "wc_blocks c d = Some b" using assms(4) by auto
  let ?c = "c\<lparr>wc_blocks := (wc_blocks c)(d \<mapsto> set_flag HISTORIC_SAMPLE_FLAG b)\<rparr>"
  have "represents_upto X ?c A" using assms(1) by (fastforce simp: part_defs)
  then show thesis using assms b by (intro that [of ?c]) (simp_all add: mark_historic_def get_sample_def wc_stable_def pool_rest_def fun_eq_iff)
qed

lemma wakeup_nothing [simp]: "wakeup_blocking_writers None inst c = Some c"
  by (simp add: wakeup_blocking_writers_def)

text \<open>The sample of a released element that is freed.\<close>

lemma free_released:
  assumes ok: "container_ok c A" and a: "a \<in> set (ac_list A Released)"
  obtains c1 c2 where "dequeue_send Released a c = Some (True, c1)" "send_frame c1 = send_frame c"
    "release_buffer a c1 = Some c2" "container_ok c2 (a_free a (a_take Released a A))" "wc_stable c2 = wc_stable c"
    "others_kept a c c2"
proof -
  note w = container_okD [OF ok]
  obtain c1 where c1: "dequeue_send Released a c = Some (True, c1)" "send_frame c1 = send_frame c"
      "represents_upto {a} c1 (a_take Released a A)"
    using represents_dequeue_send [OF w(1), of Released a] a by (auto simp: a_take_def)
  have "wc_heap c1 a \<noteq> None"
    using represents_alloc(1) [OF w(1) a] frame_alloc [OF send_frameD(3) [OF c1(2)]] by simp
  moreover have "unlisted (a_take Released a A) a"
    using in_one_list [OF w(6) a] w(3) by (simp add: a_take_def unlisted_def)
  moreover have "unqueued (a_take Released a A) a"
  proof -
    have "\<not> live A a" using in_one_list [OF w(6) a] by (simp add: live_def)
    then have "a \<notin> set (ac_samples A i)" "a \<notin> set (ac_waiting A i)" for i
      using ac_okD(1,5) [OF w(2)] a unfolding unlisted_def by blast+
    then show ?thesis unfolding unqueued_def by (simp add: split_paired_all) (metis instance_list.exhaust)
  qed
  ultimately obtain c2 where c2: "release_buffer a c1 = Some c2" "free_frame c2 = free_frame c1"
      "represents c2 ((a_take Released a A)\<lparr>ac_holder := remove1 a (ac_holder (a_take Released a A))\<rparr>)" "others_kept a c1 c2"
    using represents_release [OF c1(3)] unfolding others_kept_def by metis
  have "wc_stable c2 = wc_stable c" using stable_frame(1) [OF c1(2)] stable_frame(3) [OF c2(2)] by simp
  moreover have "others_kept a c c2" using others_kept_trans [OF others_kept_frame(1) [OF c1(2)] c2(4)] .
  ultimately show thesis
    using c1(1,2) c2(1,3) ok_free_released [OF ok a] by (intro that [of c1 c2]) (auto simp: container_ok_def a_free_def)
qed

text \<open>A sample being sent that is delivered while a writer of its instance waits.\<close>

lemma unqueued_forget:
  assumes wf: "container_ok c A" and a: "a \<in> set (ac_samples A i)"
  shows "unqueued (a_forget i a A) a"
  using in_one_list [OF container_okD(7) [OF wf] a] container_okD(4) [OF wf, of "(i, Samples)"]
  by (auto simp: unqueued_def a_forget_def)

lemma live_instance:
  assumes ok: "container_ok c A" and a: "live A a"
  obtains i e d where "a \<in> set (ac_samples A i)" "wc_pool c i \<noteq> None" "wc_heap c a = Some e" "el_handle e = Some i"
    "el_sample e = Some d" "wc_blocks c d \<noteq> None"
proof -
  note w = container_okD [OF ok]
  obtain i where i: "a \<in> set (ac_samples A i)" using ac_okD(2) [OF w(2) a] by blast
  then obtain e d where "wc_heap c a = Some e" "el_handle e = Some i" "el_sample e = Some d" "wc_blocks c d \<noteq> None"
    using representsD(4) [OF w(1)] unfolding data_part_def by blast
  then show thesis using that i represents_alloc(2) [OF w(1) i] by blast
qed

lemma forget_take: "a_forget i a (a_take k a A) = a_take k a (a_forget i a A)"
  by (simp add: a_simps)

lemma waiting_head:
  assumes "represents_upto X c A" "wc_pool c i = Some p"
  shows "sl_head (pi_waiting_list p) = hd_or None (ac_waiting A i)"
  using instance_partD(1) [OF representsD(3) [OF assms(1)] assms(2), of Waiting]
  by (simp add: instance_rep_def list_rep_def)

lemma wakeup_not_waiting:
  assumes "represents_upto X c A" "wc_pool c i \<noteq> None" "ac_waiting A i = []"
  shows "wakeup_blocking_writers stale (Some i) c = Some c"
  using assms waiting_head [OF assms(1)] by (auto simp: wakeup_blocking_writers_def)

lemma dequeue_absent:
  assumes "represents_upto X c A" "a \<notin> set (ac_list A k)"
  shows "dequeue_send k a c = Some (False, c)"
  using represents_dequeue_send [OF assms(1), of k a] assms(2) by metis

lemma delivered_waiting:
  assumes ok: "container_ok c A" and a: "a \<in> set (ac_list A Sending)" "a \<in> set (ac_samples A i)" "wc_pool c i \<noteq> None"
  obtains c1 c2 c3 where "dequeue_send Sending a c = Some (True, c1)" "wc_pool c1 = wc_pool c"
    "dequeue_instance Samples i a c1 = Some (True, c2)"
    "release_buffer a c2 = Some c3" "container_ok c3 (a_free a (a_forget i a (a_take Sending a A)))"
    "wc_stable c3 = wc_stable c" "others_kept a c c3"
proof -
  note w = container_okD [OF ok]
  let ?A1 = "a_take Sending a A" and ?A2 = "a_forget i a (a_take Sending a A)"
  obtain c1 where c1: "dequeue_send Sending a c = Some (True, c1)" "send_frame c1 = send_frame c" "represents c1 ?A1"
    using represents_dequeue_send [OF w(1), of Sending a] a(1) by (auto simp: a_take_def)
  have pool: "wc_pool c1 = wc_pool c" using send_frameD(4) [OF c1(2)] .
  obtain c2 where c2: "dequeue_instance Samples i a c1 = Some (True, c2)" "instance_frame c2 = instance_frame c1"
      "represents c2 ?A2"
    using represents_dequeue_instance [OF c1(3), of i Samples a] a(2,3) pool by (auto simp: a_forget_def)
  have "wc_heap c2 a \<noteq> None"
    using represents_alloc(1) [OF w(1) a(1)] frame_alloc [OF send_frameD(3) [OF c1(2)]]
      frame_alloc [OF instance_frameD(3) [OF c2(2)]] by simp
  moreover have "unlisted ?A2 a" using in_one_list [OF w(6) a(1)] w(3) by (simp add: a_simps unlisted_def)
  moreover have "unqueued ?A2 a" using unqueued_forget [OF ok a(2)] by (simp add: forget_take unqueued_def)
  moreover have "represents_upto {a} c2 ?A2" using c2(3) by (auto simp: part_defs)
  ultimately obtain c3 where c3: "release_buffer a c2 = Some c3" "free_frame c3 = free_frame c2" "represents c3 (a_free a ?A2)"
      "others_kept a c2 c3"
    using represents_release [of a c2 ?A2] unfolding a_free_def others_kept_def by metis
  have "wc_stable c3 = wc_stable c"
    using stable_frame(1) [OF c1(2)] stable_frame(2) [OF c2(2)] stable_frame(3) [OF c3(2)] by simp
  moreover have "others_kept a c c3"
    using others_kept_trans [OF others_kept_trans [OF others_kept_frame(1) [OF c1(2)] others_kept_frame(2) [OF c2(2)]] c3(4)] .
  ultimately show thesis
    using c1(1) pool c2(1) c3(1,3) ok_free_live [OF ok a(1,2)] by (intro that [of c1 c2 c3]) (auto simp: container_ok_def forget_take)
qed

lemma delivered_sent:
  assumes ok: "container_ok c A" and a: "a \<in> set (ac_list A Sending)" "wc_heap c a = Some e" "el_sample e = Some d"
    "wc_blocks c d \<noteq> None"
  obtains c1 c2 c3 where "dequeue_send Sending a c = Some (True, c1)" "wc_pool c1 = wc_pool c"
    "mark_historic a c1 = Some c2" "enqueue_send Sent a c2 = Some c3" "wc_pool c3 = wc_pool c"
    "container_ok c3 (a_put Sent a (a_take Sending a A))" "wc_stable c3 = wc_stable c"
    "data_view (wc_heap c3) = data_view (wc_heap c)"
proof -
  note w = container_okD [OF ok]
  obtain c1 where c1: "dequeue_send Sending a c = Some (True, c1)" "send_frame c1 = send_frame c"
      "represents c1 (a_take Sending a A)"
    using represents_dequeue_send [OF w(1), of Sending a] a(1) by (auto simp: a_take_def)
  obtain e1 where e1: "wc_heap c1 a = Some e1" "el_sample e1 = Some d"
    using data_viewE [of "wc_heap c1" a "wc_heap c" e] send_frameD(3) [OF c1(2)] a(2,3) by metis
  obtain c2 where c2: "mark_historic a c1 = Some c2" "represents c2 (a_take Sending a A)" "wc_heap c2 = wc_heap c1"
      "wc_pool c2 = wc_pool c1" "wc_stable c2 = wc_stable c1"
    using represents_mark_historic [OF c1(3) e1(1,2)] send_frameD(5) [OF c1(2)] a(4) by auto
  have "unlisted (a_take Sending a A) a" using in_one_list [OF w(6) a(1)] w(3) by (simp add: a_simps unlisted_def)
  then obtain c3 where c3: "enqueue_send Sent a c2 = Some c3" "send_frame c3 = send_frame c2"
      "represents c3 (a_put Sent a (a_take Sending a A))"
    using represents_enqueue_send [OF c2(2), of a Sent] c2(3) e1(1) unfolding a_put_def by auto
  have "ac_ok (a_put Sent a (a_take Sending a A))" using ok_move [OF w(2,3) a(1)] by simp
  moreover have "wc_stable c3 = wc_stable c" using stable_frame(1) [OF c1(2)] stable_frame(1) [OF c3(2)] c2(5) by simp
  ultimately show thesis
    using that c1(1) c2(1,3,4) c3(1,3) send_frameD(3,4) [OF c1(2)] send_frameD(3,4) [OF c3(2)] by (auto simp: container_ok_def)
qed

theorem data_delivered_refines:
  assumes ok: "container_ok c A" and a: "wc_heap c a = Some e"
  shows "\<exists>c'. data_delivered a c = Some c' \<and> container_ok c' (a_delivered (the (el_handle e)) a A)
    \<and> wc_stable c' = wc_stable c \<and> others_kept a c c'"
proof -
  note w = container_okD [OF ok]
  have get: "get_handle a (wc_heap c) = Some (el_handle e)" using a by (simp add: get_handle_def)
  consider "a \<in> set (ac_list A Released)" | "a \<notin> set (ac_list A Released)" "a \<in> set (ac_list A Sending)"
    | "a \<notin> set (ac_list A Released)" "a \<notin> set (ac_list A Sending)" by blast
  then show ?thesis
  proof cases
    case 1
    then obtain c1 c2 where "dequeue_send Released a c = Some (True, c1)" "release_buffer a c1 = Some c2"
        "container_ok c2 (a_free a (a_take Released a A))" "wc_stable c2 = wc_stable c" "others_kept a c c2"
      using free_released [OF ok] by metis
    then show ?thesis using get 1 by (simp add: data_delivered_def a_delivered_def stable_frame(4))
  next
    case 2
    have rel: "dequeue_send Released a c = Some (False, c)" using dequeue_absent [OF w(1) 2(1)] .
    obtain i e' d where i: "a \<in> set (ac_samples A i)" "wc_pool c i \<noteq> None" "wc_heap c a = Some e'" "el_handle e' = Some i"
        "el_sample e' = Some d" "wc_blocks c d \<noteq> None"
      using live_instance [OF ok, of a] 2(2) unfolding live_def by blast
    then obtain p where p: "wc_pool c i = Some p" by blast
    show ?thesis
    proof (cases "ac_waiting A i = []")
      case True
      obtain c1 c2 c3 where "dequeue_send Sending a c = Some (True, c1)" "wc_pool c1 = wc_pool c"
          "mark_historic a c1 = Some c2" "enqueue_send Sent a c2 = Some c3" "wc_pool c3 = wc_pool c"
          "container_ok c3 (a_put Sent a (a_take Sending a A))" "wc_stable c3 = wc_stable c"
          "data_view (wc_heap c3) = data_view (wc_heap c)"
        using delivered_sent [OF ok 2(2) i(3,5,6)] .
      moreover from this have "others_kept a c c3" by (simp add: others_kept_def)
      moreover have "wakeup_blocking_writers (Some a) (Some i) c3 = Some c3"
        using wakeup_not_waiting [OF container_okD(1), of c3 _ i] p True calculation(5,6) by simp
      ultimately show ?thesis
        using get rel i(3,4) a p 2 True waiting_head [OF w(1) p] by (simp add: data_delivered_def a_delivered_def stable_frame(4))
    next
      case False
      obtain c1 c2 c3 where "dequeue_send Sending a c = Some (True, c1)" "wc_pool c1 = wc_pool c"
          "dequeue_instance Samples i a c1 = Some (True, c2)" "release_buffer a c2 = Some c3"
          "container_ok c3 (a_free a (a_forget i a (a_take Sending a A)))" "wc_stable c3 = wc_stable c" "others_kept a c c3"
        using delivered_waiting [OF ok 2(2) i(1,2)] .
      then show ?thesis
        using get rel i(3,4) a p 2 False waiting_head [OF w(1) p] by (auto simp: data_delivered_def a_delivered_def stable_frame(4))
    qed
  next
    case 3
    then show ?thesis using get ok dequeue_absent [OF w(1)] by (simp add: data_delivered_def a_delivered_def)
  qed
qed

section \<open>Dropping\<close>

lemma dropped_unsent:
  assumes ok: "container_ok c A" and a: "a \<in> set (ac_list A Sending)"
  obtains c1 c2 where "dequeue_send Sending a c = Some (True, c1)" "enqueue_send Unsent a c1 = Some c2"
    "data_view (wc_heap c2) = data_view (wc_heap c)" "container_ok c2 (a_put Unsent a (a_take Sending a A))"
    "wc_stable c2 = wc_stable c"
proof -
  note w = container_okD [OF ok]
  obtain c1 where c1: "dequeue_send Sending a c = Some (True, c1)" "send_frame c1 = send_frame c"
      "represents c1 (a_take Sending a A)"
    using represents_dequeue_send [OF w(1), of Sending a] a by (auto simp: a_take_def)
  have "unlisted (a_take Sending a A) a" using in_one_list [OF w(6) a] w(3) by (simp add: a_simps unlisted_def)
  moreover have "wc_heap c1 a \<noteq> None"
    using represents_alloc(1) [OF w(1) a] frame_alloc [OF send_frameD(3) [OF c1(2)]] by simp
  ultimately obtain c2 where c2: "enqueue_send Unsent a c1 = Some c2" "send_frame c2 = send_frame c1"
      "represents c2 (a_put Unsent a (a_take Sending a A))"
    using represents_enqueue_send [OF c1(3), of a Unsent] unfolding a_put_def by auto
  have "ac_ok (a_put Unsent a (a_take Sending a A))" using ok_move [OF w(2,3) a] by simp
  moreover have "wc_stable c2 = wc_stable c" using stable_frame(1) [OF c1(2)] stable_frame(1) [OF c2(2)] by simp
  ultimately show thesis
    using that [OF c1(1) c2(1)] c2(3) send_frameD(3) [OF c1(2)] send_frameD(3) [OF c2(2)] by (simp add: container_ok_def)
qed

theorem data_dropped_refines:
  assumes ok: "container_ok c A"
  shows "\<exists>c'. data_dropped a False c = Some c' \<and> container_ok c' (a_dropped a A) \<and> wc_stable c' = wc_stable c
    \<and> others_kept a c c'"
proof -
  note w = container_okD [OF ok]
  consider "a \<in> set (ac_list A Sending)" | "a \<notin> set (ac_list A Sending)" "a \<in> set (ac_list A Released)"
    | "a \<notin> set (ac_list A Released)" "a \<notin> set (ac_list A Sending)" by blast
  then show ?thesis
  proof cases
    case 1
    obtain c1 c2 where c: "dequeue_send Sending a c = Some (True, c1)" "enqueue_send Unsent a c1 = Some c2"
        "data_view (wc_heap c2) = data_view (wc_heap c)" "container_ok c2 (a_put Unsent a (a_take Sending a A))"
        "wc_stable c2 = wc_stable c"
      using dropped_unsent [OF ok 1] .
    obtain e where "wc_heap c2 a = Some e" using represents_alloc(1) [OF w(1) 1] frame_alloc [OF c(3)] by fastforce
    moreover have "others_kept a c c2" using c(3) by (simp add: others_kept_def)
    ultimately show ?thesis using 1 c by (simp add: data_dropped_def a_dropped_def get_handle_def stable_frame(4))
  next
    case 2
    obtain c1 c2 where c: "dequeue_send Released a c = Some (True, c1)" "send_frame c1 = send_frame c"
        "release_buffer a c1 = Some c2" "container_ok c2 (a_free a (a_take Released a A))" "wc_stable c2 = wc_stable c"
        "others_kept a c c2"
      using free_released [OF ok 2(2)] .
    obtain e where "wc_heap c1 a = Some e"
      using represents_alloc(1) [OF w(1) 2(2)] frame_alloc [OF send_frameD(3) [OF c(2)]] by fastforce
    then show ?thesis
      using 2 c dequeue_absent [OF w(1) 2(1)] by (simp add: data_dropped_def a_dropped_def get_handle_def stable_frame(4))
  next
    case 3
    then show ?thesis using ok dequeue_absent [OF w(1)] by (simp add: data_dropped_def a_dropped_def stable_frame(4))
  qed
qed

section \<open>Sending and resending\<close>

lemma represents_append_send:
  assumes rep: "represents c A" and ne: "ac_list A k = [] \<or> ac_list A k2 \<noteq> []" and k: "k2 \<noteq> k"
    and A': "A' = A\<lparr>ac_list := (ac_list A)(k := ac_list A k @ ac_list A k2, k2 := [])\<rparr>"
    and copies: "set (ac_list A Released) \<union> set (ac_list A Resend) \<subseteq> set (ac_list A' Released) \<union> set (ac_list A' Resend)"
  obtains c' where "append_send k (get_list k2 c) c = Some c'" "represents (put_list k2 sample_list_reset c') A'"
    "wc_stable (put_list k2 sample_list_reset c') = wc_stable c"
proof -
  obtain c' where c: "append_send k (get_list k2 c) c = Some c'" "send_frame c' = send_frame c"
      "send_part (put_list k2 sample_list_reset c') A'"
    using append_send_move [OF representsD(1) [OF rep] ne k] unfolding A' .
  have "send_frame (put_list k2 sample_list_reset c') = send_frame c'" by (simp add: send_frame_def)
  then have "represents (put_list k2 sample_list_reset c') A'"
    using represents_send [OF rep c(3)] c(2) copies by (simp add: A')
  moreover have "wc_stable (put_list k2 sample_list_reset c') = wc_stable c"
    using stable_frame(1) c(2) \<open>send_frame (put_list k2 sample_list_reset c') = send_frame c'\<close> by metis
  ultimately show thesis using c(1) by (intro that)
qed

theorem get_unsent_data_refines:
  assumes ok: "container_ok c A" and ne: "ac_list A Sending = [] \<or> ac_list A Unsent \<noteq> []"
  shows "\<exists>c'. get_unsent_data c = Some (unsent_data c, c') \<and> container_ok c' (a_get_unsent A) \<and> wc_stable c' = wc_stable c"
proof -
  obtain c' where "append_send Sending (get_list Unsent c) c = Some c'"
      "represents (put_list Unsent sample_list_reset c') (a_get_unsent A)"
      "wc_stable (put_list Unsent sample_list_reset c') = wc_stable c"
    by (rule represents_append_send [OF container_okD(1) [OF ok] ne]) (auto simp: a_get_unsent_def)
  then show ?thesis
    using ok_get_unsent [OF container_okD(2) [OF ok]] by (simp add: get_unsent_data_def container_ok_def stable_frame(4))
qed

theorem get_resend_data_refines:
  assumes ok: "container_ok c A"
  shows "\<exists>c'. get_resend_data c = Some (resend_data c, c') \<and> container_ok c' (a_get_resend A) \<and> wc_stable c' = wc_stable c"
proof (cases "ac_list A Resend = []")
  case False
  have "sl_size (resend_data c) \<noteq> 0"
    using send_partD(1) [OF representsD(1) [OF container_okD(1) [OF ok]], of Resend] False
    by (simp add: dlist_rep_def list_rep_def)
  moreover obtain c' where "append_send Released (get_list Resend c) c = Some c'"
      "represents (put_list Resend sample_list_reset c') (a_get_resend A)"
      "wc_stable (put_list Resend sample_list_reset c') = wc_stable c"
    by (rule represents_append_send [OF container_okD(1) [OF ok], of Released Resend]) (use False in \<open>auto simp: a_get_resend_def\<close>)
  ultimately show ?thesis
    using ok_get_resend [OF container_okD(2) [OF ok]] by (simp add: get_resend_data_def container_ok_def)
next
  case True
  have "list_rep (resend_data c) []"
    using send_partD(1) [OF representsD(1) [OF container_okD(1) [OF ok]], of Resend] True by (simp add: dlist_rep_def)
  then have empty: "resend_data c = sample_list_reset"
    by (cases "resend_data c") (simp add: list_rep_def sample_list_reset_def)
  have "c\<lparr>resend_data := sample_list_reset\<rparr> = c" unfolding empty [symmetric] by simp
  moreover have "sl_size (resend_data c) = 0" using empty by (simp add: sample_list_reset_def)
  moreover have "a_get_resend A = A" using True by (simp add: a_get_resend_def fun_upd_idem)
  ultimately show ?thesis
    using ok by (simp add: get_resend_data_def)
qed

section \<open>Removing\<close>

lemma containing_list:
  assumes ok: "container_ok c A" and a: "live A a"
    and c': "send_view (wc_heap c') = send_view (wc_heap c)" "\<And>k. get_list k c' = get_list k c"
  shows "send_list_containing_element (wc_heap c') (Some a)
      [(Sending, sending_data c'), (Sent, sent_data c'), (Unsent, unsent_data c')] = Some (Some (a_state a A))"
    "a \<in> set (ac_list A (a_state a A))" "a_state a A \<in> {Unsent, Sending, Sent}"
proof -
  note w = container_okD [OF ok]
  show mem: "a \<in> set (ac_list A (a_state a A))" using a by (auto simp: live_def a_state_def)
  then obtain us vs where split: "ac_list A (a_state a A) = us @ a # vs" by (auto dest: split_list)
  have "send_rep (wc_heap c') (get_list k c') (ac_list A k)" for k
    using send_partD(1) [OF representsD(1) [OF w(1)], of k] c' by (simp add: dlist_rep_def)
  then have seg: "dseg (send_view (wc_heap c')) None (ac_list A k) None" and hd: "sl_head (get_list k c') = hd_or None (ac_list A k)" for k
    by (simp_all add: dlist_rep_def list_rep_def)
  have head: "send_head_of (wc_heap c') a = Some (hd (us @ [a]))" using send_head_of_rep seg split by metis
  have in_list: "hd (us @ [a]) \<in> set (ac_list A (a_state a A))" using split by (cases us) auto
  have "sl_head (get_list k c') = Some (hd (us @ [a])) \<longleftrightarrow> k = a_state a A" for k
  proof
    assume "sl_head (get_list k c') = Some (hd (us @ [a]))"
    then have "hd (us @ [a]) \<in> set (ac_list A k)" using hd [of k] by (cases "ac_list A k") auto
    then show "k = a_state a A" using in_one_list [OF w(6) in_list] by blast
  qed (use hd [of k] split in \<open>cases us; simp\<close>)
  from this [of Sending] this [of Sent] this [of Unsent]
  show "send_list_containing_element (wc_heap c') (Some a)
      [(Sending, sending_data c'), (Sent, sent_data c'), (Unsent, unsent_data c')] = Some (Some (a_state a A))"
    using head by (auto simp: send_list_containing_element_def a_state_def)
  show "a_state a A \<in> {Unsent, Sending, Sent}" by (simp add: a_state_def)
qed

lemma represents_take:
  assumes rep: "represents c A" and a: "a \<in> set (ac_list A k)" and k: "k \<in> {Unsent, Sending, Sent}"
  obtains c' where "dequeue_send k a c = Some (True, c')" "send_frame c' = send_frame c" "represents c' (a_take k a A)"
proof -
  obtain c' where "dequeue_send k a c = Some (a \<in> set (ac_list A k), c')" "send_frame c' = send_frame c"
      "represents_upto (if k = Released \<or> k = Resend then insert a {} else {}) c'
        (A\<lparr>ac_list := (ac_list A)(k := remove1 a (ac_list A k))\<rparr>)"
    using represents_dequeue_send [OF rep, of k a] .
  then show thesis using a k by (intro that [of c']) (auto simp: a_take_def)
qed

theorem remove_oldest_sample_refines:
  assumes ok: "container_ok c A" and xs: "ac_samples A i = a # xs"
  shows "\<exists>c'. remove_oldest_sample i r c = Some (RETCODE_OK, a_state a A \<noteq> Sending, c')
    \<and> container_ok c' (a_remove i a A) \<and> wc_stable c' = wc_stable c \<and> others_kept a c c'"
proof -
  note w = container_okD [OF ok]
  let ?k = "a_state a A"
  have a: "a \<in> set (ac_samples A i)" "wc_pool c i \<noteq> None" using xs represents_alloc(2) [OF w(1), of a i] by auto
  then have live: "live A a" using ac_okD(1) [OF w(2)] by blast
  have forget: "A\<lparr>ac_queue := (ac_queue A)((i, Samples) := xs)\<rparr> = a_forget i a A" using xs by (simp add: a_forget_def)
  obtain c1 where c1: "dequeue_instance_head Samples i c = Some (True, Some a, c1)" "instance_frame c1 = instance_frame c"
      "represents c1 (a_forget i a A)"
    using represents_dequeue_instance_head [OF w(1) a(2) xs] unfolding forget .
  note list = containing_list [OF ok live instance_frameD(2,4) [OF c1(2)]]
  obtain c2 where c2: "dequeue_send ?k a c1 = Some (True, c2)" "send_frame c2 = send_frame c1"
      "represents c2 (a_take ?k a (a_forget i a A))"
    using represents_take [OF c1(3) _ list(3)] list(2) by auto
  have unl: "unlisted (a_take ?k a (a_forget i a A)) a"
    using in_one_list [OF w(6) list(2)] w(3) by (simp add: a_simps unlisted_def)
  have alloc: "wc_heap c2 a \<noteq> None"
    using represents_alloc(1) [OF w(1) list(2)] frame_alloc [OF instance_frameD(3) [OF c1(2)]]
      frame_alloc [OF send_frameD(3) [OF c2(2)]] by simp
  have stable: "wc_stable c2 = wc_stable c" using stable_frame c1(2) c2(2) by metis
  have kept: "others_kept a c c2"
    using others_kept_trans [OF others_kept_frame(2) [OF c1(2)] others_kept_frame(1) [OF c2(2)]] .
  show ?thesis
  proof (cases "?k = Sending")
    case True
    then obtain c3 where "enqueue_send Released a c2 = Some c3" "send_frame c3 = send_frame c2"
        "represents c3 (a_put Released a (a_take Sending a (a_forget i a A)))"
      using represents_enqueue_send [OF c2(3) alloc unl, of Released] by (auto simp: a_put_def)
    moreover from this have "wc_stable c3 = wc_stable c" "others_kept a c c3"
      using stable stable_frame(1) [of c3 c2] others_kept_trans [OF kept others_kept_frame(1) [of c3 c2 a]] by auto
    ultimately show ?thesis
      using True c1(1) list c2(1) ok_release_sending [OF ok _ a(1)] stable_frame(4) [of c3]
      by (auto simp: remove_oldest_sample_def a_remove_def container_ok_def)
  next
    case False
    have "unqueued (a_take ?k a (a_forget i a A)) a" using unqueued_forget [OF ok a(1)] by (simp add: unqueued_def)
    moreover have "represents_upto {a} c2 (a_take ?k a (a_forget i a A))" using c2(3) by (auto simp: part_defs)
    ultimately obtain c3 where "release_buffer a c2 = Some c3" "free_frame c3 = free_frame c2"
        "represents c3 (a_free a (a_take ?k a (a_forget i a A)))" "others_kept a c2 c3"
      using represents_release [OF _ alloc unl] unfolding a_free_def others_kept_def by metis
    moreover from this have "wc_stable c3 = wc_stable c" "others_kept a c c3"
      using stable stable_frame(3) [of c3 c2] others_kept_trans [OF kept, of c3] by auto
    ultimately show ?thesis
      using False c1(1) list c2(1) ok_free_live [OF ok list(2) a(1)] stable_frame(4) [of c3]
      by (auto simp: remove_oldest_sample_def a_remove_def container_ok_def)
  qed
qed

text \<open>Disposing an instance ends, and takes all its samples.\<close>

lemma sample_size:
  assumes "represents_upto X c A" "wc_pool c i = Some p"
  shows "sl_size (pi_samples p) = int (length (ac_samples A i))"
  using instance_partD(1) [OF representsD(3) [OF assms(1)] assms(2), of Samples]
  by (simp add: instance_rep_def list_rep_def)

lemma remove_samples: "ac_samples A i = a # xs \<Longrightarrow> ac_samples (a_remove i a A) i = xs"
  by (simp add: a_remove_def Let_def a_simps)

lemma dispose_samples_refines:
  assumes "container_ok c A" "wc_pool c i \<noteq> None"
  shows "\<exists>c'. dispose_samples i c = Some (RETCODE_OK, c') \<and> container_ok c' (a_dispose i A) \<and> wc_stable c' = wc_stable c"
  using assms
proof (induction "ac_samples A i" arbitrary: c A)
  case Nil
  then obtain p where "wc_pool c i = Some p" by blast
  moreover from this have "sl_size (pi_samples p) = 0" using sample_size [OF container_okD(1)] Nil by fastforce
  ultimately show ?case using Nil by (simp add: dispose_samples.simps a_dispose_def)
next
  case (Cons a xs)
  then obtain p where p: "wc_pool c i = Some p" by blast
  have size: "sl_size (pi_samples p) > 0" using sample_size [OF container_okD(1) [OF Cons.prems(1)] p] Cons.hyps(2) by force
  obtain c' where c': "remove_oldest_sample i False c = Some (RETCODE_OK, a_state a A \<noteq> Sending, c')"
      "container_ok c' (a_remove i a A)" "wc_stable c' = wc_stable c"
    using remove_oldest_sample_refines [OF Cons.prems(1)] Cons.hyps(2) by metis
  have "xs = ac_samples (a_remove i a A) i" using remove_samples Cons.hyps(2) by metis
  moreover have "wc_pool c' i \<noteq> None" using stable_pool [OF c'(3)] p by simp
  ultimately obtain c'' where "dispose_samples i c' = Some (RETCODE_OK, c'')"
      "container_ok c'' (a_dispose i (a_remove i a A))" "wc_stable c'' = wc_stable c'"
    using Cons.hyps(1) c'(2) by blast
  moreover have "a_dispose i (a_remove i a A) = a_dispose i A"
    using remove_samples [OF Cons.hyps(2) [symmetric]] Cons.hyps(2) [symmetric] by (simp add: a_dispose_def)
  ultimately show ?case using p size c'(1,3) by (simp add: dispose_samples.simps [of i c])
qed

end
