(* ===== verification/Container_Instances.thy ===== *)
theory Container_Instances
  imports Container_Refinement
begin

text \<open>
  The operations of the container that concern instances: writing into one, disposing and unregistering it,
  and unregistering all of them. The registry maps the handles to instances that exist.
\<close>

section \<open>Instances\<close>

text \<open>A change of an instance that leaves its two lists alone.\<close>

lemma represents_put_instance:
  assumes "represents_upto X c A" "wc_pool c i = Some p" "\<And>q. get_queue q p' = get_queue q p"
  shows "represents_upto X (put_instance i p' c) A"
  using assms by (auto simp: part_defs)

lemma represents_watchdog_field [simp]: "represents_upto X (c\<lparr>wc_watchdog := w\<rparr>) A \<longleftrightarrow> represents_upto X c A"
proof -
  have "get_list k (c\<lparr>wc_watchdog := w\<rparr>) = get_list k c" for k by (cases k) simp_all
  then show ?thesis by (simp add: part_defs)
qed

text \<open>A call to the watchdog changes an instance in its timer only.\<close>

definition timer_only :: "(PublicationInstance \<times> OfferedDeadlineWatchdog \<Rightarrow> PublicationInstance \<times> OfferedDeadlineWatchdog) \<Rightarrow> bool" where
  "timer_only f \<longleftrightarrow> (\<forall>p w. \<exists>i. fst (f (p, w)) = p\<lparr>pi_deadline_timer_id := i\<rparr>)"

lemma timer_only_od [simp]: "timer_only od_schedule_timer" "timer_only od_cancel_timer" "timer_only (od_execute ls tc now)"
  using od_keeps by (auto simp: timer_only_def)

lemma get_queue_timer [simp]: "get_queue q (p\<lparr>pi_deadline_timer_id := t\<rparr>) = get_queue q p"
  by (cases q) simp_all

definition registered :: "WriteDataContainer \<Rightarrow> nat \<rightharpoonup> ptr" where
  "registered c i = map_option pi_registered_sample (wc_pool c i)"

text \<open>The registered instances and the limits.\<close>

definition wc_config :: "WriteDataContainer \<Rightarrow> (int \<times> nat) list \<times> int \<times> int \<times> int \<times> bool \<times> GUID_t" where
  "wc_config c = (wc_instances c, wc_depth c, wc_max_num_instances c, wc_max_num_samples c, wc_should_block c, wc_publication_id c)"

lemma wc_config_stable: "wc_stable c' = wc_stable c \<Longrightarrow> wc_config c' = wc_config c"
  by (simp add: wc_stable_def wc_config_def)

lemma represents_on_watchdog:
  assumes rep: "represents_upto X c A" and p: "wc_pool c i \<noteq> None" and f: "timer_only f"
  obtains c' where "on_watchdog f i c = Some c'" "represents_upto X c' A" "wc_heap c' = wc_heap c"
    "wc_blocks c' = wc_blocks c" "registered c' = registered c" "wc_instances c' = wc_instances c" "wc_config c' = wc_config c"
proof (cases "wc_watchdog c")
  case None
  then show thesis using rep by (intro that [of c]) (simp_all add: on_watchdog_def)
next
  case (Some w)
  obtain p where p: "wc_pool c i = Some p" using p by blast
  obtain t where t: "fst (f (p, w)) = p\<lparr>pi_deadline_timer_id := t\<rparr>" using f unfolding timer_only_def by blast
  let ?c = "put_instance i (fst (f (p, w))) (c\<lparr>wc_watchdog := Some (snd (f (p, w)))\<rparr>)"
  have "represents_upto X ?c A"
    by (rule represents_put_instance [of _ _ _ _ p]) (use rep p t in simp_all)
  then show thesis
    using Some p t by (intro that [of ?c]) (auto simp: on_watchdog_def registered_def put_instance_def wc_config_def split: prod.split)
qed

text \<open>The instances that are registered exist and have a sample.\<close>

definition registry_ok :: "WriteDataContainer \<Rightarrow> bool" where
  "registry_ok c \<longleftrightarrow> distinct (map fst (wc_instances c)) \<and> distinct (map snd (wc_instances c))
     \<and> (\<forall>(handle, i) \<in> set (wc_instances c). \<exists>s. registered c i = Some (Some s))"

lemma registryD:
  assumes "registry_ok c" "get_handle_instance handle c = Some i"
  shows "wc_pool c i \<noteq> None" "\<exists>s. registered c i = Some (Some s)"
proof -
  show "\<exists>s. registered c i = Some (Some s)"
    using assms unfolding registry_ok_def get_handle_instance_def by (fastforce dest: map_of_SomeD)
  then show "wc_pool c i \<noteq> None" by (auto simp: registered_def)
qed

lemma registry_cong: "registry_ok c \<Longrightarrow> wc_instances c' = wc_instances c \<Longrightarrow> registered c' = registered c \<Longrightarrow> registry_ok c'"
  by (simp add: registry_ok_def)

lemma stable_registry:
  assumes "wc_stable c' = wc_stable c"
  shows "registered c' = registered c" "wc_instances c' = wc_instances c"
proof
  fix i
  have "pool_rest c' i = pool_rest c i" using assms by (simp add: wc_stable_def)
  then show "registered c' i = registered c i"
    by (cases "wc_pool c i"; cases "wc_pool c' i") (auto simp: pool_rest_def registered_def dest: arg_cong [of _ _ pi_registered_sample])
qed (use assms in \<open>simp add: wc_stable_def\<close>)

section \<open>Writing and disposing\<close>

text \<open>The times of the instance and its deadline timer, when there is a watchdog.\<close>

lemma enqueue_watchdog:
  assumes rep: "represents c A" and p: "wc_pool c i = Some p"
  obtains c1 where "(if wc_watchdog c = None then Some c
      else on_watchdog (od_execute ls False now) i
        (put_instance i (p\<lparr>pi_last_sample_tv := pi_cur_sample_tv p, pi_cur_sample_tv := now\<rparr>) c)) = Some c1"
    "represents c1 A" "wc_heap c1 = wc_heap c" "wc_blocks c1 = wc_blocks c" "registered c1 = registered c"
    "wc_instances c1 = wc_instances c" "wc_config c1 = wc_config c"
proof (cases "wc_watchdog c = None")
  case True
  then show thesis using that [of c] rep by simp
next
  case False
  let ?p = "p\<lparr>pi_last_sample_tv := pi_cur_sample_tv p, pi_cur_sample_tv := now\<rparr>"
  have q: "get_queue q ?p = get_queue q p" for q by (cases q) simp_all
  have r: "represents (put_instance i ?p c) A" "wc_pool (put_instance i ?p c) i \<noteq> None"
    using represents_put_instance [OF rep p q] by simp_all
  obtain c1 where "on_watchdog (od_execute ls False now) i (put_instance i ?p c) = Some c1" "represents c1 A"
      "wc_heap c1 = wc_heap (put_instance i ?p c)" "wc_blocks c1 = wc_blocks (put_instance i ?p c)"
      "registered c1 = registered (put_instance i ?p c)" "wc_instances c1 = wc_instances (put_instance i ?p c)"
      "wc_config c1 = wc_config (put_instance i ?p c)"
    using represents_on_watchdog [OF r timer_only_od(3)] .
  moreover have "registered (put_instance i ?p c) = registered c" using p by (auto simp: registered_def fun_eq_iff)
  ultimately show thesis using that False by (simp add: put_instance_def wc_config_def)
qed

lemma held_unqueued:
  assumes "ac_ok A" "a \<in> set (ac_holder A)" "unlisted A a"
  shows "unqueued A a"
proof -
  have "a \<notin> set (ac_samples A j)" "a \<notin> set (ac_waiting A j)" for j
    using ac_okD(1,5) [OF assms(1)] assms(2,3) unfolding unlisted_state by blast+
  then show ?thesis unfolding unqueued_def by (simp add: split_paired_all) (metis instance_list.exhaust)
qed

theorem wc_enqueue_refines:
  assumes ok: "container_ok c A" "registry_ok c" and i: "get_handle_instance handle c = Some i"
    and a: "a \<in> set (ac_holder A)" "unlisted A a" "wc_heap c a = Some e" "el_handle e = Some i" "el_sample e = Some d"
      "wc_blocks c d \<noteq> None"
  shows "\<exists>c'. wc_enqueue a handle ls now c = Some (RETCODE_OK, c') \<and> container_ok c' (a_enqueue i a A) \<and> registry_ok c'
    \<and> wc_config c' = wc_config c"
proof -
  note w = container_okD [OF ok(1)]
  obtain p where p: "wc_pool c i = Some p" using registryD(1) [OF ok(2) i] by blast
  note watchdog = enqueue_watchdog [OF w(1) p, of ls now]
  obtain c1 where c1: "(if wc_watchdog c = None then Some c
      else on_watchdog (od_execute ls False now) i
        (put_instance i (p\<lparr>pi_last_sample_tv := pi_cur_sample_tv p, pi_cur_sample_tv := now\<rparr>) c)) = Some c1"
      "represents c1 A" "wc_heap c1 = wc_heap c" "wc_blocks c1 = wc_blocks c" "registered c1 = registered c"
      "wc_instances c1 = wc_instances c" "wc_config c1 = wc_config c"
    using watchdog .
  obtain c2 where c2: "enqueue_send Unsent a c1 = Some c2" "send_frame c2 = send_frame c1" "represents c2 (a_put Unsent a A)"
    using represents_enqueue_send [OF c1(2) _ a(2)] a(3) c1(3) unfolding a_put_def by auto
  have unq: "unqueued (a_put Unsent a A) a" using held_unqueued [OF w(2) a(1,2)] by (simp add: unqueued_def)
  obtain e2 where e2: "wc_heap c2 a = Some e2" "el_handle e2 = el_handle e" "el_sample e2 = el_sample e"
    using data_viewE [of "wc_heap c2" a "wc_heap c" e] send_frameD(3) [OF c2(2)] a(3) c1(3) by metis
  have pool: "wc_pool c2 i \<noteq> None"
    using registryD(1) [OF ok(2) i] send_frameD(4) [OF c2(2)] fun_cong [OF c1(5), of i] by (auto simp: registered_def)
  have "q = Samples \<Longrightarrow> el_handle e2 = Some i \<and> (\<exists>d. el_sample e2 = Some d \<and> wc_blocks c2 d \<noteq> None)" for q
    using e2 a(4,5,6) send_frameD(5) [OF c2(2)] c1(4) by auto
  from represents_enqueue_instance [OF c2(3) pool e2(1) unq this, of Samples]
  obtain c3 where c3: "enqueue_instance Samples i a c2 = Some c3" "instance_frame c3 = instance_frame c2"
      "represents c3 (a_enqueue i a A)"
    by (auto simp: a_put_def a_enqueue_def)
  have "wc_stable c3 = wc_stable c1" using stable_frame c2(2) c3(2) by metis
  then have "registry_ok c3" "wc_config c3 = wc_config c"
    using registry_cong [OF ok(2), of c3] stable_registry [of c3 c1] wc_config_stable [of c3 c1] c1(5,6,7) by simp_all
  then show ?thesis
    using i p c1(1) c2(1) c3(1,3) ok_enqueue [OF w(2) a(1,2)] by (simp add: wc_enqueue_def container_ok_def)
qed

theorem wc_dispose_refines:
  assumes ok: "container_ok c A" "registry_ok c" and i: "get_handle_instance handle c = Some i"
  shows "\<exists>s c'. wc_dispose handle dup c = Some (RETCODE_OK, s, c') \<and> container_ok c' (a_dispose i A) \<and> registry_ok c'
    \<and> wc_instances c' = wc_instances c"
proof -
  note reg = registryD [OF ok(2) i]
  obtain c1 where c1: "dispose_samples i c = Some (RETCODE_OK, c1)" "container_ok c1 (a_dispose i A)" "wc_stable c1 = wc_stable c"
    using dispose_samples_refines [OF ok(1) reg(1)] by blast
  have "duplicate_registered dup i c \<noteq> None" using reg by (auto simp: duplicate_registered_def registered_def)
  then obtain s where "duplicate_registered dup i c = Some s" by blast
  moreover obtain c2 where "on_watchdog od_cancel_timer i c1 = Some c2" "represents c2 (a_dispose i A)" "registered c2 = registered c1"
      "wc_instances c2 = wc_instances c1"
    using represents_on_watchdog [OF container_okD(1) [OF c1(2)], of i od_cancel_timer] stable_pool [OF c1(3)] reg(1) by auto
  ultimately show ?thesis
    using i c1(1) container_okD(2) [OF c1(2)] registry_cong [OF ok(2)] stable_registry [OF c1(3)]
    by (auto simp: wc_dispose_def container_ok_def)
qed

section \<open>Unregistering\<close>

lemma a_remove_queue: "iq \<noteq> (i, Samples) \<Longrightarrow> ac_queue (a_remove i a A) iq = ac_queue A iq"
  by (simp add: a_remove_def Let_def a_simps)

lemma a_dispose_queue:
  "ac_queue (a_dispose i A) = (ac_queue A)((i, Samples) := [])"
proof (induction "ac_samples A i" arbitrary: A)
  case Nil
  then show ?case by (simp add: a_dispose_def fun_upd_idem)
next
  case (Cons a xs)
  have samples: "ac_samples (a_remove i a A) i = xs" using remove_samples Cons.hyps(2) by metis
  have "ac_queue (a_dispose i (a_remove i a A)) = (ac_queue (a_remove i a A))((i, Samples) := [])"
    using Cons.hyps(1) samples by blast
  moreover have "a_dispose i (a_remove i a A) = a_dispose i A"
    using samples Cons.hyps(2) [symmetric] by (simp add: a_dispose_def)
  ultimately show ?case using a_remove_queue [of _ i a A] by (simp add: fun_eq_iff)
qed

lemma wc_unregister_ok:
  assumes ok: "container_ok c A" "registry_ok c" and i: "get_handle_instance handle c = Some i"
  shows "\<exists>s c'. wc_unregister handle dup c = Some (RETCODE_OK, s, c') \<and> container_ok c' A \<and> registry_ok c'
    \<and> wc_instances c' = wc_instances c"
proof -
  note reg = registryD [OF ok(2) i]
  obtain p where p: "wc_pool c i = Some p" using reg(1) by blast
  let ?c = "put_instance i (p\<lparr>pi_unregistered := True\<rparr>) c"
  have q: "get_queue q (p\<lparr>pi_unregistered := True\<rparr>) = get_queue q p" for q by (cases q) simp_all
  have rep: "represents (wc_log (Call_unregistered handle) ?c) A"
    using represents_put_instance [OF container_okD(1) [OF ok(1)] p q] by simp
  have regs: "registered ?c = registered c" using p by (auto simp: registered_def fun_eq_iff)
  have "duplicate_registered dup i ?c \<noteq> None" using reg p by (auto simp: duplicate_registered_def registered_def)
  then obtain s where "duplicate_registered dup i ?c = Some s" by blast
  moreover obtain c2 where "on_watchdog od_cancel_timer i (wc_log (Call_unregistered handle) ?c) = Some c2" "represents c2 A"
      "registered c2 = registered (wc_log (Call_unregistered handle) ?c)"
      "wc_instances c2 = wc_instances (wc_log (Call_unregistered handle) ?c)"
    using represents_on_watchdog [OF rep _ timer_only_od(2), of i] by (auto simp: wc_log_def)
  moreover have "registered (wc_log x ?c) = registered c" "wc_instances (wc_log x ?c) = wc_instances c" for x
    using regs by (simp_all add: wc_log_def registered_def put_instance_def fun_eq_iff)
  ultimately show ?thesis
    using i p container_okD(2) [OF ok(1)] registry_cong [OF ok(2)] by (simp add: wc_unregister_def container_ok_def)
qed

lemma delete_instance_ok:
  assumes ok: "container_ok c A" "registry_ok c" and inst: "wc_instances c = (handle, i) # is" and empty: "\<And>q. ac_queue A (i, q) = []"
  shows "\<exists>c'. delete_instance i c = Some c' \<and> container_ok (c'\<lparr>wc_instances := is\<rparr>) A \<and> registry_ok (c'\<lparr>wc_instances := is\<rparr>)
    \<and> map_erase handle (wc_instances c') = is"
proof -
  obtain s p where p: "wc_pool c i = Some p" "pi_registered_sample p = Some s"
    using ok(2) inst by (auto simp: registry_ok_def registered_def)
  let ?c = "c\<lparr>wc_pool := (wc_pool c)(i := None), wc_instances := is\<rparr>"
  have list: "get_list k ?c = get_list k c" for k by (cases k) simp_all
  have "container_ok ?c A"
    using ok(1) empty list by (auto simp: container_ok_def part_defs)
  moreover have "registry_ok ?c" using ok(2) inst by (force simp: registry_ok_def registered_def)
  moreover have "map_erase handle ((handle, i) # is) = is"
    using ok(2) inst by (force simp: registry_ok_def map_erase_def intro!: filter_True)
  ultimately show ?thesis using p inst by (simp add: delete_instance_def)
qed

lemma unregister_each_refines:
  assumes "container_ok c A" "registry_ok c" "wc_instances c = is" "\<And>i. ac_waiting A i = []"
  shows "\<exists>c'. unregister_each is c = Some c' \<and> container_ok c' (fold a_dispose (map snd is) A) \<and> wc_instances c' = []"
  using assms
proof (induction "is" arbitrary: c A)
  case (Cons hi "is")
  obtain handle i where hi: "hi = (handle, i)" by (cases hi)
  have get: "get_handle_instance handle c' = Some i" if "wc_instances c' = wc_instances c" for c'
    using that Cons.prems(3) hi by (simp add: get_handle_instance_def)
  obtain s1 c1 where c1: "wc_dispose handle False c = Some (RETCODE_OK, s1, c1)" "container_ok c1 (a_dispose i A)"
      "registry_ok c1" "wc_instances c1 = wc_instances c"
    using wc_dispose_refines [OF Cons.prems(1,2) get] by blast
  obtain s2 c2 where c2: "wc_unregister handle False c1 = Some (RETCODE_OK, s2, c2)" "container_ok c2 (a_dispose i A)"
      "registry_ok c2" "wc_instances c2 = wc_instances c1"
    using wc_unregister_ok [OF c1(2,3) get [OF c1(4)]] by blast
  have "ac_queue (a_dispose i A) (i, q) = []" for q
    using a_dispose_queue [of i A] Cons.prems(4) by (cases q) simp_all
  then obtain c3 where c3: "delete_instance i c2 = Some c3" "container_ok (c3\<lparr>wc_instances := is\<rparr>) (a_dispose i A)"
      "registry_ok (c3\<lparr>wc_instances := is\<rparr>)" "map_erase handle (wc_instances c3) = is"
    using delete_instance_ok [OF c2(2,3), of handle i "is"] Cons.prems(3) c1(4) c2(4) hi by auto
  have "ac_waiting (a_dispose i A) j = []" for j using a_dispose_queue [of i A] Cons.prems(4) by simp
  from Cons.IH [OF c3(2,3) _ this] show ?case
    using c1(1) c2(1) c3(1,4) hi by simp
qed simp

lemma a_dispose_all:
  "ac_samples (fold a_dispose is A) i = (if i \<in> set is then [] else ac_samples A i)"
  by (induction "is" arbitrary: A) (auto simp: a_dispose_queue)

text \<open>What the transport does in \<open>remove_all_msgs\<close>: it drops the samples \<open>ds\<close>.\<close>

fun drop_all :: "nat list \<Rightarrow> WriteDataContainer \<Rightarrow> WriteDataContainer option" where
  "drop_all [] c = Some c"
| "drop_all (d # ds) c = do { c \<leftarrow> data_dropped d False c; drop_all ds c }"

lemma a_dropped_queue [simp]: "ac_queue (a_dropped a A) = ac_queue A"
  by (simp add: a_dropped_def)

lemma a_dropped_all_queue [simp]: "ac_queue (fold a_dropped ds A) = ac_queue A"
  by (induction ds arbitrary: A) simp_all

lemma drop_all_refines:
  assumes "container_ok c A"
  shows "\<exists>c'. drop_all ds c = Some c' \<and> container_ok c' (fold a_dropped ds A) \<and> wc_stable c' = wc_stable c"
  using assms
proof (induction ds arbitrary: c A)
  case (Cons d ds)
  obtain c1 where c1: "data_dropped d False c = Some c1" "container_ok c1 (a_dropped d A)" "wc_stable c1 = wc_stable c"
    using data_dropped_refines [OF Cons.prems] by blast
  show ?case using Cons.IH [OF c1(2)] c1(1,3) by auto
qed simp

lemma registry_log [simp]: "registry_ok (wc_log x c) \<longleftrightarrow> registry_ok c" "wc_instances (wc_log x c) = wc_instances c"
  by (simp_all add: registry_ok_def registered_def wc_log_def)

lemma container_ok_shutdown [simp]:
  "container_ok (c\<lparr>wc_shutdown := b\<rparr>) A \<longleftrightarrow> container_ok c A" "registry_ok (c\<lparr>wc_shutdown := b\<rparr>) \<longleftrightarrow> registry_ok c"
proof -
  have "get_list k (c\<lparr>wc_shutdown := b\<rparr>) = get_list k c" for k by (cases k) simp_all
  then show "container_ok (c\<lparr>wc_shutdown := b\<rparr>) A \<longleftrightarrow> container_ok c A" by (simp add: container_ok_def part_defs)
  show "registry_ok (c\<lparr>wc_shutdown := b\<rparr>) \<longleftrightarrow> registry_ok c" by (simp add: registry_ok_def registered_def)
qed


end
