(* ===== verification/Container_Obtain.thy ===== *)
theory Container_Obtain
  imports Container_Instances
begin

text \<open>
  The new container, the registration of an instance, and obtaining an element to write by a writer that does
  not block: an element that is free of the lists enters, and when the instance is full its oldest sample goes.
\<close>

section \<open>The new container\<close>

lemma container_ok_new:
  "container_ok (mk_WriteDataContainer Map.empty Map.empty blocks pub depth blocking max_time watchdog max_inst max_samples) ac_empty"
    (is "container_ok ?c _")
proof -
  have list: "get_list k ?c = sample_list_reset" for k by (cases k) (simp_all add: mk_WriteDataContainer_def)
  have "wc_heap ?c = Map.empty" "wc_pool ?c = Map.empty" "data_holder ?c = sample_list_reset"
    by (simp_all add: mk_WriteDataContainer_def)
  then show ?thesis
    using list send.rep_reset writer.rep_reset
    by (simp add: container_ok_def part_defs ac_empty_def ac_ok_def live_def disjoint_lists_def)
qed

lemma registry_ok_new:
  "registry_ok (mk_WriteDataContainer h pool blocks pub depth blocking max_time watchdog max_inst max_samples)"
  by (simp add: registry_ok_def mk_WriteDataContainer_def)

section \<open>Elements that enter\<close>

text \<open>An address that is not allocated is in no list.\<close>

lemma not_allocated:
  assumes ok: "container_ok c A" and a: "wc_heap c a = None"
  shows "unlisted A a" "unqueued A a" "a \<notin> set (ac_holder A)"
proof -
  note r = representsD [OF container_okD(1) [OF ok]]
  show "unlisted A a" using represents_alloc(1) [OF container_okD(1) [OF ok]] a unfolding unlisted_def by blast
  show "unqueued A a" unfolding unqueued_def
  proof (rule allI, rule prod_cases [of _])
    fix i q
    show "a \<notin> set (ac_queue A (i, q))"
      using instance_partD(1) [OF r(3), of i _ q] instance_partD(2) [OF r(3), of i q] a
        sseg_in_heap [of "instance_view (wc_heap c)" "ac_queue A (i, q)" None a]
      by (cases "wc_pool c i") (auto simp: instance_rep_def)
  qed
  have "writer_rep (wc_heap c) (data_holder c) (ac_holder A)" using r(2) by (simp add: writer_part_def)
  then have "dseg (writer_view (wc_heap c)) None (ac_holder A) None" by (simp add: dlist_rep_def)
  from dseg_in_heap [OF this, of a] show "a \<notin> set (ac_holder A)" using a by auto
qed

lemma view_alloc [simp]:
  "send_view (h(a \<mapsto> e)) = (send_view h)(a \<mapsto> (next_send_sample e, previous_send_sample e))"
  "writer_view (h(a \<mapsto> e)) = (writer_view h)(a \<mapsto> (next_writer_sample e, previous_writer_sample e))"
  "instance_view (h(a \<mapsto> e)) = (instance_view h)(a \<mapsto> next_instance_sample e)"
  "data_view (h(a \<mapsto> e)) = (data_view h)(a \<mapsto> unlinked e)"
  by (auto simp: fun_eq_iff send_view_def writer_view_def instance_view_def data_view_def)

lemma container_ok_alloc:
  assumes ok: "container_ok c A" and a: "wc_heap c a = None"
  shows "container_ok (c\<lparr>wc_heap := (wc_heap c)(a \<mapsto> mk_DataSampleElement native pub inst)\<rparr>) A" (is "container_ok ?c A")
proof -
  let ?e = "mk_DataSampleElement native pub inst"
  note r = representsD [OF container_okD(1) [OF ok]] and new = not_allocated [OF ok a]
  have e: "next_send_sample ?e = None" "previous_send_sample ?e = None" "next_writer_sample ?e = None"
      "previous_writer_sample ?e = None" by (simp_all add: mk_DataSampleElement_def)
  have "send_part ?c A"
  proof (rule send_partI)
    show "send_rep (wc_heap ?c) (get_list k ?c) (ac_list A k)" for k
      using send_partD(1) [OF r(1), of k] new(1) by (auto simp: dlist_rep_def unlisted_def)
    show "dlist_loose send_view (wc_heap ?c) b" if "wc_heap ?c b \<noteq> None" "unlisted A b" for b
      using that send_partD(3) [OF r(1), of b] e by (auto simp: dlist_loose_def)
  qed (use send_partD(2) [OF r(1)] in simp)
  moreover have "writer_part {} ?c A"
    using r(2) new(3) e by (auto simp: writer_part_def dlist_rep_def dlist_loose_def)
  moreover have "instance_part ?c A"
    using r(3) new(2) by (auto simp: instance_part_def instance_rep_def unqueued_def)
  moreover have "data_part ?c A" using r(4) new(2) by (auto simp: data_part_def unqueued_def)
  ultimately show ?thesis using container_okD(2) [OF ok] by (simp add: container_ok_def represents_upto_def)
qed

text \<open>An element that is in no list is held by the writer.\<close>

definition a_hold :: "nat \<Rightarrow> acontainer \<Rightarrow> acontainer" where
  "a_hold a A = A\<lparr>ac_holder := ac_holder A @ [a]\<rparr>"

lemma container_ok_hold:
  assumes ok: "container_ok c A" and a: "wc_heap c a \<noteq> None" "unlisted A a" "unqueued A a" "a \<notin> set (ac_holder A)"
  obtains h l where "writer_enqueue_tail a (wc_heap c, data_holder c) = Some (h, l)"
    "container_ok (c\<lparr>wc_heap := h, data_holder := l\<rparr>) (a_hold a A)" "data_view h = data_view (wc_heap c)"
proof -
  note r = representsD [OF container_okD(1) [OF ok]] and ao = container_okD(2) [OF ok]
  have w: "writer_rep (wc_heap c) (data_holder c) (ac_holder A)" and loose: "dlist_loose writer_view (wc_heap c) a"
    using r(2) a by (auto simp: writer_part_def unlisted_def)
  obtain h l where m: "writer_enqueue_tail a (wc_heap c, data_holder c) = Some (h, l)" "writer_rep h l (ac_holder A @ [a])"
      "keeps writer_view writer_rest (insert a (set (ac_holder A))) (wc_heap c) h"
    using writer.enqueue_tail_rep [OF w loose a(4)] by blast
  let ?c = "c\<lparr>wc_heap := h, data_holder := l\<rparr>"
  have views: "send_view h = send_view (wc_heap c)" "instance_view h = instance_view (wc_heap c)"
      "data_view h = data_view (wc_heap c)"
    using m(3) by (simp_all add: keeps_def writer_rest_def)
  have list: "get_list k ?c = get_list k c" for k by (cases k) simp_all
  have "send_part ?c (a_hold a A)" by (rule send_part_cong [OF r(1)]) (simp_all add: views(1) list a_hold_def)
  moreover have "instance_part ?c (a_hold a A)" by (rule instance_part_cong [OF r(3)]) (simp_all add: views(2) a_hold_def)
  moreover have "data_part ?c (a_hold a A)" by (rule data_part_cong [OF r(4)]) (simp_all add: views(3) a_hold_def)
  moreover have "writer_part {} ?c (a_hold a A)"
  proof -
    have "dlist_loose writer_view h b" if "h b \<noteq> None" "b \<noteq> a" "b \<notin> set (ac_holder A)" "b \<notin> set (ac_list A Released)"
        "b \<notin> set (ac_list A Resend)" for b
      using writer.loose_keeps [OF _ m(3), of b] that r(2) frame_alloc [OF views(3), of b] by (auto simp: writer_part_def)
    then show ?thesis using m(2) by (simp add: writer_part_def a_hold_def)
  qed
  moreover have "ac_ok (a_hold a A)"
    using ao a(2,3) by (auto simp: ac_ok_def a_hold_def live_def unlisted_def unqueued_def)
  ultimately show thesis using m(1) views(3) by (intro that [of h l]) (simp_all add: container_ok_def represents_upto_def)
qed


section \<open>Registering an instance\<close>

lemma registry_pool: "registry_ok c \<Longrightarrow> wc_pool c i = None \<Longrightarrow> i \<notin> snd ` set (wc_instances c)"
  by (auto simp: registry_ok_def registered_def)

lemma registry_insert:
  assumes ok: "registry_ok c" and new: "wc_pool c i = None" "map_of (wc_instances c) handle = None"
    and p: "pi_registered_sample p = Some s"
  shows "registry_ok (put_instance i p (c\<lparr>wc_instances := map_insert handle i (wc_instances c)\<rparr>))"
proof -
  have "mset (map snd (map_insert handle i (wc_instances c))) = mset (i # map snd (wc_instances c))"
    using new(2) by (simp add: map_insert_def)
  then have "distinct (map snd (map_insert handle i (wc_instances c)))"
    using ok registry_pool [OF ok new(1)] mset_eq_imp_distinct_iff by (fastforce simp: registry_ok_def)
  moreover have "set (map_insert handle i (wc_instances c)) = insert (handle, i) (set (wc_instances c))"
    using new(2) by (simp add: map_insert_def set_insort_key)
  ultimately show ?thesis
    using ok p registry_pool [OF ok new(1)]
    by (auto simp: registry_ok_def distinct_map_insert registered_def put_instance_def rev_image_eqI)
qed

lemma represents_new_instance:
  assumes rep: "represents_upto X c A" and i: "wc_pool c i = None" and p: "\<And>q. get_queue q p = sample_list_reset"
  shows "represents_upto X (put_instance i p (c\<lparr>wc_instances := m\<rparr>)) A"
proof -
  have list: "get_list k (c\<lparr>wc_instances := m\<rparr>) = get_list k c" for k by (cases k) simp_all
  show ?thesis using rep i p list inst.rep_reset by (auto simp: part_defs)
qed

theorem wc_register_instance_ok:
  assumes ok: "container_ok c A" "registry_ok c" and i: "wc_pool c i = None" "map_of (wc_instances c) handle = None"
    and room: "wc_max_num_instances c \<le> 0 \<or> int (length (wc_instances c)) < wc_max_num_instances c"
  shows "\<exists>c'. wc_register_instance 0 (Some s) (Some i) handle c = Some (RETCODE_OK, handle, Some s, c')
    \<and> container_ok c' A \<and> registry_ok c' \<and> get_handle_instance handle c' = Some i"
proof -
  let ?p = "(mk_PublicationInstance (Some s))\<lparr>pi_instance_handle := handle\<rparr>"
  let ?c = "put_instance i ?p (c\<lparr>wc_instances := map_insert handle i (wc_instances c)\<rparr>)"
  have "get_queue q ?p = sample_list_reset" for q by (cases q) (simp_all add: mk_PublicationInstance_def)
  then have rep: "represents ?c A" using represents_new_instance [OF container_okD(1) [OF ok(1)] i(1)] by blast
  have reg: "registry_ok ?c" using registry_insert [OF ok(2) i] by (simp add: mk_PublicationInstance_def)
  obtain c' where "on_watchdog od_schedule_timer i ?c = Some c'" "represents c' A" "registered c' = registered ?c"
      "wc_instances c' = wc_instances ?c"
    using represents_on_watchdog [OF rep _ timer_only_od(1), of i] by auto
  moreover from this have "registry_ok c'" "get_handle_instance handle c' = Some i"
    using registry_cong [OF reg] i(2) by (simp_all add: get_handle_instance_def put_instance_def map_of_map_insert)
  ultimately show ?thesis
    using room i container_okD(2) [OF ok(1)] by (auto simp: wc_register_instance_def container_ok_def)
qed

section \<open>Obtaining an element\<close>

text \<open>An element of the writer that is in none of the lists.\<close>

definition fresh_element :: "WriteDataContainer \<Rightarrow> acontainer \<Rightarrow> nat \<Rightarrow> DataSampleElement \<Rightarrow> bool" where
  "fresh_element c A a e \<longleftrightarrow> data_view (wc_heap c) a = Some e \<and> unlisted A a \<and> unqueued A a \<and> a \<notin> set (ac_holder A)"

text \<open>The transport, asked to remove a sample, does so at once, later or never.\<close>

definition transport_removes :: "(nat \<Rightarrow> WriteDataContainer \<Rightarrow> WriteDataContainer option) \<Rightarrow> bool" where
  "transport_removes f \<longleftrightarrow> (\<forall>s c. f s c = Some c \<or> f s c = data_dropped s False c)"

lemma notin_remove1_or: "b \<in> set (remove1 a xs) \<Longrightarrow> b \<in> set xs"
  using set_remove1_subset by fastforce

lemma fresh_remove:
  assumes "fresh_element c A b e" "others_kept a c c'" "a \<noteq> b"
  shows "fresh_element c' (a_remove i a A) b e"
  using assms
  by (auto simp: fresh_element_def others_kept_def a_remove_def Let_def a_simps unlisted_def unqueued_def dest: notin_remove1_or)

lemma fresh_dropped:
  assumes "fresh_element c A b e" "others_kept a c c'" "a \<noteq> b"
  shows "fresh_element c' (a_dropped a A) b e"
  using assms
  by (auto simp: fresh_element_def others_kept_def a_dropped_def a_simps unlisted_def unqueued_def dest: notin_remove1_or)

lemma fresh_not_sample: "fresh_element c A b e \<Longrightarrow> a \<in> set (ac_samples A i) \<Longrightarrow> a \<noteq> b"
  by (auto simp: fresh_element_def unqueued_def)

text \<open>The first part: the oldest sample of an instance with \<open>depth_\<close> samples goes.\<close>

definition a_room :: "int \<Rightarrow> nat \<Rightarrow> acontainer \<Rightarrow> acontainer" where
  "a_room depth i A =
     (if int (length (ac_samples A i)) = depth then a_remove i (hd (ac_samples A i)) A else A)"

text \<open>Whether that sample is free: the transport may still use it.\<close>

definition a_oldest_free :: "int \<Rightarrow> nat \<Rightarrow> acontainer \<Rightarrow> bool" where
  "a_oldest_free depth i A \<longleftrightarrow>
     int (length (ac_samples A i)) = depth \<longrightarrow> a_state (hd (ac_samples A i)) A \<noteq> Sending"

lemma make_room:
  assumes ok: "container_ok c A" and p: "wc_pool c i = Some p" and fresh: "fresh_element c A a e"
    and depth: "0 < wc_depth c" "int (length (ac_samples A i)) \<le> wc_depth c"
  obtains c' where "(if sl_size (pi_samples p) > wc_depth c then Some (RETCODE_ERROR, True, c)
        else if sl_size (pi_samples p) = wc_depth c then remove_oldest_sample i True c
        else Some (RETCODE_OK, True, c)) = Some (RETCODE_OK, a_oldest_free (wc_depth c) i A, c')"
    "container_ok c' (a_room (wc_depth c) i A)" "wc_stable c' = wc_stable c" "fresh_element c' (a_room (wc_depth c) i A) a e"
    "int (length (ac_samples (a_room (wc_depth c) i A) i)) < wc_depth c"
proof (cases "int (length (ac_samples A i)) = wc_depth c")
  case True
  then obtain x xs where xs: "ac_samples A i = x # xs" using depth(1) by (cases "ac_samples A i") auto
  obtain c' where c': "remove_oldest_sample i True c = Some (RETCODE_OK, a_state x A \<noteq> Sending, c')"
      "container_ok c' (a_remove i x A)" "wc_stable c' = wc_stable c" "others_kept x c c'"
    using remove_oldest_sample_refines [OF ok xs] by blast
  have "x \<noteq> a" using fresh_not_sample [OF fresh, of x i] xs by simp
  then have "fresh_element c' (a_remove i x A) a e" using fresh_remove [OF fresh c'(4)] by simp
  then show thesis
    using that [of c'] c' True xs sample_size [OF container_okD(1) [OF ok] p] remove_samples [OF xs]
    by (simp add: a_room_def a_oldest_free_def)
next
  case False
  then show thesis
    using that [of c] ok fresh depth sample_size [OF container_okD(1) [OF ok] p] by (simp add: a_room_def a_oldest_free_def)
qed

text \<open>The last part: the element is held.\<close>

lemma finish_ok:
  assumes ok: "container_ok c A" and fresh: "fresh_element c A a e"
  obtains c' where "finish_obtain RETCODE_OK a c = Some (RETCODE_OK, Some a, c')" "container_ok c' (a_hold a A)"
    "wc_stable c' = wc_stable c" "data_view (wc_heap c') a = Some e" "wc_blocks c' = wc_blocks c"
proof -
  have "wc_heap c a \<noteq> None" using fresh view_eq_None(4) [of "wc_heap c" a] by (simp add: fresh_element_def)
  then obtain h l where m: "writer_enqueue_tail a (wc_heap c, data_holder c) = Some (h, l)"
      "container_ok (c\<lparr>wc_heap := h, data_holder := l\<rparr>) (a_hold a A)" "data_view h = data_view (wc_heap c)"
    using container_ok_hold [OF ok] fresh unfolding fresh_element_def by metis
  have "wc_stable (c\<lparr>wc_heap := h, data_holder := l\<rparr>) = wc_stable c" by (simp add: wc_stable_def pool_rest_def fun_eq_iff)
  then show thesis
    using m fresh by (intro that [of "c\<lparr>wc_heap := h, data_holder := l\<rparr>"]) (simp_all add: finish_obtain_def fresh_element_def)
qed


text \<open>A sample the transport gives up at once is freed, as it has been released.\<close>

lemma remove_sample_ok:
  assumes f: "transport_removes f" and ok: "container_ok c A" and fresh: "fresh_element c A a e" and x: "x \<noteq> a"
  obtains c' A' where "f x c = Some c'" "A' = A \<or> A' = a_dropped x A" "container_ok c' A'" "wc_stable c' = wc_stable c"
    "fresh_element c' A' a e"
proof -
  consider "f x c = Some c" | "f x c = data_dropped x False c" using f unfolding transport_removes_def by blast
  then show thesis
  proof cases
    case 1
    then show thesis using that [of c A] ok fresh by simp
  next
    case 2
    obtain c' where "data_dropped x False c = Some c'" "container_ok c' (a_dropped x A)" "wc_stable c' = wc_stable c"
        "others_kept x c c'"
      using data_dropped_refines [OF ok] by blast
    then show thesis using that [of c' "a_dropped x A"] 2 fresh_dropped [OF fresh _ x] by simp
  qed
qed

text \<open>What \<open>obtain_buffer\<close> ends with: the element is held and belongs to the instance, which has room for it.\<close>

definition obtained :: "WriteDataContainer \<Rightarrow> acontainer \<Rightarrow> nat \<Rightarrow> nat \<Rightarrow> bool" where
  "obtained c A i a \<longleftrightarrow> a \<in> set (ac_holder A) \<and> unlisted A a \<and> int (length (ac_samples A i)) < wc_depth c
     \<and> (\<exists>e. wc_heap c a = Some e \<and> el_handle e = Some i)"

lemma obtained_hold:
  assumes "data_view (wc_heap c) a = Some (unlinked (mk_DataSampleElement native pub (Some i)))" "unlisted A a"
    "int (length (ac_samples A i)) < wc_depth c"
  shows "obtained c (a_hold a A) i a"
proof -
  obtain e where "wc_heap c a = Some e" "unlinked e = unlinked (mk_DataSampleElement native pub (Some i))"
    using assms(1) by (auto simp: data_view_def)
  then show ?thesis
    using assms(2,3) unlinked_fields [of e "mk_DataSampleElement native pub (Some i)"]
    by (auto simp: obtained_def a_hold_def unlisted_def mk_DataSampleElement_def)
qed

text \<open>The part that asks the transport to give up the oldest sample, when it is not free, and holds the element.\<close>

lemma give_up_oldest:
  assumes f: "transport_removes f" and ok: "container_ok c A" and fresh: "fresh_element c A a e"
    and x: "\<not> free \<Longrightarrow> stale = Some x \<and> x \<noteq> a"
  obtains c' B where "(if \<not> free then do { s \<leftarrow> stale; c \<leftarrow> f s c; finish_obtain RETCODE_OK a c }
      else finish_obtain RETCODE_OK a c) = Some (RETCODE_OK, Some a, c')"
    "B = A \<or> \<not> free \<and> B = a_dropped x A" "container_ok c' (a_hold a B)" "wc_stable c' = wc_stable c"
    "data_view (wc_heap c') a = Some e" "unlisted B a"
proof (cases "free")
  case True
  obtain c' where "finish_obtain RETCODE_OK a c = Some (RETCODE_OK, Some a, c')" "container_ok c' (a_hold a A)"
      "wc_stable c' = wc_stable c" "data_view (wc_heap c') a = Some e"
    using finish_ok [OF ok fresh] .
  then show thesis using that [of c' A] True fresh by (simp add: fresh_element_def)
next
  case False
  obtain c1 B where c1: "f x c = Some c1" "B = A \<or> B = a_dropped x A" "container_ok c1 B" "wc_stable c1 = wc_stable c"
      "fresh_element c1 B a e"
    using remove_sample_ok [OF f ok fresh] x False by blast
  obtain c' where "finish_obtain RETCODE_OK a c1 = Some (RETCODE_OK, Some a, c')" "container_ok c' (a_hold a B)"
      "wc_stable c' = wc_stable c1" "data_view (wc_heap c') a = Some e"
    using finish_ok [OF c1(3,5)] .
  then show thesis using that [of c' B] False x c1 by (simp add: fresh_element_def)
qed

lemma oldest_in_use:
  assumes "\<not> a_oldest_free depth i A" "0 < depth" "fresh_element c A a e"
    and "sl_head l = hd_or None (ac_samples A i)"
  shows "sl_head l = Some (hd (ac_samples A i)) \<and> hd (ac_samples A i) \<noteq> a"
proof -
  obtain x xs where "ac_samples A i = x # xs" using assms(1,2) by (cases "ac_samples A i") (auto simp: a_oldest_free_def)
  then show ?thesis using assms(4) fresh_not_sample [OF assms(3), of x i] by simp
qed

theorem obtain_buffer_refines:
  assumes ok: "container_ok c A" "registry_ok c" and i: "get_handle_instance handle c = Some i" and a: "wc_heap c a = None"
    and free: "\<not> wc_should_block c \<or> a_oldest_free (wc_depth c) i A \<and> ac_waiting A i = []" "wc_max_num_samples c \<le> 0"
    and f: "transport_removes f"
    and depth: "0 < wc_depth c" "int (length (ac_samples A i)) \<le> wc_depth c"
  shows "\<exists>c' B. obtain_buffer f native max_time now wakes (Some a) handle c = Some (RETCODE_OK, Some a, c')
    \<and> (B = a_room (wc_depth c) i A \<or> \<not> a_oldest_free (wc_depth c) i A \<and> B = a_dropped (hd (ac_samples A i)) (a_room (wc_depth c) i A))
    \<and> container_ok c' (a_hold a B) \<and> registry_ok c' \<and> obtained c' (a_hold a B) i a \<and> wc_stable c' = wc_stable c"
proof -
  let ?e = "mk_DataSampleElement native (wc_publication_id c) (Some i)"
  let ?c = "c\<lparr>wc_heap := (wc_heap c)(a \<mapsto> ?e)\<rparr>" and ?B = "a_room (wc_depth c) i A"
  have ok': "container_ok ?c A" using container_ok_alloc [OF ok(1) a] .
  have stable0: "wc_stable ?c = wc_stable c" by (simp add: wc_stable_def pool_rest_def fun_eq_iff)
  have fresh: "fresh_element ?c A a (unlinked ?e)" using not_allocated [OF ok(1) a] by (simp add: fresh_element_def)
  obtain p where p: "wc_pool ?c i = Some p" using registryD(1) [OF ok(2) i] by auto
  obtain c1 where c1: "(if sl_size (pi_samples p) > wc_depth ?c then Some (RETCODE_ERROR, True, ?c)
        else if sl_size (pi_samples p) = wc_depth ?c then remove_oldest_sample i True ?c
        else Some (RETCODE_OK, True, ?c)) = Some (RETCODE_OK, a_oldest_free (wc_depth c) i A, c1)"
      "container_ok c1 ?B" "wc_stable c1 = wc_stable ?c" "fresh_element c1 ?B a (unlinked ?e)"
      "int (length (ac_samples ?B i)) < wc_depth c"
    using make_room [OF ok' p fresh] depth by auto
  have s1: "wc_stable c1 = wc_stable c" using c1(3) stable0 by simp
  have cfg: "wc_max_num_samples c1 = wc_max_num_samples c" "wc_should_block c1 = wc_should_block c"
    using s1 by (simp_all add: wc_stable_def)
  have limits: "limit_samples t wakes RETCODE_OK c1 = Some (RETCODE_OK, False, wakes, c1)" for t
    using cfg free(2) by (simp add: limit_samples_def)
  have head: "sl_head (pi_samples p) = hd_or None (ac_samples A i)"
    using instance_partD(1) [OF representsD(3) [OF container_okD(1) [OF ok']] p, of Samples]
    by (simp add: instance_rep_def list_rep_def)
  obtain c2 B where c2: "(if \<not> a_oldest_free (wc_depth c) i A
        then do { s \<leftarrow> sl_head (pi_samples p); c \<leftarrow> f s c1; finish_obtain RETCODE_OK a c } else finish_obtain RETCODE_OK a c1)
      = Some (RETCODE_OK, Some a, c2)" "B = ?B \<or> \<not> a_oldest_free (wc_depth c) i A \<and> B = a_dropped (hd (ac_samples A i)) ?B" "container_ok c2 (a_hold a B)"
      "wc_stable c2 = wc_stable c1" "data_view (wc_heap c2) a = Some (unlinked ?e)" "unlisted B a"
    using give_up_oldest [OF f c1(2,4) oldest_in_use [OF _ depth(1) fresh head]] by blast
  have stable: "wc_stable c2 = wc_stable c" using s1 c2(4) by simp
  then have "registry_ok c2" "wc_depth c2 = wc_depth c"
    using registry_cong [OF ok(2)] stable_registry [of c2 c] by (simp_all add: wc_stable_def)
  moreover from this have "obtained c2 (a_hold a B) i a"
    using obtained_hold [OF c2(5,6)] c1(5) c2(2) by auto
  moreover have "obtain_buffer f native max_time now wakes (Some a) handle c = Some (RETCODE_OK, Some a, c2)"
  proof (cases "wc_should_block c")
    case False
    then show ?thesis
      using i p c1(1) limits cfg c2(1) by (simp add: obtain_buffer_def Let_def split del: if_split)
  next
    case True
    have "wc_pool c1 i \<noteq> None" using stable_pool [OF c1(3), of i] p by simp
    then obtain p1 where p1: "wc_pool c1 i = Some p1" by blast
    then have "sl_head (pi_waiting_list p1) = None"
      using waiting_head [OF container_okD(1) [OF c1(2)] p1] True free(1) by (simp add: a_room_def a_remove_queue)
    then show ?thesis
      using True free(1) i p c1(1) limits cfg c2(1) p1 by (simp add: obtain_buffer_def Let_def split del: if_split)
  qed
  ultimately show ?thesis using c2(2,3) stable by blast
qed

end
