(* ===== verification/Container_Data.thy ===== *)
theory Container_Data
  imports Container_Spec
begin

text \<open>
  What the operations of the container do to the elements apart from their links, in any state: an operation
  frees elements or keeps them as they are. In particular no operation tells a waiting writer that there is
  space for it.
\<close>

section \<open>The lists\<close>

lemma update_links:
  "update_element a f h = Some h' \<Longrightarrow> (\<And>e. unlinked (f e) = unlinked e) \<Longrightarrow> data_view h' = data_view h"
  by (auto simp: update_element_def view_upd_eq(4))

lemma unlinked_two_links [simp]:
  "unlinked (e\<lparr>next_send_sample := p, previous_send_sample := q\<rparr>) = unlinked e"
  "unlinked (e\<lparr>next_writer_sample := p, previous_writer_sample := q\<rparr>) = unlinked e"
  by (simp_all add: unlinked_def)

named_theorems keep_data \<open>list operations that change links only\<close>

lemma send_keep_data [keep_data]:
  "send_enqueue_tail a (h, l) = Some (h1, l1) \<Longrightarrow> data_view h1 = data_view h"
  "send_append l2 (h, l) = Some (h1, l1) \<Longrightarrow> data_view h1 = data_view h"
  "send_dequeue_head (h, l) = Some (b, x, h1, l1) \<Longrightarrow> data_view h1 = data_view h"
  "send_unlink a (h, l) = Some (h1, l1) \<Longrightarrow> data_view h1 = data_view h"
  by (auto simp: send_enqueue_tail_def send_append_def send_dequeue_head_def send_unlink_def Let_def
      split: if_splits option.splits Option.bind_splits dest!: update_links)

lemma send_dequeue_keep_data [keep_data]:
  "send_dequeue a (h, l) = Some (b, h1, l1) \<Longrightarrow> data_view h1 = data_view h"
  by (auto simp: send_dequeue_def split: if_splits option.splits Option.bind_splits dest!: send_keep_data)

lemma writer_keep_data [keep_data]:
  "writer_enqueue_tail a (h, l) = Some (h1, l1) \<Longrightarrow> data_view h1 = data_view h"
  "writer_dequeue_head (h, l) = Some (b, x, h1, l1) \<Longrightarrow> data_view h1 = data_view h"
  "writer_unlink a (h, l) = Some (h1, l1) \<Longrightarrow> data_view h1 = data_view h"
  by (auto simp: writer_enqueue_tail_def writer_dequeue_head_def writer_unlink_def Let_def
      split: if_splits option.splits Option.bind_splits dest!: update_links)

lemma writer_dequeue_keep_data [keep_data]:
  "writer_dequeue a (h, l) = Some (b, h1, l1) \<Longrightarrow> data_view h1 = data_view h"
  by (auto simp: writer_dequeue_def split: if_splits option.splits Option.bind_splits dest!: writer_keep_data)

lemma instance_keep_data [keep_data]:
  "instance_enqueue_tail a (h, l) = Some (h1, l1) \<Longrightarrow> data_view h1 = data_view h"
  "instance_dequeue_head (h, l) = Some (b, x, h1, l1) \<Longrightarrow> data_view h1 = data_view h"
  by (auto simp: instance_enqueue_tail_def instance_dequeue_head_def Let_def
      split: if_splits option.splits Option.bind_splits dest!: update_links)

lemma instance_dequeue_keep_data [keep_data]:
  "instance_dequeue a (h, l) = Some (b, h1, l1) \<Longrightarrow> data_view h1 = data_view h"
  by (auto simp: instance_dequeue_def Let_def
      split: if_splits option.splits Option.bind_splits dest!: instance_keep_data update_links)

section \<open>The container\<close>

text \<open>Every element that is left is what it was.\<close>

definition only_frees :: "WriteDataContainer \<Rightarrow> WriteDataContainer \<Rightarrow> bool" where
  "only_frees c c' \<longleftrightarrow> (\<forall>a. wc_heap c' a = None \<or> data_view (wc_heap c') a = data_view (wc_heap c) a)"

lemma only_frees_refl [simp]: "only_frees c c"
  by (simp add: only_frees_def)

lemma only_frees_trans [trans]: "only_frees c c' \<Longrightarrow> only_frees c' c'' \<Longrightarrow> only_frees c c''"
  unfolding only_frees_def by (metis view_eq_None(4))

lemma only_frees_eq: "data_view (wc_heap c') = data_view (wc_heap c) \<Longrightarrow> only_frees c c'"
  by (simp add: only_frees_def)

lemma only_frees_fields [simp]:
  "only_frees c (wc_log x c') \<longleftrightarrow> only_frees c c'" "only_frees c (signal_empty c') \<longleftrightarrow> only_frees c c'"
  "only_frees c (put_instance i p c') \<longleftrightarrow> only_frees c c'" "only_frees (put_instance i p c) c' \<longleftrightarrow> only_frees c c'"
  "only_frees (put_list k l c) c' \<longleftrightarrow> only_frees c c'" "only_frees c (put_list k l c') \<longleftrightarrow> only_frees c c'"
  by (cases k; simp add: only_frees_def wc_log_def signal_empty_def put_instance_def)+

named_theorems frees \<open>container operations that keep or free elements\<close>

lemma list_moves_free [frees]:
  "enqueue_send k a c = Some c' \<Longrightarrow> only_frees c c'"
  "append_send k l c = Some c' \<Longrightarrow> only_frees c c'"
  "dequeue_send k a c = Some (b, c') \<Longrightarrow> only_frees c c'"
  "enqueue_instance q i a c = Some c' \<Longrightarrow> only_frees c c'"
  "dequeue_instance q i a c = Some (b, c') \<Longrightarrow> only_frees c c'"
  "dequeue_instance_head q i c = Some (b, x, c') \<Longrightarrow> only_frees c c'"
  by (auto simp: enqueue_send_def append_send_def dequeue_send_def enqueue_instance_def dequeue_instance_def
      dequeue_instance_head_def only_frees_def split: Option.bind_splits dest!: keep_data)

lemma release_buffer_frees [frees]: "release_buffer a c = Some c' \<Longrightarrow> only_frees c c'"
  by (auto simp: release_buffer_def only_frees_def data_view_def fun_eq_iff split: Option.bind_splits dest!: keep_data)

lemma small_steps_free [frees]:
  "mark_historic a c = Some c' \<Longrightarrow> only_frees c c'" "on_watchdog f i c = Some c' \<Longrightarrow> only_frees c c'"
  "delete_instance i c = Some c' \<Longrightarrow> only_frees c c'"
  by (auto simp: mark_historic_def on_watchdog_def delete_instance_def only_frees_def put_instance_def
      split: Option.bind_splits option.splits prod.splits)

lemma moves_keep_pool:
  "enqueue_send k a c = Some c' \<Longrightarrow> wc_pool c' = wc_pool c" "dequeue_send k a c = Some (b, c') \<Longrightarrow> wc_pool c' = wc_pool c"
  "mark_historic a c = Some c' \<Longrightarrow> wc_pool c' = wc_pool c"
  by (auto simp: enqueue_send_def dequeue_send_def mark_historic_def split: Option.bind_splits)

text \<open>
  \<open>wakeup_blocking_writers\<close> does nothing wherever it is called: the sample it is given is null, except when no
  writer waits.
\<close>

lemma wakeup_none: "wakeup_blocking_writers None inst c = Some c"
  by (simp add: wakeup_blocking_writers_def)

lemma wakeup_no_waiting:
  "wc_pool c i = Some p \<Longrightarrow> sl_head (pi_waiting_list p) = None \<Longrightarrow> wakeup_blocking_writers stale (Some i) c = Some c"
  by (simp add: wakeup_blocking_writers_def)

text \<open>What holds of the result of an operation, if there is one; it composes along the steps of an operation.\<close>

definition returns :: "'a option \<Rightarrow> ('a \<Rightarrow> bool) \<Rightarrow> bool" where
  "returns m P \<longleftrightarrow> (\<forall>x. m = Some x \<longrightarrow> P x)"

lemma returns_simps [simp]:
  "returns None P" "returns (Some x) P \<longleftrightarrow> P x" "returns (Option.bind m f) P \<longleftrightarrow> returns m (\<lambda>x. returns (f x) P)"
  "returns (map_option g m) P \<longleftrightarrow> returns m (\<lambda>x. P (g x))"
  by (auto simp: returns_def split: Option.bind_splits)

lemma returns_if [simp]: "returns (if b then m else n) P \<longleftrightarrow> (b \<longrightarrow> returns m P) \<and> (\<not> b \<longrightarrow> returns n P)"
  by simp

lemma returns_reads:
  "P None \<Longrightarrow> (\<And>i. P (Some i)) \<Longrightarrow> returns (get_handle a h) P"
  "(\<And>p. wc_pool c i = Some p \<Longrightarrow> Q p) \<Longrightarrow> returns (wc_pool c i) Q"
  by (auto simp: returns_def get_handle_def) (metis option.exhaust)

lemma returnsI: "(\<And>x. m = Some x \<Longrightarrow> P x) \<Longrightarrow> returns m P"
  by (simp add: returns_def)

lemma returnsD: "returns m P \<Longrightarrow> m = Some x \<Longrightarrow> P x"
  by (simp add: returns_def)

text \<open>From a container \<open>c0\<close> of which \<open>c\<close> keeps the elements, each step leads to one of which it does.\<close>

lemma step_frees:
  assumes "only_frees c0 c"
  shows "(\<And>c'. only_frees c0 c' \<Longrightarrow> wc_pool c' = wc_pool c \<Longrightarrow> P c') \<Longrightarrow> returns (enqueue_send k a c) P"
    "(\<And>c'. only_frees c0 c' \<Longrightarrow> P c') \<Longrightarrow> returns (append_send k l c) P"
    "(\<And>b c'. only_frees c0 c' \<Longrightarrow> wc_pool c' = wc_pool c \<Longrightarrow> Q (b, c')) \<Longrightarrow> returns (dequeue_send k a c) Q"
    "(\<And>c'. only_frees c0 c' \<Longrightarrow> P c') \<Longrightarrow> returns (enqueue_instance q i a c) P"
    "(\<And>b c'. only_frees c0 c' \<Longrightarrow> Q (b, c')) \<Longrightarrow> returns (dequeue_instance q i a c) Q"
    "(\<And>b x c'. only_frees c0 c' \<Longrightarrow> R (b, x, c')) \<Longrightarrow> returns (dequeue_instance_head q i c) R"
    "(\<And>c'. only_frees c0 c' \<Longrightarrow> P c') \<Longrightarrow> returns (release_buffer a c) P"
    "(\<And>c'. only_frees c0 c' \<Longrightarrow> wc_pool c' = wc_pool c \<Longrightarrow> P c') \<Longrightarrow> returns (mark_historic a c) P"
    "(\<And>c'. only_frees c0 c' \<Longrightarrow> P c') \<Longrightarrow> returns (on_watchdog f i c) P"
    "(\<And>c'. only_frees c0 c' \<Longrightarrow> P c') \<Longrightarrow> returns (delete_instance i c) P"
  using frees [THEN only_frees_trans [OF assms]] moves_keep_pool by (auto intro!: returnsI)

lemma data_delivered_frees:
  assumes "only_frees c0 c" and P: "\<And>c'. only_frees c0 c' \<Longrightarrow> P c'"
  shows "returns (data_delivered a c) P"
  unfolding data_delivered_def using assms(1)
  by (auto simp: wakeup_none wakeup_no_waiting intro!: step_frees returns_reads P)

lemma data_dropped_frees:
  assumes "only_frees c0 c" and P: "\<And>c'. only_frees c0 c' \<Longrightarrow> P c'"
  shows "returns (data_dropped a b c) P"
  unfolding data_dropped_def using assms(1)
  by (auto simp: wakeup_none intro!: step_frees returns_reads data_delivered_frees P)

lemma only_frees_list_fields [simp]:
  "only_frees c (c'\<lparr>unsent_data := l\<rparr>) \<longleftrightarrow> only_frees c c'" "only_frees c (c'\<lparr>resend_data := l\<rparr>) \<longleftrightarrow> only_frees c c'"
  "only_frees c (c'\<lparr>wc_shutdown := b\<rparr>) \<longleftrightarrow> only_frees c c'" "only_frees c (c'\<lparr>wc_waiting_on_release := b\<rparr>) \<longleftrightarrow> only_frees c c'"
  "only_frees c (c'\<lparr>wc_instances := m\<rparr>) \<longleftrightarrow> only_frees c c'"
  by (simp_all add: only_frees_def)

lemma returns_always: "(\<And>x. P x) \<Longrightarrow> returns m P"
  by (simp add: returns_def)

lemma send_steps_free:
  assumes "only_frees c0 c"
  shows "(\<And>l c'. only_frees c0 c' \<Longrightarrow> P (l, c')) \<Longrightarrow> returns (get_unsent_data c) P"
    "(\<And>l c'. only_frees c0 c' \<Longrightarrow> P (l, c')) \<Longrightarrow> returns (get_resend_data c) P"
  using assms
  by (auto simp: get_unsent_data_def get_resend_data_def Let_def intro!: step_frees)

lemma wc_enqueue_frees:
  assumes "only_frees c0 c" and P: "\<And>r c'. only_frees c0 c' \<Longrightarrow> P (r, c')"
  shows "returns (wc_enqueue a handle ls now c) P"
  unfolding wc_enqueue_def returns_simps returns_if
  by (rule returns_always, rule returns_always) (use assms in \<open>auto intro!: step_frees\<close>)

lemma remove_oldest_sample_frees:
  assumes "only_frees c0 c" and P: "\<And>r b c'. only_frees c0 c' \<Longrightarrow> P (r, b, c')"
  shows "returns (remove_oldest_sample i r c) P"
  unfolding remove_oldest_sample_def
  by (auto simp: Let_def assms split: option.split
      intro!: step_frees [OF assms(1)] step_frees P returns_always [of _ "send_list_containing_element _ _ _"] returns_always [of _ "_ :: ptr"])


lemma dispose_samples_frees:
  assumes "dispose_samples i c = Some r"
  shows "only_frees c (snd r)"
proof (rule dispose_samples.raw_induct [OF _ assms, of "\<lambda>i c r. only_frees c (snd r)"])
  fix rec i c and y :: "ReturnCode_t \<times> WriteDataContainer"
  assume IH: "\<And>i c y. rec i c = Some y \<Longrightarrow> only_frees c (snd y)"
    and body: "(case wc_pool c i of None \<Rightarrow> None
      | Some p \<Rightarrow> if 0 < sl_size (pi_samples p) then do {
            (ret, _, c') \<leftarrow> remove_oldest_sample i False c;
            if ret \<noteq> RETCODE_OK then Some (ret, c') else rec i c'
          } else Some (RETCODE_OK, c)) = Some y"
  have "returns (remove_oldest_sample i False c) (\<lambda>(ret, _, c'). only_frees c c')"
    by (rule remove_oldest_sample_frees) auto
  then show "only_frees c (snd y)"
    using body IH [of i]
    by (cases y) (auto simp: returns_def split: option.splits if_splits prod.splits Option.bind_splits
        intro: only_frees_trans)
qed

lemma dispose_step_frees:
  assumes "only_frees c0 c" and P: "\<And>r c'. only_frees c0 c' \<Longrightarrow> P (r, c')"
  shows "returns (dispose_samples i c) P"
  using P only_frees_trans [OF assms(1) dispose_samples_frees] by (auto intro!: returnsI simp: split_paired_all)

lemma wc_dispose_frees:
  assumes "only_frees c0 c" and P: "\<And>r s c'. only_frees c0 c' \<Longrightarrow> P (r, s, c')"
  shows "returns (wc_dispose handle dup c) P"
  unfolding wc_dispose_def using assms(1)
  by (auto split: option.split intro!: P dispose_step_frees step_frees returns_always [of _ "duplicate_registered _ _ _"])

lemma wc_unregister_frees:
  assumes "only_frees c0 c" and P: "\<And>r s c'. only_frees c0 c' \<Longrightarrow> P (r, s, c')"
  shows "returns (wc_unregister handle dup c) P"
  unfolding wc_unregister_def using assms(1)
  by (auto simp: Let_def split: option.split
      intro!: P step_frees returns_always [of _ "duplicate_registered _ _ _"] returns_always [of _ "wc_pool _ _"])

lemma unregister_each_frees:
  "only_frees c0 c \<Longrightarrow> (\<And>c'. only_frees c0 c' \<Longrightarrow> P c') \<Longrightarrow> returns (unregister_each is c) P"
proof (induction "is" arbitrary: c)
  case (Cons x "is")
  have "returns (unregister_each is (c'\<lparr>wc_instances := m\<rparr>)) P" if "only_frees c0 c'" for c' m
    using Cons.IH [of "c'\<lparr>wc_instances := m\<rparr>"] Cons.prems(2) that by simp
  with Cons.prems(1) show ?case
    by (cases x) (auto intro!: wc_dispose_frees wc_unregister_frees step_frees)
qed simp

lemma unregister_all_frees:
  assumes "only_frees c0 c" and P: "\<And>c'. only_frees c0 c' \<Longrightarrow> P c'"
  shows "returns (unregister_all Some c) P"
  using assms by (auto simp: unregister_all_def Let_def intro!: unregister_each_frees)

lemma run_other_frees:
  assumes "only_frees c0 c" and P: "\<And>c'. only_frees c0 c' \<Longrightarrow> P c'"
  shows "returns (run_other x c) P"
  using assms
  by (cases x) (auto intro!: data_delivered_frees data_dropped_frees send_steps_free wc_enqueue_frees wc_dispose_frees
      wc_unregister_frees unregister_all_frees step_frees)

lemma run_others_frees: "run_others xs c = Some c' \<Longrightarrow> only_frees c c'"
proof (induction xs arbitrary: c)
  case (Cons x xs)
  then obtain c1 where c1: "run_other x c = Some c1" "run_others xs c1 = Some c'" by (auto split: Option.bind_splits)
  show ?case
    using only_frees_trans [OF returnsD [OF run_other_frees [of c c "only_frees c" x] c1(1)] Cons.IH [OF c1(2)]]
    by simp
qed simp

end
