(* ===== verification/Container_Flaws.thy ===== *)
theory Container_Flaws
  imports Container_Obtain Container_Data
begin

text \<open>
  What goes wrong in the container: a writer that waits for space is never told that there is some, the list of
  unsent samples must not be empty when it is sent, and the copies made for a late reader keep the links of the
  samples they were copied from.
\<close>

section \<open>Waiting for space\<close>

lemma no_space_kept:
  assumes "only_frees c c'" "\<And>e. wc_heap c a = Some e \<Longrightarrow> \<not> el_space_available e" "wc_heap c' a = Some e"
  shows "\<not> el_space_available e"
proof -
  have "data_view (wc_heap c) a = data_view (wc_heap c') a" using assms(1,3) by (auto simp: only_frees_def dest!: spec [of _ a])
  then obtain e' where "wc_heap c a = Some e'" "el_space_available e' = el_space_available e"
    using data_viewE assms(3) by metis
  then show ?thesis using assms(2) by blast
qed

lemma only_frees_waiting [simp]: "only_frees (c\<lparr>wc_waiting_on_release := b\<rparr>) c' \<longleftrightarrow> only_frees c c'"
  by (simp add: only_frees_def)

text \<open>Whatever the other threads do, a wait that is over before the timeout does not succeed.\<close>

lemma wait_loop_no_space:
  assumes "wait_loop (\<lambda>c. space_available a (wc_heap c)) recheck t RETCODE_OK waited ws c = Some (RETCODE_OK, ws', c')"
    and "\<And>e. wc_heap c a = Some e \<Longrightarrow> \<not> el_space_available e" and "\<forall>w\<in>set ws. wk_now w < t"
  shows "wc_shutdown c'"
  using assms
proof (induction ws arbitrary: c waited)
  case (Cons w ws)
  show ?case
  proof (cases "wc_shutdown c")
    case True
    then show ?thesis using Cons.prems(1) by (auto split: if_splits)
  next
    case False
    then obtain c1 where c1: "run_others (wk_ops w) (c\<lparr>wc_waiting_on_release := True\<rparr>) = Some c1"
      using Cons.prems(1,3) by (auto split: Option.bind_splits)
    then have "only_frees c c1" using run_others_frees by fastforce
    then have no: "\<not> el_space_available e" if "wc_heap c1 a = Some e" for e
      using no_space_kept Cons.prems(2) that by blast
    have "wait_loop (\<lambda>c. space_available a (wc_heap c)) recheck t RETCODE_OK True ws c1 = Some (RETCODE_OK, ws', c')"
      using Cons.prems(1,3) False c1 no
      by (cases "wc_heap c1 a") (auto simp: space_available_def split: wait_result.splits if_splits)
    then show ?thesis using Cons.IH no Cons.prems(3) by simp
  qed
qed simp

lemma await_space_no_space:
  assumes "await_space t ws i a c = Some (RETCODE_OK, ok, c')"
    and "\<And>e. wc_heap c a = Some e \<Longrightarrow> \<not> el_space_available e" and "\<forall>w\<in>set ws. wk_now w < t"
  shows "wc_shutdown c'"
proof -
  obtain c1 ws' where c1: "enqueue_instance Waiting i a c = Some c1"
      "wait_loop (\<lambda>c. space_available a (wc_heap c)) True t RETCODE_OK False ws c1 = Some (RETCODE_OK, ws', c')"
    using assms(1) by (auto simp: await_space_def split: Option.bind_splits if_splits)
  have "only_frees c c1" using list_moves_free(4) [OF c1(1)] .
  then show ?thesis using wait_loop_no_space [OF c1(2) _ assms(3)] no_space_kept assms(2) by blast
qed

lemma finish_shutdown: "finish_obtain ret a c = Some (RETCODE_OK, el, c') \<Longrightarrow> ret = RETCODE_OK \<and> wc_shutdown c' = wc_shutdown c"
  by (auto simp: finish_obtain_def split: if_splits Option.bind_splits)

text \<open>How a blocking writer whose instance is full of samples that are being sent comes to wait.\<close>

lemma blocked_obtain:
  assumes ok: "container_ok c A" "registry_ok c" and i: "get_handle_instance handle c = Some i" and a: "wc_heap c a = None"
    and blocking: "wc_should_block c" "wc_max_num_samples c \<le> 0" and full: "int (length (ac_samples A i)) = wc_depth c"
    and oldest: "ac_samples A i = x # xs" "x \<in> set (ac_list A Sending)"
  obtains c1 p1 e where "container_ok c1 (a_room (wc_depth c) i A)" "wc_pool c1 i = Some p1"
    "fresh_element c1 (a_room (wc_depth c) i A) a e" "\<not> el_space_available e" "wc_shutdown c1 = wc_shutdown c"
    "obtain_buffer f native max_time now wakes (Some a) handle c
      = (do { (ret, ok, c) \<leftarrow> await_space (duration_to_absolute_time_value max_time (wc_max_blocking_time c) now) wakes i a c1;
         if \<not> ok then Some (RETCODE_ERROR, Some a, c) else finish_obtain ret a c })"
proof -
  let ?e = "mk_DataSampleElement native (wc_publication_id c) (Some i)"
  let ?c = "c\<lparr>wc_heap := (wc_heap c)(a \<mapsto> ?e)\<rparr>"
  have fresh: "fresh_element ?c A a (unlinked ?e)" using not_allocated [OF ok(1) a] by (simp add: fresh_element_def)
  obtain p where p: "wc_pool ?c i = Some p" using registryD(1) [OF ok(2) i] by auto
  have busy: "\<not> a_oldest_free (wc_depth c) i A" using oldest full by (simp add: a_oldest_free_def a_state_def)
  have depth: "0 < wc_depth ?c" "int (length (ac_samples A i)) \<le> wc_depth ?c" using full oldest(1) by simp_all
  obtain c1 where c1: "(if sl_size (pi_samples p) > wc_depth ?c then Some (RETCODE_ERROR, True, ?c)
        else if sl_size (pi_samples p) = wc_depth ?c then remove_oldest_sample i True ?c
        else Some (RETCODE_OK, True, ?c)) = Some (RETCODE_OK, False, c1)"
      "container_ok c1 (a_room (wc_depth c) i A)" "wc_stable c1 = wc_stable ?c"
      "fresh_element c1 (a_room (wc_depth c) i A) a (unlinked ?e)"
    using make_room [OF container_ok_alloc [OF ok(1) a] p fresh depth] busy by auto
  have cfg: "wc_max_num_samples c1 = wc_max_num_samples c" "wc_should_block c1 = wc_should_block c" "wc_shutdown c1 = wc_shutdown c"
    using c1(3) by (simp_all add: wc_stable_def)
  have limits: "limit_samples t wakes RETCODE_OK c1 = Some (RETCODE_OK, False, wakes, c1)" for t
    using cfg blocking(2) by (simp add: limit_samples_def)
  have "wc_pool c1 i \<noteq> None" using stable_pool [OF c1(3), of i] p by simp
  then obtain p1 where p1: "wc_pool c1 i = Some p1" by blast
  have "\<not> el_space_available (unlinked ?e)" by (simp add: unlinked_def mk_DataSampleElement_def)
  moreover have "obtain_buffer f native max_time now wakes (Some a) handle c
      = (do { (ret, ok, c) \<leftarrow> await_space (duration_to_absolute_time_value max_time (wc_max_blocking_time c) now) wakes i a c1;
         if \<not> ok then Some (RETCODE_ERROR, Some a, c) else finish_obtain ret a c })"
    using i p c1(1) limits cfg blocking(1) p1 by (simp add: obtain_buffer_def Let_def split del: if_split)
  ultimately show thesis by (intro that [OF c1(2) p1 c1(4) _ cfg(3)])
qed

text \<open>
  (C37) A blocking writer whose instance is full and whose oldest sample is still being sent waits until its
  timeout: whatever the other threads do meanwhile, also when all samples are delivered, it does not get an
  element unless the container is shut down or a wait goes past the timeout.
\<close>

theorem blocked_writer_not_woken:
  assumes ok: "container_ok c A" "registry_ok c" and i: "get_handle_instance handle c = Some i" and a: "wc_heap c a = None"
    and blocking: "wc_should_block c" "wc_max_num_samples c \<le> 0" and full: "int (length (ac_samples A i)) = wc_depth c"
    and oldest: "ac_samples A i = x # xs" "x \<in> set (ac_list A Sending)"
    and early: "\<forall>w\<in>set wakes. wk_now w < duration_to_absolute_time_value max_time (wc_max_blocking_time c) now"
    and result: "obtain_buffer f native max_time now wakes (Some a) handle c = Some (ret, el, c')"
  shows "ret \<noteq> RETCODE_OK \<or> wc_shutdown c'"
proof -
  obtain c1 p1 e where c1: "container_ok c1 (a_room (wc_depth c) i A)" "wc_pool c1 i = Some p1"
      "fresh_element c1 (a_room (wc_depth c) i A) a e" "\<not> el_space_available e" "wc_shutdown c1 = wc_shutdown c"
      "obtain_buffer f native max_time now wakes (Some a) handle c
        = (do { (ret, ok, c) \<leftarrow> await_space (duration_to_absolute_time_value max_time (wc_max_blocking_time c) now) wakes i a c1;
           if \<not> ok then Some (RETCODE_ERROR, Some a, c) else finish_obtain ret a c })"
    using blocked_obtain [OF ok i a blocking full oldest] .
  have no: "\<not> el_space_available e'" if "wc_heap c1 a = Some e'" for e'
    using c1(3,4) that by (auto simp: fresh_element_def data_view_def unlinked_def)
  show ?thesis
    using result c1(6) await_space_no_space [OF _ no early] finish_shutdown
    by (fastforce split: Option.bind_splits if_splits)
qed

section \<open>Waking up after the timeout\<close>

lemma hold_returns:
  assumes "represents c A" "wc_heap c a \<noteq> None" "unlisted A a" "a \<notin> set (ac_holder A)"
  obtains c' where "finish_obtain RETCODE_OK a c = Some (RETCODE_OK, Some a, c')" "wc_pool c' = wc_pool c"
proof -
  have "writer_rep (wc_heap c) (data_holder c) (ac_holder A)" "dlist_loose writer_view (wc_heap c) a"
    using representsD(2) [OF assms(1)] assms(2,3,4) by (auto simp: writer_part_def unlisted_def)
  then obtain h l where "writer_enqueue_tail a (wc_heap c, data_holder c) = Some (h, l)"
    using writer.enqueue_tail_rep assms(4) by blast
  then show thesis by (intro that [of "c\<lparr>wc_heap := h, data_holder := l\<rparr>"]) (simp_all add: finish_obtain_def)
qed

text \<open>A wait that ends without space, and the loop is left because the time is up.\<close>

lemma await_space_late:
  assumes ok: "container_ok c A" and p: "wc_pool c i \<noteq> None" and fresh: "fresh_element c A a e" and no: "\<not> el_space_available e"
    and open_c: "\<not> wc_shutdown c"
    and wakes: "wakes = [\<lparr>wk_now = t1, wk_ops = [], wk_result = Signaled\<rparr>, w]" "t1 < t" "\<not> wk_now w < t"
  obtains c' A' p' where "await_space t wakes i a c = Some (RETCODE_OK, True, c')" "represents c' A'" "wc_heap c' a \<noteq> None"
    "unlisted A' a" "a \<notin> set (ac_holder A')" "wc_pool c' i = Some p'" "sl_tail (pi_waiting_list p') = Some a"
proof -
  note f = fresh [unfolded fresh_element_def]
  let ?A = "A\<lparr>ac_queue := (ac_queue A)((i, Waiting) := ac_waiting A i @ [a])\<rparr>"
  obtain e0 where e0: "wc_heap c a = Some e0" using f view_eq_None(4) [of "wc_heap c" a] by fastforce
  obtain c1 where c1: "enqueue_instance Waiting i a c = Some c1" "instance_frame c1 = instance_frame c" "represents c1 ?A"
    using represents_enqueue_instance [OF container_okD(1) [OF ok] p e0, of Waiting] f by auto
  let ?c = "c1\<lparr>wc_waiting_on_release := True\<rparr>"
  have view: "data_view (wc_heap c1) a = Some e" using instance_frameD(3) [OF c1(2)] f by simp
  then obtain e1 where e1: "wc_heap c1 a = Some e1" "unlinked e1 = e" by (auto simp: data_view_def)
  then have "el_space_available e1 = el_space_available e" by (auto simp: unlinked_def)
  then have space: "space_available a (wc_heap ?c) = Some False" using e1(1) no by (simp add: space_available_def)
  have sh: "\<not> wc_shutdown c1" using instance_frameD(8) [OF c1(2)] open_c by (simp add: wc_other_def)
  have wait: "wait_loop (\<lambda>c. space_available a (wc_heap c)) True t RETCODE_OK False wakes c1 = Some (RETCODE_OK, [], ?c)"
    using wakes sh space by simp
  have "get_list k ?c = get_list k c1" for k by (cases k) simp_all
  then have rep: "represents ?c ?A" using c1(3) by (simp add: part_defs)
  obtain p' where p': "wc_pool ?c i = Some p'" using c1(1) by (auto simp: enqueue_instance_def split: Option.bind_splits)
  have "sl_tail (pi_waiting_list p') = Some a"
    using instance_partD(1) [OF representsD(3) [OF rep] p', of Waiting] by (simp add: instance_rep_def list_rep_def)
  then show thesis
    using that [OF _ rep _ _ _ p'] c1(1) wait e1(1) f by (simp add: await_space_def unlisted_def)
qed

text \<open>
  (C38) A blocking writer that is woken without space and finds its time over obtains the element all the same,
  although no sample was removed, and the element stays in the waiting list of its instance, whose link it
  shares with the list of samples the writer then puts it into.
\<close>

theorem late_writer_left_waiting:
  assumes ok: "container_ok c A" "registry_ok c" and i: "get_handle_instance handle c = Some i" and a: "wc_heap c a = None"
    and blocking: "wc_should_block c" "wc_max_num_samples c \<le> 0" "\<not> wc_shutdown c"
    and full: "int (length (ac_samples A i)) = wc_depth c" "ac_samples A i = x # xs" "x \<in> set (ac_list A Sending)"
    and wakes: "wakes = [\<lparr>wk_now = t1, wk_ops = [], wk_result = Signaled\<rparr>, w]"
      "t1 < duration_to_absolute_time_value max_time (wc_max_blocking_time c) now"
      "\<not> wk_now w < duration_to_absolute_time_value max_time (wc_max_blocking_time c) now"
  shows "\<exists>c' p. obtain_buffer f native max_time now wakes (Some a) handle c = Some (RETCODE_OK, Some a, c')
    \<and> wc_pool c' i = Some p \<and> sl_tail (pi_waiting_list p) = Some a"
proof -
  obtain c1 p1 e where c1: "container_ok c1 (a_room (wc_depth c) i A)" "wc_pool c1 i = Some p1"
      "fresh_element c1 (a_room (wc_depth c) i A) a e" "\<not> el_space_available e" "\<not> wc_shutdown c1"
      "obtain_buffer f native max_time now wakes (Some a) handle c
        = (do { (ret, ok, c) \<leftarrow> await_space (duration_to_absolute_time_value max_time (wc_max_blocking_time c) now) wakes i a c1;
           if \<not> ok then Some (RETCODE_ERROR, Some a, c) else finish_obtain ret a c })"
    by (rule blocked_obtain [OF ok i a blocking(1,2) full, of f native max_time now wakes]) (use blocking(3) in simp)
  obtain c2 A2 p2 where c2: "await_space (duration_to_absolute_time_value max_time (wc_max_blocking_time c) now) wakes i a c1
        = Some (RETCODE_OK, True, c2)" "represents c2 A2" "wc_heap c2 a \<noteq> None" "unlisted A2 a" "a \<notin> set (ac_holder A2)"
      "wc_pool c2 i = Some p2" "sl_tail (pi_waiting_list p2) = Some a"
    using await_space_late [OF c1(1) _ c1(3,4,5) wakes] c1(2) by blast
  obtain c3 where "finish_obtain RETCODE_OK a c2 = Some (RETCODE_OK, Some a, c3)" "wc_pool c3 = wc_pool c2"
    using hold_returns [OF c2(2,3,4,5)] .
  then show ?thesis using c1(6) c2(1,6,7) by simp
qed


section \<open>Resending\<close>

lemma copy_skips:
  assumes "dseg (send_view (wc_heap c)) p ys None" "\<And>y e. y \<in> set ys \<Longrightarrow> wc_heap c y = Some e \<Longrightarrow> omit e"
  shows "copy_and_append omit reader (hd_or None ys) mallocs c = Some (mallocs, c)"
  using assms
proof (induction ys arbitrary: p)
  case Nil
  then show ?case by (simp add: copy_and_append.simps)
next
  case (Cons y ys)
  from Cons.prems(1) obtain e where e: "wc_heap c y = Some e" "next_send_sample e = hd_or None ys"
    by (auto simp: send.element_of_view)
  have "copy_and_append omit reader (hd_or None ys) mallocs c = Some (mallocs, c)" using Cons by auto
  then show ?case using e Cons.prems(2) [of y e] by (simp add: copy_and_append.simps [of omit reader "Some y"])
qed

text \<open>The copy of one sample, the first in the list of resent samples.\<close>

lemma copy_first:
  assumes e: "wc_heap c x = Some e" "\<not> omit e" "copy_for_reader reader mem e = Some e'" and n: "n \<noteq> x"
    and empty: "sl_head (resend_data c) = None"
  shows "copy_and_append omit reader (Some x) ((Some n, mem) # mallocs) c
    = copy_and_append omit reader (next_send_sample e) mallocs
        (c\<lparr>wc_heap := (wc_heap c)(n \<mapsto> e'),
           resend_data := \<lparr>sl_head = Some n, sl_tail = Some n, sl_size = sl_size (resend_data c) + 1\<rparr>\<rparr>)"
  using assms
  by (cases "resend_data c")
    (simp add: copy_and_append.simps [of omit reader "Some x"] enqueue_send_def send_enqueue_tail_def Let_def)

lemma copy_for_reader_next: "copy_for_reader reader mem e = Some e' \<Longrightarrow> next_send_sample e' = next_send_sample e"
  by (auto simp: copy_for_reader_def copy_DataSampleElement_def set_sub_id_def set_num_subs_def split: Option.bind_splits if_splits)

text \<open>
  (C39) When the samples behind the first of the sent ones are not for a late reader, because they have expired
  or its filter rejects them, the list for the reader ends with an element whose link still leads to the
  second sent sample: the transport, which follows the links until they are null, goes on into the list of
  sent samples.
\<close>

theorem resend_runs_into_sent:
  assumes ok: "container_ok c A" and lists: "ac_list A Sending = []" "ac_list A Sent = x # y # ys" "ac_list A Resend = []"
    and e: "wc_heap c x = Some e" "\<not> skip_resend lifespan now flt e" "copy_for_reader reader mem e = Some e'"
    and rest: "\<And>z e. z \<in> set (y # ys) \<Longrightarrow> wc_heap c z = Some e \<Longrightarrow> skip_resend lifespan now flt e"
    and n: "wc_heap c n = None"
  shows "\<exists>c'. reenqueue_all reader lifespan now flt [(Some n, mem)] c = Some (RETCODE_OK, c')
    \<and> resend_data c' = \<lparr>sl_head = Some n, sl_tail = Some n, sl_size = 1\<rparr>
    \<and> get_next_send_sample n (wc_heap c') = Some (Some y)"
proof -
  note rep = send_partD(1) [OF representsD(1) [OF container_okD(1) [OF ok]]]
  have sending: "sl_size (sending_data c) = 0" using rep [of Sending] lists(1) by (simp add: dlist_rep_def list_rep_def)
  have sent: "sl_head (sent_data c) = Some x" "sl_size (sent_data c) > 0" "dseg (send_view (wc_heap c)) None (x # y # ys) None"
    using rep [of Sent] lists(2) by (simp_all add: dlist_rep_def list_rep_def)
  have resend: "sl_head (resend_data c) = None" "sl_size (resend_data c) = 0"
    using rep [of Resend] lists(3) by (simp_all add: dlist_rep_def list_rep_def)
  have alloc: "z \<noteq> n" if "z \<in> set (x # y # ys)" for z
    using represents_alloc(1) [OF container_okD(1) [OF ok], of z Sent] that lists(2) n by auto
  have nxt: "next_send_sample e = Some y" using sent(3) e(1) by (auto simp: send.element_of_view)
  let ?c = "c\<lparr>wc_heap := (wc_heap c)(n \<mapsto> e'), resend_data := \<lparr>sl_head = Some n, sl_tail = Some n, sl_size = 1\<rparr>\<rparr>"
  have "dseg (send_view (wc_heap ?c)) (Some x) (y # ys) None"
    using sent(3) alloc by (auto elim!: dseg_cong)
  moreover have "skip_resend lifespan now flt e2" if "z \<in> set (y # ys)" "wc_heap ?c z = Some e2" for z e2
    using rest [OF that(1)] that(2) alloc [of z] that(1) by auto
  ultimately have "copy_and_append (skip_resend lifespan now flt) reader (hd_or None (y # ys)) [] ?c = Some ([], ?c)"
    by (rule copy_skips)
  then have "copy_and_append (skip_resend lifespan now flt) reader (Some x) [(Some n, mem)] c = Some ([], ?c)"
    using copy_first [where omit = "skip_resend lifespan now flt", OF e, of n "[]"] alloc [of x] resend nxt by simp
  then show ?thesis
    using sending sent(1,2) copy_for_reader_next [OF e(3)] nxt
    by (intro exI [of _ ?c]) (simp add: reenqueue_all_def Let_def get_next_send_sample_def)
qed

end
