(* ===== verification/Container_Run.thy ===== *)
theory Container_Run
  imports Container_Instances
begin

text \<open>
  The container as a whole: every run of the operations of the writer and of the transport on it simulates a run
  of the abstract container.
\<close>

datatype container_op =
  Deliver nat nat | Drop nat | Take_unsent | Take_resend | Remove_oldest nat | Dispose int | Unregister int

text \<open>One operation of the container with its return code, for those that have one.\<close>

primrec container_step :: "container_op \<Rightarrow> WriteDataContainer \<Rightarrow> (ReturnCode_t \<times> WriteDataContainer) option" where
  "container_step (Deliver i a) c = map_option (Pair RETCODE_OK) (data_delivered a c)"
| "container_step (Drop a) c = map_option (Pair RETCODE_OK) (data_dropped a False c)"
| "container_step Take_unsent c = map_option (\<lambda>(_, c). (RETCODE_OK, c)) (get_unsent_data c)"
| "container_step Take_resend c = map_option (\<lambda>(_, c). (RETCODE_OK, c)) (get_resend_data c)"
| "container_step (Remove_oldest i) c = map_option (\<lambda>(ret, _, c). (ret, c)) (remove_oldest_sample i False c)"
| "container_step (Dispose handle) c = map_option (\<lambda>(ret, _, c). (ret, c)) (wc_dispose handle False c)"
| "container_step (Unregister handle) c = map_option (\<lambda>(ret, _, c). (ret, c)) (wc_unregister handle False c)"

fun container_run :: "container_op list \<Rightarrow> WriteDataContainer \<Rightarrow> (ReturnCode_t list \<times> WriteDataContainer) option" where
  "container_run [] c = Some ([], c)"
| "container_run (x # xs) c =
     do { (ret, c) \<leftarrow> container_step x c; (rets, c) \<leftarrow> container_run xs c; Some (ret # rets, c) }"

text \<open>
  The same on the abstract container, for the instances \<open>m\<close>; there is no result where an operation is not called:
  the transport reports only what it was given, an instance without samples has no oldest one, and unsent
  samples are asked for when there are some or nothing is being sent.
\<close>

primrec a_step :: "(int \<rightharpoonup> nat) \<Rightarrow> container_op \<Rightarrow> acontainer \<Rightarrow> acontainer option" where
  "a_step m (Deliver i a) A =
     (if a \<in> set (ac_samples A i) \<or> a \<in> set (ac_list A Released) then Some (a_delivered i a A) else None)"
| "a_step m (Drop a) A = Some (a_dropped a A)"
| "a_step m Take_unsent A = (if ac_list A Sending = [] \<or> ac_list A Unsent \<noteq> [] then Some (a_get_unsent A) else None)"
| "a_step m Take_resend A = Some (a_get_resend A)"
| "a_step m (Remove_oldest i) A = (case ac_samples A i of [] \<Rightarrow> None | a # _ \<Rightarrow> Some (a_remove i a A))"
| "a_step m (Dispose handle) A = map_option (\<lambda>i. a_dispose i A) (m handle)"
| "a_step m (Unregister handle) A = map_option (\<lambda>_. A) (m handle)"

fun a_run :: "(int \<rightharpoonup> nat) \<Rightarrow> container_op list \<Rightarrow> acontainer \<Rightarrow> acontainer option" where
  "a_run m [] A = Some A"
| "a_run m (x # xs) A = do { A \<leftarrow> a_step m x A; a_run m xs A }"

lemma delivered_instance:
  assumes ok: "container_ok c A" and a: "a \<in> set (ac_samples A i) \<or> a \<in> set (ac_list A Released)"
  obtains e where "wc_heap c a = Some e" "a_delivered (the (el_handle e)) a A = a_delivered i a A"
proof (cases "a \<in> set (ac_list A Released)")
  case True
  then have "wc_heap c a \<noteq> None" using represents_alloc(1) [OF container_okD(1) [OF ok]] by blast
  then show thesis using that True by (auto simp: a_delivered_def)
next
  case False
  then have i: "a \<in> set (ac_samples A i)" using a by blast
  then obtain e where "wc_heap c a = Some e" "el_handle e = Some i"
    using representsD(4) [OF container_okD(1) [OF ok]] unfolding data_part_def by blast
  then show thesis using that by simp
qed

lemma stable_registry_ok: "registry_ok c \<Longrightarrow> wc_stable c' = wc_stable c \<Longrightarrow> registry_ok c' \<and> wc_instances c' = wc_instances c"
  using registry_cong stable_registry by metis

lemma container_step_refines:
  assumes ok: "container_ok c A" "registry_ok c" and s: "a_step (map_of (wc_instances c)) x A = Some A'"
  shows "\<exists>c'. container_step x c = Some (RETCODE_OK, c') \<and> container_ok c' A' \<and> registry_ok c' \<and> wc_instances c' = wc_instances c"
proof (cases x)
  case (Deliver i a)
  then have a: "a \<in> set (ac_samples A i) \<or> a \<in> set (ac_list A Released)" "A' = a_delivered i a A"
    using s by (simp_all split: if_splits)
  obtain e where e: "wc_heap c a = Some e" "a_delivered (the (el_handle e)) a A = A'"
    using delivered_instance [OF ok(1) a(1)] a(2) by metis
  obtain c' where "data_delivered a c = Some c'" "container_ok c' A'" "wc_stable c' = wc_stable c"
    using data_delivered_refines [OF ok(1) e(1)] e(2) by auto
  then show ?thesis using stable_registry_ok [OF ok(2), of c'] Deliver by simp
next
  case (Drop a)
  obtain c' where "data_dropped a False c = Some c'" "container_ok c' (a_dropped a A)" "wc_stable c' = wc_stable c"
    using data_dropped_refines [OF ok(1)] by blast
  then show ?thesis using s stable_registry_ok [OF ok(2), of c'] Drop by simp
next
  case Take_unsent
  then have A': "ac_list A Sending = [] \<or> ac_list A Unsent \<noteq> []" "A' = a_get_unsent A" using s by (simp_all split: if_splits)
  obtain c' where "get_unsent_data c = Some (unsent_data c, c')" "container_ok c' (a_get_unsent A)" "wc_stable c' = wc_stable c"
    using get_unsent_data_refines [OF ok(1) A'(1)] by blast
  then show ?thesis using A'(2) stable_registry_ok [OF ok(2), of c'] Take_unsent by simp
next
  case Take_resend
  obtain c' where "get_resend_data c = Some (resend_data c, c')" "container_ok c' (a_get_resend A)" "wc_stable c' = wc_stable c"
    using get_resend_data_refines [OF ok(1)] by blast
  then show ?thesis using s stable_registry_ok [OF ok(2), of c'] Take_resend by simp
next
  case (Remove_oldest i)
  then obtain a as where a: "ac_samples A i = a # as" "A' = a_remove i a A" using s by (auto split: list.splits)
  obtain c' where "remove_oldest_sample i False c = Some (RETCODE_OK, a_state a A \<noteq> Sending, c')" "container_ok c' A'"
      "wc_stable c' = wc_stable c"
    using remove_oldest_sample_refines [OF ok(1) a(1)] a(2) by blast
  then show ?thesis using stable_registry_ok [OF ok(2), of c'] Remove_oldest by simp
next
  case (Dispose handle)
  then obtain i where "get_handle_instance handle c = Some i" "A' = a_dispose i A" using s by (auto simp: get_handle_instance_def)
  then show ?thesis using wc_dispose_refines [OF ok, of handle i False] Dispose by fastforce
next
  case (Unregister handle)
  then obtain i where "get_handle_instance handle c = Some i" "A' = A" using s by (auto simp: get_handle_instance_def)
  then show ?thesis using wc_unregister_ok [OF ok, of handle i False] Unregister by fastforce
qed

text \<open>
  (C3) Every run of deliveries, drops, fetches of samples to send, evictions, disposals and unregistrations that
  the abstract container allows runs to its end in the container, with every operation successful, and leaves
  it well formed and representing the abstract result: no sample is lost, in two lists, or freed while listed.
\<close>

theorem container_simulates:
  assumes "container_ok c A" "registry_ok c" "a_run (map_of (wc_instances c)) xs A = Some A'"
  shows "\<exists>c'. container_run xs c = Some (replicate (length xs) RETCODE_OK, c') \<and> container_ok c' A' \<and> registry_ok c'"
  using assms
proof (induction xs arbitrary: c A)
  case (Cons x xs)
  obtain B where B: "a_step (map_of (wc_instances c)) x A = Some B" "a_run (map_of (wc_instances c)) xs B = Some A'"
    using Cons.prems(3) by (auto split: Option.bind_splits)
  obtain c1 where c1: "container_step x c = Some (RETCODE_OK, c1)" "container_ok c1 B" "registry_ok c1" "wc_instances c1 = wc_instances c"
    using container_step_refines [OF Cons.prems(1,2) B(1)] by blast
  then show ?case using Cons.IH [OF c1(2,3)] B(2) by auto
qed simp

end
