(* ===== verification/Data_Writer.thy ===== *)
theory Data_Writer
  imports Write_Container Qos_Compat Qos_Helper
begin
unbundle bit_operations_syntax

text \<open>
  \<open>DataWriterImpl\<close> (\<open>src/dds/DCPS/DataWriterImpl.{h,cpp}\<close>) and \<open>MessageTracker\<close>: messages and their
  sequence numbers, registering, writing, disposing and unregistering, coherent changes and liveliness.

  What lies outside is the record \<open>writer_env\<close>: the publisher, the participant, the listeners, the filters and
  the transport. A call of the transport that can come back into the container before it returns is a function
  on the container. Calls that leave the writer are recorded in \<open>dw_calls\<close> in order. The payload of a message
  is its address. Times that are read from the clock are arguments. Locks, monitors,
  tracing and the release of message blocks are left out, and a fresh message block is filled with zeros.
\<close>

section \<open>Message tracking\<close>

record MessageTracker =
  mt_dropped_count :: int
  mt_delivered_count :: int
  mt_sent_count :: int

definition mk_MessageTracker :: MessageTracker where
  "mk_MessageTracker = \<lparr>mt_dropped_count = 0, mt_delivered_count = 0, mt_sent_count = 0\<rparr>"

definition pending_messages :: "MessageTracker \<Rightarrow> bool" where
  "pending_messages t \<longleftrightarrow> mt_sent_count t > mt_delivered_count t + mt_dropped_count t"

definition message_sent :: "MessageTracker \<Rightarrow> MessageTracker" where
  "message_sent t = t\<lparr>mt_sent_count := mt_sent_count t + 1\<rparr>"

text \<open>The first result tells whether the waiting threads are woken.\<close>

definition message_delivered :: "MessageTracker \<Rightarrow> bool \<times> MessageTracker" where
  "message_delivered t = (let t = t\<lparr>mt_delivered_count := mt_delivered_count t + 1\<rparr> in (\<not> pending_messages t, t))"

definition message_dropped :: "MessageTracker \<Rightarrow> bool \<times> MessageTracker" where
  "message_dropped t = (let t = t\<lparr>mt_dropped_count := mt_dropped_count t + 1\<rparr> in (\<not> pending_messages t, t))"

section \<open>State\<close>

definition OFFERED_DEADLINE_MISSED_STATUS :: ulong where "OFFERED_DEADLINE_MISSED_STATUS = push_bit 1 0x0001"
definition OFFERED_INCOMPATIBLE_QOS_STATUS :: ulong where "OFFERED_INCOMPATIBLE_QOS_STATUS = push_bit 5 0x0001"
definition LIVELINESS_LOST_STATUS :: ulong where "LIVELINESS_LOST_STATUS = push_bit 11 0x0001"
definition PUBLICATION_MATCHED_STATUS :: ulong where "PUBLICATION_MATCHED_STATUS = push_bit 13 0x0001"
definition DDS_SUBSCRIPTION_MATCHED_STATUS :: ulong where "DDS_SUBSCRIPTION_MATCHED_STATUS = push_bit 14 0x0001"

record ReaderInfo =
  ri_expression_params :: "string list"
  ri_filter :: string
  ri_eval :: "nat option"
  ri_expected_sequence :: sequence_number
  ri_durable :: bool

record PublicationMatchedStatus =
  pm_total_count :: int
  pm_total_count_change :: int
  pm_current_count :: int
  pm_current_count_change :: int
  pm_last_subscription_handle :: int

record OfferedIncompatibleQosStatus =
  oi_total_count :: int
  oi_total_count_change :: int
  oi_last_policy_id :: int
  oi_policies :: "QosPolicyCount list"

record LivelinessLostStatus =
  ll_total_count :: int
  ll_total_count_change :: int

datatype SendControlStatus = SEND_CONTROL_ERROR | SEND_CONTROL_OK

text \<open>A control message: its header block and payload.\<close>

type_synonym control_message = "mblock \<times> ptr"

datatype writer_call =
  Send_samples sample_list
| Send_control DataSampleHeader "control_message option" "GUID_t list"
| On_publication_matched PublicationMatchedStatus
| On_offered_incompatible_qos OfferedIncompatibleQosStatus
| On_liveliness_lost LivelinessLostStatus
| Notify_publication_lost "int list"
| Signal_status_condition
| Transport_associate GUID_t bool
| Transport_disassociate GUID_t
| Discovery_association_complete GUID_t
| Schedule_liveliness_timer ace_time ace_time
| Cancel_liveliness_timer
| Ack_broadcast
| Cancel_all_deadlines
| Control_done_broadcast

record writer_env =
  we_native :: bool
  we_swap_bytes :: bool
  we_cdr_encapsulation :: bool
  we_max_time :: ace_time
  we_truncate_long :: "int \<Rightarrow> int"
  we_guid_ops :: guid_ops
  we_publisher_id :: GUID_t
  we_publisher_qos :: PublisherQos
  we_suspended :: bool
  we_total_length :: "nat \<Rightarrow> nat"
  we_content_filter :: bool
  we_get_handle :: "GUID_t \<Rightarrow> int"
  we_has_listener :: "ulong \<Rightarrow> bool"
  we_filter_eval :: "string \<Rightarrow> nat"
  we_filter_out :: "nat \<Rightarrow> string list \<Rightarrow> DataSampleElement \<Rightarrow> bool"
  we_associate :: "GUID_t \<Rightarrow> bool"
  we_timers :: bool
  we_send :: "sample_list \<Rightarrow> WriteDataContainer \<Rightarrow> WriteDataContainer option"
  we_send_control :: "DataSampleHeader \<Rightarrow> SendControlStatus"
  we_remove_sample :: "nat \<Rightarrow> WriteDataContainer \<Rightarrow> WriteDataContainer option"
  we_remove_all_msgs :: "WriteDataContainer \<Rightarrow> WriteDataContainer option"
  we_publisher_enabled :: bool
  we_scale_liveliness :: "ace_time \<Rightarrow> ace_time"
  we_enable_transport :: bool
  we_add_publication :: GUID_t
  we_writer_enabled :: ReturnCode_t
  we_update_qos :: "DataWriterQos \<Rightarrow> bool"

record DataWriterImpl =
  dw_container :: WriteDataContainer
  dw_enabled :: bool
  dw_deleted :: bool
  dw_is_bit :: bool
  dw_qos :: DataWriterQos
  dw_publication_id :: GUID_t
  dw_sequence_number :: sequence_number
  dw_coherent :: bool
  dw_coherent_samples :: ulong
  dw_reader_info :: "(GUID_t \<times> ReaderInfo) list"
  dw_readers :: "GUID_t list"
  dw_pending_readers :: "GUID_t list"
  dw_assoc_complete_readers :: "GUID_t list"
  dw_id_to_handle :: "(GUID_t \<times> int) list"
  dw_id_to_sequence :: "(GUID_t \<times> sequence_number) list"
  dw_match_status :: PublicationMatchedStatus
  dw_deadline_status :: OfferedDeadlineMissedStatus
  dw_last_deadline_missed_total_count :: int
  dw_incompatible_status :: OfferedIncompatibleQosStatus
  dw_liveliness_lost_status :: LivelinessLostStatus
  dw_liveliness_lost :: bool
  dw_liveliness_check_interval :: ace_time
  dw_last_liveliness_activity_time :: ace_time
  dw_cancel_timer :: bool
  dw_available_data :: sample_list
  dw_data_delivered_count :: int
  dw_data_dropped_count :: int
  dw_control_tracker :: MessageTracker
  dw_status_changes :: ulong
  dw_calls :: "writer_call list"

text \<open>
  The constructor and \<open>init\<close>; \<open>c\<close> is the container until \<open>enable\<close> creates one. The watchdog, which the writer
  and its container share, is kept in the container, and as long as there is one it keeps the status of missed
  deadlines that it refers to.
\<close>

definition mk_DataWriterImpl :: "WriteDataContainer \<Rightarrow> DataWriterQos \<Rightarrow> bool \<Rightarrow> DataWriterImpl" where
  "mk_DataWriterImpl c qos is_bit =
     \<lparr>dw_container = c, dw_enabled = False, dw_deleted = False, dw_is_bit = is_bit, dw_qos = qos,
      dw_publication_id = GUID_UNKNOWN, dw_sequence_number = SEQUENCENUMBER_UNKNOWN, dw_coherent = False,
      dw_coherent_samples = 0, dw_reader_info = [], dw_readers = [], dw_pending_readers = [],
      dw_assoc_complete_readers = [], dw_id_to_handle = [], dw_id_to_sequence = [],
      dw_match_status = \<lparr>pm_total_count = 0, pm_total_count_change = 0, pm_current_count = 0,
        pm_current_count_change = 0, pm_last_subscription_handle = 0\<rparr>,
      dw_deadline_status = \<lparr>od_total_count = 0, od_total_count_change = 0, od_last_instance_handle = 0\<rparr>,
      dw_last_deadline_missed_total_count = 0,
      dw_incompatible_status = \<lparr>oi_total_count = 0, oi_total_count_change = 0, oi_last_policy_id = 0, oi_policies = []\<rparr>,
      dw_liveliness_lost_status = \<lparr>ll_total_count = 0, ll_total_count_change = 0\<rparr>, dw_liveliness_lost = False,
      dw_liveliness_check_interval = 0, dw_last_liveliness_activity_time = 0, dw_cancel_timer = False,
      dw_available_data = sample_list_reset, dw_data_delivered_count = 0, dw_data_dropped_count = 0,
      dw_control_tracker = mk_MessageTracker, dw_status_changes = 0, dw_calls = []\<rparr>"

definition dw_call :: "writer_call \<Rightarrow> DataWriterImpl \<Rightarrow> DataWriterImpl" where
  "dw_call x w = w\<lparr>dw_calls := dw_calls w @ [x]\<rparr>"

definition dw_set_status_changed_flag :: "ulong \<Rightarrow> bool \<Rightarrow> DataWriterImpl \<Rightarrow> DataWriterImpl" where
  "dw_set_status_changed_flag status flag w =
     (if flag then w\<lparr>dw_status_changes := dw_status_changes w OR status\<rparr>
      else w\<lparr>dw_status_changes := dw_status_changes w AND NOT status\<rparr>)"

section \<open>Messages\<close>

text \<open>A reader that does not expect the current sequence number makes the next message carry the repair flag.\<close>

definition need_sequence_repair :: "DataWriterImpl \<Rightarrow> bool" where
  "need_sequence_repair w \<longleftrightarrow> list_ex (\<lambda>(_, i). ri_expected_sequence i \<noteq> dw_sequence_number w) (dw_reader_info w)"

definition next_sequence_number :: "DataWriterImpl \<Rightarrow> DataWriterImpl" where
  "next_sequence_number w =
     w\<lparr>dw_sequence_number :=
        (if dw_sequence_number w = SEQUENCENUMBER_UNKNOWN then default_sn else sn_incr (dw_sequence_number w))\<rparr>"

text \<open>The readers that are not \<open>excluded\<close> now expect the current sequence number.\<close>

definition expect_sequence :: "GUID_t list \<Rightarrow> DataWriterImpl \<Rightarrow> DataWriterImpl" where
  "expect_sequence excluded w =
     w\<lparr>dw_reader_info := map (\<lambda>(g, i).
        (g, if g \<in> set excluded then i else i\<lparr>ri_expected_sequence := dw_sequence_number w\<rparr>)) (dw_reader_info w)\<rparr>"

definition message_byte_order :: "writer_env \<Rightarrow> bool" where
  "message_byte_order env = (if we_swap_bytes env then \<not> we_native env else we_native env)"

text \<open>The header block of a message, allocated at \<open>d\<close> and filled by the insertion operator.\<close>

definition header_block :: "writer_env \<Rightarrow> DataSampleHeader \<Rightarrow> nat \<Rightarrow> mblock option" where
  "header_block env h d =
     map_option (\<lambda>s. hd (se_done s @ se_current s))
       (put_header (we_guid_ops env) (we_native env) h [empty_block d max_marshaled_size])"

definition is_instance_message :: "MessageId \<Rightarrow> bool" where
  "is_instance_message m \<longleftrightarrow> m = INSTANCE_REGISTRATION \<or> m = DISPOSE_INSTANCE \<or> m = UNREGISTER_INSTANCE
     \<or> m = DISPOSE_UNREGISTER_INSTANCE"

definition control_header ::
    "writer_env \<Rightarrow> MessageId \<Rightarrow> ptr \<Rightarrow> Time_t \<Rightarrow> DataWriterImpl \<Rightarrow> DataSampleHeader \<times> DataWriterImpl" where
  "control_header env message_id data ts w =
     (let h = (mk_DataSampleHeader (we_native env))
            \<lparr>h_message_id := message_id_value message_id, h_byte_order := message_byte_order env, h_coherent_change := False\<rparr>;
          h = (case data of None \<Rightarrow> h | Some d \<Rightarrow> h\<lparr>h_message_length := of_nat (we_total_length env d)\<rparr>);
          h = h\<lparr>h_sequence := SEQUENCENUMBER_UNKNOWN, h_sequence_repair := False,
                h_source_timestamp_sec := word_of_int (time_sec ts), h_source_timestamp_nanosec := time_nanosec ts,
                h_publication_id := dw_publication_id w, h_publisher_id := we_publisher_id env\<rparr>
      in if is_instance_message message_id then
           let h = h\<lparr>h_sequence_repair := need_sequence_repair w\<rparr>;
               w = next_sequence_number w
           in (h\<lparr>h_sequence := dw_sequence_number w, h_key_fields_only := True\<rparr>, w)
         else (h, w))"

text \<open>\<open>msg\<close> is what the allocator of message blocks returns.\<close>

definition create_control_message ::
    "writer_env \<Rightarrow> MessageId \<Rightarrow> ptr \<Rightarrow> Time_t \<Rightarrow> ptr \<Rightarrow> DataWriterImpl \<Rightarrow>
     (DataSampleHeader \<times> control_message option \<times> DataWriterImpl) option" where
  "create_control_message env message_id data ts msg w =
     (let (h, w) = control_header env message_id data ts w in
      case msg of
        None \<Rightarrow> Some (h, None, w)
      | Some d \<Rightarrow> do {
          b \<leftarrow> header_block env h d;
          let w = (if h_sequence h \<noteq> SEQUENCENUMBER_UNKNOWN then expect_sequence [] w else w);
          Some (h, Some (b, if h_message_length h \<noteq> 0 then data else None), w)
        })"

definition sample_header ::
    "writer_env \<Rightarrow> nat \<Rightarrow> Time_t \<Rightarrow> bool \<Rightarrow> DataSampleHeader \<Rightarrow> DataWriterImpl \<Rightarrow> DataSampleHeader \<times> DataWriterImpl" where
  "sample_header env data ts content_filter h w =
     (let repair = need_sequence_repair w;
          w = next_sequence_number w;
          lifespan = ls_duration (wq_lifespan (dw_qos w));
          h = h\<lparr>h_message_id := message_id_value SAMPLE_DATA, h_byte_order := message_byte_order env,
                h_coherent_change := dw_coherent w,
                h_group_coherent := (pr_access_scope (pq_presentation (we_publisher_qos env)) = GROUP_PRESENTATION_QOS),
                h_content_filter := content_filter, h_cdr_encapsulation := we_cdr_encapsulation env,
                h_message_length := of_nat (we_total_length env data), h_sequence_repair := repair, h_sequence := dw_sequence_number w,
                h_source_timestamp_sec := word_of_int (time_sec ts), h_source_timestamp_nanosec := time_nanosec ts\<rparr>;
          h = (if sec lifespan \<noteq> DURATION_INFINITE_SEC \<or> nanosec lifespan \<noteq> DURATION_INFINITE_NSEC
               then h\<lparr>h_lifespan_duration := True, h_lifespan_duration_sec := word_of_int (sec lifespan),
                      h_lifespan_duration_nanosec := nanosec lifespan\<rparr>
               else h)
      in (h\<lparr>h_publication_id := dw_publication_id w, h_publisher_id := we_publisher_id env\<rparr>, w))"

text \<open>
  The result is the return code, the header and the message. When the instance is not found the message stays
  uninitialised: that is the inner \<^term>\<open>None\<close>.
\<close>

definition create_sample_data_message ::
    "writer_env \<Rightarrow> nat \<Rightarrow> int \<Rightarrow> Time_t \<Rightarrow> bool \<Rightarrow> ptr \<Rightarrow> DataSampleHeader \<Rightarrow> DataWriterImpl \<Rightarrow>
     (ReturnCode_t \<times> DataSampleHeader \<times> (nat \<times> mblock) option option \<times> DataWriterImpl) option" where
  "create_sample_data_message env data handle ts content_filter msg h w =
     (if get_handle_instance handle (dw_container w) = None then Some (RETCODE_ERROR, h, None, w)
      else
        let (h, w) = sample_header env data ts content_filter h w in
        case msg of
          None \<Rightarrow> Some (RETCODE_ERROR, h, Some None, w)
        | Some d \<Rightarrow> do {
            b \<leftarrow> header_block env h d;
            Some (RETCODE_OK, h, Some (Some (d, b)), w)
          })"

definition dw_send_control ::
    "writer_env \<Rightarrow> DataSampleHeader \<Rightarrow> control_message option \<Rightarrow> GUID_t list \<Rightarrow> DataWriterImpl \<Rightarrow>
     SendControlStatus \<times> DataWriterImpl" where
  "dw_send_control env h m customized w =
     (let w = dw_call (Send_control h m customized) w;
          status = we_send_control env h
      in (status, if status = SEND_CONTROL_OK then w\<lparr>dw_control_tracker := message_sent (dw_control_tracker w)\<rparr> else w))"

text \<open>A control message is created and sent; the result tells whether that worked.\<close>

definition send_control_message ::
    "writer_env \<Rightarrow> MessageId \<Rightarrow> ptr \<Rightarrow> Time_t \<Rightarrow> ptr \<Rightarrow> GUID_t list \<Rightarrow> DataWriterImpl \<Rightarrow>
     (SendControlStatus \<times> DataWriterImpl) option" where
  "send_control_message env message_id data ts msg customized w =
     do {
       (h, m, w) \<leftarrow> create_control_message env message_id data ts msg w;
       Some (dw_send_control env h m customized w)
     }"


section \<open>Instances\<close>

definition dw_register_instance_i ::
    "writer_env \<Rightarrow> int \<Rightarrow> ptr \<Rightarrow> Time_t \<Rightarrow> ptr \<Rightarrow> int \<Rightarrow> ptr \<Rightarrow> DataWriterImpl \<Rightarrow>
     (ReturnCode_t \<times> int \<times> DataWriterImpl) option" where
  "dw_register_instance_i env handle data ts fresh next_handle msg w =
     (if \<not> dw_enabled w then Some (RETCODE_NOT_ENABLED, handle, w)
      else do {
        (ret, handle, data, c) \<leftarrow> wc_register_instance handle data fresh next_handle (dw_container w);
        let w = w\<lparr>dw_container := c\<rparr>;
        if ret \<noteq> RETCODE_OK then Some (ret, handle, w)
        else do {
          (status, w) \<leftarrow> send_control_message env INSTANCE_REGISTRATION data ts msg [] w;
          Some (if status = SEND_CONTROL_ERROR then RETCODE_ERROR else ret, handle, w)
        }
      })"

definition dw_dispose :: "writer_env \<Rightarrow> int \<Rightarrow> Time_t \<Rightarrow> ptr \<Rightarrow> DataWriterImpl \<Rightarrow> (ReturnCode_t \<times> DataWriterImpl) option" where
  "dw_dispose env handle ts msg w =
     (if \<not> dw_enabled w then Some (RETCODE_NOT_ENABLED, w)
      else do {
        (ret, data, c) \<leftarrow> wc_dispose handle True (dw_container w);
        let w = w\<lparr>dw_container := c\<rparr>;
        if ret \<noteq> RETCODE_OK then Some (ret, w)
        else do {
          (status, w) \<leftarrow> send_control_message env DISPOSE_INSTANCE data ts msg [] w;
          Some (if status = SEND_CONTROL_ERROR then RETCODE_ERROR else ret, w)
        }
      })"

text \<open>\<open>msgs\<close> are the message blocks for the dispose message, when there is one, and for this one.\<close>

definition dw_unregister_instance_i ::
    "writer_env \<Rightarrow> int \<Rightarrow> Time_t \<Rightarrow> ptr \<times> ptr \<Rightarrow> DataWriterImpl \<Rightarrow> (ReturnCode_t \<times> DataWriterImpl) option" where
  "dw_unregister_instance_i env handle ts msgs w =
     (if \<not> dw_enabled w then Some (RETCODE_NOT_ENABLED, w)
      else do {
        w \<leftarrow> (if wl_autodispose_unregistered_instances (wq_writer_data_lifecycle (dw_qos w))
             then map_option snd (dw_dispose env handle ts (fst msgs) w) else Some w);
        (ret, data, c) \<leftarrow> wc_unregister handle True (dw_container w);
        let w = w\<lparr>dw_container := c\<rparr>;
        if ret \<noteq> RETCODE_OK then Some (ret, w)
        else do {
          (status, w) \<leftarrow> send_control_message env UNREGISTER_INSTANCE data ts (snd msgs) [] w;
          Some (if status = SEND_CONTROL_ERROR then RETCODE_ERROR else ret, w)
        }
      })"

text \<open>The loop over the instances; \<open>msgs\<close> gives the message blocks for each handle.\<close>

fun unregister_handles ::
    "writer_env \<Rightarrow> Time_t \<Rightarrow> (int \<Rightarrow> ptr \<times> ptr) \<Rightarrow> int list \<Rightarrow> DataWriterImpl \<Rightarrow> DataWriterImpl option" where
  "unregister_handles env ts msgs [] w = Some w"
| "unregister_handles env ts msgs (h # hs) w =
     do { (_, w) \<leftarrow> dw_unregister_instance_i env h ts (msgs h) w; unregister_handles env ts msgs hs w }"

definition unregister_instances ::
    "writer_env \<Rightarrow> Time_t \<Rightarrow> (int \<Rightarrow> ptr \<times> ptr) \<Rightarrow> DataWriterImpl \<Rightarrow> DataWriterImpl option" where
  "unregister_instances env ts msgs w = unregister_handles env ts msgs (map fst (wc_instances (dw_container w))) w"

definition dw_num_samples :: "int \<Rightarrow> DataWriterImpl \<Rightarrow> (ReturnCode_t \<times> int option) option" where
  "dw_num_samples handle w = wc_num_samples handle (dw_container w)"

definition dw_unregister_all :: "writer_env \<Rightarrow> DataWriterImpl \<Rightarrow> DataWriterImpl option" where
  "dw_unregister_all env w =
     do {
       let w = (if dw_cancel_timer w then (dw_call Cancel_liveliness_timer w)\<lparr>dw_cancel_timer := False\<rparr> else w);
       c \<leftarrow> unregister_all (we_remove_all_msgs env) (dw_container w);
       Some (w\<lparr>dw_container := c\<rparr>)
     }"

section \<open>Writing\<close>

text \<open>
  What a call of \<open>write\<close> meets: the element and the message block the allocators return, the times it reads,
  and what happens while it waits.
\<close>

record write_input =
  wi_element :: ptr
  wi_message :: ptr
  wi_obtain_time :: ace_time
  wi_enqueue_time :: ace_time
  wi_activity_time :: ace_time
  wi_wakes :: "wake list"
  wi_listener :: bool

text \<open>The samples go to the transport, or wait for the publisher to be resumed.\<close>

definition send_or_suspend :: "writer_env \<Rightarrow> sample_list \<Rightarrow> DataWriterImpl \<Rightarrow> DataWriterImpl option" where
  "send_or_suspend env list w =
     (if we_suspended env then do {
        (h, l) \<leftarrow> send_append list (wc_heap (dw_container w), dw_available_data w);
        Some (w\<lparr>dw_container := (dw_container w)\<lparr>wc_heap := h\<rparr>, dw_available_data := l\<rparr>)
      }
      else do {
        c \<leftarrow> we_send env list (dw_container w);
        Some (dw_call (Send_samples list) (w\<lparr>dw_container := c\<rparr>))
      })"

definition send_suspended_data :: "writer_env \<Rightarrow> DataWriterImpl \<Rightarrow> DataWriterImpl option" where
  "send_suspended_data env w =
     do {
       c \<leftarrow> we_send env (dw_available_data w) (dw_container w);
       Some ((dw_call (Send_samples (dw_available_data w)) (w\<lparr>dw_container := c\<rparr>))\<lparr>dw_available_data := sample_list_reset\<rparr>)
     }"

text \<open>The header of the element is filled in and its message is set.\<close>

definition set_message ::
    "nat \<Rightarrow> DataSampleHeader \<Rightarrow> (nat \<times> mblock) option \<Rightarrow> WriteDataContainer \<Rightarrow> WriteDataContainer option" where
  "set_message a h m c =
     do {
       heap \<leftarrow> update_element a (\<lambda>e. el_set_sample (map_option fst m) (e\<lparr>el_header := h\<rparr>)) (wc_heap c);
       Some (c\<lparr>wc_heap := heap, wc_blocks := (case m of None \<Rightarrow> wc_blocks c | Some (d, b) \<Rightarrow> (wc_blocks c)(d \<mapsto> b))\<rparr>)
     }"

definition dw_write ::
    "writer_env \<Rightarrow> write_input \<Rightarrow> nat \<Rightarrow> int \<Rightarrow> Time_t \<Rightarrow> GUID_t list option \<Rightarrow> DataWriterImpl \<Rightarrow>
     (ReturnCode_t \<times> DataWriterImpl) option" where
  "dw_write env inp data handle ts filter_out w =
     (if \<not> dw_enabled w then Some (RETCODE_NOT_ENABLED, w)
      else do {
        (ret, element, c) \<leftarrow> obtain_buffer (we_remove_sample env) (we_native env) (we_max_time env) (wi_obtain_time inp)
          (wi_wakes inp) (wi_element inp) handle (dw_container w);
        let w = w\<lparr>dw_container := c\<rparr>;
        if ret \<noteq> RETCODE_OK then Some (ret, w)
        else do {
          a \<leftarrow> element;
          h \<leftarrow> get_header a (wc_heap c);
          (ret, h, m, w) \<leftarrow> create_sample_data_message env data handle ts (filter_out \<noteq> None) (wi_message inp) h w;
          m \<leftarrow> m;
          c \<leftarrow> set_message a h m (dw_container w);
          if ret \<noteq> RETCODE_OK then Some (ret, w\<lparr>dw_container := c\<rparr>)
          else do {
            heap \<leftarrow> update_element a (set_filter_out filter_out) (wc_heap c);
            (ret, c) \<leftarrow> wc_enqueue a handle (wi_listener inp) (wi_enqueue_time inp) (c\<lparr>wc_heap := heap\<rparr>);
            if ret \<noteq> RETCODE_OK then Some (ret, w\<lparr>dw_container := c\<rparr>)
            else do {
              (list, c) \<leftarrow> get_unsent_data c;
              w \<leftarrow> send_or_suspend env list (w\<lparr>dw_container := c\<rparr>);
              let w = w\<lparr>dw_last_liveliness_activity_time := wi_activity_time inp\<rparr>;
              let w = expect_sequence (case filter_out of None \<Rightarrow> [] | Some gs \<Rightarrow> gs) w;
              Some (RETCODE_OK, if dw_coherent w then w\<lparr>dw_coherent_samples := dw_coherent_samples w + 1\<rparr> else w)
            }
          }
        }
      })"

section \<open>Notifications of the transport\<close>

definition dw_data_delivered :: "nat \<Rightarrow> DataWriterImpl \<Rightarrow> DataWriterImpl option" where
  "dw_data_delivered a w =
     do {
       e \<leftarrow> wc_heap (dw_container w) a;
       if el_publication_id e \<noteq> dw_publication_id w then Some w
       else do {
         c \<leftarrow> data_delivered a (dw_container w);
         Some (w\<lparr>dw_container := c, dw_data_delivered_count := dw_data_delivered_count w + 1\<rparr>)
       }
     }"

definition dw_data_dropped :: "nat \<Rightarrow> bool \<Rightarrow> DataWriterImpl \<Rightarrow> DataWriterImpl option" where
  "dw_data_dropped a dropped_by_transport w =
     do {
       c \<leftarrow> data_dropped a dropped_by_transport (dw_container w);
       Some (w\<lparr>dw_container := c, dw_data_dropped_count := dw_data_dropped_count w + 1\<rparr>)
     }"

definition control_done :: "bool \<times> MessageTracker \<Rightarrow> DataWriterImpl \<Rightarrow> DataWriterImpl" where
  "control_done = (\<lambda>(woken, t) w.
     (let w = w\<lparr>dw_control_tracker := t\<rparr> in if woken then dw_call Control_done_broadcast w else w))"

definition control_delivered :: "DataWriterImpl \<Rightarrow> DataWriterImpl" where
  "control_delivered w = control_done (message_delivered (dw_control_tracker w)) w"

definition control_dropped :: "DataWriterImpl \<Rightarrow> DataWriterImpl" where
  "control_dropped w = control_done (message_dropped (dw_control_tracker w)) w"

definition pending_control :: "DataWriterImpl \<Rightarrow> bool" where
  "pending_control w = pending_messages (dw_control_tracker w)"

section \<open>Coherent changes\<close>

definition coherent_changes_pending :: "DataWriterImpl \<Rightarrow> bool" where
  "coherent_changes_pending w = dw_coherent w"

definition begin_coherent_changes :: "DataWriterImpl \<Rightarrow> DataWriterImpl" where
  "begin_coherent_changes w = w\<lparr>dw_coherent := True\<rparr>"

definition end_message :: "writer_env \<Rightarrow> GroupCoherentSamples \<Rightarrow> DataWriterImpl \<Rightarrow> CoherentChangeControl" where
  "end_message env group_samples w =
     (let m = mk_CoherentChangeControl
            \<lparr>cc_coherent_samples := \<lparr>num_samples = dw_coherent_samples w, last_sample = dw_sequence_number w\<rparr>,
             cc_group_coherent := (pr_access_scope (pq_presentation (we_publisher_qos env)) = GROUP_PRESENTATION_QOS)\<rparr>
      in if cc_group_coherent m
         then m\<lparr>cc_publisher_id := we_publisher_id env, cc_group_coherent_samples := group_samples\<rparr> else m)"

text \<open>
  \<open>marshal\<close> puts the message into the block at \<open>data\<close>, when one could be allocated, and says whether there is
  one; \<open>end_coherent_changes\<close> returns at once when there is none.
\<close>

definition end_coherent_changes ::
    "writer_env \<Rightarrow> (CoherentChangeControl \<Rightarrow> ptr) \<Rightarrow> ace_time \<Rightarrow> GroupCoherentSamples \<Rightarrow> ptr \<Rightarrow> DataWriterImpl \<Rightarrow>
     DataWriterImpl option" where
  "end_coherent_changes env marshal now group_samples msg w =
     (case marshal (end_message env group_samples w) of
        None \<Rightarrow> Some w
      | Some data \<Rightarrow> do {
          (_, w) \<leftarrow> send_control_message env END_COHERENT_CHANGES (Some data)
            (time_value_to_time (we_truncate_long env) now) msg [] w;
          Some (w\<lparr>dw_coherent := False, dw_coherent_samples := 0\<rparr>)
        })"

section \<open>Liveliness\<close>

definition send_liveliness :: "writer_env \<Rightarrow> ace_time \<Rightarrow> ptr \<Rightarrow> DataWriterImpl \<Rightarrow> (bool \<times> DataWriterImpl) option" where
  "send_liveliness env now msg w =
     do {
       (status, w) \<leftarrow> send_control_message env DATAWRITER_LIVELINESS None
         (time_value_to_time (we_truncate_long env) now) msg [] w;
       Some (if status = SEND_CONTROL_ERROR then (False, w)
             else (True, w\<lparr>dw_last_liveliness_activity_time := now\<rparr>))
     }"

definition assert_liveliness :: "writer_env \<Rightarrow> ace_time \<Rightarrow> ptr \<Rightarrow> DataWriterImpl \<Rightarrow> (ReturnCode_t \<times> DataWriterImpl) option" where
  "assert_liveliness env now msg w =
     (if lv_kind (wq_liveliness (dw_qos w)) = AUTOMATIC_LIVELINESS_QOS then Some (RETCODE_OK, w)
      else if dw_last_liveliness_activity_time w = 0
           \<or> now - dw_last_liveliness_activity_time w \<ge> dw_liveliness_check_interval w
      then do {
        (ok, w) \<leftarrow> send_liveliness env now msg w;
        Some (if ok then RETCODE_OK else RETCODE_ERROR, w)
      }
      else Some (RETCODE_OK, w))"

definition assert_liveliness_by_participant ::
    "writer_env \<Rightarrow> ace_time \<Rightarrow> ptr \<Rightarrow> DataWriterImpl \<Rightarrow> (ReturnCode_t \<times> DataWriterImpl) option" where
  "assert_liveliness_by_participant env now msg w =
     (if lv_kind (wq_liveliness (dw_qos w)) \<noteq> MANUAL_BY_PARTICIPANT_LIVELINESS_QOS then Some (RETCODE_OK, w)
      else assert_liveliness env now msg w)"

text \<open>\<open>we_timers\<close> tells whether the reactor can cancel and schedule the timer.\<close>

definition liveliness_timeout_sent ::
    "writer_env \<Rightarrow> ace_time \<Rightarrow> ptr \<Rightarrow> DataWriterImpl \<Rightarrow> (bool option \<times> DataWriterImpl) option" where
  "liveliness_timeout_sent env tv msg w =
     (let elapsed = tv - dw_last_liveliness_activity_time w in
      if elapsed \<ge> dw_liveliness_check_interval w then
        if lv_kind (wq_liveliness (dw_qos w)) = AUTOMATIC_LIVELINESS_QOS
        then map_option (\<lambda>(ok, w). (Some (\<not> ok), w)) (send_liveliness env tv msg w)
        else Some (Some True, w)
      else if \<not> we_timers env then Some (None, w)
      else Some (Some False, dw_call (Schedule_liveliness_timer (dw_liveliness_check_interval w - elapsed)
             (dw_liveliness_check_interval w)) (dw_call Cancel_liveliness_timer w)))"

definition dw_handle_timeout :: "writer_env \<Rightarrow> ace_time \<Rightarrow> ptr \<Rightarrow> DataWriterImpl \<Rightarrow> (int \<times> DataWriterImpl) option" where
  "dw_handle_timeout env tv msg w =
     do {
       (lost, w) \<leftarrow> liveliness_timeout_sent env tv msg w;
       case lost of
         None \<Rightarrow> Some (-1, w)
       | Some lost \<Rightarrow>
           let w = (if \<not> dw_liveliness_lost w \<and> lost then
                      let s = dw_liveliness_lost_status w;
                          s = s\<lparr>ll_total_count := ll_total_count s + 1, ll_total_count_change := ll_total_count_change s + 1\<rparr>;
                          w = w\<lparr>dw_liveliness_lost_status := s\<rparr>
                      in if we_has_listener env LIVELINESS_LOST_STATUS then dw_call (On_liveliness_lost s) w else w
                    else w)
           in Some (0, w\<lparr>dw_liveliness_lost := lost\<rparr>)
     }"


section \<open>Enabling and configuration\<close>

text \<open>What \<open>enable\<close> derives from the QoS: the depth, whether a write may block, and the two limits.\<close>

definition resource_blocking :: "ResourceLimitsQosPolicy \<Rightarrow> int \<Rightarrow> bool" where
  "resource_blocking lim depth \<longleftrightarrow>
     lim_max_samples lim \<noteq> LENGTH_UNLIMITED
     \<and> (lim_max_instances lim = LENGTH_UNLIMITED
        \<or> lim_max_samples lim < lim_max_instances lim
        \<or> lim_max_samples lim < Long_mult (lim_max_instances lim) depth)"

definition writer_limits :: "DataWriterQos \<Rightarrow> int \<times> bool \<times> int \<times> int" where
  "writer_limits qos =
     (let reliable = (rl_kind (wq_reliability qos) = RELIABLE_RELIABILITY_QOS);
          lim = wq_resource_limits qos;
          depth = get_instance_sample_list_depth (hi_kind (wq_history qos)) (hi_depth (wq_history qos))
                    (lim_max_samples_per_instance lim)
      in (depth, reliable \<and> hi_kind (wq_history qos) = KEEP_ALL_HISTORY_QOS,
          if reliable \<and> lim_max_instances lim \<noteq> LENGTH_UNLIMITED then lim_max_instances lim else 0,
          if reliable \<and> resource_blocking lim depth then lim_max_samples lim else 0))"

definition is_infinite_duration :: "Duration_t \<Rightarrow> bool" where
  "is_infinite_duration d \<longleftrightarrow> sec d = DURATION_INFINITE_SEC \<and> nanosec d = DURATION_INFINITE_NSEC"

text \<open>A new watchdog takes over the status of the writer; the reactor's next timers are \<open>timers\<close>.\<close>

definition set_watchdog :: "writer_env \<Rightarrow> int list \<Rightarrow> Duration_t \<Rightarrow> DataWriterImpl \<Rightarrow> DataWriterImpl" where
  "set_watchdog env timers period w =
     w\<lparr>dw_container := (dw_container w)\<lparr>wc_watchdog :=
        Some \<lparr>od_interval = duration_to_time_value (we_max_time env) period, od_status = dw_deadline_status w,
              od_last_total_count = dw_last_deadline_missed_total_count w, od_timer_ids = timers, od_calls = []\<rparr>\<rparr>\<rparr>"

text \<open>
  \<open>enable\<close>, for a process with the given stores of elements, instances and blocks. The retrieval of durable
  samples from the cache is left out. The timer is scheduled when \<open>we_timers\<close>.
\<close>

definition dw_enable ::
    "writer_env \<Rightarrow> element_heap \<Rightarrow> (nat \<rightharpoonup> PublicationInstance) \<Rightarrow> (nat \<rightharpoonup> mblock) \<Rightarrow> int list \<Rightarrow> DataWriterImpl \<Rightarrow>
     ReturnCode_t \<times> DataWriterImpl" where
  "dw_enable env heap pool blocks timers w =
     (if dw_enabled w then (RETCODE_OK, w)
      else if \<not> we_publisher_enabled env then (RETCODE_PRECONDITION_NOT_MET, w)
      else
        let qos = dw_qos w;
            (depth, should_block, max_instances, max_total_samples) = writer_limits qos;
            w = w\<lparr>dw_container := mk_WriteDataContainer heap pool blocks GUID_UNKNOWN depth should_block
                   (rl_max_blocking_time (wq_reliability qos)) None max_instances max_total_samples\<rparr>;
            lease = lv_lease_duration (wq_liveliness qos);
            w = (if sec lease \<noteq> DURATION_INFINITE_SEC \<and> nanosec lease \<noteq> DURATION_INFINITE_NSEC then
                   let interval = we_scale_liveliness env (duration_to_time_value (we_max_time env) lease);
                       w = dw_call (Schedule_liveliness_timer interval interval) (w\<lparr>dw_liveliness_check_interval := interval\<rparr>)
                   in if we_timers env then w\<lparr>dw_cancel_timer := True\<rparr> else w
                 else w);
            w = (if \<not> is_infinite_duration (dl_period (wq_deadline qos))
                 then set_watchdog env timers (dl_period (wq_deadline qos)) w else w);
            w = w\<lparr>dw_enabled := True\<rparr>
        in if \<not> we_enable_transport env then (RETCODE_ERROR, w)
           else
             let w = w\<lparr>dw_publication_id := we_add_publication env\<rparr>
             in if dw_publication_id w = GUID_UNKNOWN then (RETCODE_ERROR, w)
                else (we_writer_enabled env,
                      w\<lparr>dw_container := (dw_container w)\<lparr>wc_publication_id := dw_publication_id w\<rparr>\<rparr>))"

definition dw_reschedule_deadline :: "DataWriterImpl \<Rightarrow> DataWriterImpl option" where
  "dw_reschedule_deadline w =
     (if wc_watchdog (dw_container w) = None then Some w
      else do {
        c \<leftarrow> wc_reschedule_deadline (dw_container w);
        Some (w\<lparr>dw_container := c\<rparr>)
      })"

text \<open>The watchdog after a change of the deadline; the interval of an existing one is reset.\<close>

definition change_deadline :: "writer_env \<Rightarrow> int list \<Rightarrow> Duration_t \<Rightarrow> Duration_t \<Rightarrow> DataWriterImpl \<Rightarrow> DataWriterImpl option" where
  "change_deadline env timers old new w =
     (if sec old = sec new \<and> nanosec old = nanosec new then Some w
      else if is_infinite_duration old then Some (set_watchdog env timers new w)
      else do {
        d \<leftarrow> wc_watchdog (dw_container w);
        if is_infinite_duration new
        then Some ((dw_call Cancel_all_deadlines w)\<lparr>dw_container := (dw_container w)\<lparr>wc_watchdog := None\<rparr>,
               dw_deadline_status := od_status d, dw_last_deadline_missed_total_count := od_last_total_count d\<rparr>)
        else
          let interval = duration_to_time_value (we_max_time env) new;
              w = w\<lparr>dw_container := (dw_container w)\<lparr>wc_watchdog := Some (watchdog_reset_interval interval d)\<rparr>\<rparr>
          in if od_interval d \<noteq> interval then dw_reschedule_deadline w else Some w
      })"

definition dw_set_qos ::
    "writer_env \<Rightarrow> int list \<Rightarrow> DataWriterQos \<Rightarrow> DataWriterImpl \<Rightarrow> (ReturnCode_t \<times> DataWriterImpl) option" where
  "dw_set_qos env timers qos w =
     (if \<not> (valid_DataWriterQos qos \<and> consistent_DataWriterQos qos) then Some (RETCODE_INCONSISTENT_POLICY, w)
      else if eq_DataWriterQos (dw_qos w) qos then Some (RETCODE_OK, w)
      else if \<not> changeable_DataWriterQos (dw_qos w) qos \<and> dw_enabled w then Some (RETCODE_IMMUTABLE_POLICY, w)
      else if \<not> we_update_qos env qos then Some (RETCODE_ERROR, w)
      else do {
        w \<leftarrow> change_deadline env timers (dl_period (wq_deadline (dw_qos w))) (dl_period (wq_deadline qos)) w;
        Some (RETCODE_OK, w\<lparr>dw_qos := qos\<rparr>)
      })"

end
