(* ===== verification/Writer_Association.thy ===== *)
theory Writer_Association
  imports Data_Writer
begin

text \<open>
  The readers of a writer (\<open>src/dds/DCPS/DataWriterImpl.cpp\<close>): their association, the resending of samples to a
  durable one, acknowledgements, and the statuses. A \<open>std::set\<close> of identifiers is the list of its elements in
  order. The listing of matched subscriptions and the built-in topics are left out.
\<close>

section \<open>Sets and maps of identifiers\<close>

text \<open>\<open>insert\<close> and \<open>remove\<close> of \<open>Util.h\<close>: the first result tells whether the set changed.\<close>

definition id_set_insert :: "GUID_t \<Rightarrow> GUID_t list \<Rightarrow> bool \<times> GUID_t list" where
  "id_set_insert g s = (if g \<in> set s then (False, s) else (True, insort g s))"

definition id_set_remove :: "GUID_t \<Rightarrow> GUID_t list \<Rightarrow> bool \<times> GUID_t list" where
  "id_set_remove g s = (if g \<in> set s then (True, remove1 g s) else (False, s))"

text \<open>\<open>operator[]\<close> of the map of acknowledged sequence numbers enters the default when there is no entry.\<close>

definition acked :: "GUID_t \<Rightarrow> DataWriterImpl \<Rightarrow> sequence_number \<times> DataWriterImpl" where
  "acked g w =
     (let w = w\<lparr>dw_id_to_sequence := map_insert g default_sn (dw_id_to_sequence w)\<rparr>
      in (the (map_of (dw_id_to_sequence w) g), w))"

section \<open>Matching\<close>

definition update_publication_match :: "(PublicationMatchedStatus \<Rightarrow> PublicationMatchedStatus) \<Rightarrow> DataWriterImpl \<Rightarrow> DataWriterImpl" where
  "update_publication_match f w = w\<lparr>dw_match_status := f (dw_match_status w)\<rparr>"

text \<open>The listener for a status \<open>kind\<close>, when there is one, is called with the match status and consumes its changes.\<close>

definition notify_publication_match :: "writer_env \<Rightarrow> ulong \<Rightarrow> DataWriterImpl \<Rightarrow> DataWriterImpl" where
  "notify_publication_match env kind w =
     (let w = (if we_has_listener env kind
               then update_publication_match (\<lambda>s. s\<lparr>pm_total_count_change := 0, pm_current_count_change := 0\<rparr>)
                      (dw_call (On_publication_matched (dw_match_status w)) w)
               else w)
      in dw_call Signal_status_condition w)"

text \<open>The match of a reader; the result tells whether the reader had no handle yet.\<close>

definition match_reader :: "writer_env \<Rightarrow> GUID_t \<Rightarrow> DataWriterImpl \<Rightarrow> bool \<times> DataWriterImpl" where
  "match_reader env remote_id w =
     (let handle = we_get_handle env remote_id;
          w = update_publication_match (\<lambda>s. s\<lparr>pm_total_count := pm_total_count s + 1,
                pm_total_count_change := pm_total_count_change s + 1, pm_current_count := pm_current_count s + 1,
                pm_current_count_change := pm_current_count_change s + 1\<rparr>) w
      in if map_of (dw_id_to_handle w) remote_id \<noteq> None then (False, w)
         else
           let w = w\<lparr>dw_id_to_handle := map_insert remote_id handle (dw_id_to_handle w)\<rparr>;
               w = update_publication_match (\<lambda>s. s\<lparr>pm_last_subscription_handle := handle\<rparr>) w;
               w = dw_set_status_changed_flag PUBLICATION_MATCHED_STATUS True w
           in (True, notify_publication_match env PUBLICATION_MATCHED_STATUS w))"

section \<open>Resending\<close>

definition send_end_historic_samples :: "writer_env \<Rightarrow> ace_time \<Rightarrow> ptr \<Rightarrow> DataWriterImpl \<Rightarrow> (ReturnCode_t \<times> DataWriterImpl) option" where
  "send_end_historic_samples env now msg w =
     do {
       (status, w) \<leftarrow> send_control_message env END_HISTORIC_SAMPLES None
         (time_value_to_time (we_truncate_long env) now) msg [] w;
       Some (if status = SEND_CONTROL_ERROR then RETCODE_ERROR else RETCODE_OK, w)
     }"

text \<open>The loop over the resent samples: they are historic, and the largest of their sequence numbers is expected.\<close>

fun mark_resent :: "nat list \<Rightarrow> sequence_number \<Rightarrow> element_heap \<Rightarrow> (sequence_number \<times> element_heap) option" where
  "mark_resent [] seq h = Some (seq, h)"
| "mark_resent (a # as) seq h =
     do {
       h \<leftarrow> update_element a (\<lambda>e. e\<lparr>el_header := (el_header e)\<lparr>h_historic_sample := True\<rparr>\<rparr>) h;
       hd \<leftarrow> get_header a h;
       mark_resent as (if h_sequence hd > seq then h_sequence hd else seq) h
     }"

text \<open>\<open>mallocs\<close> are the elements for the copies and \<open>now\<close> the time they are made.\<close>

definition resend_to ::
    "writer_env \<Rightarrow> GUID_t \<Rightarrow> (DataSampleElement \<Rightarrow> bool) option \<Rightarrow> (ptr \<times> GUID_t list) list \<Rightarrow> ace_time \<Rightarrow> ptr \<Rightarrow>
     DataWriterImpl \<Rightarrow> DataWriterImpl option" where
  "resend_to env remote_id flt mallocs now msg w =
     do {
       (_, c) \<leftarrow> reenqueue_all remote_id (ls_duration (wq_lifespan (dw_qos w))) now flt mallocs (dw_container w);
       (list, c) \<leftarrow> get_resend_data c;
       i \<leftarrow> map_of (dw_reader_info w) remote_id;
       as \<leftarrow> iter_elements (wc_heap c) (sl_head list);
       (seq, h) \<leftarrow> mark_resent as (ri_expected_sequence i) (wc_heap c);
       let w = w\<lparr>dw_container := c\<lparr>wc_heap := h\<rparr>,
                 dw_reader_info := map_update remote_id (i\<lparr>ri_expected_sequence := seq\<rparr>) (dw_reader_info w)\<rparr>;
       w \<leftarrow> send_or_suspend env list w;
       if du_kind (wq_durability (dw_qos w)) > VOLATILE_DURABILITY_QOS
       then map_option snd (send_end_historic_samples env now msg w) else Some w
     }"

section \<open>Association\<close>

definition reader_filter :: "writer_env \<Rightarrow> ReaderInfo \<Rightarrow> (DataSampleElement \<Rightarrow> bool) option" where
  "reader_filter env i = map_option (\<lambda>f. we_filter_out env f (ri_expression_params i)) (ri_eval i)"

definition association_complete_i ::
    "writer_env \<Rightarrow> GUID_t \<Rightarrow> (ptr \<times> GUID_t list) list \<Rightarrow> ace_time \<Rightarrow> ptr \<Rightarrow> DataWriterImpl \<Rightarrow> DataWriterImpl option" where
  "association_complete_i env remote_id mallocs now msg w =
     (let w = w\<lparr>dw_readers := snd (id_set_insert remote_id (dw_readers w))\<rparr>;
          info = map_of (dw_reader_info w) remote_id;
          durable = (case info of None \<Rightarrow> False | Some i \<Rightarrow> ri_durable i);
          flt = (case info of None \<Rightarrow> None | Some i \<Rightarrow> reader_filter env i);
          (go_on, w) = (if dw_is_bit w then (True, w) else match_reader env remote_id w)
      in if go_on \<and> durable then resend_to env remote_id flt mallocs now msg w else Some w)"

definition association_complete ::
    "writer_env \<Rightarrow> GUID_t \<Rightarrow> (ptr \<times> GUID_t list) list \<Rightarrow> ace_time \<Rightarrow> ptr \<Rightarrow> DataWriterImpl \<Rightarrow> DataWriterImpl option" where
  "association_complete env remote_id mallocs now msg w =
     (let (pending, rs) = id_set_remove remote_id (dw_pending_readers w); w = w\<lparr>dw_pending_readers := rs\<rparr>
      in if \<not> pending
         then Some (w\<lparr>dw_assoc_complete_readers := snd (id_set_insert remote_id (dw_assoc_complete_readers w))\<rparr>)
         else association_complete_i env remote_id mallocs now msg w)"

record ReaderAssociation =
  ra_reader_id :: GUID_t
  ra_reader_qos :: DataReaderQos
  ra_filter_expression :: string
  ra_expr_params :: "string list"

definition mk_ReaderInfo :: "writer_env \<Rightarrow> ReaderAssociation \<Rightarrow> ReaderInfo" where
  "mk_ReaderInfo env r =
     (let flt = (if we_content_filter env then ra_filter_expression r else [])
      in \<lparr>ri_expression_params = ra_expr_params r, ri_filter = flt,
          ri_eval = (if flt = [] then None else Some (we_filter_eval env flt)),
          ri_expected_sequence = SEQUENCENUMBER_UNKNOWN,
          ri_durable = (du_kind (rq_durability (ra_reader_qos r)) > VOLATILE_DURABILITY_QOS)\<rparr>)"

definition dw_add_association ::
    "writer_env \<Rightarrow> GUID_t \<Rightarrow> ReaderAssociation \<Rightarrow> bool \<Rightarrow> (ptr \<times> GUID_t list) list \<Rightarrow> ace_time \<Rightarrow> ptr \<Rightarrow> DataWriterImpl \<Rightarrow>
     DataWriterImpl option" where
  "dw_add_association env your_id reader active mallocs now msg w =
     (if dw_deleted w then Some w
      else
        let rid = ra_reader_id reader;
            w = (if dw_publication_id w = GUID_UNKNOWN then w\<lparr>dw_publication_id := your_id\<rparr> else w);
            w = w\<lparr>dw_reader_info := map_insert rid (mk_ReaderInfo env reader) (dw_reader_info w)\<rparr>;
            w = dw_call (Transport_associate rid active) w
        in if \<not> we_associate env rid then Some w
           else if active then
             if rid \<in> set (dw_assoc_complete_readers w)
             then association_complete_i env rid mallocs now msg
                    (w\<lparr>dw_assoc_complete_readers := remove1 rid (dw_assoc_complete_readers w)\<rparr>)
             else Some (w\<lparr>dw_pending_readers := snd (id_set_insert rid (dw_pending_readers w))\<rparr>)
           else Some (dw_call (Discovery_association_complete rid) w))"

text \<open>
  The loop of \<open>remove_associations\<close>: the readers that were fully associated, and all that were known to the
  transport.
\<close>

fun remove_readers_loop :: "GUID_t list \<Rightarrow> DataWriterImpl \<Rightarrow> GUID_t list \<times> GUID_t list \<times> DataWriterImpl" where
  "remove_readers_loop [] w = ([], [], w)"
| "remove_readers_loop (g # gs) w =
     (let (full, rs) = id_set_remove g (dw_readers w);
          (pend, ps) = (if full then (False, dw_pending_readers w) else id_set_remove g (dw_pending_readers w));
          w = w\<lparr>dw_readers := rs, dw_pending_readers := ps\<rparr>;
          w = (if full \<and> map_of (dw_id_to_sequence w) g \<noteq> None
               then dw_call Ack_broadcast (w\<lparr>dw_id_to_sequence := map_erase g (dw_id_to_sequence w)\<rparr>) else w);
          w = w\<lparr>dw_reader_info := map_erase g (dw_reader_info w)\<rparr>;
          (fs, rds, w) = remove_readers_loop gs w
      in (if full then g # fs else fs, if full \<or> pend then g # rds else rds, w))"

text \<open>
  The match status after the removal: the handle of the last removed reader is looked up in the sequence
  \<open>handles\<close>, and the listener asked for is the one for the status of matched subscriptions.
\<close>

definition unmatch_readers :: "writer_env \<Rightarrow> int list \<Rightarrow> DataWriterImpl \<Rightarrow> DataWriterImpl option" where
  "unmatch_readers env handles w =
     (let matched = int (length (dw_id_to_handle w));
          w = update_publication_match (\<lambda>s. s\<lparr>pm_current_count_change := matched - pm_current_count s\<rparr>) w
      in if pm_current_count_change (dw_match_status w) = 0 then Some w
         else if handles = [] then None
         else
           let w = update_publication_match (\<lambda>s. s\<lparr>pm_current_count := matched, pm_last_subscription_handle := last handles\<rparr>) w;
               w = dw_set_status_changed_flag PUBLICATION_MATCHED_STATUS True w
           in Some (notify_publication_match env DDS_SUBSCRIPTION_MATCHED_STATUS w))"

definition dw_remove_associations :: "writer_env \<Rightarrow> GUID_t list \<Rightarrow> bool \<Rightarrow> DataWriterImpl \<Rightarrow> DataWriterImpl option" where
  "dw_remove_associations env readers notify_lost w =
     (if readers = [] then Some w
      else
        let (fully, rds, w) = remove_readers_loop readers w;
            handles = (if fully \<noteq> [] \<and> \<not> dw_is_bit w then map (we_get_handle env) fully else []);
            w = (if fully \<noteq> [] \<and> \<not> dw_is_bit w
                 then w\<lparr>dw_id_to_handle := fold map_erase fully (dw_id_to_handle w)\<rparr> else w)
        in do {
             w \<leftarrow> (if dw_is_bit w then Some w else unmatch_readers env handles w);
             let w = fold (\<lambda>g. dw_call (Transport_disassociate g)) rds w;
             Some (if notify_lost \<and> handles \<noteq> [] then dw_call (Notify_publication_lost handles) w else w)
           })"

definition dw_remove_all_associations :: "writer_env \<Rightarrow> DataWriterImpl \<Rightarrow> DataWriterImpl option" where
  "dw_remove_all_associations env w = dw_remove_associations env (dw_readers w @ dw_pending_readers w) False w"

definition update_subscription_params :: "GUID_t \<Rightarrow> string list \<Rightarrow> DataWriterImpl \<Rightarrow> DataWriterImpl" where
  "update_subscription_params g params w =
     (case map_of (dw_reader_info w) g of
        None \<Rightarrow> w
      | Some i \<Rightarrow> w\<lparr>dw_reader_info := map_update g (i\<lparr>ri_expression_params := params\<rparr>) (dw_reader_info w)\<rparr>)"

section \<open>Acknowledgements\<close>

record AckToken =
  at_tstamp :: ace_time
  at_max_wait :: Duration_t
  at_sequence :: sequence_number
  at_custom :: "(GUID_t \<times> sequence_number) list"

definition dw_should_ack :: "DataWriterImpl \<Rightarrow> bool" where
  "dw_should_ack w \<longleftrightarrow> dw_readers w \<noteq> []"

definition create_ack_token :: "Duration_t \<Rightarrow> ace_time \<Rightarrow> DataWriterImpl \<Rightarrow> AckToken" where
  "create_ack_token max_wait now w =
     \<lparr>at_tstamp = now, at_max_wait = max_wait, at_sequence = dw_sequence_number w, at_custom = []\<rparr>"

definition at_expected :: "AckToken \<Rightarrow> GUID_t \<Rightarrow> sequence_number" where
  "at_expected t g = (case map_of (at_custom t) g of None \<Rightarrow> at_sequence t | Some s \<Rightarrow> s)"

text \<open>The readers that expect another sequence number than the current one get one of their own.\<close>

definition customized_readers :: "AckToken \<Rightarrow> DataWriterImpl \<Rightarrow> (GUID_t \<times> sequence_number) list" where
  "customized_readers t w =
     map (\<lambda>(g, i). (g, ri_expected_sequence i))
       (filter (\<lambda>(_, i). ri_expected_sequence i \<noteq> at_sequence t) (dw_reader_info w))"

text \<open>\<open>marshal\<close> puts the token into a block and gives its address, or nothing when that fails.\<close>

definition send_ack_requests ::
    "writer_env \<Rightarrow> (AckToken \<Rightarrow> ptr) \<Rightarrow> ptr \<Rightarrow> AckToken \<Rightarrow> DataWriterImpl \<Rightarrow>
     (ReturnCode_t \<times> AckToken \<times> DataWriterImpl) option" where
  "send_ack_requests env marshal msg t w =
     (let cs = customized_readers t w;
          t = t\<lparr>at_custom := fold (\<lambda>(g, s) m. map_update g s (map_insert g s m)) cs (at_custom t)\<rparr>
      in case marshal t of
           None \<Rightarrow> Some (RETCODE_OUT_OF_RESOURCES, t, w)
         | Some data \<Rightarrow> do {
             (status, w) \<leftarrow> send_control_message env REQUEST_ACK (Some data)
               (time_value_to_time (we_truncate_long env) (at_tstamp t)) msg (map fst cs) w;
             Some (if status = SEND_CONTROL_ERROR then RETCODE_ERROR else RETCODE_OK, t, w)
           })"

definition deliver_ack :: "GUID_t \<Rightarrow> sequence_number \<Rightarrow> DataWriterImpl \<Rightarrow> DataWriterImpl" where
  "deliver_ack g ack w =
     (let (s, w) = acked g w
      in if s < ack then dw_call Ack_broadcast (w\<lparr>dw_id_to_sequence := map_update g ack (dw_id_to_sequence w)\<rparr>) else w)"

text \<open>The check of all readers stops at the first one that has not acknowledged what is expected of it.\<close>

fun all_acked :: "AckToken \<Rightarrow> GUID_t list \<Rightarrow> DataWriterImpl \<Rightarrow> bool \<times> DataWriterImpl" where
  "all_acked t [] w = (True, w)"
| "all_acked t (g # gs) w =
     (let (s, w) = acked g w in if s < at_expected t g then (False, w) else all_acked t gs w)"

text \<open>
  What happens during one wait of \<open>wait_for_ack_responses\<close>: acknowledgements that arrive, readers that are
  removed, and whether the wait timed out.
\<close>

datatype ack_event = Ack_arrives GUID_t sequence_number | Reader_removed GUID_t

primrec ack_event_step :: "writer_env \<Rightarrow> ack_event \<Rightarrow> DataWriterImpl \<Rightarrow> DataWriterImpl option" where
  "ack_event_step env (Ack_arrives g s) w = Some (deliver_ack g s w)"
| "ack_event_step env (Reader_removed g) w = dw_remove_associations env [g] False w"

fun ack_events :: "writer_env \<Rightarrow> ack_event list \<Rightarrow> DataWriterImpl \<Rightarrow> DataWriterImpl option" where
  "ack_events env [] w = Some w"
| "ack_events env (x # xs) w = do { w \<leftarrow> ack_event_step env x w; ack_events env xs w }"

fun wait_for_ack_responses ::
    "writer_env \<Rightarrow> (ack_event list \<times> bool) list \<Rightarrow> AckToken \<Rightarrow> DataWriterImpl \<Rightarrow> (ReturnCode_t \<times> DataWriterImpl) option" where
  "wait_for_ack_responses env waits t w =
     (let (done, w) = all_acked t (dw_readers w) w in
      if done then Some (RETCODE_OK, w)
      else (case waits of
        [] \<Rightarrow> None
      | (xs, timed_out) # ws \<Rightarrow> do {
          w \<leftarrow> ack_events env xs w;
          if timed_out then Some (RETCODE_TIMEOUT, w) else wait_for_ack_responses env ws t w
        }))"

definition wait_for_acknowledgments ::
    "writer_env \<Rightarrow> (AckToken \<Rightarrow> ptr) \<Rightarrow> ptr \<Rightarrow> ace_time \<Rightarrow> (ack_event list \<times> bool) list \<Rightarrow> Duration_t \<Rightarrow> DataWriterImpl \<Rightarrow>
     (ReturnCode_t \<times> DataWriterImpl) option" where
  "wait_for_acknowledgments env marshal msg now waits max_wait w =
     (if \<not> dw_should_ack w then Some (RETCODE_OK, w)
      else do {
        (error, t, w) \<leftarrow> send_ack_requests env marshal msg (create_ack_token max_wait now w) w;
        if error \<noteq> RETCODE_OK then Some (error, w) else wait_for_ack_responses env waits t w
      })"

section \<open>Statuses\<close>

definition update_incompatible_qos :: "writer_env \<Rightarrow> IncompatibleQosStatus \<Rightarrow> DataWriterImpl \<Rightarrow> DataWriterImpl" where
  "update_incompatible_qos env status w =
     (let w = dw_set_status_changed_flag OFFERED_INCOMPATIBLE_QOS_STATUS True w;
          s = \<lparr>oi_total_count = total_count status,
               oi_total_count_change = oi_total_count_change (dw_incompatible_status w) + count_since_last_send status,
               oi_last_policy_id = last_policy_id status, oi_policies = policies status\<rparr>;
          w = w\<lparr>dw_incompatible_status := s\<rparr>;
          w = (if we_has_listener env OFFERED_INCOMPATIBLE_QOS_STATUS
               then (dw_call (On_offered_incompatible_qos s) w)\<lparr>dw_incompatible_status := s\<lparr>oi_total_count_change := 0\<rparr>\<rparr>
               else w)
      in dw_call Signal_status_condition w)"

definition get_liveliness_lost_status :: "DataWriterImpl \<Rightarrow> LivelinessLostStatus \<times> DataWriterImpl" where
  "get_liveliness_lost_status w =
     (let w = dw_set_status_changed_flag LIVELINESS_LOST_STATUS False w
      in (dw_liveliness_lost_status w, w\<lparr>dw_liveliness_lost_status := (dw_liveliness_lost_status w)\<lparr>ll_total_count_change := 0\<rparr>\<rparr>))"

definition get_offered_incompatible_qos_status :: "DataWriterImpl \<Rightarrow> OfferedIncompatibleQosStatus \<times> DataWriterImpl" where
  "get_offered_incompatible_qos_status w =
     (let w = dw_set_status_changed_flag OFFERED_INCOMPATIBLE_QOS_STATUS False w
      in (dw_incompatible_status w, w\<lparr>dw_incompatible_status := (dw_incompatible_status w)\<lparr>oi_total_count_change := 0\<rparr>\<rparr>))"

definition get_publication_matched_status :: "DataWriterImpl \<Rightarrow> PublicationMatchedStatus \<times> DataWriterImpl" where
  "get_publication_matched_status w =
     (let w = dw_set_status_changed_flag PUBLICATION_MATCHED_STATUS False w
      in (dw_match_status w, update_publication_match (\<lambda>s. s\<lparr>pm_total_count_change := 0, pm_current_count_change := 0\<rparr>) w))"

text \<open>The status of missed deadlines is a member of the writer, which the watchdog keeps as long as there is one.\<close>

definition get_offered_deadline_missed_status :: "DataWriterImpl \<Rightarrow> OfferedDeadlineMissedStatus \<times> DataWriterImpl" where
  "get_offered_deadline_missed_status w =
     (let w = dw_set_status_changed_flag OFFERED_DEADLINE_MISSED_STATUS False w in
      case wc_watchdog (dw_container w) of
        None \<Rightarrow>
          let s = (dw_deadline_status w)\<lparr>od_total_count_change :=
                od_total_count (dw_deadline_status w) - dw_last_deadline_missed_total_count w\<rparr>
          in (s, w\<lparr>dw_deadline_status := s\<lparr>od_total_count_change := 0\<rparr>, dw_last_deadline_missed_total_count := od_total_count s\<rparr>)
      | Some d \<Rightarrow>
          let s = (od_status d)\<lparr>od_total_count_change := od_total_count (od_status d) - od_last_total_count d\<rparr>
          in (s, w\<lparr>dw_container := (dw_container w)\<lparr>wc_watchdog :=
                Some (d\<lparr>od_status := s\<lparr>od_total_count_change := 0\<rparr>, od_last_total_count := od_total_count s\<rparr>)\<rparr>\<rparr>))"

end
