(* ===== verification/Writer_Matching.thy ===== *)
theory Writer_Matching
  imports Writer_Association
begin

text \<open>
  The readers of a writer: the books of associated and pending readers and the match status stay consistent along
  every run of association operations, whom the changes of the status are told, and what waiting for
  acknowledgements guarantees.
\<close>

section \<open>The books of readers\<close>

text \<open>
  For a writer that is not one of a built-in topic: no reader is listed twice, none is pending and associated, the
  associated readers are those with a handle, and the status counts them.
\<close>

definition reader_books :: "DataWriterImpl \<Rightarrow> bool" where
  "reader_books w \<longleftrightarrow>
     \<not> dw_is_bit w \<and> distinct (dw_readers w) \<and> distinct (dw_pending_readers w)
     \<and> set (dw_readers w) \<inter> set (dw_pending_readers w) = {}
     \<and> distinct (map fst (dw_id_to_handle w)) \<and> set (map fst (dw_id_to_handle w)) = set (dw_readers w)
     \<and> pm_current_count (dw_match_status w) = int (length (dw_readers w))"

definition reader_view :: "DataWriterImpl \<Rightarrow> bool \<times> GUID_t list \<times> GUID_t list \<times> (GUID_t \<times> int) list \<times> int" where
  "reader_view w = (dw_is_bit w, dw_readers w, dw_pending_readers w, dw_id_to_handle w, pm_current_count (dw_match_status w))"

lemma reader_books_cong: "reader_view w' = reader_view w \<Longrightarrow> reader_books w' = reader_books w"
  by (simp add: reader_books_def reader_view_def)

lemma reader_view_simps [simp]:
  "reader_view (dw_call x w) = reader_view w" "reader_view (w\<lparr>dw_container := c\<rparr>) = reader_view w"
  "reader_view (w\<lparr>dw_reader_info := ri\<rparr>) = reader_view w" "reader_view (w\<lparr>dw_control_tracker := t\<rparr>) = reader_view w"
  "reader_view (w\<lparr>dw_publication_id := g\<rparr>) = reader_view w" "reader_view (w\<lparr>dw_available_data := l\<rparr>) = reader_view w"
  "reader_view (w\<lparr>dw_assoc_complete_readers := gs\<rparr>) = reader_view w" "reader_view (dw_set_status_changed_flag s b w) = reader_view w"
  "reader_view (w\<lparr>dw_id_to_sequence := m\<rparr>) = reader_view w"
  "reader_view (next_sequence_number w) = reader_view w" "reader_view (expect_sequence gs w) = reader_view w"
  "reader_view (notify_publication_match env k w) = reader_view w"
  by (simp_all add: reader_view_def dw_call_def dw_set_status_changed_flag_def next_sequence_number_def expect_sequence_def
      notify_publication_match_def update_publication_match_def Let_def)

lemma length_handles:
  assumes "reader_books w"
  shows "length (dw_id_to_handle w) = length (dw_readers w)"
proof -
  have "length (dw_id_to_handle w) = card (set (map fst (dw_id_to_handle w)))"
    using assms by (metis distinct_card length_map reader_books_def)
  also have "\<dots> = length (dw_readers w)" using assms by (metis distinct_card reader_books_def)
  finally show ?thesis .
qed

section \<open>Adding readers\<close>

lemma control_header_view:
  "control_header env m data ts w = (h, w') \<Longrightarrow> reader_view w' = reader_view w"
  by (auto simp: control_header_def Let_def split: if_splits)

lemma send_control_view:
  assumes "send_control_message env m data ts msg cs w = Some (r, w')"
  shows "reader_view w' = reader_view w"
proof -
  obtain h w1 where h: "control_header env m data ts w = (h, w1)" by fastforce
  have "reader_view w' = reader_view w1"
    using assms h
    by (auto simp: send_control_message_def create_control_message_def dw_send_control_def Let_def
        split: option.splits Option.bind_splits if_splits)
  then show ?thesis using control_header_view [OF h] by simp
qed

lemma resend_to_view:
  assumes "resend_to env g flt mallocs now msg w = Some w'"
  shows "reader_view w' = reader_view w"
  using assms
  by (auto simp: resend_to_def send_or_suspend_def send_end_historic_samples_def Let_def
      split: Option.bind_splits if_splits dest!: send_control_view)

lemma match_reader_new:
  assumes "g \<notin> set (map fst (dw_id_to_handle w))"
  shows "fst (match_reader env g w)"
    "reader_view (snd (match_reader env g w)) = (dw_is_bit w, dw_readers w, dw_pending_readers w,
       map_insert g (we_get_handle env g) (dw_id_to_handle w), pm_current_count (dw_match_status w) + 1)"
proof -
  have n: "map_of (dw_id_to_handle w) g = None" using assms by (simp add: map_of_eq_None_iff)
  show "fst (match_reader env g w)" using n by (simp add: match_reader_def Let_def update_publication_match_def)
  show "reader_view (snd (match_reader env g w)) = (dw_is_bit w, dw_readers w, dw_pending_readers w,
       map_insert g (we_get_handle env g) (dw_id_to_handle w), pm_current_count (dw_match_status w) + 1)"
    using n by (simp add: match_reader_def Let_def update_publication_match_def) (simp add: reader_view_def)
qed

text \<open>The completion of the association of a reader that is neither associated nor pending.\<close>

lemma complete_books:
  assumes books: "reader_books w" and g: "g \<notin> set (dw_readers w)" "g \<notin> set (dw_pending_readers w)"
    and r: "association_complete_i env g mallocs now msg w = Some w'"
  shows "reader_books w' \<and> dw_readers w' = insort g (dw_readers w) \<and> dw_pending_readers w' = dw_pending_readers w"
proof -
  let ?w = "w\<lparr>dw_readers := insort g (dw_readers w)\<rparr>"
  let ?m = "match_reader env g ?w"
  have new: "g \<notin> set (map fst (dw_id_to_handle ?w))" "\<not> dw_is_bit w" using books g by (simp_all add: reader_books_def)
  obtain w1 where w1: "?m = (True, w1)" using match_reader_new(1) [OF new(1), of env] by (cases ?m) simp
  have v1: "reader_view w1 = (dw_is_bit w, insort g (dw_readers w), dw_pending_readers w,
       map_insert g (we_get_handle env g) (dw_id_to_handle w), pm_current_count (dw_match_status w) + 1)"
    using match_reader_new(2) [OF new(1), of env] w1 by simp
  have "reader_view w' = reader_view w1"
    using r g(1) new(2) w1 by (auto simp: association_complete_i_def id_set_insert_def Let_def split: if_splits dest!: resend_to_view)
  then show ?thesis
    using v1 books g by (simp add: reader_books_def reader_view_def distinct_map_insert set_insort_key map_insert_keys distinct_insort del: set_map)
qed

lemma association_complete_books:
  assumes books: "reader_books w" and r: "association_complete env g mallocs now msg w = Some w'"
  shows "reader_books w'"
proof (cases "g \<in> set (dw_pending_readers w)")
  case True
  let ?w = "w\<lparr>dw_pending_readers := remove1 g (dw_pending_readers w)\<rparr>"
  have "reader_books ?w" "g \<notin> set (dw_readers ?w)" "g \<notin> set (dw_pending_readers ?w)"
    using books True by (auto simp: reader_books_def)
  moreover have "association_complete_i env g mallocs now msg ?w = Some w'"
    using r True by (simp add: association_complete_def id_set_remove_def)
  ultimately show ?thesis using complete_books by blast
next
  case False
  then show ?thesis using r books reader_books_cong [of w' w] by (simp add: association_complete_def id_set_remove_def) force
qed

lemma add_association_books:
  assumes books: "reader_books w" and g: "ra_reader_id reader \<notin> set (dw_readers w)" "ra_reader_id reader \<notin> set (dw_pending_readers w)"
    and r: "dw_add_association env your_id reader active mallocs now msg w = Some w'"
  shows "reader_books w'"
proof -
  let ?g = "ra_reader_id reader"
  define w0 where "w0 = (if dw_publication_id w = GUID_UNKNOWN then w\<lparr>dw_publication_id := your_id\<rparr> else w)"
  define W where "W = dw_call (Transport_associate ?g active)
    (w0\<lparr>dw_reader_info := map_insert ?g (mk_ReaderInfo env reader) (dw_reader_info w0)\<rparr>)"
  have "reader_view W = reader_view w" by (simp add: W_def w0_def)
  then have b: "reader_books W" "dw_readers W = dw_readers w" "dw_pending_readers W = dw_pending_readers w"
    using books reader_books_cong [of W w] by (simp_all add: reader_view_def)
  have r': "(if dw_deleted w then Some w else if \<not> we_associate env ?g then Some W
      else if active then
        if ?g \<in> set (dw_assoc_complete_readers W)
        then association_complete_i env ?g mallocs now msg
               (W\<lparr>dw_assoc_complete_readers := remove1 ?g (dw_assoc_complete_readers W)\<rparr>)
        else Some (W\<lparr>dw_pending_readers := snd (id_set_insert ?g (dw_pending_readers W))\<rparr>)
      else Some (dw_call (Discovery_association_complete ?g) W)) = Some w'"
    using r unfolding dw_add_association_def Let_def W_def w0_def .
  have pend: "reader_books (W\<lparr>dw_pending_readers := insort ?g (dw_pending_readers W)\<rparr>)"
    using b g by (auto simp: reader_books_def set_insort_key distinct_insort)
  have done_books: "reader_books w'" if "association_complete_i env ?g mallocs now msg
      (W\<lparr>dw_assoc_complete_readers := remove1 ?g (dw_assoc_complete_readers W)\<rparr>) = Some w'"
    using complete_books [OF _ _ _ that] b g
      reader_books_cong [of "W\<lparr>dw_assoc_complete_readers := remove1 ?g (dw_assoc_complete_readers W)\<rparr>" W] by simp
  have call: "reader_books (dw_call (Discovery_association_complete ?g) W)"
    using b(1) reader_books_cong [of "dw_call (Discovery_association_complete ?g) W" W] by simp
  have ins: "snd (id_set_insert ?g (dw_pending_readers W)) = insort ?g (dw_pending_readers W)"
    using g(2) b(3) by (simp add: id_set_insert_def)
  show ?thesis using r' [unfolded ins] books b(1) pend done_books call by (metis option.inject)
qed

section \<open>Removing readers\<close>

lemma map_erase_keys: "map fst (map_erase g m) = filter (\<lambda>k. k \<noteq> g) (map fst m)"
  by (induction m) (auto simp: map_erase_def)

lemma erase_all_keys: "map fst (fold map_erase gs m) = filter (\<lambda>k. k \<notin> set gs) (map fst m)"
  by (induction gs arbitrary: m) (auto simp: map_erase_keys conj_commute)

text \<open>One round of the loop.\<close>

definition remove_one :: "GUID_t \<Rightarrow> DataWriterImpl \<Rightarrow> DataWriterImpl" where
  "remove_one g w =
     (let full = (g \<in> set (dw_readers w));
          w = w\<lparr>dw_readers := remove1 g (dw_readers w),
                dw_pending_readers := (if full then dw_pending_readers w else remove1 g (dw_pending_readers w))\<rparr>;
          w = (if full \<and> map_of (dw_id_to_sequence w) g \<noteq> None
               then dw_call Ack_broadcast (w\<lparr>dw_id_to_sequence := map_erase g (dw_id_to_sequence w)\<rparr>) else w)
      in w\<lparr>dw_reader_info := map_erase g (dw_reader_info w)\<rparr>)"

lemma remove_round:
  "remove_readers_loop (g # gs) w =
     (let (fs, rds, w') = remove_readers_loop gs (remove_one g w)
      in (if g \<in> set (dw_readers w) then g # fs else fs,
          if g \<in> set (dw_readers w) \<or> g \<in> set (dw_pending_readers w) then g # rds else rds, w'))"
  by (cases "g \<in> set (dw_readers w)"; cases "g \<in> set (dw_pending_readers w)")
     (simp_all add: id_set_remove_def remove_one_def remove1_idem Let_def)

lemma remove_one_fields [simp]:
  "dw_readers (remove_one g w) = remove1 g (dw_readers w)" "dw_id_to_handle (remove_one g w) = dw_id_to_handle w"
  "dw_pending_readers (remove_one g w) = (if g \<in> set (dw_readers w) then dw_pending_readers w else remove1 g (dw_pending_readers w))"
  "dw_match_status (remove_one g w) = dw_match_status w" "dw_is_bit (remove_one g w) = dw_is_bit w"
  by (simp_all add: remove_one_def dw_call_def Let_def)

text \<open>The loop removes exactly the named readers, and what it lists as fully associated are those of them that were.\<close>

lemma remove_readers_loop_correct:
  assumes "remove_readers_loop gs w = (fs, rds, w')" "distinct (dw_readers w)" "distinct (dw_pending_readers w)"
    "set (dw_readers w) \<inter> set (dw_pending_readers w) = {}"
  shows "set fs = set gs \<inter> set (dw_readers w) \<and> set rds = set gs \<inter> (set (dw_readers w) \<union> set (dw_pending_readers w))
    \<and> dw_readers w' = filter (\<lambda>g. g \<notin> set gs) (dw_readers w)
    \<and> dw_pending_readers w' = filter (\<lambda>g. g \<notin> set gs) (dw_pending_readers w)
    \<and> dw_id_to_handle w' = dw_id_to_handle w \<and> dw_match_status w' = dw_match_status w \<and> dw_is_bit w' = dw_is_bit w"
  using assms
proof (induction gs arbitrary: w fs rds)
  case (Cons g gs)
  obtain fs' rds' where l: "remove_readers_loop gs (remove_one g w) = (fs', rds', w')"
      "fs = (if g \<in> set (dw_readers w) then g # fs' else fs')"
      "rds = (if g \<in> set (dw_readers w) \<or> g \<in> set (dw_pending_readers w) then g # rds' else rds')"
    using Cons.prems(1) by (auto simp: remove_round simp del: remove_readers_loop.simps split: prod.splits)
  have r: "remove1 g (dw_readers w) = filter (\<lambda>h. h \<noteq> g) (dw_readers w)"
      "remove1 g (dw_pending_readers w) = filter (\<lambda>h. h \<noteq> g) (dw_pending_readers w)"
    using Cons.prems(2,3) by (simp_all add: distinct_remove1_removeAll removeAll_filter_not_eq eq_commute)
  have p: "dw_pending_readers (remove_one g w) = filter (\<lambda>h. h \<noteq> g) (dw_pending_readers w)"
    using Cons.prems(4) r(2) by (auto intro: filter_True [symmetric])
  have ih: "set fs' = set gs \<inter> (set (dw_readers w) - {g})
      \<and> set rds' = set gs \<inter> (set (dw_readers w) - {g} \<union> (set (dw_pending_readers w) - {g}))
      \<and> dw_readers w' = filter (\<lambda>g. g \<notin> set gs) (filter (\<lambda>h. h \<noteq> g) (dw_readers w))
      \<and> dw_pending_readers w' = filter (\<lambda>g. g \<notin> set gs) (filter (\<lambda>h. h \<noteq> g) (dw_pending_readers w))
      \<and> dw_id_to_handle w' = dw_id_to_handle w \<and> dw_match_status w' = dw_match_status w \<and> dw_is_bit w' = dw_is_bit w"
    using Cons.IH [OF l(1)] Cons.prems(2-) p r(1) by (auto simp del: remove_one_fields(3))
  then show ?case using l(2,3) by (auto simp: conj_commute)
qed simp

lemma notify_publication_match_is_bit [simp]: "dw_is_bit (notify_publication_match env k w) = dw_is_bit w"
  by (simp add: notify_publication_match_def update_publication_match_def dw_call_def Let_def)

lemma disassociate_view [simp]: "reader_view (fold (\<lambda>g. dw_call (Transport_disassociate g)) rds w) = reader_view w"
  by (induction rds arbitrary: w) simp_all

text \<open>
  The update of the match status after the removal of readers: there is a handle to report whenever the number of
  matched readers changed.
\<close>

lemma unmatch_readers_view:
  assumes "handles = [] \<Longrightarrow> pm_current_count (dw_match_status w) = int (length (dw_id_to_handle w))"
  obtains w' where "unmatch_readers env handles w = Some w'"
    "reader_view w' = (dw_is_bit w, dw_readers w, dw_pending_readers w, dw_id_to_handle w, int (length (dw_id_to_handle w)))"
proof (cases "pm_current_count (dw_match_status w) = int (length (dw_id_to_handle w))")
  case True
  then show thesis by (intro that) (simp_all add: unmatch_readers_def update_publication_match_def Let_def, simp add: reader_view_def)
next
  case False
  then show thesis
    using assms by (intro that) (auto simp: unmatch_readers_def update_publication_match_def Let_def, simp add: reader_view_def)
qed

lemma remove_associations_books:
  assumes books: "reader_books w"
  obtains w' where "dw_remove_associations env gs lost w = Some w'" "reader_books w'"
    "dw_readers w' = filter (\<lambda>g. g \<notin> set gs) (dw_readers w)" "dw_pending_readers w' = filter (\<lambda>g. g \<notin> set gs) (dw_pending_readers w)"
proof (cases "gs = []")
  case True
  then show thesis using books by (intro that [of w]) (simp_all add: dw_remove_associations_def)
next
  case False
  obtain fs rds w1 where l: "remove_readers_loop gs w = (fs, rds, w1)" by (cases "remove_readers_loop gs w")
  have c: "set fs = set gs \<inter> set (dw_readers w)" "dw_readers w1 = filter (\<lambda>g. g \<notin> set gs) (dw_readers w)"
      "dw_pending_readers w1 = filter (\<lambda>g. g \<notin> set gs) (dw_pending_readers w)" "dw_id_to_handle w1 = dw_id_to_handle w"
      "dw_match_status w1 = dw_match_status w" "\<not> dw_is_bit w1"
    using remove_readers_loop_correct [OF l] books by (simp_all add: reader_books_def)
  define w2 where "w2 = w1\<lparr>dw_id_to_handle := fold map_erase fs (dw_id_to_handle w)\<rparr>"
  have keys: "map fst (dw_id_to_handle w2) = filter (\<lambda>g. g \<notin> set gs) (map fst (dw_id_to_handle w))"
    using books c(1) by (auto simp: w2_def erase_all_keys reader_books_def intro!: filter_cong)
  have same: "fs = [] \<Longrightarrow> w2 = w1" using c(4) by (simp add: w2_def)
  define handles where "handles = map (we_get_handle env) fs"
  have "pm_current_count (dw_match_status w2) = int (length (dw_id_to_handle w2))" if "handles = []"
    using that same c(4,5) books length_handles [OF books] by (simp add: handles_def reader_books_def)
  then obtain w3 where w3: "unmatch_readers env handles w2 = Some w3"
      "reader_view w3 = (dw_is_bit w2, dw_readers w2, dw_pending_readers w2, dw_id_to_handle w2, int (length (dw_id_to_handle w2)))"
    using unmatch_readers_view by blast
  define w4 where "w4 = fold (\<lambda>g. dw_call (Transport_disassociate g)) rds w3"
  let ?w = "if lost \<and> handles \<noteq> [] then dw_call (Notify_publication_lost handles) w4 else w4"
  have "dw_remove_associations env gs lost w = Some ?w"
  proof (cases "fs = []")
    case True
    then show ?thesis using False l c(6) w3(1) same [OF True] by (simp add: dw_remove_associations_def handles_def w4_def)
  next
    case nonempty: False
    then show ?thesis using False l c(4,6) w3(1) by (simp add: dw_remove_associations_def handles_def w2_def w4_def)
  qed
  moreover have v: "reader_view ?w = reader_view w3" by (simp add: w4_def)
  moreover have "length (dw_id_to_handle w2) = length (dw_readers w1)"
  proof -
    have "distinct (map fst (dw_id_to_handle w2))" "set (map fst (dw_id_to_handle w2)) = set (dw_readers w1)" "distinct (dw_readers w1)"
      using keys books c(2) by (auto simp: reader_books_def)
    then show ?thesis by (metis distinct_card length_map)
  qed
  then have "reader_books ?w"
    using books w3(2) v keys c(2,3,6) by (auto simp: reader_books_def reader_view_def w2_def)
  ultimately show thesis using that c(2,3) w3(2) by (simp add: reader_view_def w2_def)
qed

section \<open>Runs\<close>

text \<open>The operations on the readers of a writer, as the discovery calls them.\<close>

datatype reader_op =
  Add_reader ReaderAssociation bool "(ptr \<times> GUID_t list) list" ace_time ptr
| Complete_reader GUID_t "(ptr \<times> GUID_t list) list" ace_time ptr
| Remove_readers "GUID_t list" bool

fun reader_op_step :: "writer_env \<Rightarrow> GUID_t \<Rightarrow> reader_op \<Rightarrow> DataWriterImpl \<Rightarrow> DataWriterImpl option" where
  "reader_op_step env me (Add_reader r active mallocs now msg) w = dw_add_association env me r active mallocs now msg w"
| "reader_op_step env me (Complete_reader g mallocs now msg) w = association_complete env g mallocs now msg w"
| "reader_op_step env me (Remove_readers gs lost) w = dw_remove_associations env gs lost w"

text \<open>A reader is added only when it is not there.\<close>

fun op_allowed :: "reader_op \<Rightarrow> DataWriterImpl \<Rightarrow> bool" where
  "op_allowed (Add_reader r _ _ _ _) w \<longleftrightarrow> ra_reader_id r \<notin> set (dw_readers w) \<union> set (dw_pending_readers w)"
| "op_allowed _ w \<longleftrightarrow> True"

inductive reader_run :: "writer_env \<Rightarrow> GUID_t \<Rightarrow> DataWriterImpl \<Rightarrow> DataWriterImpl \<Rightarrow> bool" for env me where
  reader_run_start: "reader_run env me w w"
| reader_run_step: "reader_run env me w w' \<Longrightarrow> op_allowed x w' \<Longrightarrow> reader_op_step env me x w' = Some w'' \<Longrightarrow> reader_run env me w w''"

lemma reader_op_books:
  assumes "reader_books w" "op_allowed x w" "reader_op_step env me x w = Some w'"
  shows "reader_books w'"
proof (cases x)
  case (Add_reader r active mallocs now msg)
  then show ?thesis using assms add_association_books [of w r env me active mallocs now msg w'] by simp
next
  case (Complete_reader g mallocs now msg)
  then show ?thesis using assms association_complete_books [of w env g mallocs now msg w'] by simp
next
  case (Remove_readers gs lost)
  then show ?thesis using assms remove_associations_books [of w env gs lost] by fastforce
qed

lemma reader_run_books:
  assumes "reader_run env me w w'" "reader_books w"
  shows "reader_books w'"
  using assms by induction (auto intro: reader_op_books)

lemma new_writer_books: "reader_books (mk_DataWriterImpl c qos False)"
  by (simp add: reader_books_def mk_DataWriterImpl_def)

text \<open>
  (C15) Along every run of association operations in which no reader is added twice, the match status counts
  exactly the associated readers, no reader is pending and associated at once, and removing readers, which
  looks up the handle of the last one removed, never fails and removes exactly the named ones.
\<close>

theorem matched_readers_counted:
  assumes "reader_run env me (mk_DataWriterImpl c qos False) w"
  shows "distinct (dw_readers w) \<and> set (dw_readers w) \<inter> set (dw_pending_readers w) = {}
    \<and> pm_current_count (dw_match_status w) = int (length (dw_readers w))
    \<and> distinct (map fst (dw_id_to_handle w)) \<and> set (map fst (dw_id_to_handle w)) = set (dw_readers w)
    \<and> (\<exists>w'. dw_remove_associations env gs lost w = Some w' \<and> dw_readers w' = filter (\<lambda>g. g \<notin> set gs) (dw_readers w)
         \<and> pm_current_count (dw_match_status w') = int (length (dw_readers w')))"
proof -
  have b: "reader_books w" using reader_run_books [OF assms new_writer_books] .
  obtain w' where "dw_remove_associations env gs lost w = Some w'" "reader_books w'"
      "dw_readers w' = filter (\<lambda>g. g \<notin> set gs) (dw_readers w)"
    using remove_associations_books [OF b] by metis
  then show ?thesis using b by (simp add: reader_books_def)
qed

section \<open>The changes of the match status\<close>

definition matched_calls :: "DataWriterImpl \<Rightarrow> writer_call list" where
  "matched_calls w = filter (\<lambda>x. case x of On_publication_matched s \<Rightarrow> True | _ \<Rightarrow> False) (dw_calls w)"

lemma matched_calls_call [simp]:
  "matched_calls (dw_call x w) = matched_calls w @ (case x of On_publication_matched s \<Rightarrow> [x] | _ \<Rightarrow> [])"
  "matched_calls (update_publication_match f w) = matched_calls w" "matched_calls (dw_set_status_changed_flag st b w) = matched_calls w"
  "matched_calls (w\<lparr>dw_id_to_handle := hs\<rparr>) = matched_calls w"
  by (auto simp: matched_calls_def dw_call_def update_publication_match_def dw_set_status_changed_flag_def split: writer_call.splits)

lemma matched_calls_remove [simp]: "matched_calls (remove_one g w) = matched_calls w"
  by (simp add: remove_one_def matched_calls_def dw_call_def Let_def)

lemma matched_calls_loop: "remove_readers_loop gs w = (fs, rds, w') \<Longrightarrow> matched_calls w' = matched_calls w"
proof (induction gs arbitrary: w fs rds)
  case (Cons g gs)
  obtain fs' rds' where "remove_readers_loop gs (remove_one g w) = (fs', rds', w')"
    using Cons.prems by (auto simp: remove_round simp del: remove_readers_loop.simps split: prod.splits)
  then show ?case using Cons.IH by fastforce
qed simp

lemma matched_calls_disassociate [simp]:
  "matched_calls (fold (\<lambda>g. dw_call (Transport_disassociate g)) rds w) = matched_calls w"
  by (induction rds arbitrary: w) simp_all

lemma unmatch_calls:
  "unmatch_readers env handles w = Some w' \<Longrightarrow> \<not> we_has_listener env DDS_SUBSCRIPTION_MATCHED_STATUS \<Longrightarrow>
     matched_calls w' = matched_calls w"
  by (auto simp: unmatch_readers_def notify_publication_match_def Let_def split: if_splits)

text \<open>
  The removal of readers is told only to a listener for matched subscriptions, a status of readers: a writer
  with a listener for matched publications alone never hears that a reader has gone, although it was told when
  the reader came.
\<close>

theorem removal_listener_not_called:
  assumes "\<not> we_has_listener env DDS_SUBSCRIPTION_MATCHED_STATUS" "dw_remove_associations env gs lost w = Some w'"
  shows "matched_calls w' = matched_calls w"
proof -
  obtain fs rds w1 where l: "remove_readers_loop gs w = (fs, rds, w1)" by (cases "remove_readers_loop gs w")
  show ?thesis
    using assms matched_calls_loop [OF l] l unmatch_calls
    by (fastforce simp: dw_remove_associations_def Let_def split: if_splits Option.bind_splits)
qed

section \<open>Acknowledgements\<close>

text \<open>What a reader has acknowledged; a reader that never did counts as having acknowledged the first number.\<close>

definition ack_of :: "DataWriterImpl \<Rightarrow> GUID_t \<Rightarrow> sequence_number" where
  "ack_of w g = (case map_of (dw_id_to_sequence w) g of None \<Rightarrow> default_sn | Some s \<Rightarrow> s)"

lemma acked_correct: "acked g w = (s, w') \<Longrightarrow> s = ack_of w g \<and> ack_of w' = ack_of w \<and> dw_readers w' = dw_readers w"
  by (auto simp: acked_def ack_of_def Let_def map_of_map_insert fun_eq_iff split: option.splits if_splits)

lemma all_acked_correct:
  "all_acked t gs w = (b, w') \<Longrightarrow>
     b = (\<forall>g\<in>set gs. at_expected t g \<le> ack_of w g) \<and> ack_of w' = ack_of w \<and> dw_readers w' = dw_readers w"
proof (induction gs arbitrary: w)
  case (Cons g gs)
  obtain s w1 where a: "acked g w = (s, w1)" by fastforce
  note c = acked_correct [OF a]
  show ?case
  proof (cases "s < at_expected t g")
    case True
    then show ?thesis using Cons.prems a c by auto
  next
    case False
    then have "all_acked t gs w1 = (b, w')" using Cons.prems a by simp
    then show ?thesis using Cons.IH [of w1] c False by auto
  qed
qed simp

lemma deliver_ack_of: "ack_of (deliver_ack g s w) h = (if h = g then max s (ack_of w g) else ack_of w h)"
proof -
  obtain a w1 where a: "acked g w = (a, w1)" by fastforce
  have "map_of (dw_id_to_sequence w1) g = Some a" using a by (auto simp: acked_def Let_def map_of_map_insert split: if_splits)
  then show ?thesis
    using acked_correct [OF a] a
    by (auto simp: deliver_ack_def ack_of_def dw_call_def map_of_map_update max_def fun_eq_iff)
qed

text \<open>Removing readers takes their acknowledgements away.\<close>

lemma remove_one_ack: "ack_of (remove_one g w) h = (if h = g \<and> g \<in> set (dw_readers w) then default_sn else ack_of w h)"
  by (auto simp: ack_of_def remove_one_def Let_def dw_call_def map_of_map_erase split: option.splits)

lemma ack_of_cong: "dw_id_to_sequence w' = dw_id_to_sequence w \<Longrightarrow> ack_of w' = ack_of w"
  by (simp add: ack_of_def fun_eq_iff)

lemma unmatch_sequence:
  "unmatch_readers env handles w = Some w' \<Longrightarrow> dw_id_to_sequence w' = dw_id_to_sequence w"
  by (auto simp: unmatch_readers_def notify_publication_match_def update_publication_match_def dw_call_def dw_set_status_changed_flag_def Let_def
      split: if_splits)

lemma disassociate_sequence [simp]:
  "dw_id_to_sequence (fold (\<lambda>g. dw_call (Transport_disassociate g)) rds w) = dw_id_to_sequence w"
  by (induction rds arbitrary: w) (simp_all add: dw_call_def)

lemma remove_reader_ack:
  assumes "dw_remove_associations env [g] lost w = Some w'"
  shows "ack_of w' h = ack_of w h \<or> ack_of w' h = default_sn"
proof -
  obtain fs rds w1 where l: "remove_readers_loop [g] w = (fs, rds, w1)" by (cases "remove_readers_loop [g] w")
  then have "w1 = remove_one g w" by (simp add: remove_round del: remove_readers_loop.simps(2))
  moreover have "dw_id_to_sequence w' = dw_id_to_sequence w1"
    using assms l
    by (auto simp: dw_remove_associations_def dw_call_def Let_def simp del: remove_readers_loop.simps split: if_splits Option.bind_splits
        dest!: unmatch_sequence)
  ultimately show ?thesis using remove_one_ack [of g w h] ack_of_cong [of w' w1] by (simp split: if_splits)
qed

lemma ack_event_of:
  "ack_event_step env x w = Some w' \<Longrightarrow> ack_of w' g = ack_of w g \<or> ack_of w' g = default_sn \<or> x = Ack_arrives g (ack_of w' g)"
  by (cases x) (auto simp: deliver_ack_of max_def split: if_splits dest: remove_reader_ack [where h = g])

lemma ack_events_of:
  "ack_events env xs w = Some w' \<Longrightarrow>
     ack_of w' g = ack_of w g \<or> ack_of w' g = default_sn \<or> Ack_arrives g (ack_of w' g) \<in> set xs"
proof (induction xs arbitrary: w)
  case (Cons x xs)
  then obtain w1 where "ack_event_step env x w = Some w1" "ack_events env xs w1 = Some w'"
    by (auto split: Option.bind_splits)
  then show ?case using Cons.IH [of w1] ack_event_of [of env x w w1 g] by auto
qed simp

lemma wait_acks:
  assumes "wait_for_ack_responses env waits t w = Some (RETCODE_OK, w')"
  shows "(\<forall>g\<in>set (dw_readers w'). at_expected t g \<le> ack_of w' g)
    \<and> (\<forall>g. ack_of w' g = ack_of w g \<or> ack_of w' g = default_sn \<or> Ack_arrives g (ack_of w' g) \<in> set (concat (map fst waits)))"
  using assms
proof (induction waits arbitrary: w)
  case Nil
  then show ?case
    using all_acked_correct [of t "dw_readers w" w] by (auto split: prod.splits if_splits)
next
  case (Cons x waits)
  obtain b w1 where a: "all_acked t (dw_readers w) w = (b, w1)" by fastforce
  note c = all_acked_correct [OF a]
  show ?case
  proof (cases b)
    case True
    then have "w' = w1" using Cons.prems a by simp
    then show ?thesis using c True by auto
  next
    case False
    obtain xs timed_out where x: "x = (xs, timed_out)" by fastforce
    then obtain w2 where w2: "ack_events env xs w1 = Some w2" "wait_for_ack_responses env waits t w2 = Some (RETCODE_OK, w')"
      using Cons.prems a False by (auto simp del: wait_for_ack_responses.simps simp: wait_for_ack_responses.simps [of env "(xs, timed_out) # waits"]
          split: Option.bind_splits if_splits)
    have "ack_of w2 g = ack_of w g \<or> ack_of w2 g = default_sn \<or> Ack_arrives g (ack_of w2 g) \<in> set xs" for g
      using ack_events_of [OF w2(1), of g] c by simp
    moreover note Cons.IH [OF w2(2)]
    ultimately show ?thesis using x by auto metis
  qed
qed

text \<open>
  (C18) Waiting for acknowledgements succeeds only when every reader associated at the end has acknowledged what
  is expected of it, before or during the wait; but nothing is asked for a number that is not above the first.
\<close>

theorem acks_awaited:
  assumes "wait_for_ack_responses env waits t w = Some (RETCODE_OK, w')" "g \<in> set (dw_readers w')" "default_sn < at_expected t g"
  shows "\<exists>s. at_expected t g \<le> s \<and> (map_of (dw_id_to_sequence w) g = Some s \<or> Ack_arrives g s \<in> set (concat (map fst waits)))"
proof -
  have "at_expected t g \<le> ack_of w' g" "ack_of w' g \<noteq> default_sn" using wait_acks [OF assms(1)] assms(2,3) by force+
  then show ?thesis using wait_acks [OF assms(1)] by (intro exI [of _ "ack_of w' g"]) (auto simp: ack_of_def split: option.splits)
qed

text \<open>A request for acknowledgements is a message without a sequence number of its own.\<close>

lemma header_block_total:
  assumes "guid_marshal (we_guid_ops env) enc"
  shows "\<exists>b. header_block env h d = Some b"
proof -
  have "chain_ok [empty_block d max_marshaled_size]" "stream_of [empty_block d max_marshaled_size] = []"
      "length (enc_header enc (h_byte_order h) h) \<le> sum_list (map mb_space [empty_block d max_marshaled_size])"
    using guid_marshal.length_enc_header [OF assms] by simp_all
  from guid_marshal.put_header_correct [OF assms this, of "we_native env"] show ?thesis by (auto simp: header_block_def)
qed

lemma request_ack_sent:
  assumes "guid_marshal (we_guid_ops env) enc" "we_send_control env = (\<lambda>_. SEND_CONTROL_OK)"
  obtains w' where "send_control_message env REQUEST_ACK (Some data) ts msg cs w = Some (SEND_CONTROL_OK, w')"
    "dw_readers w' = dw_readers w" "dw_id_to_sequence w' = dw_id_to_sequence w"
proof -
  obtain h where h: "control_header env REQUEST_ACK (Some data) ts w = (h, w)" "h_sequence h = SEQUENCENUMBER_UNKNOWN"
    by (simp add: control_header_def is_instance_message_def Let_def)
  obtain m where "create_control_message env REQUEST_ACK (Some data) ts msg w = Some (h, m, w)"
  proof (cases msg)
    case (Some d)
    obtain b where "header_block env h d = Some b" using header_block_total [OF assms(1)] by blast
    then show ?thesis using h Some that by (simp add: create_control_message_def)
  qed (use h that in \<open>simp add: create_control_message_def\<close>)
  then show thesis
    using assms(2)
    by (intro that [of "(dw_call (Send_control h m cs) w)\<lparr>dw_control_tracker := message_sent (dw_control_tracker w)\<rparr>"])
       (simp_all add: send_control_message_def dw_send_control_def dw_call_def)
qed

text \<open>
  While the last sequence number used is the first one, waiting for acknowledgements succeeds at once
  although no reader has acknowledged anything.
\<close>

theorem first_number_needs_no_ack:
  assumes "dw_sequence_number w = default_sn" "dw_readers w \<noteq> []"
    and info: "list_all (\<lambda>(g, i). ri_expected_sequence i = default_sn) (dw_reader_info w)"
    and "dw_id_to_sequence w = []" "marshal (create_ack_token max_wait now w) = Some data" "we_send_control env = (\<lambda>_. SEND_CONTROL_OK)"
    and "guid_marshal (we_guid_ops env) enc"
  shows "\<exists>w'. wait_for_acknowledgments env marshal msg now [] max_wait w = Some (RETCODE_OK, w')"
proof -
  let ?t = "create_ack_token max_wait now w"
  have none: "customized_readers ?t w = []"
    using info assms(1) by (auto simp: customized_readers_def create_ack_token_def list_all_iff filter_empty_conv)
  have t: "?t\<lparr>at_custom := at_custom ?t\<rparr> = ?t" by simp
  obtain w1 where w1: "send_control_message env REQUEST_ACK (Some data) (time_value_to_time (we_truncate_long env) (at_tstamp ?t)) msg [] w
      = Some (SEND_CONTROL_OK, w1)" "dw_readers w1 = dw_readers w" "dw_id_to_sequence w1 = dw_id_to_sequence w"
    by (rule request_ack_sent [OF assms(7,6)])
  have "send_ack_requests env marshal msg ?t w = Some (RETCODE_OK, ?t, w1)"
    using none assms(5) w1(1) by (simp add: send_ack_requests_def)
  moreover obtain b w2 where a: "all_acked ?t (dw_readers w1) w1 = (b, w2)" by fastforce
  moreover have "b" using all_acked_correct [OF a] w1(3) assms(1,4) by (simp add: ack_of_def at_expected_def create_ack_token_def)
  ultimately show ?thesis using assms(2) by (simp add: wait_for_acknowledgments_def dw_should_ack_def)
qed

end
