(* ===== verification/Writer_Refinement.thy ===== *)
theory Writer_Refinement
  imports Container_Obtain Container_Data Writer_Matching
begin

text \<open>
  A write on a well-formed writer: the sample enters its instance, gets the next sequence number and is handed
  to the transport, and the writer stays well-formed, whatever samples the transport reports as delivered
  before it returns.
\<close>

section \<open>Delivery while sending\<close>

text \<open>A sample being sent that nobody waits for is kept as sent.\<close>

lemma delivered_while_sending:
  assumes ok: "container_ok c A" and a: "a \<in> set (ac_list A Sending)" and waiting: "\<And>i. ac_waiting A i = []"
  obtains c' where "data_delivered a c = Some c'" "container_ok c' (a_put Sent a (a_take Sending a A))"
    "wc_stable c' = wc_stable c" "data_view (wc_heap c') = data_view (wc_heap c)"
proof -
  note w = container_okD [OF ok]
  have rel: "dequeue_send Released a c = Some (False, c)"
    using dequeue_absent [OF w(1)] in_one_list [OF w(6) a] by simp
  obtain i e d where i: "a \<in> set (ac_samples A i)" "wc_pool c i \<noteq> None" "wc_heap c a = Some e" "el_handle e = Some i"
      "el_sample e = Some d" "wc_blocks c d \<noteq> None"
    using live_instance [OF ok, of a] a unfolding live_def by blast
  then obtain p where p: "wc_pool c i = Some p" by blast
  obtain c1 c2 c3 where c: "dequeue_send Sending a c = Some (True, c1)" "wc_pool c1 = wc_pool c"
      "mark_historic a c1 = Some c2" "enqueue_send Sent a c2 = Some c3" "wc_pool c3 = wc_pool c"
      "container_ok c3 (a_put Sent a (a_take Sending a A))" "wc_stable c3 = wc_stable c"
      "data_view (wc_heap c3) = data_view (wc_heap c)"
    using delivered_sent [OF ok a i(3,5,6)] .
  have wake: "wakeup_blocking_writers (Some a) (Some i) c3 = Some c3"
    using wakeup_not_waiting [OF container_okD(1) [OF c(6)], of i] p c(5) waiting by simp
  have "data_delivered a c = Some (signal_empty c3)"
    using rel i(3,4) p c waiting_head [OF w(1) p] waiting wake by (simp add: data_delivered_def get_handle_def)
  moreover have "wc_heap (signal_empty c3) = wc_heap c3" by (simp add: signal_empty_def wc_log_def)
  ultimately show thesis using that [of "signal_empty c3"] c(6,7,8) stable_frame(4) [of c3] by simp
qed

fun deliver_all :: "nat list \<Rightarrow> WriteDataContainer \<Rightarrow> WriteDataContainer option" where
  "deliver_all [] c = Some c"
| "deliver_all (d # ds) c = do { c \<leftarrow> data_delivered d c; deliver_all ds c }"

definition a_sent :: "nat \<Rightarrow> acontainer \<Rightarrow> acontainer" where
  "a_sent a A = a_put Sent a (a_take Sending a A)"

lemma a_sent_fields [simp]: "ac_queue (a_sent a A) = ac_queue A" "ac_holder (a_sent a A) = ac_holder A"
  by (simp_all add: a_sent_def)

lemma a_sent_all_fields [simp]: "ac_queue (fold a_sent ds A) = ac_queue A" "ac_holder (fold a_sent ds A) = ac_holder A"
  by (induction ds arbitrary: A) simp_all

lemma deliver_all_refines:
  assumes "container_ok c A" "set ds \<subseteq> set (ac_list A Sending)" "distinct ds" "\<And>i. ac_waiting A i = []"
  shows "\<exists>c'. deliver_all ds c = Some c' \<and> container_ok c' (fold a_sent ds A) \<and> wc_stable c' = wc_stable c
    \<and> data_view (wc_heap c') = data_view (wc_heap c)"
  using assms
proof (induction ds arbitrary: c A)
  case (Cons d ds)
  obtain c1 where c1: "data_delivered d c = Some c1" "container_ok c1 (a_sent d A)" "wc_stable c1 = wc_stable c"
      "data_view (wc_heap c1) = data_view (wc_heap c)"
    using delivered_while_sending [OF Cons.prems(1)] Cons.prems(2,4) unfolding a_sent_def by auto
  have "set ds \<subseteq> set (ac_list (a_sent d A) Sending)"
    using Cons.prems(2,3) container_okD(3) [OF Cons.prems(1), of Sending] by (auto simp: a_sent_def a_simps)
  then show ?case using Cons.IH [OF c1(2)] Cons.prems(3,4) c1 by auto
qed simp

text \<open>The transport reports some of the samples it is given as delivered at once, each once, and the rest later.\<close>

definition transport_sends :: "(sample_list \<Rightarrow> WriteDataContainer \<Rightarrow> WriteDataContainer option) \<Rightarrow> bool" where
  "transport_sends f \<longleftrightarrow>
     (\<forall>l c xs. iter_elements (wc_heap c) (sl_head l) = Some xs \<longrightarrow>
        (\<exists>ds. set ds \<subseteq> set xs \<and> distinct ds \<and> f l c = deliver_all ds c))"


section \<open>Filling in an element\<close>

text \<open>An element that is in no list of an instance may change in everything but its links.\<close>

lemma container_ok_set_data:
  assumes ok: "container_ok c A" and a: "wc_heap c a = Some e" "unqueued A a"
    and links: "next_send_sample e' = next_send_sample e" "previous_send_sample e' = previous_send_sample e"
      "next_writer_sample e' = next_writer_sample e" "previous_writer_sample e' = previous_writer_sample e"
      "next_instance_sample e' = next_instance_sample e"
    and blocks: "\<And>d. wc_blocks c d \<noteq> None \<Longrightarrow> bl d \<noteq> None"
  shows "container_ok (c\<lparr>wc_heap := (wc_heap c)(a \<mapsto> e'), wc_blocks := bl\<rparr>) A" (is "container_ok ?c A")
proof -
  note r = representsD [OF container_okD(1) [OF ok]]
  have views: "send_view (wc_heap ?c) = send_view (wc_heap c)" "writer_view (wc_heap ?c) = writer_view (wc_heap c)"
      "instance_view (wc_heap ?c) = instance_view (wc_heap c)"
    using a(1) links by (auto simp: send_view_def writer_view_def instance_view_def fun_eq_iff)
  have "send_part ?c A" by (rule send_part_cong [OF r(1) views(1)]) simp_all
  moreover have "writer_part {} ?c A" by (rule writer_part_cong [OF r(2) views(2)]) simp_all
  moreover have "instance_part ?c A" by (rule instance_part_cong [OF r(3) views(3)]) simp_all
  moreover have "data_part ?c A"
    using r(4) a(2) blocks unfolding data_part_def unqueued_def by fastforce
  ultimately show ?thesis using container_okD(2) [OF ok] by (simp add: container_ok_def represents_upto_def)
qed

lemma registry_heap [simp]: "registry_ok (c\<lparr>wc_heap := h, wc_blocks := bl\<rparr>) \<longleftrightarrow> registry_ok c" "registry_ok (c\<lparr>wc_heap := h\<rparr>) \<longleftrightarrow> registry_ok c"
  by (simp_all add: registry_ok_def registered_def)

text \<open>The message of an obtained element is set, and its filter.\<close>

lemma message_set:
  assumes ok: "container_ok c A" "registry_ok c" and a: "wc_heap c a = Some e" "unqueued A a"
  shows "\<exists>c' e'. (do { c \<leftarrow> set_message a h (Some (d, b)) c; heap \<leftarrow> update_element a (set_filter_out flt) (wc_heap c);
        Some (c\<lparr>wc_heap := heap\<rparr>) }) = Some c'
    \<and> container_ok c' A \<and> registry_ok c' \<and> wc_heap c' a = Some e' \<and> el_handle e' = el_handle e \<and> el_header e' = h
    \<and> el_sample e' = Some d \<and> wc_blocks c' d \<noteq> None \<and> wc_instances c' = wc_instances c \<and> wc_stable c' = wc_stable c"
proof -
  let ?e = "set_filter_out flt (el_set_sample (Some d) (e\<lparr>el_header := h\<rparr>))"
  let ?c = "c\<lparr>wc_heap := (wc_heap c)(a \<mapsto> ?e), wc_blocks := (wc_blocks c)(d \<mapsto> b)\<rparr>"
  have "container_ok ?c A"
    by (rule container_ok_set_data [OF ok(1) a]) (auto simp: set_filter_out_def el_set_sample_def)
  moreover have "wc_stable ?c = wc_stable c" by (simp add: wc_stable_def pool_rest_def fun_eq_iff)
  ultimately show ?thesis
    using ok(2) a(1)
    by (intro exI [of _ ?c] exI [of _ ?e]) (simp add: set_message_def update_element_def set_filter_out_def el_set_sample_def)
qed

section \<open>Enqueuing and sending\<close>

text \<open>An element that is kept is what it was.\<close>

lemma kept_element:
  assumes "only_frees c c'" "wc_heap c' a \<noteq> None" "wc_heap c a = Some e"
  obtains e' where "wc_heap c' a = Some e'" "unlinked e' = unlinked e"
  using assms by (auto simp: only_frees_def data_view_def dest!: spec [of _ a])

text \<open>The list handed to the transport is the list of unsent samples as it was.\<close>

lemma unsent_elements:
  assumes ok: "container_ok c A" and ok': "container_ok c' (a_get_unsent A)"
  shows "iter_elements (wc_heap c') (sl_head (unsent_data c)) = Some (ac_list A Unsent)"
proof -
  have "send_rep (wc_heap c') (get_list Sending c') (ac_list A Sending @ ac_list A Unsent)"
    using send_partD(1) [OF representsD(1) [OF container_okD(1) [OF ok']], of Sending] by (simp add: a_get_unsent_def)
  then have seg: "dseg (send_view (wc_heap c')) (last_or None (ac_list A Sending)) (ac_list A Unsent) None"
    by (simp add: dlist_rep_def)
  have "sl_head (unsent_data c) = hd_or None (ac_list A Unsent)"
    using send_partD(1) [OF representsD(1) [OF container_okD(1) [OF ok]], of Unsent] by (simp add: dlist_rep_def list_rep_def)
  then show ?thesis using iter_elements_rep [OF seg] by simp
qed


lemma live_get_unsent: "live (a_get_unsent A) a \<longleftrightarrow> live A a"
  by (auto simp: live_def a_get_unsent_def)

text \<open>The second half of a write: the element is enqueued, and the unsent samples go to the transport.\<close>

lemma enqueue_and_send:
  assumes ok: "container_ok c A" "registry_ok c" and i: "get_handle_instance handle c = Some i"
    and a: "a \<in> set (ac_holder A)" "unlisted A a" "wc_heap c a = Some e" "el_handle e = Some i" "el_sample e = Some d"
      "wc_blocks c d \<noteq> None"
    and waiting: "\<And>i. ac_waiting A i = []" and send: "transport_sends f"
  obtains c1 list c2 c3 ds where "wc_enqueue a handle ls now c = Some (RETCODE_OK, c1)"
    "get_unsent_data c1 = Some (list, c2)" "f list c2 = Some c3"
    "container_ok c3 (fold a_sent ds (a_get_unsent (a_enqueue i a A)))" "registry_ok c3" "wc_config c3 = wc_config c"
    "data_view (wc_heap c3) a = data_view (wc_heap c) a"
proof -
  let ?A1 = "a_enqueue i a A" and ?A2 = "a_get_unsent (a_enqueue i a A)"
  obtain c1 where c1: "wc_enqueue a handle ls now c = Some (RETCODE_OK, c1)" "container_ok c1 ?A1" "registry_ok c1"
      "wc_config c1 = wc_config c"
    using wc_enqueue_refines [OF ok i a] by blast
  have unsent: "ac_list ?A1 Unsent \<noteq> []" by (simp add: a_enqueue_def)
  obtain c2 where c2: "get_unsent_data c1 = Some (unsent_data c1, c2)" "container_ok c2 ?A2" "wc_stable c2 = wc_stable c1"
    using get_unsent_data_refines [OF c1(2)] unsent by blast
  obtain ds where ds: "set ds \<subseteq> set (ac_list ?A1 Unsent)" "distinct ds" "f (unsent_data c1) c2 = deliver_all ds c2"
    using send unsent_elements [OF c1(2) c2(2)] unfolding transport_sends_def by blast
  have "set ds \<subseteq> set (ac_list ?A2 Sending)" using ds(1) by (auto simp: a_get_unsent_def)
  moreover have "ac_waiting ?A2 j = []" for j using waiting by (simp add: a_get_unsent_def a_enqueue_def)
  ultimately obtain c3 where c3: "deliver_all ds c2 = Some c3" "container_ok c3 (fold a_sent ds ?A2)" "wc_stable c3 = wc_stable c2"
      "data_view (wc_heap c3) = data_view (wc_heap c2)"
    using deliver_all_refines [OF c2(2) _ ds(2)] by blast
  have "only_frees c c1" using returnsD [OF wc_enqueue_frees [of c c "\<lambda>(r, c'). only_frees c c'"] c1(1)] by simp
  moreover have "only_frees c1 c2" using returnsD [OF send_steps_free(1) [of c1 c1 "\<lambda>(l, c'). only_frees c1 c'"] c2(1)] by simp
  ultimately have "only_frees c c2" by (rule only_frees_trans)
  moreover have "wc_heap c2 a \<noteq> None"
    using represents_alloc(1) [OF container_okD(1) [OF c2(2)], of a Sending] by (simp add: a_get_unsent_def a_enqueue_def)
  ultimately have "data_view (wc_heap c2) a = data_view (wc_heap c) a" by (auto simp: only_frees_def dest!: spec [of _ a])
  moreover have "wc_config c3 = wc_config c" "registry_ok c3"
    using c1(3,4) wc_config_stable [OF c2(3)] wc_config_stable [OF c3(3)] registry_cong [OF c1(3)] stable_registry [of c3 c1]
      c2(3) c3(3) by simp_all
  ultimately show thesis using that [OF c1(1) c2(1)] ds(3) c3(1,2,4) by simp
qed

section \<open>Writing\<close>

text \<open>
  A well-formed writer that nobody waits for and that has no limit on all samples: every instance has at most
  \<open>depth_\<close> samples.
\<close>

definition writer_ok :: "DataWriterImpl \<Rightarrow> acontainer \<Rightarrow> bool" where
  "writer_ok w A \<longleftrightarrow>
     container_ok (dw_container w) A \<and> registry_ok (dw_container w) \<and> 0 < wc_depth (dw_container w)
     \<and> wc_max_num_samples (dw_container w) \<le> 0 \<and> (\<forall>i. ac_waiting A i = [])
     \<and> (\<forall>i. int (length (ac_samples A i)) \<le> wc_depth (dw_container w))"

lemma writer_okD:
  assumes "writer_ok w A"
  shows "container_ok (dw_container w) A" "registry_ok (dw_container w)" "0 < wc_depth (dw_container w)"
    "wc_max_num_samples (dw_container w) \<le> 0" "ac_waiting A i = []" "int (length (ac_samples A i)) \<le> wc_depth (dw_container w)"
  using assms by (simp_all add: writer_ok_def)

text \<open>The last \<open>depth\<close> samples.\<close>

definition keep_last :: "int \<Rightarrow> nat list \<Rightarrow> nat list" where
  "keep_last depth xs = drop (length xs - nat depth) xs"

lemma room_samples:
  assumes "0 < depth" "int (length (ac_samples A i)) \<le> depth"
  shows "ac_samples (a_room depth i A) i @ [a] = keep_last depth (ac_samples A i @ [a])"
    "j \<noteq> i \<Longrightarrow> ac_samples (a_room depth i A) j = ac_samples A j" "ac_waiting (a_room depth i A) j = ac_waiting A j"
proof -
  show "ac_samples (a_room depth i A) i @ [a] = keep_last depth (ac_samples A i @ [a])"
  proof (cases "int (length (ac_samples A i)) = depth")
    case True
    then obtain x xs where xs: "ac_samples A i = x # xs" using assms(1) by (cases "ac_samples A i") auto
    have "nat depth = Suc (length xs)" using True xs by simp
    then show ?thesis using True xs remove_samples [OF xs] by (simp add: a_room_def keep_last_def)
  next
    case False
    then show ?thesis using assms(2) by (simp add: a_room_def keep_last_def)
  qed
qed (simp_all add: a_room_def a_remove_queue)


lemma next_sequence_fields [simp]:
  "dw_container (next_sequence_number w) = dw_container w" "dw_reader_info (next_sequence_number w) = dw_reader_info w"
  "dw_coherent (next_sequence_number w) = dw_coherent w" "dw_enabled (next_sequence_number w) = dw_enabled w"
  by (simp_all add: next_sequence_number_def)

lemma sample_header_result:
  obtains h' where "sample_header env data ts cf h w = (h', next_sequence_number w)"
    "h_sequence h' = dw_sequence_number (next_sequence_number w)" "h_sequence_repair h' = need_sequence_repair w"
  by (cases "sample_header env data ts cf h w") (auto simp: sample_header_def Let_def)

lemma create_sample_ok:
  assumes go: "guid_marshal (we_guid_ops env) enc" and i: "get_handle_instance handle (dw_container w) = Some i"
  obtains h' b where "create_sample_data_message env data handle ts cf (Some d) h w
      = Some (RETCODE_OK, h', Some (Some (d, b)), next_sequence_number w)"
    "h_sequence h' = dw_sequence_number (next_sequence_number w)" "h_sequence_repair h' = need_sequence_repair w"
proof -
  obtain h' where h': "sample_header env data ts cf h w = (h', next_sequence_number w)"
      "h_sequence h' = dw_sequence_number (next_sequence_number w)" "h_sequence_repair h' = need_sequence_repair w"
    by (rule sample_header_result)
  moreover obtain b where "header_block env h' d = Some b" using header_block_total [OF go] by blast
  ultimately show thesis using i by (intro that [of h' b]) (simp_all add: create_sample_data_message_def)
qed

lemma expect_sequence_fields [simp]:
  "dw_container (expect_sequence gs w) = dw_container w" "dw_sequence_number (expect_sequence gs w) = dw_sequence_number w"
  "dw_coherent (expect_sequence gs w) = dw_coherent w" "dw_enabled (expect_sequence gs w) = dw_enabled w"
  by (simp_all add: expect_sequence_def)

lemma dw_call_fields [simp]:
  "dw_container (dw_call x w) = dw_container w" "dw_sequence_number (dw_call x w) = dw_sequence_number w"
  "dw_reader_info (dw_call x w) = dw_reader_info w" "dw_coherent (dw_call x w) = dw_coherent w"
  "dw_enabled (dw_call x w) = dw_enabled w"
  by (simp_all add: dw_call_def)

text \<open>What the transport and the middleware around the writer promise.\<close>

definition env_ok :: "writer_env \<Rightarrow> bool" where
  "env_ok env \<longleftrightarrow> (\<exists>enc. guid_marshal (we_guid_ops env) enc) \<and> transport_removes (we_remove_sample env)
     \<and> transport_sends (we_send env) \<and> \<not> we_suspended env"

text \<open>
  The write of one sample: in the abstract container it joins its instance, whose oldest sample goes when there
  are \<open>depth_\<close> of them already.
\<close>

definition sample_written :: "nat \<Rightarrow> nat \<Rightarrow> DataWriterImpl \<Rightarrow> acontainer \<Rightarrow> DataWriterImpl \<Rightarrow> acontainer \<Rightarrow> bool" where
  "sample_written i a w A w' A' \<longleftrightarrow>
     ac_samples A' i = keep_last (wc_depth (dw_container w)) (ac_samples A i @ [a])
     \<and> (\<forall>j. j \<noteq> i \<longrightarrow> ac_samples A' j = ac_samples A j)
     \<and> dw_sequence_number w' = dw_sequence_number (next_sequence_number w)
     \<and> (\<exists>e. wc_heap (dw_container w') a = Some e \<and> h_sequence (el_header e) = dw_sequence_number w'
          \<and> h_sequence_repair (el_header e) = need_sequence_repair w)"

lemma writer_ok_fields:
  assumes "dw_container w' = dw_container w"
  shows "writer_ok w' A \<longleftrightarrow> writer_ok w A"
  using assms by (simp add: writer_ok_def)

lemma keep_last_length: "0 < depth \<Longrightarrow> int (length (keep_last depth xs)) \<le> depth"
  by (simp add: keep_last_def)

text \<open>The first steps of a write: the buffer, then the message with its header.\<close>

lemma obtain_for_write:
  assumes ok: "writer_ok w A" and env: "env_ok env" and i: "get_handle_instance handle (dw_container w) = Some i"
    and inp: "wi_element inp = Some a" "wc_heap (dw_container w) a = None"
    and free: "\<not> wc_should_block (dw_container w) \<or> a_oldest_free (wc_depth (dw_container w)) i A"
  obtains c1 B el where "obtain_buffer (we_remove_sample env) (we_native env) (we_max_time env) (wi_obtain_time inp)
        (wi_wakes inp) (wi_element inp) handle (dw_container w) = Some (RETCODE_OK, Some a, c1)"
      "ac_queue B = ac_queue (a_room (wc_depth (dw_container w)) i A)" "container_ok c1 (a_hold a B)" "registry_ok c1"
      "wc_stable c1 = wc_stable (dw_container w)" "wc_heap c1 a = Some el" "el_handle el = Some i"
      "a \<in> set (ac_holder (a_hold a B))" "unlisted (a_hold a B) a" "get_handle_instance handle c1 = Some i"
proof -
  note ok = writer_okD [OF ok]
  let ?c = "dw_container w" and ?depth = "wc_depth (dw_container w)"
  have fr: "\<not> wc_should_block ?c \<or> a_oldest_free ?depth i A \<and> ac_waiting A i = []" using free ok(5) by simp
  have f: "transport_removes (we_remove_sample env)" using env by (simp add: env_ok_def)
  obtain c1 B where c1: "obtain_buffer (we_remove_sample env) (we_native env) (we_max_time env) (wi_obtain_time inp)
        (wi_wakes inp) (wi_element inp) handle ?c = Some (RETCODE_OK, Some a, c1)"
      "B = a_room ?depth i A \<or> \<not> a_oldest_free ?depth i A \<and> B = a_dropped (hd (ac_samples A i)) (a_room ?depth i A)"
      "container_ok c1 (a_hold a B)" "registry_ok c1" "obtained c1 (a_hold a B) i a" "wc_stable c1 = wc_stable ?c"
    using obtain_buffer_refines [OF ok(1,2) i inp(2) fr ok(4) f ok(3,6)] inp(1) by metis
  moreover have "get_handle_instance handle c1 = Some i"
    using i stable_registry(2) [OF c1(6)] by (simp add: get_handle_instance_def)
  moreover have "ac_queue B = ac_queue (a_room ?depth i A)" using c1(2) by auto
  ultimately show thesis using that by (auto simp: obtained_def)
qed

lemma message_for_write:
  assumes ok: "container_ok c A" "registry_ok c" and env: "env_ok env" and i: "get_handle_instance handle c = Some i"
    and el: "wc_heap c a = Some el" and held: "a \<in> set (ac_holder A)" "unlisted A a"
  obtains h b c' heap e where "create_sample_data_message env data handle ts cf (Some d) (el_header el) (w\<lparr>dw_container := c\<rparr>)
      = Some (RETCODE_OK, h, Some (Some (d, b)), next_sequence_number (w\<lparr>dw_container := c\<rparr>))"
    "set_message a h (Some (d, b)) c = Some c'" "update_element a (set_filter_out flt) (wc_heap c') = Some heap"
    "container_ok (c'\<lparr>wc_heap := heap\<rparr>) A" "registry_ok (c'\<lparr>wc_heap := heap\<rparr>)" "heap a = Some e"
    "el_handle e = el_handle el" "el_sample e = Some d" "wc_blocks c' d \<noteq> None" "wc_instances c' = wc_instances c"
    "wc_stable (c'\<lparr>wc_heap := heap\<rparr>) = wc_stable c" "h_sequence (el_header e) = dw_sequence_number (next_sequence_number w)"
    "h_sequence_repair (el_header e) = need_sequence_repair w"
proof -
  have i': "get_handle_instance handle (dw_container (w\<lparr>dw_container := c\<rparr>)) = Some i" using i by simp
  obtain enc where enc: "guid_marshal (we_guid_ops env) enc" using env by (auto simp: env_ok_def)
  obtain h b where h: "create_sample_data_message env data handle ts cf (Some d) (el_header el) (w\<lparr>dw_container := c\<rparr>)
      = Some (RETCODE_OK, h, Some (Some (d, b)), next_sequence_number (w\<lparr>dw_container := c\<rparr>))"
    "h_sequence h = dw_sequence_number (next_sequence_number (w\<lparr>dw_container := c\<rparr>))"
    "h_sequence_repair h = need_sequence_repair (w\<lparr>dw_container := c\<rparr>)"
    by (rule create_sample_ok [OF enc i'])
  have unq: "unqueued A a" using held_unqueued [OF container_okD(2) [OF ok(1)] held] .
  obtain c2 e where c2: "(do { c \<leftarrow> set_message a h (Some (d, b)) c; heap \<leftarrow> update_element a (set_filter_out flt) (wc_heap c);
        Some (c\<lparr>wc_heap := heap\<rparr>) }) = Some c2" "container_ok c2 A" "registry_ok c2" "wc_heap c2 a = Some e"
      "el_handle e = el_handle el" "el_header e = h" "el_sample e = Some d" "wc_blocks c2 d \<noteq> None"
      "wc_instances c2 = wc_instances c" "wc_stable c2 = wc_stable c"
    using message_set [OF ok el unq, of h d b flt] by blast
  obtain c' heap where m: "set_message a h (Some (d, b)) c = Some c'" "update_element a (set_filter_out flt) (wc_heap c') = Some heap"
      "c2 = c'\<lparr>wc_heap := heap\<rparr>"
    using c2(1) by (auto split: Option.bind_splits)
  show thesis
    using c2(2-) m(3) h(2,3) by (intro that [OF h(1) m(1,2), of e]) (simp_all add: need_sequence_repair_def next_sequence_number_def)
qed

theorem write_refines:
  assumes ok: "writer_ok w A" and w: "dw_enabled w" and env: "env_ok env"
    and i: "get_handle_instance handle (dw_container w) = Some i"
    and inp: "wi_element inp = Some a" "wc_heap (dw_container w) a = None" "wi_message inp = Some d"
    and free: "\<not> wc_should_block (dw_container w) \<or> a_oldest_free (wc_depth (dw_container w)) i A"
  shows "\<exists>w' A'. dw_write env inp data handle ts flt w = Some (RETCODE_OK, w') \<and> writer_ok w' A' \<and> sample_written i a w A w' A'
    \<and> wc_config (dw_container w') = wc_config (dw_container w) \<and> dw_enabled w'"
proof -
  note ok' = writer_okD [OF ok]
  have e: "transport_sends (we_send env)" "\<not> we_suspended env" using env by (simp_all add: env_ok_def)
  obtain c1 B el where c1: "obtain_buffer (we_remove_sample env) (we_native env) (we_max_time env) (wi_obtain_time inp)
        (wi_wakes inp) (wi_element inp) handle (dw_container w) = Some (RETCODE_OK, Some a, c1)"
      "ac_queue B = ac_queue (a_room (wc_depth (dw_container w)) i A)" "container_ok c1 (a_hold a B)" "registry_ok c1"
      "wc_stable c1 = wc_stable (dw_container w)" "wc_heap c1 a = Some el" "el_handle el = Some i"
      and held: "a \<in> set (ac_holder (a_hold a B))" "unlisted (a_hold a B) a" and i1: "get_handle_instance handle c1 = Some i"
    by (rule obtain_for_write [OF ok env i inp(1,2) free])
  obtain h b c' heap e2 where m: "create_sample_data_message env data handle ts (flt \<noteq> None) (Some d) (el_header el) (w\<lparr>dw_container := c1\<rparr>)
      = Some (RETCODE_OK, h, Some (Some (d, b)), next_sequence_number (w\<lparr>dw_container := c1\<rparr>))"
    "set_message a h (Some (d, b)) c1 = Some c'" "update_element a (set_filter_out flt) (wc_heap c') = Some heap"
    and c2: "container_ok (c'\<lparr>wc_heap := heap\<rparr>) (a_hold a B)" "registry_ok (c'\<lparr>wc_heap := heap\<rparr>)" "heap a = Some e2"
    "el_handle e2 = el_handle el" "el_sample e2 = Some d" "wc_blocks c' d \<noteq> None" "wc_instances c' = wc_instances c1"
    "wc_stable (c'\<lparr>wc_heap := heap\<rparr>) = wc_stable c1" and hd2: "h_sequence (el_header e2) = dw_sequence_number (next_sequence_number w)"
    "h_sequence_repair (el_header e2) = need_sequence_repair w"
    by (rule message_for_write [OF c1(3,4) env i1 c1(6) held])
  let ?c2 = "c'\<lparr>wc_heap := heap\<rparr>"
  have e2: "get_handle_instance handle ?c2 = Some i" "wc_heap ?c2 a = Some e2" "el_handle e2 = Some i" "wc_blocks ?c2 d \<noteq> None"
    using i1 c2(3,4,6,7) c1(7) by (simp_all add: get_handle_instance_def)
  have wait: "ac_waiting (a_hold a B) j = []" for j using c1(2) room_samples(3) [OF ok'(3,6)] ok'(5) by (simp add: a_hold_def)
  obtain c3 list c4 c5 ds where c3: "wc_enqueue a handle (wi_listener inp) (wi_enqueue_time inp) ?c2 = Some (RETCODE_OK, c3)"
      "get_unsent_data c3 = Some (list, c4)" "we_send env list c4 = Some c5"
      "container_ok c5 (fold a_sent ds (a_get_unsent (a_enqueue i a (a_hold a B))))" "registry_ok c5" "wc_config c5 = wc_config ?c2"
      "data_view (wc_heap c5) a = data_view (wc_heap ?c2) a"
    using enqueue_and_send [OF c2(1,2) e2(1) held e2(2,3) c2(5) e2(4) wait e(1)] by metis
  let ?A = "fold a_sent ds (a_get_unsent (a_enqueue i a (a_hold a B)))"
  obtain w' where w': "dw_write env inp data handle ts flt w = Some (RETCODE_OK, w')" "dw_container w' = c5" "dw_enabled w'"
      "dw_sequence_number w' = dw_sequence_number (next_sequence_number w)"
    using w c1(1,6) inp(1,3) m c3(1,2,3) e(2)
    by (auto simp: dw_write_def get_header_def send_or_suspend_def Let_def next_sequence_number_def)
  have cfg: "wc_config c5 = wc_config (dw_container w)"
    using c3(6) wc_config_stable [OF c2(8)] wc_config_stable [OF c1(5)] by simp
  have q: "ac_samples ?A i = keep_last (wc_depth (dw_container w)) (ac_samples A i @ [a])"
      "j \<noteq> i \<Longrightarrow> ac_samples ?A j = ac_samples A j" "ac_waiting ?A j = []" for j
    using c1(2) room_samples [OF ok'(3,6)] wait by (simp_all add: a_get_unsent_def a_enqueue_def a_hold_def)
  have "int (length (ac_samples ?A j)) \<le> wc_depth (dw_container w)" for j
    using q(1) q(2) [of j] ok'(6) keep_last_length [OF ok'(3)] by (cases "j = i") simp_all
  then have "writer_ok w' ?A" using c3(4,5) w'(2) cfg ok'(3,4) q(3) by (simp add: writer_ok_def wc_config_def)
  moreover obtain e5 where "wc_heap c5 a = Some e5" "el_header e5 = el_header e2" by (rule data_viewE [OF c3(7) e2(2)]) (use unlinked_fields in blast)
  then have "sample_written i a w A w' ?A" using q(1,2) w'(2,4) hd2 by (auto simp: sample_written_def)
  ultimately show ?thesis using w'(1,2,3) cfg by blast
qed

section \<open>Runs of writes\<close>

text \<open>
  Any number of writes to registered instances, each into a fresh element; the run lists the instance, the element
  and the return code of each.
\<close>

inductive writes :: "writer_env \<Rightarrow> DataWriterImpl \<Rightarrow> (nat \<times> nat \<times> ReturnCode_t) list \<Rightarrow> DataWriterImpl \<Rightarrow> bool" for env w where
  writes_none: "writes env w [] w"
| writes_one: "writes env w xs w' \<Longrightarrow> get_handle_instance handle (dw_container w') = Some i \<Longrightarrow>
    wi_element inp = Some a \<Longrightarrow> wc_heap (dw_container w') a = None \<Longrightarrow> wi_message inp = Some d \<Longrightarrow>
    dw_write env inp data handle ts flt w' = Some (ret, w'') \<Longrightarrow> writes env w (xs @ [(i, a, ret)]) w''"

definition written_to :: "nat \<Rightarrow> (nat \<times> nat \<times> ReturnCode_t) list \<Rightarrow> nat list" where
  "written_to i xs = map (\<lambda>(_, a, _). a) (filter (\<lambda>(j, _, _). j = i) xs)"

lemma keep_last_snoc: "0 < depth \<Longrightarrow> keep_last depth (keep_last depth xs @ [a]) = keep_last depth (xs @ [a])"
  by (cases "length xs < nat depth") (simp_all add: keep_last_def Suc_diff_le)

lemma keep_last_short: "int (length xs) \<le> depth \<Longrightarrow> keep_last depth xs = xs"
  by (simp add: keep_last_def)

text \<open>
  (C2) Any number of writes of a writer that does not block, to any of its instances, all succeed; each instance
  then holds the last \<open>depth_\<close> samples written to it, oldest first, every write took one sequence number, and
  the container is well formed, whatever samples the transport reports as delivered while it is sending.
\<close>

theorem writes_keep_last:
  assumes "writes env w xs w'" and ok: "writer_ok w A" "dw_enabled w" "env_ok env" and nb: "\<not> wc_should_block (dw_container w)"
  shows "\<exists>A'. writer_ok w' A' \<and> dw_enabled w' \<and> wc_config (dw_container w') = wc_config (dw_container w)
    \<and> (\<forall>i. ac_samples A' i = keep_last (wc_depth (dw_container w)) (ac_samples A i @ written_to i xs))
    \<and> (\<forall>(_, _, ret)\<in>set xs. ret = RETCODE_OK)
    \<and> dw_sequence_number w' = dw_sequence_number ((next_sequence_number ^^ length xs) w)"
  using assms(1)
proof induction
  case writes_none
  then show ?case
    using ok writer_okD [OF ok(1)] by (intro exI [of _ A]) (simp add: written_to_def keep_last_short)
next
  case (writes_one xs w' handle i inp a d data ts flt ret w'')
  then obtain A' where A': "writer_ok w' A'" "dw_enabled w'" "wc_config (dw_container w') = wc_config (dw_container w)"
      "\<And>i. ac_samples A' i = keep_last (wc_depth (dw_container w)) (ac_samples A i @ written_to i xs)"
      "\<forall>(_, _, ret)\<in>set xs. ret = RETCODE_OK" "dw_sequence_number w' = dw_sequence_number ((next_sequence_number ^^ length xs) w)"
    by blast
  have cfg: "wc_depth (dw_container w') = wc_depth (dw_container w)" "\<not> wc_should_block (dw_container w')"
    using A'(3) nb by (simp_all add: wc_config_def)
  obtain w3 A'' where w3: "dw_write env inp data handle ts flt w' = Some (RETCODE_OK, w3)" "writer_ok w3 A''" "sample_written i a w' A' w3 A''"
      "wc_config (dw_container w3) = wc_config (dw_container w')" "dw_enabled w3"
    using write_refines [OF A'(1,2) ok(3) writes_one.hyps(2-5), of data ts flt] cfg(2) by blast
  have r: "ret = RETCODE_OK" "w'' = w3" using writes_one.hyps(6) w3(1) by simp_all
  note wr = w3(3) [unfolded sample_written_def cfg]
  have "ac_samples A'' j = keep_last (wc_depth (dw_container w)) (ac_samples A j @ written_to j (xs @ [(i, a, ret)]))" for j
    using wr A'(4) keep_last_snoc [of "wc_depth (dw_container w)" "ac_samples A i @ written_to i xs" a] writer_okD(3) [OF ok(1)]
    by (cases "j = i") (simp_all add: written_to_def)
  moreover have "dw_sequence_number (next_sequence_number w') = dw_sequence_number ((next_sequence_number ^^ Suc (length xs)) w)"
    using A'(6) by (simp add: next_sequence_number_def)
  ultimately show ?case
    using w3(2,4,5) A'(3,5) r wr by (intro exI [of _ A'']) (auto simp del: funpow.simps)
qed

end
