(* ===== verification/Container_Example.thy ===== *)
theory Container_Example
  imports Container_Flaws Container_Run Writer_Refinement
begin

text \<open>
  A small container, built by the operations themselves: one instance, with elements at the addresses 1, 2 and so on
  and their messages at 11, 12 and so on.
\<close>

definition example_publication :: GUID_t where
  "example_publication = GUID_UNKNOWN"

definition example_new :: "int \<Rightarrow> bool \<Rightarrow> WriteDataContainer" where
  "example_new depth blocking =
     mk_WriteDataContainer Map.empty Map.empty Map.empty example_publication depth blocking
       (Duration_t 5 0) None 0 0"

definition example_register :: "WriteDataContainer \<Rightarrow> WriteDataContainer option" where
  "example_register c = map_option (\<lambda>(_, _, _, c). c) (wc_register_instance 0 (Some 100) (Some 0) 1 c)"

definition example_message :: "nat \<Rightarrow> WriteDataContainer \<Rightarrow> WriteDataContainer option" where
  "example_message a c =
     do {
       c \<leftarrow> set_message a (mk_DataSampleHeader True) (Some (a + 10, empty_block (a + 10) 0)) c;
       heap \<leftarrow> update_element a (set_filter_out None) (wc_heap c);
       Some (c\<lparr>wc_heap := heap\<rparr>)
     }"

definition example_send :: "nat \<Rightarrow> WriteDataContainer \<Rightarrow> WriteDataContainer option" where
  "example_send a c =
     do {
       (_, _, c) \<leftarrow> obtain_buffer (\<lambda>_. Some) True 1000000000 0 [] (Some a) 1 c;
       c \<leftarrow> example_message a c;
       (_, c) \<leftarrow> wc_enqueue a 1 False 0 c;
       (_, c) \<leftarrow> get_unsent_data c;
       Some c
     }"

definition example_sending :: "int \<Rightarrow> bool \<Rightarrow> nat list \<Rightarrow> WriteDataContainer option" where
  "example_sending depth blocking as =
     do {
       c \<leftarrow> example_register (example_new depth blocking);
       fold (\<lambda>a c. Option.bind c (example_send a)) as (Some c)
     }"

definition example_config :: "int \<Rightarrow> bool \<Rightarrow> (int \<times> nat) list \<times> int \<times> int \<times> int \<times> bool \<times> GUID_t" where
  "example_config depth blocking = ([(1, 0)], depth, 0, 0, blocking, example_publication)"

text \<open>The samples \<open>as\<close> are written, one after the other, and are being sent.\<close>

definition a_sending :: "nat list \<Rightarrow> acontainer" where
  "a_sending as = \<lparr>ac_list = (\<lambda>_. [])(Sending := as), ac_holder = as, ac_queue = (\<lambda>_. [])((0, Samples) := as)\<rparr>"

lemma a_sending_empty: "a_sending [] = ac_empty"
  by (auto simp: a_sending_def ac_empty_def fun_eq_iff)

lemma a_sending_snoc: "a_get_unsent (a_enqueue 0 a (a_hold a (a_sending as))) = a_sending (as @ [a])"
  by (auto simp: a_sending_def a_get_unsent_def a_enqueue_def a_hold_def fun_eq_iff)

lemma example_registered:
  obtains c where "example_register (example_new depth blocking) = Some c" "container_ok c (a_sending [])" "registry_ok c"
    "wc_config c = example_config depth blocking" "wc_heap c = Map.empty"
proof -
  let ?c = "example_new depth blocking"
  have "container_ok ?c ac_empty" "registry_ok ?c" by (simp_all only: example_new_def container_ok_new registry_ok_new)
  then obtain c where c: "wc_register_instance 0 (Some 100) (Some 0) 1 ?c = Some (RETCODE_OK, 1, Some 100, c)"
      "container_ok c ac_empty" "registry_ok c"
    using wc_register_instance_ok [of ?c ac_empty 0 1 100] by (auto simp: example_new_def mk_WriteDataContainer_def)
  moreover have "wc_config c = example_config depth blocking" "wc_heap c = Map.empty"
    using c(1) by (auto simp: wc_register_instance_def example_new_def mk_WriteDataContainer_def example_config_def wc_config_def map_insert_def Let_def
        on_watchdog_def put_instance_def split: if_splits Option.bind_splits)
  ultimately show thesis by (intro that [of c]) (simp_all add: example_register_def a_sending_empty)
qed

lemma example_sent:
  assumes ok: "container_ok c (a_sending as)" "registry_ok c" and cfg: "wc_config c = example_config depth blocking"
    and a: "wc_heap c a = None" "int (length as) < depth"
  obtains c' where "example_send a c = Some c'" "container_ok c' (a_sending (as @ [a]))" "registry_ok c'"
    "wc_config c' = example_config depth blocking"
proof -
  have i: "get_handle_instance 1 c = Some 0" and d: "wc_depth c = depth" "wc_max_num_samples c \<le> 0"
    using cfg by (simp_all add: wc_config_def example_config_def get_handle_instance_def)
  have len: "int (length (ac_samples (a_sending as) 0)) < depth" "ac_waiting (a_sending as) 0 = []"
    using a(2) by (simp_all add: a_sending_def)
  have room: "a_room depth 0 (a_sending as) = a_sending as" "a_oldest_free depth 0 (a_sending as)"
    using len by (simp_all add: a_room_def a_oldest_free_def)
  obtain c1 where c1: "obtain_buffer (\<lambda>_. Some) True 1000000000 0 [] (Some a) 1 c = Some (RETCODE_OK, Some a, c1)"
      "container_ok c1 (a_hold a (a_sending as))" "registry_ok c1" "obtained c1 (a_hold a (a_sending as)) 0 a" "wc_stable c1 = wc_stable c"
    using obtain_buffer_refines [OF ok i a(1), of "\<lambda>_. Some" True 1000000000 0 "[]"] d room len by (auto simp: transport_removes_def)
  obtain e where e: "wc_heap c1 a = Some e" "el_handle e = Some 0" and held: "a \<in> set (ac_holder (a_hold a (a_sending as)))"
      "unlisted (a_hold a (a_sending as)) a"
    using c1(4) by (auto simp: obtained_def)
  have unq: "unqueued (a_hold a (a_sending as)) a" using held_unqueued [OF container_okD(2) [OF c1(2)] held] .
  obtain c2 e2 where c2: "example_message a c1 = Some c2"
      "container_ok c2 (a_hold a (a_sending as))" "registry_ok c2" "wc_heap c2 a = Some e2" "el_handle e2 = el_handle e"
      "el_sample e2 = Some (a + 10)" "wc_blocks c2 (a + 10) \<noteq> None" "wc_stable c2 = wc_stable c1"
    using message_set [OF c1(2,3) e(1) unq, of "mk_DataSampleHeader True" "a + 10" "empty_block (a + 10) 0" None]
    unfolding example_message_def [symmetric] by blast
  have i2: "get_handle_instance 1 c2 = Some 0"
    using i stable_registry(2) [OF c2(8)] stable_registry(2) [OF c1(5)] by (simp add: get_handle_instance_def)
  have h2: "el_handle e2 = Some 0" using c2(5) e(2) by simp
  obtain c3 where c3: "wc_enqueue a 1 False 0 c2 = Some (RETCODE_OK, c3)" "container_ok c3 (a_enqueue 0 a (a_hold a (a_sending as)))"
      "registry_ok c3" "wc_config c3 = wc_config c2"
    using wc_enqueue_refines [OF c2(2,3) i2 held c2(4) h2 c2(6,7)] by blast
  have "ac_list (a_enqueue 0 a (a_hold a (a_sending as))) Unsent \<noteq> []" by (simp add: a_enqueue_def)
  then obtain c4 where c4: "get_unsent_data c3 = Some (unsent_data c3, c4)"
      "container_ok c4 (a_get_unsent (a_enqueue 0 a (a_hold a (a_sending as))))" "wc_stable c4 = wc_stable c3"
    using get_unsent_data_refines [OF c3(2)] by blast
  have "example_send a c = Some c4" using c1(1) c2(1) c3(1) c4(1) by (simp add: example_send_def)
  moreover have "wc_config c4 = example_config depth blocking"
    using wc_config_stable [OF c4(3)] c3(4) wc_config_stable [OF c2(8)] wc_config_stable [OF c1(5)] cfg by simp
  moreover have "registry_ok c4" using registry_cong [OF c3(3)] stable_registry [OF c4(3)] by simp
  ultimately show thesis using that c4(2) by (simp add: a_sending_snoc)
qed

text \<open>One sample of a blocking writer that keeps one, and two samples of a writer that keeps two, all being sent.\<close>

definition example_one :: WriteDataContainer where
  "example_one = the (example_sending 1 True [1])"

definition example_two :: WriteDataContainer where
  "example_two = the (example_sending 2 False [1, 2])"

lemma example_one_ok:
  "container_ok example_one (a_sending [1])" "registry_ok example_one" "wc_config example_one = example_config 1 True"
proof -
  obtain c where c: "example_register (example_new 1 True) = Some c" "container_ok c (a_sending [])" "registry_ok c"
      "wc_config c = example_config 1 True" "wc_heap c = Map.empty"
    by (rule example_registered)
  obtain c1 where "example_send 1 c = Some c1" "container_ok c1 (a_sending [1])" "registry_ok c1" "wc_config c1 = example_config 1 True"
    using example_sent [OF c(2,3,4), of 1] c(5) by auto
  moreover from this have "example_one = c1" using c(1) by (simp add: example_one_def example_sending_def)
  ultimately show "container_ok example_one (a_sending [1])" "registry_ok example_one" "wc_config example_one = example_config 1 True"
    by simp_all
qed

lemma example_two_ok:
  "container_ok example_two (a_sending [1, 2])" "registry_ok example_two" "wc_config example_two = example_config 2 False"
proof -
  obtain c where c: "example_register (example_new 2 False) = Some c" "container_ok c (a_sending [])" "registry_ok c"
      "wc_config c = example_config 2 False" "wc_heap c = Map.empty"
    by (rule example_registered)
  obtain c1 where c1: "example_send 1 c = Some c1" "container_ok c1 (a_sending [1])" "registry_ok c1" "wc_config c1 = example_config 2 False"
    using example_sent [OF c(2,3,4), of 1] c(5) by auto
  have "\<not> (case example_sending 2 False [1] of None \<Rightarrow> True | Some c \<Rightarrow> (case wc_heap c 2 of None \<Rightarrow> False | Some _ \<Rightarrow> True))"
    by code_simp
  then have "wc_heap c1 2 = None" using c(1) c1(1) by (simp add: example_sending_def split: option.splits)
  then obtain c2 where c2: "example_send 2 c1 = Some c2" "container_ok c2 (a_sending [1, 2])" "registry_ok c2"
      "wc_config c2 = example_config 2 False"
    using example_sent [OF c1(2,3,4), of 2] by auto
  then have "example_two = c2" using c(1) c1(1) by (simp add: example_two_def example_sending_def)
  then show "container_ok example_two (a_sending [1, 2])" "registry_ok example_two" "wc_config example_two = example_config 2 False"
    using c2 by simp_all
qed

section \<open>Witnesses\<close>

lemmas example_defs = wc_config_def example_config_def get_handle_instance_def a_sending_def

text \<open>The sample is delivered, a second one evicted while it is being sent, reported as dropped, and freed.\<close>

theorem container_simulates_witness:
  "\<exists>c' A'. a_run (map_of (wc_instances example_two)) [Deliver 0 1, Remove_oldest 0, Remove_oldest 0, Drop 2] (a_sending [1, 2]) = Some A'
     \<and> container_run [Deliver 0 1, Remove_oldest 0, Remove_oldest 0, Drop 2] example_two = Some (replicate 4 RETCODE_OK, c')
     \<and> container_ok c' A' \<and> ac_holder A' = []"
proof -
  let ?xs = "[Deliver 0 1, Remove_oldest 0, Remove_oldest 0, Drop 2]"
  obtain A' where A': "a_run (map_of (wc_instances example_two)) ?xs (a_sending [1, 2]) = Some A'" "ac_holder A' = []"
    by (simp add: a_sending_def a_delivered_def a_remove_def a_dropped_def a_state_def a_simps Let_def)
  then show ?thesis using container_simulates [OF example_two_ok(1,2) A'(1)] by (auto simp: numeral_eq_Suc)
qed


lemma example_one_config:
  "get_handle_instance 1 example_one = Some 0" "wc_should_block example_one" "wc_max_num_samples example_one \<le> 0"
  "int (length (ac_samples (a_sending [1]) 0)) = wc_depth example_one" "ac_samples (a_sending [1]) 0 = [1]"
  "1 \<in> set (ac_list (a_sending [1]) Sending)"
  using example_one_ok(3) by (simp_all add: example_defs)

lemma example_one_fields:
  "wc_heap example_one 2 = None" "\<not> wc_shutdown example_one" "wc_max_blocking_time example_one = Duration_t 5 0"
proof -
  have "case wc_heap example_one 2 of None \<Rightarrow> True | Some _ \<Rightarrow> False" by code_simp
  then show "wc_heap example_one 2 = None" by (simp split: option.splits)
  show "\<not> wc_shutdown example_one" "wc_max_blocking_time example_one = Duration_t 5 0" by code_simp+
qed

text \<open>The sample being sent is delivered while the writer waits; the writer still waits until it times out.\<close>

definition example_wakes :: "wake list" where
  "example_wakes = [\<lparr>wk_now = 0, wk_ops = [Other_delivered 1], wk_result = Signaled\<rparr>,
     \<lparr>wk_now = 4000000, wk_ops = [], wk_result = Timed_out\<rparr>]"

theorem blocked_writer_not_woken_witness:
  "\<exists>el c'. obtain_buffer (\<lambda>_. Some) True 1000000000 0 example_wakes (Some 2) 1 example_one = Some (RETCODE_TIMEOUT, el, c')
     \<and> \<not> (RETCODE_TIMEOUT = RETCODE_OK \<and> \<not> wc_shutdown c')"
proof -
  have "map_option fst (obtain_buffer (\<lambda>_. Some) True 1000000000 0 example_wakes (Some 2) 1 example_one) = Some RETCODE_TIMEOUT"
    by code_simp
  then obtain el c' where r: "obtain_buffer (\<lambda>_. Some) True 1000000000 0 example_wakes (Some 2) 1 example_one = Some (RETCODE_TIMEOUT, el, c')"
    by auto
  have "\<forall>w\<in>set example_wakes. wk_now w < duration_to_absolute_time_value 1000000000 (wc_max_blocking_time example_one) 0"
    by code_simp
  then show ?thesis
    using r blocked_writer_not_woken [OF example_one_ok(1,2) example_one_config(1) example_one_fields(1)
        example_one_config(2-6) _ r] by blast
qed

theorem late_writer_left_waiting_witness:
  "\<exists>c' p. obtain_buffer (\<lambda>_. Some) True 1000000000 0
      [\<lparr>wk_now = 0, wk_ops = [], wk_result = Signaled\<rparr>, \<lparr>wk_now = 6000000, wk_ops = [], wk_result = Timed_out\<rparr>] (Some 2) 1 example_one
      = Some (RETCODE_OK, Some 2, c')
    \<and> wc_pool c' 0 = Some p \<and> sl_tail (pi_waiting_list p) = Some 2"
proof (rule late_writer_left_waiting [OF example_one_ok(1,2) example_one_config(1) example_one_fields(1) example_one_config(2,3)
      example_one_fields(2) example_one_config(4-6) refl])
  have "(0::int) < duration_to_absolute_time_value 1000000000 (Duration_t 5 0) 0
      \<and> \<not> 6000000 < duration_to_absolute_time_value 1000000000 (Duration_t 5 0) 0"
    by code_simp
  then show "0 < duration_to_absolute_time_value 1000000000 (wc_max_blocking_time example_one) 0"
    "\<not> wk_now \<lparr>wk_now = 6000000, wk_ops = [], wk_result = Timed_out\<rparr>
       < duration_to_absolute_time_value 1000000000 (wc_max_blocking_time example_one) 0"
    using example_one_fields(3) by simp_all
qed

text \<open>Both samples are sent, and the filter of the late reader rejects the second.\<close>

definition example_sent_two :: WriteDataContainer where
  "example_sent_two = the (deliver_all [1, 2] example_two)"

definition example_filter :: "DataSampleElement \<Rightarrow> bool" where
  "example_filter e = (el_sample e = Some 12)"

lemma example_sent_two_ok: "container_ok example_sent_two (fold a_sent [1, 2] (a_sending [1, 2]))"
  using deliver_all_refines [OF example_two_ok(1), of "[1, 2]"] by (auto simp: a_sending_def example_sent_two_def)

theorem resend_runs_into_sent_witness:
  "\<exists>c'. reenqueue_all GUID_UNKNOWN (Duration_t DURATION_INFINITE_SEC DURATION_INFINITE_NSEC) 0 (Some example_filter)
        [(Some 3, replicate 5 GUID_UNKNOWN)] example_sent_two = Some (RETCODE_OK, c')
    \<and> resend_data c' = \<lparr>sl_head = Some 3, sl_tail = Some 3, sl_size = 1\<rparr>
    \<and> get_next_send_sample 3 (wc_heap c') = Some (Some 2)"
proof -
  let ?skip = "skip_resend (Duration_t DURATION_INFINITE_SEC DURATION_INFINITE_NSEC) 0 (Some example_filter)"
  have "case wc_heap example_sent_two 1 of None \<Rightarrow> False
      | Some e \<Rightarrow> \<not> ?skip e \<and> (case copy_for_reader GUID_UNKNOWN (replicate 5 GUID_UNKNOWN) e of None \<Rightarrow> False | Some _ \<Rightarrow> True)"
    by code_simp
  then obtain e e' where e: "wc_heap example_sent_two 1 = Some e" "\<not> ?skip e"
      "copy_for_reader GUID_UNKNOWN (replicate 5 GUID_UNKNOWN) e = Some e'"
    by (auto split: option.splits)
  have "case wc_heap example_sent_two 2 of None \<Rightarrow> True | Some e \<Rightarrow> ?skip e" by code_simp
  then have two: "?skip e" if "z \<in> set [2]" "wc_heap example_sent_two z = Some e" for z e using that by simp
  have "case wc_heap example_sent_two 3 of None \<Rightarrow> True | Some _ \<Rightarrow> False" by code_simp
  then have three: "wc_heap example_sent_two 3 = None" by (simp split: option.splits)
  show ?thesis
    by (rule resend_runs_into_sent [OF example_sent_two_ok _ _ _ e _ three, where ys = "[]" and y = 2])
       (use two in \<open>simp_all add: a_sent_def a_simps a_sending_def\<close>)
qed

end
