(* ===== verification/Writer_Configuration.thy ===== *)
theory Writer_Configuration
  imports Writer_Refinement
begin

text \<open>
  How a writer is configured: enabling it gives a well-formed container with the depth and the limits of its QoS,
  and three things that go wrong: the limit on all samples is lost in an overflow, the QoS of a writer that is not
  enabled cannot be changed safely, and a lost liveliness is not shown in the status changes.
\<close>

section \<open>Enabling\<close>

lemma depth_positive:
  assumes "valid_HistoryQosPolicy h" "valid_ResourceLimitsQosPolicy l" "long_range (hi_depth h)" "long_range (lim_max_samples_per_instance l)"
  shows "0 < get_instance_sample_list_depth (hi_kind h) (hi_depth h) (lim_max_samples_per_instance l)"
  using assms(1,2) to_corba_long_id [OF assms(3)] to_corba_long_id [OF assms(4)]
  by (auto simp: get_instance_sample_list_depth_def Let_def valid_HistoryQosPolicy_def valid_ResourceLimitsQosPolicy_def)

text \<open>The container of an enabled writer is a new one with the watchdog and the identifier set.\<close>

lemma enabled_container:
  assumes "dw_enable env heap pool blocks timers w = (RETCODE_OK, w')" "\<not> dw_enabled w"
  obtains watchdog where "dw_enabled w'" "dw_publication_id w' \<noteq> GUID_UNKNOWN"
    "dw_container w' = (case writer_limits (dw_qos w) of (depth, should_block, max_instances, max_total_samples) \<Rightarrow>
       mk_WriteDataContainer heap pool blocks (dw_publication_id w') depth should_block
         (rl_max_blocking_time (wq_reliability (dw_qos w))) watchdog max_instances max_total_samples)"
proof (rule that [of "wc_watchdog (dw_container w')"])
  show "dw_enabled w'" "dw_publication_id w' \<noteq> GUID_UNKNOWN"
    "dw_container w' = (case writer_limits (dw_qos w) of (depth, should_block, max_instances, max_total_samples) \<Rightarrow>
       mk_WriteDataContainer heap pool blocks (dw_publication_id w') depth should_block
         (rl_max_blocking_time (wq_reliability (dw_qos w))) (wc_watchdog (dw_container w')) max_instances max_total_samples)"
    using assms
    by (auto simp: dw_enable_def set_watchdog_def mk_WriteDataContainer_def dw_call_def Let_def split: if_splits prod.splits)
qed


section \<open>The limit on all samples\<close>

lemma Long_mult_unlimited:
  assumes "0 \<le> m" "m < 2 ^ 31" "even m"
  shows "Long_mult m 0x7fffffff = - m"
proof -
  obtain k where k: "m = 2 * k" using assms(3) by blast
  have "m * 0x7fffffff = - m + k * 2 ^ 32" using k by simp
  then have "(word_of_int (m * 0x7fffffff) :: ulong) = word_of_int (- m) + word_of_int k * word_of_int (2 ^ 32)"
    by (simp only: of_int_add of_int_mult)
  moreover have "(word_of_int (2 ^ 32) :: ulong) = 0" by (simp add: word_of_int_eq_iff)
  ultimately have "Long_mult m 0x7fffffff = to_Long (- m)" by (simp only: Long_mult_def to_Long_def mult_zero_right add_0_right)
  also have "\<dots> = to_corba_long (- m)" by (simp only: to_Long_def to_corba_long_def)
  also have "\<dots> = - m" using assms(1,2) by (intro to_corba_long_id) (simp add: long_range_def)
  finally show ?thesis .
qed


section \<open>Changing the QoS\<close>

text \<open>
  A change of the deadline of a writer that has one and is not enabled follows the null pointer to the
  watchdog that enabling would have created.
\<close>

theorem set_qos_before_enable:
  assumes "valid_DataWriterQos qos" "consistent_DataWriterQos qos" "\<not> eq_DataWriterQos (dw_qos w) qos" "we_update_qos env qos"
    and "\<not> dw_enabled w" "wc_watchdog (dw_container w) = None"
    and "\<not> is_infinite_duration (dl_period (wq_deadline (dw_qos w)))" "dl_period (wq_deadline (dw_qos w)) \<noteq> dl_period (wq_deadline qos)"
  shows "dw_set_qos env timers qos w = None"
  using assms by (cases "dl_period (wq_deadline (dw_qos w))"; cases "dl_period (wq_deadline qos)")
    (simp add: dw_set_qos_def change_deadline_def)

section \<open>Liveliness\<close>

lemma control_header_status: "control_header env m data ts w = (h, w') \<Longrightarrow> dw_status_changes w' = dw_status_changes w"
  by (auto simp: control_header_def next_sequence_number_def Let_def split: if_splits)

lemma send_liveliness_status:
  assumes "send_liveliness env now msg w = Some (ok, w')"
  shows "dw_status_changes w' = dw_status_changes w"
proof -
  obtain h w1 where h: "control_header env DATAWRITER_LIVELINESS None (time_value_to_time (we_truncate_long env) now) w = (h, w1)"
    by fastforce
  have "dw_status_changes w' = dw_status_changes w1"
    using assms h
    by (auto simp: send_liveliness_def send_control_message_def create_control_message_def dw_send_control_def expect_sequence_def
        dw_call_def Let_def split: option.splits Option.bind_splits if_splits)
  then show ?thesis using control_header_status [OF h] by simp
qed

text \<open>
  The status changes of a writer do not show that its liveliness was lost, and nobody who waits for the status
  is woken.
\<close>

lemma liveliness_lost_not_flagged:
  assumes "dw_handle_timeout env tv msg w = Some (r, w')"
  shows "dw_status_changes w' = dw_status_changes w"
  using assms
  by (auto simp: dw_handle_timeout_def liveliness_timeout_sent_def dw_call_def Let_def split: Option.bind_splits option.splits if_splits
      dest!: send_liveliness_status)

end
