(* ===== verification/Writer_Example.thy ===== *)
theory Writer_Example
  imports Container_Example Writer_Configuration Header_Roundtrip
begin

text \<open>
  A writer of the example container in an environment without listeners, whose transport takes every message and
  delivers nothing, with the encoding of identifiers of the common data representation.
\<close>

definition dw_env :: writer_env where
  "dw_env =
     \<lparr>we_native = True, we_swap_bytes = False, we_cdr_encapsulation = False, we_max_time = 1000000000,
      we_truncate_long = (\<lambda>x. x), we_guid_ops = cdr_guid_ops, we_publisher_id = GUID_UNKNOWN,
      we_publisher_qos = initial_PublisherQos, we_suspended = False, we_total_length = (\<lambda>_. 8), we_content_filter = False,
      we_get_handle = (\<lambda>_. 7), we_has_listener = (\<lambda>s. s = PUBLICATION_MATCHED_STATUS), we_filter_eval = (\<lambda>_. 0),
      we_filter_out = (\<lambda>_ _ _. False), we_associate = (\<lambda>_. True), we_timers = True, we_send = (\<lambda>_ c. Some c),
      we_send_control = (\<lambda>_. SEND_CONTROL_OK), we_remove_sample = (\<lambda>_ c. Some c), we_remove_all_msgs = Some,
      we_publisher_enabled = True, we_scale_liveliness = (\<lambda>t. t), we_enable_transport = True,
      we_add_publication = GUID_UNKNOWN, we_writer_enabled = RETCODE_OK, we_update_qos = (\<lambda>_. True)\<rparr>"

lemma dw_env_ok: "env_ok dw_env"
proof -
  have "transport_sends (we_send dw_env)"
    unfolding transport_sends_def
  proof (intro allI impI)
    fix l c xs
    show "\<exists>ds. set ds \<subseteq> set xs \<and> distinct ds \<and> we_send dw_env l c = deliver_all ds c"
      by (intro exI [of _ "[]"]) (simp add: dw_env_def)
  qed
  then show ?thesis using cdr.guid_marshal_axioms by (auto simp: env_ok_def dw_env_def transport_removes_def)
qed

section \<open>Writing\<close>

definition dw_example :: DataWriterImpl where
  "dw_example =
     (mk_DataWriterImpl (the (example_register (example_new 2 False))) initial_DataWriterQos False)\<lparr>dw_enabled := True\<rparr>"

definition example_input :: "nat \<Rightarrow> write_input" where
  "example_input a = \<lparr>wi_element = Some a, wi_message = Some (a + 10), wi_obtain_time = 0, wi_enqueue_time = 0,
     wi_activity_time = 0, wi_wakes = [], wi_listener = False\<rparr>"

definition example_write :: "nat \<Rightarrow> DataWriterImpl \<Rightarrow> (ReturnCode_t \<times> DataWriterImpl) option" where
  "example_write a w = dw_write dw_env (example_input a) 100 1 \<lparr>time_sec = 0, time_nanosec = 0\<rparr> None w"

primrec example_written :: "nat \<Rightarrow> DataWriterImpl" where
  "example_written 0 = dw_example"
| "example_written (Suc n) = snd (the (example_write (Suc n) (example_written n)))"

lemma dw_example_ok:
  "writer_ok dw_example ac_empty" "\<not> wc_should_block (dw_container dw_example)" "wc_depth (dw_container dw_example) = 2"
proof -
  obtain c where c: "example_register (example_new 2 False) = Some c" "container_ok c (a_sending [])" "registry_ok c"
      "wc_config c = example_config 2 False"
    by (rule example_registered)
  then show "writer_ok dw_example ac_empty" "\<not> wc_should_block (dw_container dw_example)"
      "wc_depth (dw_container dw_example) = 2"
    by (simp_all add: writer_ok_def dw_example_def mk_DataWriterImpl_def a_sending_empty [symmetric] example_defs)
qed

text \<open>Each of three writes finds its element unused and the instance, and returns.\<close>

definition example_write_goes :: "nat \<Rightarrow> bool" where
  "example_write_goes n \<longleftrightarrow>
     get_handle_instance 1 (dw_container (example_written n)) = Some 0
     \<and> (case wc_heap (dw_container (example_written n)) (Suc n) of None \<Rightarrow> True | Some _ \<Rightarrow> False)
     \<and> map_option fst (example_write (Suc n) (example_written n)) = Some RETCODE_OK"

lemma example_writes_step:
  assumes "writes dw_env dw_example xs (example_written n)" "example_write_goes n"
  shows "writes dw_env dw_example (xs @ [(0, Suc n, RETCODE_OK)]) (example_written (Suc n))"
proof -
  obtain w' where w': "example_write (Suc n) (example_written n) = Some (RETCODE_OK, w')"
    using assms(2) by (auto simp: example_write_goes_def)
  then have w: "example_written (Suc n) = w'" by simp
  have "wi_element (example_input (Suc n)) = Some (Suc n)" "wi_message (example_input (Suc n)) = Some (Suc n + 10)"
    by (simp_all add: example_input_def)
  moreover have "wc_heap (dw_container (example_written n)) (Suc n) = None" "get_handle_instance 1 (dw_container (example_written n)) = Some 0"
    using assms(2) by (simp_all add: example_write_goes_def split: option.splits)
  ultimately show ?thesis unfolding w using writes_one [OF assms(1)] w' by (simp add: example_write_def)
qed

lemma example_writes:
  "writes dw_env dw_example [(0, 1, RETCODE_OK), (0, 2, RETCODE_OK), (0, 3, RETCODE_OK)] (example_written 3)"
proof -
  have g: "example_write_goes 0" "example_write_goes 1" "example_write_goes 2" by code_simp+
  have "writes dw_env dw_example [] (example_written 0)" using writes_none by simp
  from example_writes_step [OF this g(1)] example_writes_step [of "[(0, 1, RETCODE_OK)]" 1, OF _ g(2)]
    example_writes_step [of "[(0, 1, RETCODE_OK), (0, 2, RETCODE_OK)]" 2, OF _ g(3)]
  show ?thesis by (simp add: numeral_2_eq_2 numeral_3_eq_3)
qed

text \<open>A writer that keeps the last two samples of each instance has the second and the third of three.\<close>

theorem writes_keep_last_witness:
  "\<exists>A'. writer_ok (example_written 3) A' \<and> ac_samples A' 0 = [2, 3]"
proof -
  from writes_keep_last [OF example_writes dw_example_ok(1) _ dw_env_ok dw_example_ok(2)]
  obtain A' where "writer_ok (example_written 3) A'"
      "ac_samples A' 0 = keep_last 2 (ac_samples ac_empty 0 @ written_to 0 [(0, 1, RETCODE_OK), (0, 2, RETCODE_OK), (0, 3, RETCODE_OK)])"
    using dw_example_ok(3) by (auto simp: dw_example_def)
  then show ?thesis by (auto simp: keep_last_def written_to_def ac_empty_def)
qed

section \<open>Readers\<close>

definition dw_example_reader :: ReaderAssociation where
  "dw_example_reader = \<lparr>ra_reader_id = GUID_UNKNOWN, ra_reader_qos = initial_DataReaderQos, ra_filter_expression = [], ra_expr_params = []\<rparr>"

definition example_added :: DataWriterImpl where
  "example_added = the (dw_add_association dw_env GUID_UNKNOWN dw_example_reader True [] 0 None
     (mk_DataWriterImpl (example_new 2 False) initial_DataWriterQos False))"

definition example_matched :: DataWriterImpl where
  "example_matched = the (association_complete dw_env GUID_UNKNOWN [] 0 None example_added)"

lemma example_matched_run:
  "reader_run dw_env GUID_UNKNOWN (mk_DataWriterImpl (example_new 2 False) initial_DataWriterQos False) example_matched"
proof -
  let ?w = "mk_DataWriterImpl (example_new 2 False) initial_DataWriterQos False"
  have "map_option (\<lambda>_. ()) (dw_add_association dw_env GUID_UNKNOWN dw_example_reader True [] 0 None ?w) = Some ()" by code_simp
  then have a: "reader_op_step dw_env GUID_UNKNOWN (Add_reader dw_example_reader True [] 0 None) ?w = Some example_added"
    by (auto simp: example_added_def)
  have "map_option (\<lambda>_. ()) (association_complete dw_env GUID_UNKNOWN [] 0 None example_added) = Some ()" by code_simp
  then have c: "reader_op_step dw_env GUID_UNKNOWN (Complete_reader GUID_UNKNOWN [] 0 None) example_added = Some example_matched"
    by (auto simp: example_matched_def)
  have "op_allowed (Add_reader dw_example_reader True [] 0 None) ?w" by (simp add: mk_DataWriterImpl_def)
  then show ?thesis using reader_run_step [OF reader_run_step [OF reader_run_start _ a] _ c] by simp
qed

theorem matched_readers_counted_witness:
  "dw_readers example_matched = [GUID_UNKNOWN] \<and> pm_current_count (dw_match_status example_matched) = 1
   \<and> (\<exists>w'. dw_remove_associations dw_env [GUID_UNKNOWN] False example_matched = Some w' \<and> dw_readers w' = []
        \<and> pm_current_count (dw_match_status w') = 0)"
proof -
  have "dw_readers example_matched = [GUID_UNKNOWN]" by code_simp
  then show ?thesis using matched_readers_counted [OF example_matched_run, of "[GUID_UNKNOWN]" False] by auto
qed

text \<open>The listener for matched publications hears of the match but not of its end.\<close>

theorem removal_listener_not_called_witness:
  "\<exists>w'. dw_remove_associations dw_env [GUID_UNKNOWN] False example_matched = Some w'
     \<and> length (matched_calls example_matched) = 1 \<and> matched_calls w' = matched_calls example_matched"
proof -
  have n: "\<not> we_has_listener dw_env DDS_SUBSCRIPTION_MATCHED_STATUS" "length (matched_calls example_matched) = 1" by code_simp+
  have "map_option (\<lambda>_. ()) (dw_remove_associations dw_env [GUID_UNKNOWN] False example_matched) = Some ()" by code_simp
  then obtain w' where "dw_remove_associations dw_env [GUID_UNKNOWN] False example_matched = Some w'" by auto
  then show ?thesis using removal_listener_not_called [OF n(1)] n(2) by auto
qed

section \<open>Acknowledgements\<close>

definition example_token :: AckToken where
  "example_token = \<lparr>at_tstamp = 0, at_max_wait = Duration_t 5 0, at_sequence = SequenceNumber 0 3, at_custom = []\<rparr>"

text \<open>The reader acknowledges the second number, which is not enough, and then the third.\<close>

definition example_acks :: "(ack_event list \<times> bool) list" where
  "example_acks = [([Ack_arrives GUID_UNKNOWN (SequenceNumber 0 2)], False), ([Ack_arrives GUID_UNKNOWN (SequenceNumber 0 3)], False)]"

theorem acks_awaited_witness:
  "\<exists>w' s. wait_for_ack_responses dw_env example_acks example_token example_matched = Some (RETCODE_OK, w')
     \<and> SequenceNumber 0 3 \<le> s \<and> Ack_arrives GUID_UNKNOWN s \<in> set (concat (map fst example_acks))"
proof -
  have "map_option (\<lambda>(r, w). (r, dw_readers w)) (wait_for_ack_responses dw_env example_acks example_token example_matched)
      = Some (RETCODE_OK, [GUID_UNKNOWN])" by code_simp
  then obtain w' where w': "wait_for_ack_responses dw_env example_acks example_token example_matched = Some (RETCODE_OK, w')"
      "GUID_UNKNOWN \<in> set (dw_readers w')"
    by auto
  have e: "default_sn < at_expected example_token GUID_UNKNOWN" "at_expected example_token GUID_UNKNOWN = SequenceNumber 0 3"
      "map_of (dw_id_to_sequence example_matched) GUID_UNKNOWN = None"
    by code_simp+
  show ?thesis using acks_awaited [OF w' e(1)] w'(1) e(2,3) by auto
qed

text \<open>The same reader, when the first number was used for it.\<close>

definition example_first :: DataWriterImpl where
  "example_first = expect_sequence [] (next_sequence_number example_matched)"

theorem first_number_needs_no_ack_witness:
  "dw_readers example_first = [GUID_UNKNOWN] \<and> dw_id_to_sequence example_first = []
   \<and> (\<exists>w'. wait_for_acknowledgments dw_env (\<lambda>_. Some 200) None 0 [] (Duration_t 5 0) example_first = Some (RETCODE_OK, w'))"
proof -
  have f: "dw_sequence_number example_first = default_sn" "dw_readers example_first = [GUID_UNKNOWN]"
      "list_all (\<lambda>(g, i). ri_expected_sequence i = default_sn) (dw_reader_info example_first)" "dw_id_to_sequence example_first = []"
    by code_simp+
  have "we_send_control dw_env = (\<lambda>_. SEND_CONTROL_OK)" "guid_marshal (we_guid_ops dw_env) cdr_guid"
    using cdr.guid_marshal_axioms by (simp_all add: dw_env_def)
  from first_number_needs_no_ack [OF f(1) _ f(3,4) _ this] f(2,4) show ?thesis by simp
qed

section \<open>Configuration\<close>

definition example_enabled :: DataWriterImpl where
  "example_enabled = snd (dw_enable (dw_env\<lparr>we_add_publication := GUID_t (guidPrefix GUID_UNKNOWN) (EntityId_t 0 0 1 2)\<rparr>)
     Map.empty Map.empty Map.empty [] (mk_DataWriterImpl (example_new 2 False) initial_DataWriterQos False))"


text \<open>A limit of a hundred samples for ten instances is not kept.\<close>

definition example_limited_qos :: DataWriterQos where
  "example_limited_qos = initial_DataWriterQos
     \<lparr>wq_reliability := (wq_reliability initial_DataWriterQos)\<lparr>rl_kind := RELIABLE_RELIABILITY_QOS\<rparr>,
      wq_history := (wq_history initial_DataWriterQos)\<lparr>hi_kind := KEEP_ALL_HISTORY_QOS\<rparr>,
      wq_resource_limits := \<lparr>lim_max_samples = 100, lim_max_instances = 10, lim_max_samples_per_instance = - 1\<rparr>\<rparr>"


definition example_deadline_qos :: "int \<Rightarrow> DataWriterQos" where
  "example_deadline_qos n = initial_DataWriterQos\<lparr>wq_deadline := \<lparr>dl_period = Duration_t n 0\<rparr>\<rparr>"

theorem set_qos_before_enable_witness:
  "dw_set_qos dw_env [] (example_deadline_qos 2) (mk_DataWriterImpl (example_new 2 False) (example_deadline_qos 1) False) = None"
  by (rule set_qos_before_enable) code_simp+

end
