(* ===== verification/Spec2Isabelle.thy ===== *)
theory Spec2Isabelle
  imports Sequence_Bitmap Qos_Compat Reader_Ownership Header_Roundtrip Reassembly_Flaws Reassembly_Gaps
    Writer_Example
begin

text \<open>
  A verification development for the core of OpenDDS, an implementation of the OMG Data Distribution Service:
  writers publish samples of a topic, readers receive them, and quality-of-service policies govern which
  writers and readers are matched and what a reader accepts.

  \<^bold>\<open>The parts and how they interact.\<close> Every sample carries a \<open>SequenceNumber\<close> and a \<open>DataSampleHeader\<close>, which the
  \<open>Serializer\<close> writes into a chain of message blocks. A large sample travels in fragments, which
  \<open>TransportReassembly\<close> puts together. A reader (\<open>DataReaderImpl\<close>) keeps a \<open>WriterInfo\<close> for every writer it was
  associated with after the policies of both sides were found compatible, follows whether the writers are
  alive, and decides sample by sample whether the writer owns the instance (\<open>OwnershipManager\<close>) and
  whether the time filter lets the sample pass; an \<open>InstanceState\<close> keeps what applications see of an instance.
  A writer (\<open>DataWriterImpl\<close>) keeps its samples in a \<open>WriteDataContainer\<close>, whose lists of samples that are unsent, being sent,
  sent or released are linked through the \<open>DataSampleElement\<close>s themselves, hands them to the transport, and is called back
  when they were delivered or dropped.
  The sets of sequence numbers that were received or acknowledged are \<open>DisjointSequence\<close>s, which also travel as
  bitmaps.

  \<^bold>\<open>Conventions.\<close> Classes are records, one function per operation with the source's name where HOL leaves it
  free, methods take the object last and return it updated. Calls that leave the modelled part (listeners,
  reactor timers, the transport, discovery) are effects in a log, and what they return is an argument.
  32-bit numbers are words where they can wrap around; \<open>SequenceNumber::Value\<close> and times, which are only
  compared and moved by small amounts, are integers. Exceptions are the left values of a sum, and a null
  pointer that is dereferenced is the result \<open>None\<close>. Locks, reference counts and log messages are left out: each
  operation runs under the lock of its object, and the theorems are about sequences of operations. Every loop
  is a function by recursion; the loops that may not end, that of \<open>insert_bitmap\<close> and those that follow links in the heap,
  are partial functions whose value \<open>None\<close> stands for running forever or for following a null pointer. No definition takes
  fuel. A wait on a condition variable is one step of a script, which says when the thread wakes up, why, and what
  the other threads did meanwhile; the theorems hold for every script.

  \<^bold>\<open>Theories.\<close>
  \<^descr> \<open>DDS_Prelude\<close>, \<open>Std_Map\<close>: machine types, collections of simplification rules, \<open>std::map\<close>.
  \<^descr> \<open>Sequence_Number\<close> (\<open>src/dds/DCPS/Definitions.h\<close>): the two halves of a number, its order and successor; the
    collection \<open>sn_simps\<close> reads them as integers.
  \<^descr> \<open>Disjoint_Sequence\<close>, \<open>Sequence_Bitmap\<close> (\<open>DisjointSequence.{h,inl,cpp}\<close>): insertion refines the union of sets of
    numbers and keeps the ranges maximal, the missing ranges are the complement, the bitmaps carry exactly the
    members or the gaps; \<open>insert_bitmap\<close>, which reads them back, loses numbers and may not end.
  \<^descr> \<open>Qos_Policies\<close>, \<open>Initial_Qos\<close>, \<open>Qos_Helper\<close>, \<open>Time_Value\<close> (\<open>Qos_Helper.inl\<close>, \<open>Service_Participant.cpp\<close>): the policies, their
    comparison operators, defaults, validity, consistency and changeability, and times.
  \<^descr> \<open>Qos_Compat\<close> (\<open>DCPS_Utils.cpp\<close>): when a writer and a reader match, and which policies a mismatch is blamed on.
  \<^descr> \<open>Guid\<close> (\<open>GuidUtils.h\<close>): the order of identifiers.
  \<^descr> \<open>Instance_State\<close> (\<open>InstanceState.{h,inl,cpp}\<close>), \<open>Ownership_Manager\<close> (\<open>OwnershipManager.{h,cpp}\<close>): the life of an instance as
    a run of events with its invariant; the owner is the strongest of the contending writers, and every
    reader's copy of the instance is told.
  \<^descr> \<open>Sample_Header\<close>, \<open>Writer_Info\<close> (\<open>DataSampleHeader.h\<close>, \<open>WriterInfo.{h,cpp}\<close>): what a reader keeps of a writer; which
    acknowledgement requests are answered.
  \<^descr> \<open>Data_Reader\<close>, \<open>Reader_Association\<close>, \<open>Reader_Ownership\<close> (\<open>DataReaderImpl.cpp\<close>): leases and liveliness status, adding and
    removing writers, the ownership and time filters. \<open>reader_inv\<close>, \<open>match_inv\<close> and \<open>ownership_inv\<close> tie the
    statuses, the tables and the ownership manager together, and every operation keeps them.
  \<^descr> \<open>Serializer_Core\<close>, \<open>Serializer_Stream\<close>, \<open>Serializer_Ops\<close> (\<open>Serializer.{h,inl,cpp}\<close>): octets in chains of blocks with
    byte order and alignment; reading and writing refine a stream of octets, so that values and strings
    travel unchanged however the chains are divided.
  \<^descr> \<open>Header_Marshal\<close>, \<open>Header_Roundtrip\<close> (\<open>DataSampleHeader.{h,inl,cpp}\<close>): a header travels unchanged, and \<open>partial\<close> knows
    exactly when it is complete. The operators for \<open>GUID_t\<close> are generated from the IDL; the locale \<open>guid_marshal\<close>
    states what the CDR encoding promises, and its interpretation \<open>cdr\<close> builds them on the serializer.
  \<^descr> \<open>Transport_Reassembly\<close>, \<open>Reassembly_Order\<close>, \<open>Reassembly_Gaps\<close>, \<open>Reassembly_Flaws\<close> (\<open>transport/framework/TransportReassembly.{h,cpp}\<close>): the
    list of ranges refines the set of fragments received, so that a message is delivered whole in whatever
    order its fragments come; \<open>get_gaps\<close> names exactly the missing ones; a duplicate or a lost
    fragment can keep a message in the table forever.

  \<^descr> \<open>Sample_Element\<close>, \<open>Sample_Lists\<close> (\<open>DataSampleElement.{h,inl}\<close>, \<open>SendStateDataSampleList\<close>, \<open>WriterDataSampleList\<close>,
    \<open>InstanceDataSampleList\<close>): the elements as a heap and the three kinds of lists linked through them. \<open>Intrusive_Lists\<close>
    states the contract of such a list as a locale, interprets it for the three kinds, and shows that each is a queue.
  \<^descr> \<open>Offered_Deadline\<close> (\<open>OfferedDeadlineWatchdog.cpp\<close>), \<open>Write_Container\<close> (\<open>WriteDataContainer.{h,cpp}\<close>): the container with
    all its operations, and the watchdog for deadlines. \<open>Container_Spec\<close> defines the abstract container, lists of samples
    without links, and when a container represents it; \<open>Container_Refinement\<close>, \<open>Container_Instances\<close>, \<open>Container_Obtain\<close>
    and \<open>Container_Run\<close> show that the operations simulate the abstract ones; \<open>Container_Data\<close> that they change nothing of an
    element but its links. \<open>Container_Flaws\<close>: a blocked writer is not woken, a late one is left in the waiting list, and
    the samples for a late reader can run on into the sent ones.
  \<^descr> \<open>Data_Writer\<close>, \<open>Writer_Association\<close> (\<open>DataWriterImpl.{h,cpp}\<close>, \<open>MessageTracker.cpp\<close>): the writer. \<open>Writer_Refinement\<close>: runs of writes
    keep the last samples of every instance and number them; \<open>Writer_Matching\<close>: the books of readers, the match
    status and acknowledgements; \<open>Writer_Configuration\<close>: enabling, and limits lost in an overflow.
  \<^descr> \<open>Container_Example\<close>, \<open>Writer_Example\<close>: containers and writers built by the operations themselves, on which the theorems
    about them are applied.

  \<^bold>\<open>Not modelled.\<close> The typed readers and writers, the marshaling of user types and the RTPS messages are
  generated from the IDL and not in the repository. The entities, the transports, both discovery mechanisms and the
  information repository are threads, sockets and CORBA calls around the modelled parts; content filters
  rest on a vendored parser and generated metadata; the XML handler for policies is generated. Of the data writer the
  built-in topics, the durability cache and the monitor are left out.
\<close>

end
